(* ===== verification/Prelude.thy ===== *)
theory Prelude
  imports
    Main
    "HOL-Library.AList"
    "HOL-Library.Char_ord"
    "HOL-Library.List_Lexorder"
    "HOL-Library.Sublist"
    "HOL-Library.Multiset"
begin

section \<open>Shared vocabulary: Go strings, maps, integers and dynamic values\<close>

text \<open>
  What every component of the gateway shares.  Go strings are byte strings, so they are
  lists of \<open>char\<close>.  A Go map is an association list: the order of the list stands for
  the (unspecified) order in which \<open>range\<close> visits the map, so a lemma for all lists is
  a lemma for every iteration order; the reading of a map is \<open>map_of\<close>, a store is
  \<open>AList.update\<close>, \<open>delete\<close> is \<open>AList.delete\<close>.  The dynamic values of
  \<open>interface{}\<close> are the datatype \<open>json\<close>.  Fixed width integers are \<open>int\<close>
  with the wrap-around written out (\<open>i64\<close>) or words.
\<close>

named_theorems go_map_simps \<open>reading a Go map after a store, a delete or a whole loop of stores\<close>
named_theorems scan_simps \<open>evaluation of the string scanners on concrete shapes\<close>

subsection \<open>Maps\<close>

type_synonym ('k, 'v) gomap = "('k \<times> 'v) list"

abbreviation go_put :: "'k \<Rightarrow> 'v \<Rightarrow> ('k, 'v) gomap \<Rightarrow> ('k, 'v) gomap" where
  "go_put k v m \<equiv> AList.update k v m"

abbreviation go_del :: "'k \<Rightarrow> ('k, 'v) gomap \<Rightarrow> ('k, 'v) gomap" where
  "go_del k m \<equiv> AList.delete k m"

text \<open>A Go map has one entry per key.\<close>

definition wf_map :: "('k, 'v) gomap \<Rightarrow> bool" where
  "wf_map m \<longleftrightarrow> distinct (map fst m)"

text \<open>\<open>for k, v := range src { dst[k] = v }\<close>\<close>

fun put_all :: "('k, 'v) gomap \<Rightarrow> ('k, 'v) gomap \<Rightarrow> ('k, 'v) gomap" where
  "put_all [] dst = dst"
| "put_all ((k, v) # src) dst = put_all src (go_put k v dst)"

text \<open>Reading through a map that may be \<open>nil\<close>: a nil map has no entry and length 0.\<close>

definition entries :: "('k, 'v) gomap option \<Rightarrow> ('k, 'v) gomap" where
  "entries m = (case m of None \<Rightarrow> [] | Some kvs \<Rightarrow> kvs)"

lemma entries_simps [simp]: "entries None = []" "entries (Some kvs) = kvs"
  by (simp_all add: entries_def)

lemma wf_map_Nil [simp]: "wf_map []"
  by (simp add: wf_map_def)

lemma wf_map_Cons [simp]: "wf_map ((k, v) # m) \<longleftrightarrow> k \<notin> fst ` set m \<and> wf_map m"
  by (simp add: wf_map_def)

lemma map_of_put [go_map_simps]: "map_of (go_put k v m) = (map_of m)(k \<mapsto> v)"
  by (rule update_conv')

lemma map_of_del [go_map_simps]: "map_of (go_del k m) = (map_of m)(k := None)"
  by (rule delete_conv')

lemma wf_map_put [intro]: "wf_map m \<Longrightarrow> wf_map (go_put k v m)"
  by (simp add: wf_map_def distinct_update)

lemma wf_map_del [intro]: "wf_map m \<Longrightarrow> wf_map (go_del k m)"
  by (simp add: wf_map_def distinct_delete)

lemma wf_map_put_all: "wf_map dst \<Longrightarrow> wf_map (put_all src dst)"
  by (induction src dst rule: put_all.induct) auto

lemma map_of_put_all_lookup:
  "map_of (put_all src dst) k = (case map_of (rev src) k of None \<Rightarrow> map_of dst k | Some v \<Rightarrow> Some v)"
  by (induction src dst rule: put_all.induct)
    (auto simp: go_map_simps map_add_Some_iff map_add_def split: option.splits)

lemma map_of_rev_wf: "wf_map m \<Longrightarrow> map_of (rev m) = map_of m"
proof (induction m)
  case (Cons a m)
  then show ?case
    by (cases a) (auto simp: map_add_def fun_eq_iff dom_map_of_conv_image_fst[symmetric]
        split: option.splits)
qed simp

lemma map_of_put_all [go_map_simps]:
  "wf_map src \<Longrightarrow> map_of (put_all src dst) = map_of dst ++ map_of src"
  by (rule ext) (auto simp: map_of_put_all_lookup map_of_rev_wf map_add_def split: option.splits)

lemma map_of_perm:
  assumes "wf_map xs" and "mset xs = mset ys"
  shows "map_of xs = map_of ys"
proof -
  have "set xs = set ys"
    using assms(2) by (rule mset_eq_setD)
  moreover have "mset (map fst xs) = mset (map fst ys)"
    using assms(2) by (simp add: mset_map)
  then have "distinct (map fst ys)"
    using assms(1) unfolding wf_map_def by (metis mset_eq_imp_distinct_iff)
  ultimately show ?thesis
    using assms(1) by (simp add: wf_map_def map_of_inject_set)
qed

subsection \<open>Run-time panics\<close>

text \<open>
  A Go call that may panic returns \<open>Ret\<close> or \<open>Panic\<close> with the cause; \<open>run_bind\<close> is
  sequencing, which a panic cuts short.
\<close>

datatype 'a run = Ret 'a | Panic string

fun run_bind :: "'a run \<Rightarrow> ('a \<Rightarrow> 'b run) \<Rightarrow> 'b run" where
  "run_bind (Ret x) f = f x"
| "run_bind (Panic e) f = Panic e"

lemma run_bind_Ret_iff: "run_bind m f = Ret y \<longleftrightarrow> (\<exists>x. m = Ret x \<and> f x = Ret y)"
  by (cases m) auto

lemma run_bind_cong [fundef_cong]:
  "m = m' \<Longrightarrow> (\<And>x. m' = Ret x \<Longrightarrow> f x = f' x) \<Longrightarrow> run_bind m f = run_bind m' f'"
  by (cases m') auto

subsection \<open>Dynamic values\<close>

text \<open>
  The values the code puts behind \<open>interface{}\<close>: \<open>nil\<close>, booleans, the
  \<open>json.Number\<close> of the decoders (its literal), strings, \<open>int\<close>, \<open>float64\<close> (its bits, only
  formatted, never computed with), slices, \<open>map[string]interface{}\<close>, the
  \<open>map[interface{}]interface{}\<close> of YAML decoders, and any other Go value by name.
\<close>

datatype json =
    JNull
  | JBool bool
  | JNum string
  | JStr string
  | JInt int
  | JFloat nat
  | JArr "json list"
  | JObj "(string \<times> json) list"
  | JMapI "(json \<times> json) list"
  | JOther string

type_synonym fields = "(string, json) gomap"

text \<open>The type assertions \<open>v.(T)\<close> in their comma-ok form.\<close>

fun as_obj :: "json \<Rightarrow> fields option" where
  "as_obj (JObj m) = Some m"
| "as_obj _ = None"

fun as_str :: "json \<Rightarrow> string option" where
  "as_str (JStr s) = Some s"
| "as_str _ = None"

fun as_bool :: "json \<Rightarrow> bool option" where
  "as_bool (JBool b) = Some b"
| "as_bool _ = None"

fun as_arr :: "json \<Rightarrow> json list option" where
  "as_arr (JArr vs) = Some vs"
| "as_arr _ = None"

text \<open>\<open>m[k].(T)\<close>: a missing key reads as \<open>nil\<close>, which no assertion accepts.\<close>

definition get_as :: "(json \<Rightarrow> 'a option) \<Rightarrow> fields \<Rightarrow> string \<Rightarrow> 'a option" where
  "get_as f m k = Option.bind (map_of m k) f"

lemma as_obj_Some [simp]: "as_obj v = Some m \<longleftrightarrow> v = JObj m"
  by (cases v) auto

lemma as_str_Some [simp]: "as_str v = Some s \<longleftrightarrow> v = JStr s"
  by (cases v) auto

lemma as_bool_Some [simp]: "as_bool v = Some b \<longleftrightarrow> v = JBool b"
  by (cases v) auto

lemma as_arr_Some [simp]: "as_arr v = Some vs \<longleftrightarrow> v = JArr vs"
  by (cases v) auto

text \<open>Objects have distinct keys at every level.\<close>

fun wf_json :: "json \<Rightarrow> bool" where
  "wf_json (JArr vs) = (\<forall>v \<in> set vs. wf_json v)"
| "wf_json (JObj m) = (distinct (map fst m) \<and> (\<forall>kv \<in> set m. wf_json (snd kv)))"
| "wf_json _ = True"

abbreviation wf_fields :: "fields \<Rightarrow> bool" where
  "wf_fields m \<equiv> wf_json (JObj m)"

lemma wf_fields_Cons: "wf_fields ((k, v) # m) \<longleftrightarrow> k \<notin> fst ` set m \<and> wf_json v \<and> wf_fields m"
  by auto

lemma wf_fields_map: "wf_fields m \<Longrightarrow> wf_map m"
  by (simp add: wf_map_def)

lemma wf_fields_lookup: "wf_fields m \<Longrightarrow> map_of m k = Some v \<Longrightarrow> wf_json v"
  by (auto dest!: map_of_SomeD)

end
