(* ===== verification/Go_Strings.thy ===== *)
theory Go_Strings
  imports Prelude
begin

section \<open>The string and integer functions of the Go standard library the code uses\<close>

text \<open>
  ASCII character classes, \<open>strings.Split\<close>, \<open>Join\<close>, \<open>TrimPrefix\<close>, \<open>ReplaceAll\<close>,
  \<open>ToUpper\<close>/\<open>ToLower\<close>, \<open>strconv.Atoi\<close>,
  \<open>textproto.CanonicalMIMEHeaderKey\<close>, the scanning loop of
  \<open>regexp.FindAllStringSubmatch\<close>, and 64-bit signed arithmetic.  Letters are ASCII
  letters: that is what the code compares and the only bytes the case functions change here.
\<close>

subsection \<open>Characters\<close>

definition is_digit :: "char \<Rightarrow> bool" where
  "is_digit c \<longleftrightarrow> CHR ''0'' \<le> c \<and> c \<le> CHR ''9''"

definition is_lower :: "char \<Rightarrow> bool" where
  "is_lower c \<longleftrightarrow> CHR ''a'' \<le> c \<and> c \<le> CHR ''z''"

definition is_upper :: "char \<Rightarrow> bool" where
  "is_upper c \<longleftrightarrow> CHR ''A'' \<le> c \<and> c \<le> CHR ''Z''"

definition is_alpha :: "char \<Rightarrow> bool" where
  "is_alpha c \<longleftrightarrow> is_lower c \<or> is_upper c"

text \<open>The class \<open>\w\<close> of the regular expressions: \<open>[0-9A-Za-z_]\<close>.\<close>

definition is_word :: "char \<Rightarrow> bool" where
  "is_word c \<longleftrightarrow> is_digit c \<or> is_alpha c \<or> c = CHR ''_''"

definition up_char :: "char \<Rightarrow> char" where
  "up_char c = (if is_lower c then char_of (of_char c - (32::nat)) else c)"

definition low_char :: "char \<Rightarrow> char" where
  "low_char c = (if is_upper c then char_of (of_char c + (32::nat)) else c)"

definition to_upper :: "string \<Rightarrow> string" where
  "to_upper = map up_char"

definition to_lower :: "string \<Rightarrow> string" where
  "to_lower = map low_char"

lemma char_le_nat: "(c::char) \<le> d \<longleftrightarrow> (of_char c :: nat) \<le> of_char d"
  by (simp add: less_eq_char_def)

lemma of_char_up: "is_lower c \<Longrightarrow> of_char (up_char c) = (of_char c :: nat) - 32"
  by (auto simp: up_char_def is_lower_def char_le_nat)

lemma of_char_low: "is_upper c \<Longrightarrow> of_char (low_char c) = (of_char c :: nat) + 32"
  by (auto simp: low_char_def is_upper_def char_le_nat)

lemma is_upper_up_char: "is_lower c \<Longrightarrow> is_upper (up_char c)"
  using of_char_up [of c] by (auto simp: is_upper_def is_lower_def char_le_nat)

lemma is_lower_low_char: "is_upper c \<Longrightarrow> is_lower (low_char c)"
  using of_char_low [of c] by (auto simp: is_upper_def is_lower_def char_le_nat)

lemma lower_not_upper: "is_lower c \<Longrightarrow> \<not> is_upper c"
  by (auto simp: is_upper_def is_lower_def char_le_nat)

lemma up_char_idem [simp]: "up_char (up_char c) = up_char c"
  using is_upper_up_char [of c] lower_not_upper [of "up_char c"] by (auto simp: up_char_def)

lemma low_char_idem [simp]: "low_char (low_char c) = low_char c"
  using is_lower_low_char [of c] lower_not_upper [of "low_char c"] by (auto simp: low_char_def)

lemma to_upper_idem [simp]: "to_upper (to_upper s) = to_upper s"
  by (simp add: to_upper_def)

lemma to_lower_idem [simp]: "to_lower (to_lower s) = to_lower s"
  by (simp add: to_lower_def)

subsection \<open>\<open>strings.Split\<close> by a one-byte separator, and \<open>strings.Join\<close>\<close>

fun split_on :: "char \<Rightarrow> string \<Rightarrow> string list" where
  "split_on c [] = [[]]"
| "split_on c (x # xs) =
     (if x = c then [] # split_on c xs
      else case split_on c xs of [] \<Rightarrow> [[x]] | p # ps \<Rightarrow> (x # p) # ps)"

fun join_with :: "string \<Rightarrow> string list \<Rightarrow> string" where
  "join_with sep [] = []"
| "join_with sep [x] = x"
| "join_with sep (x # y # ys) = x @ sep @ join_with sep (y # ys)"

lemma split_on_not_Nil [simp]: "split_on c s \<noteq> []"
  by (induction s) (auto split: list.splits)

lemma split_on_no_sep: "p \<in> set (split_on c s) \<Longrightarrow> c \<notin> set p"
  by (induction s arbitrary: p) (auto split: list.splits if_splits)

lemma join_split: "join_with [c] (split_on c s) = s"
proof (induction s)
  case (Cons x xs)
  then show ?case
    by (cases "split_on c xs"; cases "tl (split_on c xs)") (auto split: list.splits)
qed simp

lemma split_on_append_sep: "c \<notin> set p \<Longrightarrow> split_on c (p @ c # s) = p # split_on c s"
  by (induction p) auto

lemma split_on_no_occurrence: "c \<notin> set p \<Longrightarrow> split_on c p = [p]"
  by (induction p) auto

lemma split_join:
  "ps \<noteq> [] \<Longrightarrow> (\<forall>p \<in> set ps. c \<notin> set p) \<Longrightarrow> split_on c (join_with [c] ps) = ps"
  by (induction "[c]" ps rule: join_with.induct)
    (auto simp: split_on_append_sep split_on_no_occurrence)

subsection \<open>\<open>TrimPrefix\<close> and \<open>ReplaceAll\<close>\<close>

definition trim_prefix :: "string \<Rightarrow> string \<Rightarrow> string" where
  "trim_prefix p s = (if prefix p s then drop (length p) s else s)"

text \<open>
  \<open>ReplaceAll\<close> scans from the left and goes on behind each replacement.  The code never
  calls it with an empty pattern; that case is the identity here.
\<close>

function replace_all :: "string \<Rightarrow> string \<Rightarrow> string \<Rightarrow> string" where
  "replace_all old new [] = []"
| "replace_all old new (c # cs) =
     (if old = [] then c # cs
      else if prefix old (c # cs) then new @ replace_all old new (drop (length old) (c # cs))
      else c # replace_all old new cs)"
  by pat_completeness auto
termination
  by (relation "measure (\<lambda>(old, new, s). length s)") auto

lemma replace_all_hit:
  "old \<noteq> [] \<Longrightarrow> replace_all old new (old @ s) = new @ replace_all old new s"
  by (cases old) auto

lemma replace_all_no_head:
  "old \<noteq> [] \<Longrightarrow> hd old \<notin> set p \<Longrightarrow> replace_all old new (p @ s) = p @ replace_all old new s"
  by (induction p) (auto simp: prefix_Cons neq_Nil_conv)

lemma replace_all_absent:
  "old \<noteq> [] \<Longrightarrow> hd old \<notin> set s \<Longrightarrow> replace_all old new s = s"
  using replace_all_no_head [of old s new "[]"] by simp

subsection \<open>The scanning loop of \<open>FindAllStringSubmatch\<close>\<close>

text \<open>
  A pattern that cannot match the empty string is a function that, given the rest of the
  subject, returns the submatches and the number of bytes of the leftmost-first match that
  starts there.  \<open>find_all\<close> tries each position in turn and continues behind a match.
\<close>

type_synonym 'a matcher = "string \<Rightarrow> ('a \<times> nat) option"

function find_all :: "'a matcher \<Rightarrow> string \<Rightarrow> 'a list" where
  "find_all m [] = []"
| "find_all m (c # cs) =
     (case m (c # cs) of
        None \<Rightarrow> find_all m cs
      | Some (r, n) \<Rightarrow> r # find_all m (drop (n - 1) cs))"
  by pat_completeness auto
termination
  by (relation "measure (\<lambda>(m, s). length s)") auto

text \<open>A subject in which no position matches, and the step over one leading match.\<close>

lemma find_all_None: "(\<forall>n < length s. m (drop n s) = None) \<Longrightarrow> find_all m s = []"
proof (induction m s rule: find_all.induct)
  case (2 m c cs)
  have "m (c # cs) = None" using "2.prems" by force
  moreover have "\<forall>n < length cs. m (drop n cs) = None"
    using "2.prems" by (metis Suc_less_eq drop_Suc_Cons length_Cons)
  ultimately show ?case using "2.IH" by simp
qed simp

lemma find_all_match:
  "m (p @ s) = Some (r, length p) \<Longrightarrow> p \<noteq> [] \<Longrightarrow> find_all m (p @ s) = r # find_all m s"
  by (cases p) auto

lemma find_all_skip: "m (c # cs) = None \<Longrightarrow> find_all m (c # cs) = find_all m cs"
  by simp

text \<open>The greedy repetition of a character class.\<close>

definition span_class :: "(char \<Rightarrow> bool) \<Rightarrow> string \<Rightarrow> string" where
  "span_class p s = takeWhile p s"

lemma span_class_append:
  "(\<forall>c \<in> set w. p c) \<Longrightarrow> (s = [] \<or> \<not> p (hd s)) \<Longrightarrow> span_class p (w @ s) = w"
  unfolding span_class_def by (induction w) (auto simp: takeWhile_eq_Nil_iff)

lemma span_class_prefix: "s = span_class p s @ drop (length (span_class p s)) s"
  unfolding span_class_def by (metis append_eq_conv_conj takeWhile_dropWhile_id)

lemma span_class_set: "c \<in> set (span_class p s) \<Longrightarrow> p c"
  unfolding span_class_def by (rule set_takeWhileD [THEN conjunct2])

subsection \<open>Decimal integers\<close>

definition digit_val :: "char \<Rightarrow> nat" where
  "digit_val c = of_char c - of_char CHR ''0''"

definition nat_of_digits :: "string \<Rightarrow> nat" where
  "nat_of_digits ds = foldl (\<lambda>n c. 10 * n + digit_val c) 0 ds"

text \<open>\<open>strconv.Atoi\<close> on a non-empty string of digits: an error above \<open>MaxInt64\<close>.\<close>

definition atoi_digits :: "string \<Rightarrow> nat option" where
  "atoi_digits ds = (let n = nat_of_digits ds in if n < 2 ^ 63 then Some n else None)"

definition digit_char :: "nat \<Rightarrow> char" where
  "digit_char n = char_of (48 + n mod 10)"

text \<open>\<open>strconv.Itoa\<close>, \<open>%d\<close>.\<close>

fun show_nat :: "nat \<Rightarrow> string" where
  "show_nat n = (if n < 10 then [digit_char n] else show_nat (n div 10) @ [digit_char n])"

declare show_nat.simps [simp del]

definition show_int :: "int \<Rightarrow> string" where
  "show_int i = (if i < 0 then CHR ''-'' # show_nat (nat (- i)) else show_nat (nat i))"

lemma digit_val_char [simp]: "digit_val (digit_char n) = n mod 10"
proof -
  have "n mod 10 < 10" by simp
  then have "(48 + n mod 10) mod 256 = 48 + n mod 10" by (intro mod_less) linarith
  then show ?thesis by (simp add: digit_val_def digit_char_def)
qed

lemma nat_of_digits_snoc: "nat_of_digits (ds @ [c]) = 10 * nat_of_digits ds + digit_val c"
  by (simp add: nat_of_digits_def)

lemma nat_of_digits_show [simp]: "nat_of_digits (show_nat n) = n"
proof (induction n rule: show_nat.induct)
  case (1 n)
  show ?case
  proof (cases "n < 10")
    case True
    then show ?thesis by (simp add: show_nat.simps [of n] nat_of_digits_def)
  next
    case False
    then show ?thesis using 1 by (simp add: show_nat.simps [of n] nat_of_digits_snoc)
  qed
qed

subsection \<open>\<open>textproto.CanonicalMIMEHeaderKey\<close>\<close>

definition header_byte :: "char \<Rightarrow> bool" where
  "header_byte c \<longleftrightarrow> is_alpha c \<or> is_digit c \<or> c \<in> set ''!#$%&*+-.^_`|~'' \<or> c = CHR 0x27"

fun canon_from :: "bool \<Rightarrow> string \<Rightarrow> string" where
  "canon_from up [] = []"
| "canon_from up (c # cs) = (if up then up_char c else low_char c) # canon_from (c = CHR ''-'') cs"

definition CanonicalMIMEHeaderKey :: "string \<Rightarrow> string" where
  "CanonicalMIMEHeaderKey s = (if list_all header_byte s then canon_from True s else s)"

lemma dash_no_letter [simp]: "\<not> is_upper CHR ''-''" "\<not> is_lower CHR ''-''"
  by (simp_all add: is_upper_def is_lower_def)

lemma up_char_dash [simp]: "up_char c = CHR ''-'' \<longleftrightarrow> c = CHR ''-''"
proof (cases "is_lower c")
  case True
  then show ?thesis using is_upper_up_char [OF True] by auto
qed (simp add: up_char_def)

lemma low_char_dash [simp]: "low_char c = CHR ''-'' \<longleftrightarrow> c = CHR ''-''"
proof (cases "is_upper c")
  case True
  then show ?thesis using is_lower_low_char [OF True] by auto
qed (simp add: low_char_def)

lemma header_byte_up [simp]: "header_byte c \<Longrightarrow> header_byte (up_char c)"
  using is_upper_up_char [of c] by (cases "is_lower c") (auto simp: header_byte_def is_alpha_def up_char_def)

lemma header_byte_low [simp]: "header_byte c \<Longrightarrow> header_byte (low_char c)"
  using is_lower_low_char [of c] by (cases "is_upper c") (auto simp: header_byte_def is_alpha_def low_char_def)

lemma canon_from_idem: "canon_from up (canon_from up s) = canon_from up s"
  by (induction up s rule: canon_from.induct) auto

lemma list_all_canon_from: "list_all header_byte s \<Longrightarrow> list_all header_byte (canon_from up s)"
  by (induction up s rule: canon_from.induct) auto

lemma CanonicalMIMEHeaderKey_idem [simp]:
  "CanonicalMIMEHeaderKey (CanonicalMIMEHeaderKey s) = CanonicalMIMEHeaderKey s"
  by (simp add: CanonicalMIMEHeaderKey_def list_all_canon_from canon_from_idem)

subsection \<open>64-bit signed arithmetic\<close>

text \<open>The value an \<open>int64\<close> (a \<open>time.Duration\<close>) holds after an arithmetic operation.\<close>

definition i64 :: "int \<Rightarrow> int" where
  "i64 x = (x + 2 ^ 63) mod 2 ^ 64 - 2 ^ 63"

text \<open>Go division truncates towards zero.\<close>

definition go_div :: "int \<Rightarrow> int \<Rightarrow> int" where
  "go_div a b = sgn a * sgn b * (\<bar>a\<bar> div \<bar>b\<bar>)"

definition is_i64 :: "int \<Rightarrow> bool" where
  "is_i64 x \<longleftrightarrow> - (2 ^ 63) \<le> x \<and> x < 2 ^ 63"

lemma i64_range: "is_i64 (i64 x)"
proof -
  have "0 \<le> (x + 2 ^ 63) mod 2 ^ 64" and "(x + 2 ^ 63) mod 2 ^ 64 < (2 ^ 64 :: int)"
    by (rule pos_mod_sign pos_mod_bound; simp)+
  then show ?thesis by (simp add: is_i64_def i64_def)
qed

lemma i64_id [simp]: "is_i64 x \<Longrightarrow> i64 x = x"
  by (simp add: is_i64_def i64_def)

lemma is_i64_nonneg: "0 \<le> x \<Longrightarrow> x < 2 ^ 63 \<Longrightarrow> is_i64 x"
  by (simp add: is_i64_def)

text \<open>The timeout shares of the merging and concurrent middlewares: \<open>p * t / 100\<close>.\<close>

definition percent_of :: "int \<Rightarrow> int \<Rightarrow> int" where
  "percent_of p t = go_div (i64 (p * t)) 100"

lemma percent_of_exact:
  assumes "0 \<le> t" and "0 \<le> p" and "p * t < 2 ^ 63"
  shows "percent_of p t = p * t div 100"
proof -
  have nonneg: "0 \<le> p * t" using assms by simp
  then have "i64 (p * t) = p * t" using assms(3) by (intro i64_id) (simp add: is_i64_def)
  then show ?thesis using nonneg
    unfolding percent_of_def by (simp add: go_div_def sgn_if)
qed

end
