(* ===== verification/Proxy_Types.thy ===== *)
theory Proxy_Types
  imports Go_Strings
begin

section \<open>The data of the proxy package: requests, responses, errors, proxies, middlewares\<close>

text \<open>
  \<open>proxy/proxy.go\<close> and the struct of \<open>proxy/request.go\<close>.  A pointer that may be
  \<open>nil\<close> is an option, and so is a map where the code tells a nil map from an empty one.
  An \<open>io.Reader\<close> is the bytes it still yields.  A \<open>Proxy\<close> is a function from the request it is
  handed to what it returns, paired with the request as it leaves it (a proxy gets a pointer and
  may update the fields), or a panic.  A theorem about a middleware quantifies over every such
  function, so it covers backends with any state of their own.
\<close>

subsection \<open>Errors\<close>

datatype gerror =
    EText string
  | ENullResult
  | ECtx string
  | EMerge "gerror list"
  | ENoHosts
  | ENoBackends
  | ETooManyBackends
  | ETooManyProxies
  | ENotEnoughProxies
  | EInternal
  | EInvalidStatusCode
  | EInvalidStatus int string string
  | EHTTPResponse int string string
  | ENamedHTTPResponse int string string string
  | EStatus int string

text \<open>
  \<open>mergeError.Error\<close> joins the messages of its parts with a newline; the other messages are those
  of the error values' declarations.
\<close>

fun error_msg :: "gerror \<Rightarrow> string" where
  "error_msg (EText s) = s"
| "error_msg ENullResult = ''invalid response''"
| "error_msg (ECtx s) = s"
| "error_msg (EMerge es) = join_with [CHR 0x0A] (map error_msg es)"
| "error_msg ENoHosts = ''no hosts available''"
| "error_msg ENoBackends = ''all endpoints must have at least one backend''"
| "error_msg ETooManyBackends = ''too many backends for this proxy''"
| "error_msg ETooManyProxies = ''too many proxies for this proxy middleware''"
| "error_msg ENotEnoughProxies = ''not enough proxies for this endpoint''"
| "error_msg EInternal = ''internal server error''"
| "error_msg EInvalidStatusCode = ''invalid status code''"
| "error_msg (EInvalidStatus code errPrefix path) =
     ''invalid status code '' @ show_int code @ '' '' @ errPrefix @ '' '' @ path"
| "error_msg (EHTTPResponse code msg enc) = msg"
| "error_msg (EStatus code msg) = msg"
| "error_msg (ENamedHTTPResponse code msg enc name) = msg"

subsection \<open>Responses and requests\<close>

record metadata =
  Headers :: "(string, string list) gomap"
  StatusCode :: int

record response =
  Data :: "fields option"
  IsComplete :: bool
  Metadata :: metadata
  Io :: "string option"

definition empty_metadata :: metadata where
  "empty_metadata = \<lparr>Headers = [], StatusCode = 0\<rparr>"

definition new_response :: "fields option \<Rightarrow> bool \<Rightarrow> response" where
  "new_response d complete = \<lparr>Data = d, IsComplete = complete, Metadata = empty_metadata, Io = None\<rparr>"

lemma new_response_sel [simp]:
  "Data (new_response d c) = d" "IsComplete (new_response d c) = c"
  "Metadata (new_response d c) = empty_metadata" "Io (new_response d c) = None"
  by (simp_all add: new_response_def)

text \<open>The part of a \<open>*url.URL\<close> the code reads and writes: everything before the query, and \<open>RawQuery\<close>.\<close>

record url =
  uBase :: string
  uRawQuery :: string

record request =
  rMethod :: string
  rURL :: "url option"
  rQuery :: "(string, string list) gomap option"
  rPath :: string
  rBody :: "string option"
  rParams :: "(string, string) gomap option"
  rHeaders :: "(string, string list) gomap option"

subsection \<open>Proxies and middlewares\<close>

datatype pres = PRet "response option" "gerror option" request | PPanic string

type_synonym proxy = "request \<Rightarrow> pres"

fun pres_response :: "pres \<Rightarrow> response option" where
  "pres_response (PRet resp err r) = resp"
| "pres_response (PPanic e) = None"

fun pres_error :: "pres \<Rightarrow> gerror option" where
  "pres_error (PRet resp err r) = err"
| "pres_error (PPanic e) = None"

text \<open>
  What applying a middleware to the next proxies gives: a proxy, a call of \<open>logger.Fatal\<close> (which
  ends the process) followed by the nil proxy, or a panic.
\<close>

datatype build = Built proxy | FatalNil string | BuildPanic string

type_synonym middleware = "proxy list \<Rightarrow> build"

text \<open>\<open>next[0]\<close>, read when a request arrives.\<close>

definition next0 :: "proxy list \<Rightarrow> proxy" where
  "next0 next = (case next of [] \<Rightarrow> (\<lambda>_. PPanic ''index out of range'') | p # _ \<Rightarrow> p)"

text \<open>
  The frame every one-proxy middleware has: more than one proxy is fatal, otherwise the returned
  proxy wraps \<open>next[0]\<close>.
\<close>

definition wrap_single :: "string \<Rightarrow> (proxy \<Rightarrow> proxy) \<Rightarrow> middleware" where
  "wrap_single msg f next = (if length next > 1 then FatalNil msg else Built (f (next0 next)))"

text \<open>\<open>EmptyMiddlewareWithLogger\<close> reads \<open>next[0]\<close> while building.\<close>

definition EmptyMiddlewareWithLogger :: middleware where
  "EmptyMiddlewareWithLogger next =
     (if length next > 1
      then FatalNil ''too many proxies for this proxy middleware: EmptyMiddleware only accepts 1 proxy''
      else case next of [] \<Rightarrow> BuildPanic ''index out of range'' | p # _ \<Rightarrow> Built p)"

definition emptyMiddlewareFallback :: middleware where
  "emptyMiddlewareFallback next = EmptyMiddlewareWithLogger next"

definition NoopProxy :: proxy where
  "NoopProxy r = PRet None None r"

lemma next0_single [simp]: "next0 [p] = p"
  by (simp add: next0_def)

lemma wrap_single_one [simp]: "wrap_single msg f [p] = Built (f p)"
  by (simp add: wrap_single_def)

lemma emptyMiddlewareFallback_one [simp]: "emptyMiddlewareFallback [p] = Built p"
  by (simp add: emptyMiddlewareFallback_def EmptyMiddlewareWithLogger_def)

text \<open>The namespace of the package in \<open>extra_config\<close>, and reading its section.\<close>

definition proxy_Namespace :: string where
  "proxy_Namespace = ''github.com/devopsfaith/krakend/proxy''"

definition proxy_section :: "fields \<Rightarrow> fields option" where
  "proxy_section extra = get_as as_obj extra proxy_Namespace"

end
