(* ===== verification/Config_Types.thy ===== *)
theory Config_Types
  imports Proxy_Types
begin

section \<open>The configuration data (\<open>config/config.go\<close>)\<close>

text \<open>
  The structs of the package as records, one field per field of the source, with a prefix
  that tells the structs apart (\<open>sc_\<close>, \<open>ep_\<close>, \<open>be_\<close>, \<open>ag_\<close>, ...), and the
  error values of the initialisation as one datatype.  Durations are \<open>int\<close> nanoseconds;
  a \<open>float64\<close> that is only copied is its bits; a reader is the bytes it yields and the error that
  ends them (none at the end of the input); a decoder is the function from the reader and the map it
  decodes into to an error or the resulting map.
\<close>

subsection \<open>Structs\<close>

type_synonym body_reader = "string \<times> gerror option"
type_synonym decoder = "body_reader \<Rightarrow> fields option \<Rightarrow> gerror + fields option"

record Backend =
  be_Group :: string
  be_Method :: string
  be_Host :: "string list"
  be_HostSanitizationDisabled :: bool
  be_URLPattern :: string
  be_AllowList :: "string list"
  be_DenyList :: "string list"
  be_Mapping :: "(string, string) gomap"
  be_Encoding :: string
  be_IsCollection :: bool
  be_Target :: string
  be_SD :: string
  be_SDScheme :: string
  be_URLKeys :: "string list"
  be_ConcurrentCalls :: int
  be_Timeout :: int
  be_Decoder :: decoder
  be_ExtraConfig :: fields
  be_HeadersToPass :: "string list"
  be_QueryStringsToPass :: "string list"
  be_ParentEndpoint :: string
  be_ParentEndpointMethod :: string

record EndpointConfig =
  ep_Endpoint :: string
  ep_Method :: string
  ep_Backend :: "Backend list"
  ep_ConcurrentCalls :: int
  ep_Timeout :: int
  ep_CacheTTL :: int
  ep_QueryString :: "string list"
  ep_ExtraConfig :: fields
  ep_HeadersToPass :: "string list"
  ep_OutputEncoding :: string

record Consumer =
  cs_Timeout :: int
  cs_Workers :: int
  cs_Topic :: string
  cs_MaxRate :: nat

record Connection =
  cn_MaxRetries :: int
  cn_BackoffStrategy :: string
  cn_HealthInterval :: int

record AsyncAgent =
  ag_Name :: string
  ag_Connection :: Connection
  ag_Consumer :: Consumer
  ag_Encoding :: string
  ag_Backend :: "Backend list"
  ag_ExtraConfig :: fields

record PluginConfig =
  pl_Folder :: string
  pl_Pattern :: string

record TLSKeyPair =
  kp_PublicKey :: string
  kp_PrivateKey :: string

record TLS =
  tls_IsDisabled :: bool
  tls_PublicKey :: string
  tls_PrivateKey :: string
  tls_CaCerts :: "string list"
  tls_MinVersion :: string
  tls_MaxVersion :: string
  tls_CurvePreferences :: "nat list"
  tls_PreferServerCipherSuites :: bool
  tls_CipherSuites :: "nat list"
  tls_EnableMTLS :: bool
  tls_DisableSystemCaPool :: bool
  tls_Keys :: "TLSKeyPair list"

record ClientTLSCert =
  cc_Certificate :: string
  cc_PrivateKey :: string

record ClientTLS =
  ct_AllowInsecureConnections :: bool
  ct_CaCerts :: "string list"
  ct_DisableSystemCaPool :: bool
  ct_MinVersion :: string
  ct_MaxVersion :: string
  ct_CurvePreferences :: "nat list"
  ct_CipherSuites :: "nat list"
  ct_ClientCerts :: "ClientTLSCert list"

record ServiceConfig =
  sc_Name :: string
  sc_Endpoints :: "EndpointConfig list"
  sc_AsyncAgents :: "AsyncAgent list"
  sc_Timeout :: int
  sc_CacheTTL :: int
  sc_Host :: "string list"
  sc_Port :: int
  sc_Address :: string
  sc_Version :: int
  sc_OutputEncoding :: string
  sc_ExtraConfig :: fields
  sc_ReadTimeout :: int
  sc_WriteTimeout :: int
  sc_IdleTimeout :: int
  sc_ReadHeaderTimeout :: int
  sc_MaxHeaderBytes :: int
  sc_DisableKeepAlives :: bool
  sc_DisableCompression :: bool
  sc_MaxIdleConns :: int
  sc_MaxIdleConnsPerHost :: int
  sc_IdleConnTimeout :: int
  sc_ResponseHeaderTimeout :: int
  sc_ExpectContinueTimeout :: int
  sc_DialerTimeout :: int
  sc_DialerFallbackDelay :: int
  sc_DialerKeepAlive :: int
  sc_DisableStrictREST :: bool
  sc_Plugin :: "PluginConfig option"
  sc_TLS :: "TLS option"
  sc_UseH2C :: bool
  sc_Debug :: bool
  sc_Echo :: bool
  sc_uriParser :: nat
  sc_SequentialStart :: bool
  sc_AllowInsecureConnections :: bool
  sc_ClientTLS :: "ClientTLS option"
  sc_DNSCacheTTL :: int
  sc_MaxShutdownDuration :: int

subsection \<open>Zero values\<close>

text \<open>What a struct holds when the configuration names none of its fields.\<close>

definition zero_backend :: Backend where
  "zero_backend = \<lparr>be_Group = [], be_Method = [], be_Host = [], be_HostSanitizationDisabled = False,
     be_URLPattern = [], be_AllowList = [], be_DenyList = [], be_Mapping = [], be_Encoding = [],
     be_IsCollection = False, be_Target = [], be_SD = [], be_SDScheme = [], be_URLKeys = [],
     be_ConcurrentCalls = 0, be_Timeout = 0, be_Decoder = (\<lambda>r v. Inr v), be_ExtraConfig = [],
     be_HeadersToPass = [], be_QueryStringsToPass = [], be_ParentEndpoint = [],
     be_ParentEndpointMethod = []\<rparr>"

definition zero_endpoint :: EndpointConfig where
  "zero_endpoint = \<lparr>ep_Endpoint = [], ep_Method = [], ep_Backend = [], ep_ConcurrentCalls = 0,
     ep_Timeout = 0, ep_CacheTTL = 0, ep_QueryString = [], ep_ExtraConfig = [], ep_HeadersToPass = [],
     ep_OutputEncoding = []\<rparr>"

definition zero_service :: ServiceConfig where
  "zero_service = \<lparr>sc_Name = [], sc_Endpoints = [], sc_AsyncAgents = [], sc_Timeout = 0,
     sc_CacheTTL = 0, sc_Host = [], sc_Port = 0, sc_Address = [], sc_Version = 0,
     sc_OutputEncoding = [], sc_ExtraConfig = [], sc_ReadTimeout = 0, sc_WriteTimeout = 0,
     sc_IdleTimeout = 0, sc_ReadHeaderTimeout = 0, sc_MaxHeaderBytes = 0, sc_DisableKeepAlives = False,
     sc_DisableCompression = False, sc_MaxIdleConns = 0, sc_MaxIdleConnsPerHost = 0,
     sc_IdleConnTimeout = 0, sc_ResponseHeaderTimeout = 0, sc_ExpectContinueTimeout = 0,
     sc_DialerTimeout = 0, sc_DialerFallbackDelay = 0, sc_DialerKeepAlive = 0,
     sc_DisableStrictREST = False, sc_Plugin = None, sc_TLS = None, sc_UseH2C = False,
     sc_Debug = False, sc_Echo = False, sc_uriParser = 0, sc_SequentialStart = False,
     sc_AllowInsecureConnections = False, sc_ClientTLS = None, sc_DNSCacheTTL = 0,
     sc_MaxShutdownDuration = 0\<rparr>"

subsection \<open>Errors\<close>

datatype cfg_error =
    UnsupportedVersionError int int
  | InvalidAddress string
  | InvalidHost string
  | InvalidNoOpEncoding
  | EndpointMatchError string string string
  | EndpointPathError string string
  | NoBackendsError string string
  | WrongNumberOfParamsError string string nat "string list" "string list"
  | UndefinedOutputParamError string string nat "string list" "string list" string

text \<open>The \<open>%v\<close> rendering of a \<open>[]string\<close>.\<close>

definition show_strings :: "string list \<Rightarrow> string" where
  "show_strings xs = ''['' @ join_with '' '' xs @ '']''"

definition UnsupportedVersionError_Error :: "int \<Rightarrow> int \<Rightarrow> string" where
  "UnsupportedVersionError_Error have' want =
     ''unsupported version: '' @ show_int have' @ '' (want: '' @ show_int want @ '')''"

definition EndpointMatchError_Error :: "string \<Rightarrow> string \<Rightarrow> string \<Rightarrow> string" where
  "EndpointMatchError_Error path meth err =
     ''ignoring the '' @ [CHR 0x27] @ meth @ '' '' @ path @ [CHR 0x27] @
     '' endpoint due to a parsing error: '' @ err"

definition EndpointPathError_Error :: "string \<Rightarrow> string \<Rightarrow> string" where
  "EndpointPathError_Error path meth =
     ''ignoring the '' @ [CHR 0x27] @ meth @ '' '' @ path @ [CHR 0x27] @
     '' endpoint, since it is invalid!!!''"

definition NoBackendsError_Error :: "string \<Rightarrow> string \<Rightarrow> string" where
  "NoBackendsError_Error path meth =
     ''ignoring the '' @ [CHR 0x27] @ meth @ '' '' @ path @ [CHR 0x27] @
     '' endpoint, since it has 0 backends defined!''"

definition UndefinedOutputParamError_Error ::
  "string \<Rightarrow> string \<Rightarrow> nat \<Rightarrow> string list \<Rightarrow> string list \<Rightarrow> string \<Rightarrow> string" where
  "UndefinedOutputParamError_Error endpoint meth backend inp outp param =
     ''undefined output param '' @ [CHR 0x27] @ param @ [CHR 0x27] @ ''! endpoint: '' @ meth @ '' '' @
     endpoint @ '', backend: '' @ show_nat backend @ ''. input: '' @ show_strings inp @
     '', output: '' @ show_strings outp"

definition WrongNumberOfParamsError_Error ::
  "string \<Rightarrow> string \<Rightarrow> nat \<Rightarrow> string list \<Rightarrow> string list \<Rightarrow> string" where
  "WrongNumberOfParamsError_Error endpoint meth backend inp outp =
     ''input and output params do not match. endpoint: '' @ meth @ '' '' @ endpoint @
     '', backend: '' @ show_nat backend @ ''. input: '' @ show_strings inp @
     '', output: '' @ show_strings outp"

fun cfg_error_msg :: "cfg_error \<Rightarrow> string" where
  "cfg_error_msg (UnsupportedVersionError h w) = UnsupportedVersionError_Error h w"
| "cfg_error_msg (InvalidAddress a) = ''invalid ip address '' @ a"
| "cfg_error_msg (InvalidHost h) = ''host '' @ h @ '' not valid: invalid host''"
| "cfg_error_msg InvalidNoOpEncoding =
     ''can not use NoOp encoding with more than one backends connected to the same endpoint''"
| "cfg_error_msg (EndpointMatchError p m e) = EndpointMatchError_Error p m e"
| "cfg_error_msg (EndpointPathError p m) = EndpointPathError_Error p m"
| "cfg_error_msg (NoBackendsError p m) = NoBackendsError_Error p m"
| "cfg_error_msg (WrongNumberOfParamsError e m b i out) = WrongNumberOfParamsError_Error e m b i out"
| "cfg_error_msg (UndefinedOutputParamError e m b i out p) =
     UndefinedOutputParamError_Error e m b i out p"

subsection \<open>Constants\<close>

definition BracketsRouterPatternBuilder :: nat where "BracketsRouterPatternBuilder = 0"
definition ColonRouterPatternBuilder :: nat where "ColonRouterPatternBuilder = 1"
definition DefaultMaxIdleConnsPerHost :: int where "DefaultMaxIdleConnsPerHost = 250"
definition cfg_Second :: int where "cfg_Second = 1000000000"
definition DefaultTimeout :: int where "DefaultTimeout = 2 * cfg_Second"
definition ConfigVersion :: int where "ConfigVersion = 3"
definition defaultPort :: int where "defaultPort = 8080"

end
