(* ===== verification/Register.thy ===== *)
theory Register
  imports Go_Strings
begin

section \<open>Registers (\<open>register/register.go\<close>)\<close>

text \<open>
  An \<open>Untyped\<close> register is a map from names to dynamic values behind a mutex, so each
  operation is one atomic step on the map.  A \<open>Namespaced\<close> register is an \<open>Untyped\<close> register
  whose values are \<open>Untyped\<close> registers.  The interface the clients rely on (a lookup returns
  what the last store under that name put there) is the locale \<open>registry\<close>; the typed front
  ends of the other packages (decoders, subscriber factories, combiners, modifiers) are
  \<open>typed_registry\<close>.
\<close>

subsection \<open>The operations\<close>

type_synonym 'v untyped = "(string, 'v) gomap"

definition NewUntyped :: "'v untyped" where
  "NewUntyped = []"

definition Untyped_Register :: "'v untyped \<Rightarrow> string \<Rightarrow> 'v \<Rightarrow> 'v untyped" where
  "Untyped_Register u name v = go_put name v u"

definition Untyped_Get :: "'v untyped \<Rightarrow> string \<Rightarrow> 'v option" where
  "Untyped_Get u name = map_of u name"

definition Untyped_Clone :: "'v untyped \<Rightarrow> (string, 'v) gomap" where
  "Untyped_Clone u = put_all u []"

type_synonym 'v namespaced = "'v untyped untyped"

definition Namespaced_New :: "'v namespaced" where
  "Namespaced_New = NewUntyped"

definition Namespaced_Get :: "'v namespaced \<Rightarrow> string \<Rightarrow> 'v untyped option" where
  "Namespaced_Get n namespace = Untyped_Get n namespace"

definition Namespaced_Register :: "'v namespaced \<Rightarrow> string \<Rightarrow> string \<Rightarrow> 'v \<Rightarrow> 'v namespaced" where
  "Namespaced_Register n namespace name v =
     (case Namespaced_Get n namespace of
        Some register \<Rightarrow> Untyped_Register n namespace (Untyped_Register register name v)
      | None \<Rightarrow> Untyped_Register n namespace (Untyped_Register NewUntyped name v))"

definition AddNamespace :: "'v namespaced \<Rightarrow> string \<Rightarrow> 'v namespaced" where
  "AddNamespace n namespace =
     (case Namespaced_Get n namespace of
        Some _ \<Rightarrow> n
      | None \<Rightarrow> Untyped_Register n namespace NewUntyped)"

text \<open>The register of a namespace and a name together, as the clients use it.\<close>

definition lookup_in :: "'v namespaced \<Rightarrow> string \<times> string \<Rightarrow> 'v option" where
  "lookup_in n nk = Option.bind (Namespaced_Get n (fst nk)) (\<lambda>u. Untyped_Get u (snd nk))"

definition store_in :: "'v namespaced \<Rightarrow> string \<times> string \<Rightarrow> 'v \<Rightarrow> 'v namespaced" where
  "store_in n nk v = Namespaced_Register n (fst nk) (snd nk) v"

lemmas register_defs = NewUntyped_def Untyped_Register_def Untyped_Get_def Untyped_Clone_def
  Namespaced_New_def Namespaced_Get_def Namespaced_Register_def AddNamespace_def
  lookup_in_def store_in_def

subsection \<open>The interface\<close>

locale registry =
  fixes fresh :: 'r
    and lookup :: "'r \<Rightarrow> 'k \<Rightarrow> 'v option"
    and store :: "'r \<Rightarrow> 'k \<Rightarrow> 'v \<Rightarrow> 'r"
  assumes lookup_fresh: "lookup fresh k = None"
    and lookup_store: "lookup (store r k v) k' = (if k' = k then Some v else lookup r k')"
begin

fun store_list :: "'r \<Rightarrow> ('k \<times> 'v) list \<Rightarrow> 'r" where
  "store_list r [] = r"
| "store_list r ((k, v) # kvs) = store_list (store r k v) kvs"

lemma lookup_store_same: "lookup (store r k v) k = Some v"
  by (simp add: lookup_store)

lemma lookup_store_other: "k' \<noteq> k \<Longrightarrow> lookup (store r k v) k' = lookup r k'"
  by (simp add: lookup_store)

lemma last_store_wins: "lookup (store (store r k v) k w) = lookup (store r k w)"
  by (rule ext) (simp add: lookup_store)

lemma lookup_store_list:
  "lookup (store_list r kvs) k = (case map_of (rev kvs) k of None \<Rightarrow> lookup r k | Some v \<Rightarrow> Some v)"
proof (induction r kvs rule: store_list.induct)
  case (2 r k' v kvs)
  then show ?case
    by (cases "map_of (rev kvs) k") (auto simp: lookup_store map_add_def)
qed simp

lemma lookup_store_list_fresh:
  "distinct (map fst kvs) \<Longrightarrow> lookup (store_list fresh kvs) = map_of kvs"
  by (rule ext)
    (simp add: lookup_store_list lookup_fresh map_of_rev_wf [unfolded wf_map_def] split: option.split)

end

text \<open>
  A typed front end stores values of one Go type and reads them back through a type assertion,
  which fails on a value of any other type.
\<close>

locale typed_registry = registry fresh lookup store
  for fresh :: 'r
    and lookup :: "'r \<Rightarrow> 'k \<Rightarrow> 'v option"
    and store :: "'r \<Rightarrow> 'k \<Rightarrow> 'v \<Rightarrow> 'r" +
  fixes box :: "'d \<Rightarrow> 'v"
    and unbox :: "'v \<Rightarrow> 'd option"
  assumes unbox_box: "unbox (box d) = Some d"
begin

definition get_or :: "'d \<Rightarrow> 'r \<Rightarrow> 'k \<Rightarrow> 'd" where
  "get_or dflt r k = (case Option.bind (lookup r k) unbox of None \<Rightarrow> dflt | Some d \<Rightarrow> d)"

lemma get_or_registered: "get_or dflt (store r k (box d)) k = d"
  by (simp add: get_or_def lookup_store unbox_box)

lemma get_or_other: "k' \<noteq> k \<Longrightarrow> get_or dflt (store r k v) k' = get_or dflt r k'"
  by (simp add: get_or_def lookup_store)

lemma get_or_missing: "lookup r k = None \<Longrightarrow> get_or dflt r k = dflt"
  by (simp add: get_or_def)

lemma get_or_fresh: "get_or dflt fresh k = dflt"
  by (simp add: get_or_def lookup_fresh)

end

subsection \<open>The providers\<close>

interpretation untyped_reg: registry "NewUntyped :: 'v untyped" Untyped_Get Untyped_Register
  by unfold_locales (auto simp: register_defs go_map_simps)

interpretation namespaced_reg: registry "Namespaced_New :: 'v namespaced" lookup_in store_in
proof unfold_locales
  fix r :: "'v namespaced" and k k' :: "string \<times> string" and v :: 'v
  show "lookup_in (store_in r k v) k' = (if k' = k then Some v else lookup_in r k')"
    by (cases k; cases k')
      (auto simp: register_defs go_map_simps split: option.splits)
qed (simp add: register_defs)

text \<open>
  The dynamic values of a register seen from a front end: a value of the expected type, or
  of another one.
\<close>

datatype 'd dyn = Typed 'd | Alien string

fun dyn_assert :: "'d dyn \<Rightarrow> 'd option" where
  "dyn_assert (Typed d) = Some d"
| "dyn_assert (Alien s) = None"

interpretation typed_reg: typed_registry "NewUntyped :: 'd dyn untyped" Untyped_Get Untyped_Register
  Typed dyn_assert
  by unfold_locales simp

interpretation typed_ns_reg: typed_registry "Namespaced_New :: 'd dyn namespaced" lookup_in store_in
  Typed dyn_assert
  by unfold_locales simp

subsection \<open>Facts about the model's registers\<close>

lemma Clone_snapshot: "wf_map u \<Longrightarrow> map_of (Untyped_Clone u) = Untyped_Get u"
  by (simp add: register_defs fun_eq_iff go_map_simps)

lemma AddNamespace_keeps: "lookup_in (AddNamespace n ns) = lookup_in n"
  by (rule ext) (auto simp: register_defs go_map_simps split: option.splits)

lemma AddNamespace_present: "Namespaced_Get (AddNamespace n ns) ns \<noteq> None"
  by (auto simp: register_defs go_map_simps split: option.splits)

end
