(* ===== verification/Encoding.thy ===== *)
theory Encoding
  imports Config_Types Register
begin

section \<open>Response decoders and their register (\<open>encoding/\<close>)\<close>

text \<open>
  A decoder turns the reader of a body and the map it is given into an error or the resulting map.
  The value parser of \<open>encoding/json\<close> (one value read from the reader, numbers kept as literals)
  is the argument \<open>jdec\<close>: it sees the bytes and the error that ends them; what \<open>Decode\<close> does with the value for each target type is written out.
\<close>

subsection \<open>Decoders\<close>

definition JSON :: string where "JSON = ''json''"
definition NOOP :: string where "NOOP = ''no-op''"
definition SAFE_JSON :: string where "SAFE_JSON = ''safejson''"
definition STRING :: string where "STRING = ''string''"

type_synonym json_parser = "body_reader \<Rightarrow> gerror + json"
type_synonym decoder_factory = "bool \<Rightarrow> decoder"

definition NoOpDecoder :: decoder where
  "NoOpDecoder r v = Inr v"

definition noOpDecoderFactory :: decoder_factory where
  "noOpDecoderFactory c = NoOpDecoder"

text \<open>
  \<open>Decode\<close> into a map: \<open>null\<close> makes it nil, an object adds its entries, any other value is
  a type error.
\<close>

definition JSONDecoder :: "json_parser \<Rightarrow> decoder" where
  "JSONDecoder jdec r v =
     (case jdec r of
        Inl e \<Rightarrow> Inl e
      | Inr t \<Rightarrow>
          if t = JNull then Inr None
          else (case as_obj t of
             Some m \<Rightarrow> Inr (Some (put_all m (entries v)))
           | None \<Rightarrow> Inl (EText ''json: cannot unmarshal value into Go value of type map'')))"

text \<open>\<open>Decode\<close> into a slice: \<open>null\<close> leaves it nil, which is the empty array of the model.\<close>

definition JSONCollectionDecoder :: "json_parser \<Rightarrow> decoder" where
  "JSONCollectionDecoder jdec r v =
     (case jdec r of
        Inl e \<Rightarrow> Inl e
      | Inr t \<Rightarrow>
          if t = JNull then Inr (Some [(''collection'', JArr [])])
          else (case as_arr t of
             Some collection \<Rightarrow> Inr (Some [(''collection'', JArr collection)])
           | None \<Rightarrow> Inl (EText ''json: cannot unmarshal value into Go value of type slice'')))"

definition NewJSONDecoder :: "json_parser \<Rightarrow> decoder_factory" where
  "NewJSONDecoder jdec isCollection = (if isCollection then JSONCollectionDecoder jdec else JSONDecoder jdec)"

definition SafeJSONDecoder :: "json_parser \<Rightarrow> decoder" where
  "SafeJSONDecoder jdec r v =
     (case jdec r of
        Inl e \<Rightarrow> Inl e
      | Inr t \<Rightarrow>
          (case as_obj t of
             Some tt \<Rightarrow> Inr (Some tt)
           | None \<Rightarrow>
               (case as_arr t of
                  Some tt \<Rightarrow> Inr (Some [(''collection'', JArr tt)])
                | None \<Rightarrow> Inr (Some [(''content'', t)]))))"

definition NewSafeJSONDecoder :: "json_parser \<Rightarrow> decoder_factory" where
  "NewSafeJSONDecoder jdec c = SafeJSONDecoder jdec"

text \<open>\<open>io.ReadAll\<close>: all the bytes of a reader, or the error that ends them.\<close>

fun ReadAll :: "body_reader \<Rightarrow> gerror + string" where
  "ReadAll (bytes, None) = Inr bytes"
| "ReadAll (bytes, Some err) = Inl err"

definition StringDecoder :: decoder where
  "StringDecoder r v =
     (case ReadAll r of
        Inl err \<Rightarrow> Inl err
      | Inr data \<Rightarrow> Inr (Some [(''content'', JStr data)]))"

definition NewStringDecoder :: decoder_factory where
  "NewStringDecoder c = StringDecoder"

subsection \<open>The register\<close>

type_synonym decoder_register = "decoder_factory dyn untyped"

definition DecoderRegister_Register :: "decoder_register \<Rightarrow> string \<Rightarrow> decoder_factory \<Rightarrow> decoder_register" where
  "DecoderRegister_Register r name dec = Untyped_Register r name (Typed dec)"

fun first_decoder :: "decoder_register \<Rightarrow> string list \<Rightarrow> decoder_factory option" where
  "first_decoder r [] = None"
| "first_decoder r (n # ns) =
     (case Option.bind (Untyped_Get r n) dyn_assert of
        Some dec \<Rightarrow> Some dec
      | None \<Rightarrow> first_decoder r ns)"

definition DecoderRegister_Get :: "json_parser \<Rightarrow> decoder_register \<Rightarrow> string \<Rightarrow> decoder_factory" where
  "DecoderRegister_Get jdec r name =
     (case first_decoder r [name, JSON] of Some dec \<Rightarrow> dec | None \<Rightarrow> NewJSONDecoder jdec)"

definition defaultDecoders :: "json_parser \<Rightarrow> (string, decoder_factory) gomap" where
  "defaultDecoders jdec =
     [(JSON, NewJSONDecoder jdec), (SAFE_JSON, NewSafeJSONDecoder jdec),
      (STRING, NewStringDecoder), (NOOP, noOpDecoderFactory)]"

definition initDecoderRegister :: "json_parser \<Rightarrow> decoder_register" where
  "initDecoderRegister jdec =
     foldl (\<lambda>r (k, v). DecoderRegister_Register r k v) NewUntyped (defaultDecoders jdec)"

subsection \<open>Lookups\<close>

text \<open>Reading the register is two typed lookups of the interface.\<close>

lemma DecoderRegister_Get_chain:
  "DecoderRegister_Get jdec r name = typed_reg.get_or (typed_reg.get_or (NewJSONDecoder jdec) r JSON) r name"
  by (simp add: DecoderRegister_Get_def typed_reg.get_or_def split: option.split)

lemma Get_registered: "DecoderRegister_Get jdec (DecoderRegister_Register r name dec) name = dec"
  by (simp add: DecoderRegister_Get_chain DecoderRegister_Register_def typed_reg.get_or_registered)

lemma Get_unknown:
  "Untyped_Get r name = None \<Longrightarrow> DecoderRegister_Get jdec r name = DecoderRegister_Get jdec r JSON"
  by (simp add: DecoderRegister_Get_chain typed_reg.get_or_missing typed_reg.get_or_def split: option.split)

lemma Get_other:
  "n \<noteq> name \<Longrightarrow> n \<noteq> JSON \<Longrightarrow>
   DecoderRegister_Get jdec (DecoderRegister_Register r n dec) name = DecoderRegister_Get jdec r name"
  by (simp add: DecoderRegister_Get_chain DecoderRegister_Register_def typed_reg.get_or_other)

lemma encoding_names_distinct: "distinct [JSON, SAFE_JSON, STRING, NOOP]"
  by (simp add: JSON_def SAFE_JSON_def STRING_def NOOP_def)

lemma initDecoderRegister_lookup:
  "Untyped_Get (initDecoderRegister jdec) = map_option Typed \<circ> map_of (defaultDecoders jdec)"
  using encoding_names_distinct
  by (auto simp: initDecoderRegister_def defaultDecoders_def DecoderRegister_Register_def fun_eq_iff
      untyped_reg.lookup_store untyped_reg.lookup_fresh)

text \<open>
  the register as the package initialises it answers every name: the four encodings get their
  decoders, any other name the JSON one; a decoder registered later under a name is the one
  returned for it, and names other than that one and \<open>json\<close> keep theirs.
\<close>

theorem decoder_register_total:
  "DecoderRegister_Get jdec (initDecoderRegister jdec) name =
     (if name = SAFE_JSON then NewSafeJSONDecoder jdec
      else if name = STRING then NewStringDecoder
      else if name = NOOP then noOpDecoderFactory
      else NewJSONDecoder jdec) \<and>
   DecoderRegister_Get jdec (DecoderRegister_Register r n dec) n = dec \<and>
   (n \<noteq> name \<and> n \<noteq> JSON \<longrightarrow>
      DecoderRegister_Get jdec (DecoderRegister_Register r n dec) name = DecoderRegister_Get jdec r name)"
  using encoding_names_distinct Get_registered Get_other
  by (auto simp: DecoderRegister_Get_chain typed_reg.get_or_def initDecoderRegister_lookup defaultDecoders_def)

lemma decoder_register_total_witness:
  "DecoderRegister_Get (\<lambda>s. Inr JNull)
     (DecoderRegister_Register (initDecoderRegister (\<lambda>s. Inr JNull)) ''xml'' NewStringDecoder) ''no-op'' =
   DecoderRegister_Get (\<lambda>s. Inr JNull) (initDecoderRegister (\<lambda>s. Inr JNull)) ''no-op''"
  using decoder_register_total [of "\<lambda>s. Inr JNull" "''no-op''" "initDecoderRegister (\<lambda>s. Inr JNull)" "''xml''" NewStringDecoder]
  by (simp add: JSON_def)

text \<open>What the safe decoder yields: always a map, never nil, whatever the JSON value.\<close>

lemma SafeJSONDecoder_total: "jdec r = Inr t \<Longrightarrow> \<exists>m. SafeJSONDecoder jdec r v = Inr (Some m)"
  by (auto simp: SafeJSONDecoder_def split: option.split)

end
