(* ===== verification/Formatter.thy ===== *)
theory Formatter
  imports Config_Types
begin

section \<open>Response formatting (\<open>proxy/formatter.go\<close>)\<close>

text \<open>
  The allow and deny filters with the trees they are compiled to, target extraction, key
  mapping, grouping, and the flatmap formatter over the third-party flatmap tree.  The nested
  maps the code updates in place are updated functionally: \<open>buildDictPath\<close>, which
  returns a reference into the tree, takes the update of that node as an argument.
\<close>

subsection \<open>The allow list\<close>

fun AllowlistPrune :: "fields \<Rightarrow> fields \<Rightarrow> bool \<times> fields"
  and pruneEntry :: "json option \<Rightarrow> json \<Rightarrow> bool \<times> json"
where
  "AllowlistPrune wlDict [] = (True, [])"
| "AllowlistPrune wlDict ((k, v) # inDict) =
     (case pruneEntry (map_of wlDict k) v of (deleteSibling, v') \<Rightarrow>
      case AllowlistPrune wlDict inDict of (canDelete, inDict') \<Rightarrow>
        if deleteSibling then (canDelete, inDict') else (False, (k, v') # inDict'))"
| "pruneEntry None v = (True, v)"
| "pruneEntry (Some subWl) v =
     (case as_obj subWl of
        Some subWlDict \<Rightarrow>
          (case as_obj v of
             Some subInDict \<Rightarrow>
               (case AllowlistPrune subWlDict subInDict of (canDelete, d) \<Rightarrow> (canDelete, JObj d))
           | None \<Rightarrow> (True, v))
      | None \<Rightarrow> (False, v))"

text \<open>
  The first loop walks the existing nodes, the second makes the missing ones; below a fresh
  node no lookup succeeds, so both are one recursion.
\<close>

fun buildDictPath :: "fields \<Rightarrow> string list \<Rightarrow> (fields \<Rightarrow> fields) \<Rightarrow> fields" where
  "buildDictPath p [] upd = upd p"
| "buildDictPath p (f # fs) upd =
     (case get_as as_obj p f of
        Some c \<Rightarrow> go_put f (JObj (buildDictPath c fs upd)) p
      | None \<Rightarrow> go_put f (JObj (buildDictPath [] fs upd)) p)"

definition allow_insert :: "fields \<Rightarrow> string list \<Rightarrow> fields" where
  "allow_insert wlDict wlFields =
     buildDictPath wlDict (butlast wlFields) (\<lambda>d. go_put (last wlFields) (JBool True) d)"

definition allow_tree :: "string list \<Rightarrow> fields" where
  "allow_tree Allowlist = foldl (\<lambda>wlDict k. allow_insert wlDict (split_on CHR ''.'' k)) [] Allowlist"

definition set_data :: "fields option \<Rightarrow> response \<Rightarrow> response" where
  "set_data d r = r\<lparr>Data := d\<rparr>"

definition newAllowlistingFilter :: "string list \<Rightarrow> response \<Rightarrow> response run" where
  "newAllowlistingFilter Allowlist =
     (let wlDict = allow_tree Allowlist in
      (\<lambda>entity. case Data entity of
         None \<Rightarrow> Ret entity
       | Some d \<Rightarrow> (case AllowlistPrune wlDict d of (canDelete, d') \<Rightarrow>
           Ret (set_data (Some (if canDelete then [] else d')) entity))))"

subsection \<open>The deny list\<close>

fun buildDenyTree :: "string list \<Rightarrow> fields \<Rightarrow> fields" where
  "buildDenyTree [] tree = tree"
| "buildDenyTree [n] tree = go_put n JNull tree"
| "buildDenyTree (n # m # path) tree =
     (case map_of tree n of
        Some k \<Rightarrow>
          if k = JNull then tree
          else (case as_obj k of
             None \<Rightarrow> go_put n JNull tree
           | Some childTree \<Rightarrow> go_put n (JObj (buildDenyTree (m # path) childTree)) tree)
      | None \<Rightarrow> go_put n (JObj (buildDenyTree (m # path) [])) tree)"

text \<open>
  \<open>recDelete\<close> on an object; on any other value it returns at once, which is the branch
  for \<open>as_obj dv = None\<close>.  A reference node that is neither nil nor a map fails the type
  assertion of the recursive call.
\<close>

fun recDelete :: "fields \<Rightarrow> fields \<Rightarrow> fields run" where
  "recDelete [] m = Ret m"
| "recDelete ((rk, rv) # ref) m =
     (case map_of m rk of
        None \<Rightarrow> recDelete ref m
      | Some dv \<Rightarrow>
          if rv = JNull then recDelete ref (go_del rk m)
          else (case as_obj rv of
             None \<Rightarrow> Panic ''interface conversion''
           | Some sub \<Rightarrow>
               (case as_obj dv of
                  None \<Rightarrow> recDelete ref m
                | Some dm \<Rightarrow>
                    run_bind (recDelete sub dm) (\<lambda>dm'. recDelete ref (go_put rk (JObj dm') m)))))"

definition deny_tree :: "string list \<Rightarrow> fields" where
  "deny_tree blacklist = foldl (\<lambda>bl key. buildDenyTree (split_on CHR ''.'' key) bl) [] blacklist"

definition newDenylistingFilter :: "string list \<Rightarrow> response \<Rightarrow> response run" where
  "newDenylistingFilter blacklist =
     (let bl = deny_tree blacklist in
      (\<lambda>entity. case Data entity of
         None \<Rightarrow> Ret entity
       | Some d \<Rightarrow> run_bind (recDelete bl d) (\<lambda>d'. Ret (set_data (Some d') entity))))"

subsection \<open>Target, mapping, group\<close>

text \<open>The body of the loop over the parts, on \<open>entity.Data\<close>.\<close>

fun extract_parts :: "string list \<Rightarrow> fields option \<Rightarrow> fields option" where
  "extract_parts [] d = d"
| "extract_parts (part # parts) d =
     (case map_of (entries d) part of
        Some tmp \<Rightarrow> (case as_obj tmp of Some d' \<Rightarrow> extract_parts parts (Some d') | None \<Rightarrow> Some [])
      | None \<Rightarrow> Some [])"

definition extractTarget :: "string \<Rightarrow> response \<Rightarrow> response" where
  "extractTarget target entity = set_data (extract_parts (split_on CHR ''.'' target) (Data entity)) entity"

definition rename_key :: "string \<Rightarrow> string \<Rightarrow> fields \<Rightarrow> fields" where
  "rename_key formerKey newKey d =
     (case map_of d formerKey of
        Some v \<Rightarrow> go_del formerKey (go_put newKey v d)
      | None \<Rightarrow> d)"

fun apply_mapping :: "(string, string) gomap \<Rightarrow> fields \<Rightarrow> fields" where
  "apply_mapping [] d = d"
| "apply_mapping ((formerKey, newKey) # mapping) d = apply_mapping mapping (rename_key formerKey newKey d)"

text \<open>\<open>map[string]interface{}{e.Prefix: entity.Data}\<close>; a nil map inside is an empty object.\<close>

definition group_under :: "string \<Rightarrow> response \<Rightarrow> response" where
  "group_under prfx entity =
     (if prfx \<noteq> [] then set_data (Some [(prfx, JObj (entries (Data entity)))]) entity else entity)"

record entityFormatter =
  ef_Target :: string
  ef_Prefix :: string
  ef_PropertyFilter :: "response \<Rightarrow> response run"
  ef_Mapping :: "(string, string) gomap"

definition map_nonempty :: "(fields \<Rightarrow> fields) \<Rightarrow> response \<Rightarrow> response" where
  "map_nonempty f entity =
     (case Data entity of Some (kv # kvs) \<Rightarrow> set_data (Some (f (kv # kvs))) entity | _ \<Rightarrow> entity)"

definition entityFormatter_Format :: "entityFormatter \<Rightarrow> response \<Rightarrow> response run" where
  "entityFormatter_Format e entity =
     (let entity = (if ef_Target e \<noteq> [] then extractTarget (ef_Target e) entity else entity) in
      run_bind (if entries (Data entity) \<noteq> [] then ef_PropertyFilter e entity else Ret entity)
        (\<lambda>entity. Ret (group_under (ef_Prefix e) (map_nonempty (apply_mapping (ef_Mapping e)) entity))))"

subsection \<open>The flatmap formatter\<close>

text \<open>The operations of \<open>github.com/krakend/flatmap/tree\<close> the code calls.\<close>

record 't flatmap_lib =
  fmNew :: "fields option \<Rightarrow> 't option"
  fmMove :: "'t \<Rightarrow> string list \<Rightarrow> string list \<Rightarrow> 't"
  fmAppend :: "'t \<Rightarrow> string list \<Rightarrow> string list \<Rightarrow> 't"
  fmDel :: "'t \<Rightarrow> string list \<Rightarrow> 't"
  fmGet :: "'t \<Rightarrow> string list \<Rightarrow> json"

record flatmapOp =
  op_Type :: string
  op_Args :: "string list list"

record flatmapFormatter =
  ff_Target :: string
  ff_Prefix :: string
  ff_Ops :: "flatmapOp list"

fun process_op :: "'t flatmap_lib \<Rightarrow> 't \<Rightarrow> flatmapOp \<Rightarrow> 't run" where
  "process_op lib t opn =
     (if op_Type opn = ''move'' \<or> op_Type opn = ''append'' then
        (case op_Args opn of
           a # b # _ \<Rightarrow> Ret (if op_Type opn = ''move'' then fmMove lib t a b else fmAppend lib t a b)
         | _ \<Rightarrow> Panic ''index out of range'')
      else if op_Type opn = ''del'' then Ret (foldl (fmDel lib) t (op_Args opn))
      else Ret t)"

fun process_ops :: "'t flatmap_lib \<Rightarrow> 't \<Rightarrow> flatmapOp list \<Rightarrow> 't run" where
  "process_ops lib t [] = Ret t"
| "process_ops lib t (opn # ops) = run_bind (process_op lib t opn) (\<lambda>t'. process_ops lib t' ops)"

definition processOps :: "'t flatmap_lib \<Rightarrow> flatmapFormatter \<Rightarrow> response \<Rightarrow> response run" where
  "processOps lib e entity =
     (case fmNew lib (Data entity) of
        None \<Rightarrow> Ret entity
      | Some flatten \<Rightarrow> run_bind (process_ops lib flatten (ff_Ops e))
          (\<lambda>t. Ret (set_data (as_obj (fmGet lib t [])) entity)))"

definition flatmapFormatter_Format :: "'t flatmap_lib \<Rightarrow> flatmapFormatter \<Rightarrow> response \<Rightarrow> response run" where
  "flatmapFormatter_Format lib e entity =
     (let entity = (if ff_Target e \<noteq> [] then extractTarget (ff_Target e) entity else entity) in
      run_bind (processOps lib e entity) (\<lambda>entity. Ret (group_under (ff_Prefix e) entity)))"

definition flatmapKey :: string where
  "flatmapKey = ''flatmap_filter''"

definition flatmap_arg :: "json \<Rightarrow> string list" where
  "flatmap_arg arg = (case as_str arg of Some t \<Rightarrow> split_on CHR ''.'' t | None \<Rightarrow> [])"

definition flatmap_op :: "json \<Rightarrow> flatmapOp option" where
  "flatmap_op v =
     (case as_obj v of
        None \<Rightarrow> None
      | Some m \<Rightarrow>
          (case get_as as_str m ''type'' of
             None \<Rightarrow> None
           | Some t \<Rightarrow>
               Some \<lparr>op_Type = t,
                     op_Args = (case get_as as_arr m ''args'' of
                        Some args \<Rightarrow> map flatmap_arg args | None \<Rightarrow> [])\<rparr>))"

definition newFlatmapFormatter :: "fields \<Rightarrow> string \<Rightarrow> string \<Rightarrow> flatmapFormatter option" where
  "newFlatmapFormatter cfg target grp =
     (case proxy_section cfg of
        None \<Rightarrow> None
      | Some e \<Rightarrow>
          (case get_as as_arr e flatmapKey of
             None \<Rightarrow> None
           | Some vs \<Rightarrow>
               (let ops = List.map_filter flatmap_op vs in
                if ops = [] then None
                else Some \<lparr>ff_Target = target, ff_Prefix = grp, ff_Ops = ops\<rparr>)))"

definition NewFlatmapMiddleware :: "'t flatmap_lib \<Rightarrow> EndpointConfig \<Rightarrow> middleware" where
  "NewFlatmapMiddleware lib cfg =
     (let formatter = newFlatmapFormatter (ep_ExtraConfig cfg) [] [] in
      (\<lambda>next.
        if length next > 1
        then FatalNil ''too many proxies for this proxy middleware: NewFlatmapMiddleware only accepts 1 proxy''
        else case formatter of
          None \<Rightarrow> (case next of [] \<Rightarrow> BuildPanic ''index out of range'' | p # _ \<Rightarrow> Built p)
        | Some f \<Rightarrow> Built (\<lambda>request.
            case next0 next request of
              PPanic e \<Rightarrow> PPanic e
            | PRet resp err r \<Rightarrow>
                (case err of
                   Some e \<Rightarrow> PRet resp (Some e) r
                 | None \<Rightarrow>
                     (case resp of
                        None \<Rightarrow> PPanic ''invalid memory address or nil pointer dereference''
                      | Some rs \<Rightarrow>
                          (case flatmapFormatter_Format lib f rs of
                             Ret rs' \<Rightarrow> PRet (Some rs') None r
                           | Panic p \<Rightarrow> PPanic p))))))"

subsection \<open>The formatter of a backend\<close>

datatype entity_formatter = Filtering entityFormatter | Flatmap flatmapFormatter

definition NewEntityFormatter :: "Backend \<Rightarrow> entity_formatter" where
  "NewEntityFormatter remote =
     (case newFlatmapFormatter (be_ExtraConfig remote) (be_Target remote) (be_Group remote) of
        Some ef \<Rightarrow> Flatmap ef
      | None \<Rightarrow> Filtering
          \<lparr>ef_Target = be_Target remote, ef_Prefix = be_Group remote,
           ef_PropertyFilter = (if be_AllowList remote \<noteq> [] then newAllowlistingFilter (be_AllowList remote)
                                else newDenylistingFilter (be_DenyList remote)),
           ef_Mapping = map (\<lambda>(i, m). (i, hd (split_on CHR ''.'' m))) (be_Mapping remote)\<rparr>)"

fun Format :: "'t flatmap_lib \<Rightarrow> entity_formatter \<Rightarrow> response \<Rightarrow> response run" where
  "Format lib (Filtering e) r = entityFormatter_Format e r"
| "Format lib (Flatmap e) r = flatmapFormatter_Format lib e r"


subsection \<open>What a path finds\<close>

text \<open>
  The filters are specified pointwise: what a dotted path finds in the result, as a function
  of what it finds in the data.  Of an object only its being an object is compared
  (\<open>shallow\<close>), since its entries are reached by longer paths.
\<close>

fun at_path :: "fields \<Rightarrow> string list \<Rightarrow> json option" where
  "at_path m [] = Some (JObj m)"
| "at_path m (k # ks) =
     (case map_of m k of
        None \<Rightarrow> None
      | Some v \<Rightarrow> if ks = [] then Some v else (case as_obj v of Some m' \<Rightarrow> at_path m' ks | None \<Rightarrow> None))"

definition shallow :: "json \<Rightarrow> json" where
  "shallow v = (case as_obj v of Some _ \<Rightarrow> JObj [] | None \<Rightarrow> v)"

definition sees :: "fields \<Rightarrow> string list \<Rightarrow> json option" where
  "sees m q = map_option shallow (at_path m q)"

lemma shallow_obj [simp]: "shallow (JObj m) = JObj []"
  by (simp add: shallow_def)

lemma shallow_leaf: "as_obj v = None \<Longrightarrow> shallow v = v"
  by (simp add: shallow_def)

lemma sees_Cons:
  "sees m (k # ks) =
     (case map_of m k of None \<Rightarrow> None
      | Some v \<Rightarrow> (case as_obj v of Some m' \<Rightarrow> sees m' ks | None \<Rightarrow> if ks = [] then Some v else None))"
  by (cases "map_of m k"; cases "as_obj (the (map_of m k))"; cases ks)
     (auto simp: sees_def shallow_def split: option.splits)

lemma sees_Nil [simp]: "sees m [] = Some (JObj [])"
  by (simp add: sees_def)

lemma sees_empty [simp]: "q \<noteq> [] \<Longrightarrow> sees [] q = None"
  by (cases q) (simp_all add: sees_Cons)

lemma sees_None_iff: "sees m q = None \<longleftrightarrow> at_path m q = None"
  by (simp add: sees_def)

text \<open>Two objects that every path sees alike are the same tree up to the order of the entries.\<close>

subsection \<open>The allow list keeps exactly the listed paths\<close>

text \<open>The leaves of a compiled allow list.\<close>

fun allows :: "fields \<Rightarrow> string list \<Rightarrow> bool" where
  "allows t [] = False"
| "allows t (k # ks) =
     (case map_of t k of
        None \<Rightarrow> False
      | Some v \<Rightarrow> (case as_obj v of Some t' \<Rightarrow> allows t' ks | None \<Rightarrow> ks = []))"

lemma allows_nil_tree [simp]: "\<not> allows [] q"
  by (cases q) auto

lemma allow_insert_Cons:
  "allow_insert t [k] = go_put k (JBool True) t"
  "allow_insert t (k # k' # ks) =
     (case get_as as_obj t k of
        Some c \<Rightarrow> go_put k (JObj (allow_insert c (k' # ks))) t
      | None \<Rightarrow> go_put k (JObj (allow_insert [] (k' # ks))) t)"
  by (simp_all add: allow_insert_def split: option.split)

lemma allows_insert_leaf: "allows (allow_insert t [k]) (k' # q') \<longleftrightarrow> (if k' = k then q' = [] else allows t (k' # q'))"
  by (simp add: allow_insert_Cons go_map_simps)

lemma allows_insert_other: "p \<noteq> [] \<Longrightarrow> k' \<noteq> k \<Longrightarrow> allows (allow_insert t (k # p)) (k' # q') \<longleftrightarrow> allows t (k' # q')"
  by (cases p) (auto simp: allow_insert_Cons go_map_simps split: option.split)

lemma allows_insert_same: "p \<noteq> [] \<Longrightarrow> allows (allow_insert t (k # p)) (k # q') \<longleftrightarrow>
    allows (allow_insert (case get_as as_obj t k of Some c \<Rightarrow> c | None \<Rightarrow> []) p) q'"
  by (cases p) (auto simp: allow_insert_Cons go_map_simps split: option.split)

lemma allows_below:
  "allows t (k # q) \<longleftrightarrow>
    (case get_as as_obj t k of Some c \<Rightarrow> allows c q | None \<Rightarrow> q = [] \<and> map_of t k \<noteq> None)"
  by (cases "map_of t k"; cases "as_obj (the (map_of t k))") (auto simp: get_as_def)

lemma allows_insert:
  "p \<noteq> [] \<Longrightarrow> allows (allow_insert t p) q \<longleftrightarrow> q = p \<or> allows t q \<and> \<not> prefix p q \<and> \<not> prefix q p"
proof (induction p arbitrary: t q)
  case (Cons k p)
  show ?case
  proof (cases q)
    case q: (Cons k' q')
    show ?thesis
    proof (cases "p = []")
      case True
      then show ?thesis using q by (auto simp: allows_insert_leaf simp del: allows.simps)
    next
      case p: False
      show ?thesis
      proof (cases "k' = k")
        case True
        then show ?thesis
          using p Cons.IH [OF p] unfolding q
          by (auto simp: allows_insert_same allows_below [of t k] split: option.split
              simp del: allows.simps)
      qed (use p q in \<open>auto simp: allows_insert_other simp del: allows.simps\<close>)
    qed
  qed simp
qed simp

text \<open>
  A later entry replaces the earlier ones on the same branch, shorter or longer: what is left
  is the effective list.
\<close>

definition effective :: "string list list \<Rightarrow> string list list" where
  "effective ps = foldl (\<lambda>es p. p # [e \<leftarrow> es. \<not> prefix p e \<and> \<not> prefix e p]) [] ps"

definition list_paths :: "string list \<Rightarrow> string list list" where
  "list_paths ks = map (split_on CHR ''.'') ks"

lemma effective_snoc: "effective (ps @ [p]) = p # [e \<leftarrow> effective ps. \<not> prefix p e \<and> \<not> prefix e p]"
  by (simp add: effective_def)

lemma allow_tree_effective: "allows (allow_tree ks) q \<longleftrightarrow> q \<in> set (effective (list_paths ks))"
proof (induction ks arbitrary: q rule: rev_induct)
  case (snoc k ks)
  then show ?case
    by (auto simp: allow_tree_def list_paths_def effective_snoc allows_insert)
qed (simp add: allow_tree_def list_paths_def effective_def)

lemma effective_prefix_free:
  "\<forall>p \<in> set ps. \<forall>p' \<in> set ps. prefix p p' \<longrightarrow> p = p' \<Longrightarrow> set (effective ps) = set ps"
proof (induction ps rule: rev_induct)
  case (snoc p ps)
  then show ?case by (auto simp: effective_snoc)
qed (simp add: effective_def)

lemma AllowlistPrune_Cons:
  "AllowlistPrune t ((k, v) # d) =
     (if fst (pruneEntry (map_of t k) v) then AllowlistPrune t d
      else (False, (k, snd (pruneEntry (map_of t k) v)) # snd (AllowlistPrune t d)))"
  by (auto split: prod.splits)

lemma AllowlistPrune_empty: "fst (AllowlistPrune t d) \<longleftrightarrow> snd (AllowlistPrune t d) = []"
  by (induction d) (simp, auto simp only: AllowlistPrune_Cons split_paired_all split: if_splits, auto)

lemma AllowlistPrune_lookup_absent:
  "k \<notin> fst ` set d \<Longrightarrow> k \<notin> fst ` set (snd (AllowlistPrune t d))"
proof (induction d)
  case (Cons kv d)
  then show ?case by (cases kv) (auto simp: AllowlistPrune_Cons simp del: AllowlistPrune.simps)
qed simp

lemma AllowlistPrune_lookup:
  "wf_map d \<Longrightarrow> map_of (snd (AllowlistPrune t d)) k =
    (case map_of d k of None \<Rightarrow> None
     | Some v \<Rightarrow> if fst (pruneEntry (map_of t k) v) then None else Some (snd (pruneEntry (map_of t k) v)))"
proof (induction d)
  case (Cons kv d)
  obtain k' v' where kv: "kv = (k', v')" by (cases kv)
  have "map_of (snd (AllowlistPrune t d)) k' = None"
    using Cons.prems AllowlistPrune_lookup_absent [of k' d t] kv by (simp add: map_of_eq_None_iff)
  then show ?case using Cons kv
    by (simp add: AllowlistPrune_Cons map_of_eq_None_iff del: AllowlistPrune.simps)
qed simp

lemma pruneEntry_obj:
  "pruneEntry (Some (JObj t)) (JObj d) = (snd (AllowlistPrune t d) = [], JObj (snd (AllowlistPrune t d)))"
  using AllowlistPrune_empty [of t d] by (cases "AllowlistPrune t d") simp

definition allow_view :: "(string list \<Rightarrow> bool) \<Rightarrow> fields \<Rightarrow> string list \<Rightarrow> json option" where
  "allow_view kept d q =
     (if \<exists>p. kept p \<and> prefix p q then sees d q
      else if \<exists>p. kept p \<and> prefix q p \<and> sees d p \<noteq> None then Some (JObj [])
      else None)"


text \<open>
  The result seen through a path: at or below a kept path the data as it was, above one an
  object if the data reaches the kept path, elsewhere nothing.
\<close>

lemma sees_below:
  "sees d (k # p) = (case get_as as_obj d k of Some d' \<Rightarrow> sees d' p | None \<Rightarrow> if p = [] then map_of d k else None)"
  by (auto simp: sees_Cons get_as_def split: option.split)

lemma allows_ex_Cons: "(\<exists>p. allows t p \<and> P p) \<longleftrightarrow> (\<exists>k p. allows t (k # p) \<and> P (k # p))"
  by (metis allows.simps(1) neq_Nil_conv)

lemma allow_view_Cons:
  "allow_view (allows t) d (k # q) =
     (if \<exists>p. allows t (k # p) \<and> prefix p q then sees d (k # q)
      else if \<exists>p. allows t (k # p) \<and> prefix q p \<and> sees d (k # p) \<noteq> None then Some (JObj []) else None)"
proof -
  have "(\<exists>p. allows t p \<and> prefix p (k # q)) \<longleftrightarrow> (\<exists>p. allows t (k # p) \<and> prefix p q)"
    by (subst allows_ex_Cons) (auto simp del: allows.simps)
  moreover have "(\<exists>p. allows t p \<and> prefix (k # q) p \<and> sees d p \<noteq> None) \<longleftrightarrow>
      (\<exists>p. allows t (k # p) \<and> prefix q p \<and> sees d (k # p) \<noteq> None)"
    by (subst allows_ex_Cons) (auto simp del: allows.simps)
  ultimately show ?thesis unfolding allow_view_def by presburger
qed

lemma allow_view_missing: "map_of t k = None \<Longrightarrow> allow_view (allows t) d (k # q) = None"
  by (simp add: allow_view_Cons)

lemma allow_view_leaf: "map_of t k = Some w \<Longrightarrow> as_obj w = None \<Longrightarrow> allow_view (allows t) d (k # q) = sees d (k # q)"
  by (simp add: allow_view_Cons)

lemma allow_view_sub:
  assumes "map_of t k = Some (JObj t')"
  shows "allow_view (allows t) d (k # q) =
    (case get_as as_obj d k of Some d' \<Rightarrow> allow_view (allows t') d' q | None \<Rightarrow> None)"
proof -
  have al: "allows t (k # p) = allows t' p" for p using assms by simp
  show ?thesis
  proof (cases "get_as as_obj d k")
    case None
    have "\<not> (allows t' p \<and> sees d (k # p) \<noteq> None)" for p
      using None by (cases p) (auto simp: sees_below)
    moreover have "\<not> prefix p q \<or> \<not> allows t' p \<or> sees d (k # q) = None" for p
      using None by (cases p; cases q) (auto simp: sees_below)
    ultimately show ?thesis unfolding allow_view_Cons al using None by auto
  next
    case (Some d')
    then have "sees d (k # p) = sees d' p" for p by (simp add: sees_below)
    then show ?thesis unfolding allow_view_Cons al allow_view_def [of "allows t'"] Some
      by (simp only: option.case)
  qed
qed

lemma allow_view_root:
  assumes "\<And>q. q \<noteq> [] \<Longrightarrow> sees d' q = allow_view (allows t) d q"
  shows "allow_view (allows t) d [] = (if d' = [] then None else Some (JObj []))"
proof (cases "d' = []")
  case True
  have "sees d p = None" if "allows t p" for p
  proof -
    have "p \<noteq> []" using that by auto
    then have "allow_view (allows t) d p = None" using assms [of p] True by (cases p) (auto simp: sees_Cons)
    moreover have "\<exists>p'. allows t p' \<and> prefix p' p" using that by auto
    ultimately show ?thesis by (simp add: allow_view_def)
  qed
  then show ?thesis using True by (auto simp: allow_view_def)
next
  case False
  then obtain k v m where "d' = (k, v) # m" by (cases d') auto
  then have "allow_view (allows t) d [k] \<noteq> None"
    using assms [of "[k]"] by (cases "as_obj v") (auto simp: sees_Cons dest: sym)
  then obtain p where "allows t (k # p)" "sees d (k # p) \<noteq> None"
    unfolding allow_view_Cons by (auto split: if_splits)
  then show ?thesis using False unfolding allow_view_def by (auto simp del: allows.simps)
qed

lemma AllowlistPrune_sees_value:
  "v0 = JObj d \<Longrightarrow> wf_fields d \<Longrightarrow> q \<noteq> [] \<Longrightarrow>
   sees (snd (AllowlistPrune t d)) q = allow_view (allows t) d q"
proof (induction v0 arbitrary: t d q)
  case (JObj m)
  then have wf: "wf_fields d" by blast
  obtain k q' where q: "q = k # q'" using JObj.prems(3) by (cases q) auto
  show ?case
  proof (cases "map_of d k")
    case None
    then have "sees d (k # p) = None" for p by (simp add: sees_Cons)
    then show ?thesis
      using None AllowlistPrune_lookup [OF wf_fields_map [OF wf], of t k]
      by (simp add: q sees_Cons allow_view_Cons)
  next
    case v: (Some v)
    have look: "map_of (snd (AllowlistPrune t d)) k =
        (if fst (pruneEntry (map_of t k) v) then None else Some (snd (pruneEntry (map_of t k) v)))"
      using AllowlistPrune_lookup [OF wf_fields_map [OF wf], of t k] v by simp
    consider "map_of t k = None" | w where "map_of t k = Some w" "as_obj w = None"
      | t' where "map_of t k = Some (JObj t')"
      by (cases "map_of t k"; cases "as_obj (the (map_of t k))") auto
    then show ?thesis
    proof cases
      case (3 t')
      show ?thesis
      proof (cases "as_obj v")
        case None
        then show ?thesis using look 3 v by (simp add: q sees_Cons allow_view_sub get_as_def)
      next
        case (Some d')
        have wf': "wf_fields d'" using wf_fields_lookup [OF wf v] Some by simp
        have "(k, JObj d') \<in> set m" using v Some JObj.prems(1) by (auto dest: map_of_SomeD)
        from JObj.IH [OF this _ refl wf']
        have IH: "p \<noteq> [] \<Longrightarrow> sees (snd (AllowlistPrune t' d')) p = allow_view (allows t') d' p" for p by simp
        show ?thesis
          using look 3 v Some IH IH [of q', symmetric] allow_view_root [OF IH]
          by (cases "q' = []") (auto simp: q sees_Cons allow_view_sub get_as_def pruneEntry_obj
              simp del: pruneEntry.simps)
      qed
    qed (use look v in \<open>simp_all add: q sees_Cons allow_view_missing allow_view_leaf\<close>)
  qed
qed auto

lemma AllowlistPrune_sees:
  "wf_fields d \<Longrightarrow> q \<noteq> [] \<Longrightarrow> sees (snd (AllowlistPrune t d)) q = allow_view (allows t) d q"
  by (rule AllowlistPrune_sees_value [OF refl])


subsection \<open>The deny list removes exactly the listed paths\<close>

text \<open>The compiled tree: nil marks a removed node, objects lead to longer paths.\<close>

fun wf_deny_node :: "json \<Rightarrow> bool" where
  "wf_deny_node (JObj t) = (distinct (map fst t) \<and> (\<forall>kv \<in> set t. wf_deny_node (snd kv)))"
| "wf_deny_node v = (v = JNull)"

fun denies :: "fields \<Rightarrow> string list \<Rightarrow> bool" where
  "denies t [] = False"
| "denies t (k # ks) =
     (case map_of t k of
        None \<Rightarrow> False
      | Some v \<Rightarrow> (case as_obj v of Some t' \<Rightarrow> denies t' ks | None \<Rightarrow> v = JNull))"

lemma wf_deny_lookup: "wf_deny_node (JObj t) \<Longrightarrow> map_of t k = Some v \<Longrightarrow> wf_deny_node v"
  by (auto dest!: map_of_SomeD)

lemma wf_deny_leaf: "wf_deny_node v \<Longrightarrow> as_obj v = None \<Longrightarrow> v = JNull"
  by (cases v) auto

lemma set_put: "set (go_put k v m) \<subseteq> insert (k, v) (set m)"
  by (induction m) auto

lemma wf_deny_put: "wf_deny_node (JObj t) \<Longrightarrow> wf_deny_node v \<Longrightarrow> wf_deny_node (JObj (go_put k v t))"
  using set_put [of k v t] by (auto simp: distinct_update)

lemma wf_buildDenyTree: "wf_deny_node (JObj t) \<Longrightarrow> wf_deny_node (JObj (buildDenyTree p t))"
proof (induction p t rule: buildDenyTree.induct)
  case (3 n m path tree)
  note put = wf_deny_put [OF "3.prems"]
  show ?case
  proof (cases "map_of tree n")
    case None
    then have "wf_deny_node (JObj (buildDenyTree (m # path) []))" using "3.IH"(1) by simp
    then show ?thesis using None put by (simp del: wf_deny_node.simps(1) buildDenyTree.simps add: buildDenyTree.simps(3))
  next
    case (Some k)
    show ?thesis
    proof (cases "as_obj k")
      case None
      then show ?thesis using Some "3.prems" put by (simp del: wf_deny_node.simps(1))
    next
      case k: (Some t')
      then have "wf_deny_node (JObj (buildDenyTree (m # path) t'))"
        using "3.IH"(2) [OF Some _ k] wf_deny_lookup [OF "3.prems" Some] by simp
      then show ?thesis using Some k put
        by (simp del: wf_deny_node.simps(1) buildDenyTree.simps add: buildDenyTree.simps(3))
    qed
  qed
qed (auto intro!: wf_deny_put simp del: wf_deny_node.simps(1))

lemma denies_buildDenyTree:
  "wf_deny_node (JObj t) \<Longrightarrow> p \<noteq> [] \<Longrightarrow> denies (buildDenyTree p t) q \<longleftrightarrow> denies t q \<or> prefix p q"
proof (induction p t arbitrary: q rule: buildDenyTree.induct)
  case (2 n tree)
  then show ?case by (cases q) (auto simp: go_map_simps)
next
  case (3 n m path tree)
  show ?case
  proof (cases q)
    case q: (Cons k ks)
    show ?thesis
    proof (cases "map_of tree n")
      case None
      then show ?thesis
        using q "3.IH"(1) [OF None, of ks] by (cases ks) (auto simp: go_map_simps)
    next
      case (Some v)
      show ?thesis
      proof (cases "as_obj v")
        case None
        then show ?thesis
          using q Some wf_deny_leaf [OF wf_deny_lookup [OF "3.prems"(1) Some]]
          by (auto simp: go_map_simps)
      next
        case v: (Some t')
        have "wf_deny_node (JObj t')" using wf_deny_lookup [OF "3.prems"(1) Some] v by simp
        then show ?thesis
          using q Some v "3.IH"(2) [OF Some _ v] by (auto simp: go_map_simps simp del: wf_deny_node.simps)
      qed
    qed
  qed simp
qed simp

lemma deny_tree_paths:
  "wf_deny_node (JObj (deny_tree ks)) \<and>
   (denies (deny_tree ks) q \<longleftrightarrow> (\<exists>p \<in> set (list_paths ks). prefix p q))"
proof (induction ks arbitrary: q rule: rev_induct)
  case Nil
  then show ?case by (cases q) (simp_all add: deny_tree_def list_paths_def)
next
  case (snoc k ks)
  then show ?case
    using wf_buildDenyTree denies_buildDenyTree [of "deny_tree ks" "split_on CHR ''.'' k" q]
    by (auto simp: deny_tree_def list_paths_def simp del: wf_deny_node.simps)
qed

text \<open>The deletion: no panic, and pointwise result.\<close>

lemma recDelete_sees:
  "wf_deny_node (JObj t) \<Longrightarrow>
   \<exists>d'. recDelete t d = Ret d' \<and> (\<forall>q. q \<noteq> [] \<longrightarrow> sees d' q = (if denies t q then None else sees d q))"
proof (induction t d rule: recDelete.induct)
  case (1 m)
  have "\<not> denies [] q" for q by (cases q) auto
  then show ?case by simp
next
  case (2 rk rv ref m)
  have wf: "wf_deny_node (JObj ref)" "wf_deny_node rv" and new: "map_of ref rk = None"
    using "2.prems" by (auto simp: map_of_eq_None_iff)
  have step: ?case if m': "recDelete ((rk, rv) # ref) m = recDelete ref m'"
    and IH: "\<exists>d'. recDelete ref m' = Ret d' \<and> (\<forall>q. q \<noteq> [] \<longrightarrow> sees d' q = (if denies ref q then None else sees m' q))"
    and other: "\<And>k ks. k \<noteq> rk \<Longrightarrow> sees m' (k # ks) = sees m (k # ks)"
    and at: "\<And>ks. sees m' (rk # ks) = (if denies ((rk, rv) # ref) (rk # ks) then None else sees m (rk # ks))"
    for m'
  proof -
    have "\<not> denies ref (rk # ks)" for ks using new by simp
    moreover have "k \<noteq> rk \<Longrightarrow> denies ((rk, rv) # ref) (k # ks) = denies ref (k # ks)" for k ks by simp
    ultimately have "(if denies ref q then None else sees m' q) =
        (if denies ((rk, rv) # ref) q then None else sees m q)" if "q \<noteq> []" for q
      using other at that by (cases q; cases "hd q = rk") (auto simp del: denies.simps)
    then show ?case unfolding m' using IH by auto
  qed
  show ?case
  proof (cases "map_of m rk")
    case None
    show ?thesis
      by (rule step [OF _ "2.IH"(1) [OF None wf(1)]]) (use None in \<open>simp_all add: sees_Cons\<close>)
  next
    case dv: (Some dv)
    show ?thesis
    proof (cases "as_obj rv")
      case None
      then have rv: "rv = JNull" using wf_deny_leaf wf(2) by blast
      show ?thesis
        by (rule step [OF _ "2.IH"(2) [OF dv rv wf(1)]])
          (use dv rv in \<open>simp_all add: sees_Cons go_map_simps\<close>)
    next
      case sub: (Some sub)
      then have rv: "rv \<noteq> JNull" by auto
      show ?thesis
      proof (cases "as_obj dv")
        case None
        show ?thesis
          by (rule step [OF _ "2.IH"(3) [OF dv rv sub None wf(1)]])
            (use dv rv sub None in \<open>auto simp: sees_Cons\<close>)
      next
        case dm: (Some dm)
        have "wf_deny_node (JObj sub)" using wf(2) sub by simp
        from "2.IH"(4) [OF dv rv sub dm this] obtain dm' where dm':
          "recDelete sub dm = Ret dm'"
          "\<And>q. q \<noteq> [] \<Longrightarrow> sees dm' q = (if denies sub q then None else sees dm q)" by blast
        have "sees dm' q = (if denies sub q then None else sees dm q)" for q
          using dm'(2) [of q] by (cases q) auto
        note dm' = dm'(1) this
        show ?thesis
          by (rule step [OF _ "2.IH"(5) [OF dv rv sub dm dm'(1) wf(1)]])
            (use dv rv sub dm dm' in \<open>auto simp: sees_Cons go_map_simps\<close>)
      qed
    qed
  qed
qed


subsection \<open>Target and mapping\<close>

lemma extract_parts_at_path:
  "parts \<noteq> [] \<Longrightarrow> extract_parts parts (Some d) =
     Some (case Option.bind (at_path d parts) as_obj of Some m \<Rightarrow> m | None \<Rightarrow> [])"
proof (induction parts arbitrary: d)
  case (Cons part parts)
  show ?case
  proof (cases parts)
    case Nil
    then show ?thesis by (auto split: option.split)
  next
    case (Cons p ps)
    then have "extract_parts parts (Some d') =
        Some (case Option.bind (at_path d' parts) as_obj of Some m \<Rightarrow> m | None \<Rightarrow> [])" for d'
      using Cons.IH by blast
    then show ?thesis using Cons by (auto split: option.split)
  qed
qed simp

lemma rename_key_other: "k \<noteq> f \<Longrightarrow> k \<noteq> n \<or> map_of d f = None \<Longrightarrow> map_of (rename_key f n d) k = map_of d k"
  by (auto simp: rename_key_def go_map_simps split: option.split)

lemma rename_key_former: "map_of (rename_key f n d) f = None"
  by (auto simp: rename_key_def go_map_simps split: option.split)

lemma rename_key_new: "f \<noteq> n \<Longrightarrow> map_of d f = Some v \<Longrightarrow> map_of (rename_key f n d) n = Some v"
  by (simp add: rename_key_def go_map_simps)

lemma apply_mapping_other:
  "k \<notin> fst ` set mp \<Longrightarrow> (\<forall>f. (f, k) \<in> set mp \<longrightarrow> map_of d f = None) \<Longrightarrow> fst ` set mp \<inter> snd ` set mp = {} \<Longrightarrow>
   map_of (apply_mapping mp d) k = map_of d k"
proof (induction mp arbitrary: d)
  case (Cons fn mp)
  obtain f n where fn: "fn = (f, n)" by (cases fn)
  have kf: "k \<noteq> f" "k \<noteq> n \<or> map_of d f = None" using Cons.prems(1,2) fn by auto
  have "map_of (rename_key f n d) h = None" if h: "(h, k) \<in> set mp" for h
  proof (cases "h = f")
    case False
    have "h \<in> fst ` set mp" using h by force
    then have "h \<noteq> n" using Cons.prems(3) fn by auto
    then show ?thesis using False h Cons.prems(2) rename_key_other [of h f n d] by auto
  qed (simp add: rename_key_former)
  then have "map_of (apply_mapping mp (rename_key f n d)) k = map_of (rename_key f n d) k"
    using Cons.prems(1,3) by (intro Cons.IH) auto
  then show ?case using fn rename_key_other [OF kf] by simp
qed simp

lemma apply_mapping_former:
  "f \<in> fst ` set mp \<Longrightarrow> fst ` set mp \<inter> snd ` set mp = {} \<Longrightarrow> map_of (apply_mapping mp d) f = None"
proof (induction mp arbitrary: d)
  case (Cons gn mp)
  obtain g n where gn: "gn = (g, n)" by (cases gn)
  have disj: "fst ` set mp \<inter> snd ` set mp = {}" using Cons.prems(2) by auto
  show ?case
  proof (cases "f \<in> fst ` set mp")
    case True
    then show ?thesis using Cons.IH disj gn by simp
  next
    case False
    then have fg: "f = g" using Cons.prems(1) gn by simp
    have "f \<notin> snd ` set mp" using Cons.prems(2) gn fg by auto
    then have "(h, f) \<notin> set mp" for h by force
    then have "map_of (apply_mapping mp (rename_key g n d)) f = map_of (rename_key g n d) f"
      by (intro apply_mapping_other [OF False _ disj]) simp
    then show ?thesis using gn fg by (simp add: rename_key_former)
  qed
qed simp

lemma apply_mapping_new:
  "(f, n) \<in> set mp \<Longrightarrow> map_of d f = Some v \<Longrightarrow> distinct (map fst mp) \<Longrightarrow> distinct (map snd mp) \<Longrightarrow>
   fst ` set mp \<inter> snd ` set mp = {} \<Longrightarrow> map_of (apply_mapping mp d) n = Some v"
proof (induction mp arbitrary: d)
  case (Cons gm mp)
  obtain g m where gm: "gm = (g, m)" by (cases gm)
  have rest: "distinct (map fst mp)" "distinct (map snd mp)" "fst ` set mp \<inter> snd ` set mp = {}"
    using Cons.prems(3-5) by auto
  show ?case
  proof (cases "(f, n) = (g, m)")
    case True
    have "n \<notin> snd ` set mp" using Cons.prems(4) gm True by simp
    then have a: "(h, n) \<notin> set mp" for h by force
    have "n \<notin> fst ` set mp" "f \<noteq> n" using Cons.prems(5) gm True by auto
    then show ?thesis
      using gm True a rename_key_new [OF \<open>f \<noteq> n\<close> Cons.prems(2)]
        apply_mapping_other [OF _ _ rest(3), of n "rename_key f n d"] by simp
  next
    case False
    then have mem: "(f, n) \<in> set mp" using Cons.prems(1) gm by auto
    have "f \<in> fst ` set mp" using mem by force
    then have "f \<noteq> g" "f \<noteq> m" using Cons.prems(3,5) gm by auto
    then have "map_of (rename_key g m d) f = Some v" using Cons.prems(2) rename_key_other by simp
    then show ?thesis using Cons.IH [OF mem _ rest] gm by simp
  qed
qed simp

subsection \<open>Properties\<close>

lemma newAllowlistingFilter_run:
  "Data r = Some d \<Longrightarrow> newAllowlistingFilter ks r = Ret (set_data (Some (snd (AllowlistPrune (allow_tree ks) d))) r)"
  using AllowlistPrune_empty [of "allow_tree ks" d]
  by (cases "AllowlistPrune (allow_tree ks) d") (simp add: newAllowlistingFilter_def)

text \<open>
  C19: the allow list filter keeps exactly the configured paths.  At or below a path of the
  effective list the result shows what the data shows; above one it shows an object if the data
  reaches that path; everywhere else, nothing (emptied parents included).
\<close>

theorem allowlist_filter_exact:
  assumes "Data r = Some d" and "wf_fields d"
  shows "\<exists>d'. newAllowlistingFilter ks r = Ret (set_data (Some d') r) \<and>
    (\<forall>q. q \<noteq> [] \<longrightarrow> sees d' q = allow_view (\<lambda>p. p \<in> set (effective (list_paths ks))) d q)"
  using newAllowlistingFilter_run [OF assms(1)] AllowlistPrune_sees [OF assms(2)]
    allow_tree_effective [abs_def] by auto

lemma allowlist_filter_exact_witness:
  "\<exists>d'. newAllowlistingFilter [''a.b'', ''c''] (new_response (Some
       [(''a'', JObj [(''b'', JNum ''1''), (''x'', JNull)]), (''d'', JBool True)]) True) =
     Ret (set_data (Some d') (new_response (Some
       [(''a'', JObj [(''b'', JNum ''1''), (''x'', JNull)]), (''d'', JBool True)]) True)) \<and>
    (\<forall>q. q \<noteq> [] \<longrightarrow> sees d' q = allow_view (\<lambda>p. p \<in> set (effective (list_paths [''a.b'', ''c''])))
       [(''a'', JObj [(''b'', JNum ''1''), (''x'', JNull)]), (''d'', JBool True)] q)"
  by (rule allowlist_filter_exact) simp_all

text \<open>
  C20: the deny list filter never panics and removes exactly the configured paths with everything
  below them, in whatever order the paths are listed and the maps are visited.
\<close>

theorem denylist_filter_exact:
  assumes "Data r = Some d"
  shows "\<exists>d'. newDenylistingFilter ks r = Ret (set_data (Some d') r) \<and>
    (\<forall>q. q \<noteq> [] \<longrightarrow> sees d' q = (if \<exists>p \<in> set (list_paths ks). prefix p q then None else sees d q))"
proof -
  obtain d' where "recDelete (deny_tree ks) d = Ret d'"
    "\<forall>q. q \<noteq> [] \<longrightarrow> sees d' q = (if \<exists>p \<in> set (list_paths ks). prefix p q then None else sees d q)"
    using recDelete_sees [of "deny_tree ks" d] deny_tree_paths [of ks] by auto
  then show ?thesis using assms by (intro exI [of _ d']) (simp add: newDenylistingFilter_def)
qed

lemma denylist_filter_exact_witness:
  "\<exists>d'. newDenylistingFilter [''a.b'', ''c''] (new_response (Some
       [(''a'', JObj [(''b'', JNum ''1''), (''x'', JNull)]), (''c'', JBool True)]) True) =
     Ret (set_data (Some d') (new_response (Some
       [(''a'', JObj [(''b'', JNum ''1''), (''x'', JNull)]), (''c'', JBool True)]) True)) \<and>
    (\<forall>q. q \<noteq> [] \<longrightarrow> sees d' q =
       (if \<exists>p \<in> set (list_paths [''a.b'', ''c'']). prefix p q then None
        else sees [(''a'', JObj [(''b'', JNum ''1''), (''x'', JNull)]), (''c'', JBool True)] q))"
  by (rule denylist_filter_exact) simp

text \<open>
  when no configured key is also a new name and no two keys get the same name, the mapping loop
  renames exactly the present keys, whatever the order in which the mapping is visited.
\<close>

theorem mapping_renames:
  assumes "distinct (map fst mp)" and "distinct (map snd mp)" and "fst ` set mp \<inter> snd ` set mp = {}"
  shows "(\<forall>f n v. (f, n) \<in> set mp \<and> map_of d f = Some v \<longrightarrow> map_of (apply_mapping mp d) n = Some v) \<and>
    (\<forall>f \<in> fst ` set mp. map_of (apply_mapping mp d) f = None) \<and>
    (\<forall>k. k \<notin> fst ` set mp \<and> (\<forall>f. (f, k) \<in> set mp \<longrightarrow> map_of d f = None) \<longrightarrow>
       map_of (apply_mapping mp d) k = map_of d k)"
proof (intro conjI allI ballI impI; (elim conjE)?)
  show "map_of (apply_mapping mp d) n = Some v" if "(f, n) \<in> set mp" "map_of d f = Some v" for f n v
    using apply_mapping_new that assms by metis
  show "map_of (apply_mapping mp d) f = None" if "f \<in> fst ` set mp" for f
    using apply_mapping_former that assms(3) by metis
  show "map_of (apply_mapping mp d) k = map_of d k"
    if "k \<notin> fst ` set mp" "\<forall>f. (f, k) \<in> set mp \<longrightarrow> map_of d f = None" for k
    using apply_mapping_other [OF that assms(3)] .
qed

lemma mapping_renames_witness:
  "map_of (apply_mapping [(''id'', ''user''), (''x'', ''y'')] [(''id'', JNum ''7''), (''k'', JNull)]) ''user'' =
     Some (JNum ''7'')"
  using mapping_renames [of "[(''id'', ''user''), (''x'', ''y'')]" "[(''id'', JNum ''7''), (''k'', JNull)]"]
  by simp

text \<open>
  without flatmap operations the formatter of a backend never panics, leaves completeness,
  metadata and the raw body alone, and nests the result under the group when there is one.
\<close>

theorem backend_format_total:
  assumes "newFlatmapFormatter (be_ExtraConfig remote) (be_Target remote) (be_Group remote) = None"
  shows "\<exists>r'. Format lib (NewEntityFormatter remote) r = Ret r' \<and>
    IsComplete r' = IsComplete r \<and> Metadata r' = Metadata r \<and> Io r' = Io r \<and>
    (be_Group remote \<noteq> [] \<longrightarrow> (\<exists>m. Data r' = Some [(be_Group remote, JObj m)]))"
proof -
  let ?pf = "if be_AllowList remote \<noteq> [] then newAllowlistingFilter (be_AllowList remote)
    else newDenylistingFilter (be_DenyList remote)"
  have set_data_self: "r = set_data (Data r) r" for r by (simp add: set_data_def)
  have total: "\<exists>d'. ?pf e = Ret (set_data d' e)" for e
  proof (cases "Data e")
    case None
    then have "?pf e = Ret (set_data (Data e) e)"
      by (simp add: newAllowlistingFilter_def newDenylistingFilter_def set_data_def)
    then show ?thesis by blast
  next
    case (Some d)
    then show ?thesis
      using newAllowlistingFilter_run [OF Some] recDelete_sees [of "deny_tree (be_DenyList remote)" d]
        deny_tree_paths [of "be_DenyList remote"]
      by (auto simp: newDenylistingFilter_def simp del: wf_deny_node.simps)
  qed
  have mapped: "\<exists>d'. map_nonempty f e = set_data d' e" for f e
    by (auto simp: map_nonempty_def set_data_def split: option.splits list.splits intro: exI [of _ "Data e"])
  define e where "e = (if be_Target remote \<noteq> [] then extractTarget (be_Target remote) r else r)"
  obtain d where e: "e = set_data d r"
    using set_data_self [of r]
    by (cases "be_Target remote = []") (auto simp: e_def extractTarget_def)
  obtain d1 where d1: "(if entries (Data e) \<noteq> [] then ?pf e else Ret e) = Ret (set_data d1 r)"
    using total [of e] e by (cases "entries (Data e) = []") (auto simp: set_data_def)
  obtain d2 where "map_nonempty (apply_mapping (map (\<lambda>(i, m). (i, hd (split_on CHR ''.'' m))) (be_Mapping remote)))
      (set_data d1 r) = set_data d2 r"
    using mapped by (metis (no_types, lifting) response.update_convs(1) set_data_def response.surjective)
  then show ?thesis
    using assms d1 unfolding e_def
    by (auto simp: NewEntityFormatter_def entityFormatter_Format_def Let_def group_under_def set_data_def)
qed

definition sample_flatmap :: "unit flatmap_lib" where
  "sample_flatmap = \<lparr>fmNew = (\<lambda>_. None), fmMove = (\<lambda>t _ _. t), fmAppend = (\<lambda>t _ _. t), fmDel = (\<lambda>t _. t),
     fmGet = (\<lambda>t _. JNull)\<rparr>"

definition grouped_backend :: Backend where
  "grouped_backend = zero_backend\<lparr>be_Group := ''g''\<rparr>"

lemma backend_format_total_witness:
  "\<exists>r'. Format sample_flatmap (NewEntityFormatter grouped_backend) (new_response (Some [(''a'', JNull)]) True) = Ret r' \<and>
     (\<exists>m. Data r' = Some [(''g'', JObj m)])"
proof -
  have group: "be_Group grouped_backend = ''g''" by (simp add: grouped_backend_def)
  have "newFlatmapFormatter (be_ExtraConfig grouped_backend) (be_Target grouped_backend) (be_Group grouped_backend) = None"
    by code_simp
  from backend_format_total [OF this, where lib = sample_flatmap and r = "new_response (Some [(''a'', JNull)]) True"]
  show ?thesis by (auto simp: group)
qed

subsection \<open>Maps stay maps\<close>

text \<open>The formatter keeps the keys of every object distinct.\<close>

lemma wf_fields_Nil: "wf_fields []"
  by simp

lemma wf_fields_put: "wf_fields m \<Longrightarrow> wf_json v \<Longrightarrow> wf_fields (go_put k v m)"
  using set_put [of k v m] wf_map_put [of m k v] by (auto simp: wf_map_def)

lemma wf_fields_del: "wf_fields m \<Longrightarrow> wf_fields (go_del k m)"
  using wf_map_del [of m k] by (auto simp: wf_map_def AList.delete_eq)

lemma AllowlistPrune_keys: "fst ` set (snd (AllowlistPrune t d)) \<subseteq> fst ` set d"
  using AllowlistPrune_lookup_absent [of _ d t] by blast

lemma AllowlistPrune_wf:
  "wf_fields d \<Longrightarrow> wf_fields (snd (AllowlistPrune t d))"
  "wf_json v \<Longrightarrow> wf_json (snd (pruneEntry w v))"
proof (induction t d and w v rule: AllowlistPrune_pruneEntry.induct)
  case (2 wlDict k v inDict)
  obtain x y where p: "pruneEntry (map_of wlDict k) v = (x, y)" by fastforce
  obtain a b where a: "AllowlistPrune wlDict inDict = (a, b)" by fastforce
  have "wf_fields inDict" "wf_json v" "k \<notin> fst ` set inDict" using 2(3) by (auto simp: wf_fields_Cons)
  then have "wf_json y" "wf_fields b" "k \<notin> fst ` set b"
    using 2(1) 2(2) [OF p [symmetric]] AllowlistPrune_keys [of wlDict inDict] p a by auto
  then show ?case by (simp add: p a)
next
  case (4 subWl v)
  show ?case
  proof (cases "as_obj subWl")
    case sub: (Some t)
    show ?thesis
    proof (cases "as_obj v")
      case (Some d)
      have "wf_fields d" using 4(2) Some by simp
      then have "wf_fields (snd (AllowlistPrune t d))" by (rule 4(1) [OF sub Some])
      then show ?thesis using sub Some by (cases "AllowlistPrune t d") simp
    qed (use 4 sub in simp)
  qed (use 4 in simp)
qed simp_all

lemma recDelete_wf: "recDelete t d = Ret d' \<Longrightarrow> wf_fields d \<Longrightarrow> wf_fields d'"
proof (induction t d arbitrary: d' rule: recDelete.induct)
  case (2 rk rv ref m)
  show ?case
    using 2 wf_fields_lookup [of m rk]
    by (auto simp: run_bind_Ret_iff wf_fields_put wf_fields_del simp del: wf_json.simps(2) split: option.splits if_splits)
qed simp

lemma extract_parts_wf: "wf_fields (entries d) \<Longrightarrow> wf_fields (entries (extract_parts parts d))"
  by (induction parts d rule: extract_parts.induct)
    (auto simp: wf_fields_Nil dest: wf_fields_lookup simp del: wf_json.simps(2) split: option.splits)

lemma apply_mapping_wf: "wf_fields d \<Longrightarrow> wf_fields (apply_mapping mp d)"
proof (induction mp d rule: apply_mapping.induct)
  case (2 formerKey newKey mapping d)
  have "wf_fields (rename_key formerKey newKey d)"
    using 2(2) wf_fields_lookup [of d formerKey]
    by (auto simp: rename_key_def wf_fields_put wf_fields_del simp del: wf_json.simps(2) split: option.split)
  then show ?case using 2(1) by simp
qed simp

text \<open>The data of a response is a map at every level, and stays one.\<close>

abbreviation wf_data :: "response \<Rightarrow> bool" where
  "wf_data r \<equiv> wf_fields (entries (Data r))"

theorem backend_format_maps:
  assumes "newFlatmapFormatter (be_ExtraConfig remote) (be_Target remote) (be_Group remote) = None"
    and "wf_data r" and "Format lib (NewEntityFormatter remote) r = Ret r'"
  shows "wf_data r'"
proof -
  let ?pf = "if be_AllowList remote \<noteq> [] then newAllowlistingFilter (be_AllowList remote)
    else newDenylistingFilter (be_DenyList remote)"
  have filtered: "wf_data x'" if "?pf x = Ret x'" "wf_data x" for x x'
  proof (cases "Data x")
    case None
    then show ?thesis using that
      by (auto simp: newAllowlistingFilter_def newDenylistingFilter_def simp del: wf_json.simps(2) split: if_splits)
  next
    case (Some d)
    then show ?thesis
      using that newAllowlistingFilter_run [OF Some] AllowlistPrune_wf(1) [of d] recDelete_wf
      by (auto simp: newDenylistingFilter_def set_data_def run_bind_Ret_iff simp del: wf_json.simps(2) split: if_splits)
  qed
  have mapped: "wf_data (map_nonempty (apply_mapping mp) x)" if "wf_data x" for mp x
    using that by (auto simp: map_nonempty_def set_data_def apply_mapping_wf simp del: wf_json.simps(2) split: option.split list.split)
  have grouped: "wf_data (group_under g x)" if "wf_data x" for g x
    using that by (simp add: group_under_def set_data_def)
  define x where "x = (if be_Target remote \<noteq> [] then extractTarget (be_Target remote) r else r)"
  have "wf_data x" using assms(2) extract_parts_wf by (simp add: x_def extractTarget_def set_data_def del: wf_json.simps(2))
  obtain y where y: "(if entries (Data x) \<noteq> [] then ?pf x else Ret x) = Ret y"
    and r': "r' = group_under (be_Group remote) (map_nonempty (apply_mapping (map (\<lambda>(i, m). (i, hd (split_on CHR ''.'' m))) (be_Mapping remote))) y)"
    using assms(1,3) by (simp add: NewEntityFormatter_def entityFormatter_Format_def Let_def x_def [symmetric] run_bind_Ret_iff cong: if_cong) blast
  have "wf_data y" using y filtered \<open>wf_data x\<close> by (auto simp del: wf_json.simps(2) split: if_splits)
  then show ?thesis unfolding r' by (intro grouped mapped)
qed

end
