(* ===== verification/Contexts.thy ===== *)
theory Contexts
  imports Proxy_Types
begin

section \<open>Contexts and the reader they cancel (\<open>proxy/proxy.go\<close>, \<open>proxy/shadow.go\<close>)\<close>

text \<open>
  A context is when it is done and the values it carries; the time is in nanoseconds.  The shadow
  call runs in a context of its own that only looks its values up in the caller's.  The body of a
  pass-through response is wrapped in a reader that a goroutine closes when the context is done.
\<close>

subsection \<open>Contexts\<close>

record 'v ctx =
  cx_Done :: "int \<Rightarrow> bool"
  cx_Value :: "string \<Rightarrow> 'v option"

definition Background :: "'v ctx" where
  "Background = \<lparr>cx_Done = (\<lambda>t. False), cx_Value = (\<lambda>k. None)\<rparr>"

definition WithTimeout :: "'v ctx \<Rightarrow> int \<Rightarrow> int \<Rightarrow> 'v ctx" where
  "WithTimeout parent now timeout =
     \<lparr>cx_Done = (\<lambda>t. cx_Done parent t \<or> now + timeout \<le> t), cx_Value = cx_Value parent\<rparr>"

text \<open>\<open>contextWrapper\<close>: everything of the embedded context but the values.\<close>

definition contextWrapper :: "'v ctx \<Rightarrow> 'v ctx \<Rightarrow> 'v ctx" where
  "contextWrapper embedded data = embedded\<lparr>cx_Value := cx_Value data\<rparr>"

definition newContextWrapperWithTimeout :: "'v ctx \<Rightarrow> int \<Rightarrow> int \<Rightarrow> 'v ctx" where
  "newContextWrapperWithTimeout data now timeout = contextWrapper (WithTimeout Background now timeout) data"

text \<open>A shadow call sees the caller's values, outlives the caller's context and ends with its timeout.\<close>

lemma shadow_context_detached:
  "cx_Value (newContextWrapperWithTimeout data now timeout) = cx_Value data"
  "cx_Done (newContextWrapperWithTimeout data now timeout) t \<longleftrightarrow> now + timeout \<le> t"
  by (simp_all add: newContextWrapperWithTimeout_def contextWrapper_def WithTimeout_def Background_def)

subsection \<open>The reader\<close>

text \<open>
  The wrapped body: the bytes that are left, how often it was closed, whether the context is done,
  whether the goroutine still waits for that, and what has been read so far.
\<close>

record wrapped_reader =
  wr_left :: string
  wr_closes :: nat
  wr_cancelled :: bool
  wr_waiting :: bool
  wr_read :: string

definition NewReadCloserWrapper :: "string \<Rightarrow> wrapped_reader" where
  "NewReadCloserWrapper body =
     \<lparr>wr_left = body, wr_closes = 0, wr_cancelled = False, wr_waiting = True, wr_read = []\<rparr>"

text \<open>A read of at most \<open>n\<close> bytes; a closed body gives no more.\<close>

definition wrapper_Read :: "nat \<Rightarrow> wrapped_reader \<Rightarrow> string \<times> wrapped_reader" where
  "wrapper_Read n s =
     (if wr_closes s > 0 then ([], s)
      else (take n (wr_left s), s\<lparr>wr_left := drop n (wr_left s), wr_read := wr_read s @ take n (wr_left s)\<rparr>))"

inductive reader_step :: "wrapped_reader \<Rightarrow> wrapped_reader \<Rightarrow> bool" where
  reads: "reader_step s (snd (wrapper_Read n s))"
| cancels: "reader_step s (s\<lparr>wr_cancelled := True\<rparr>)"
| closes: "wr_cancelled s \<Longrightarrow> wr_waiting s \<Longrightarrow>
    reader_step s (s\<lparr>wr_closes := Suc (wr_closes s), wr_waiting := False\<rparr>)"

definition reader_inv :: "string \<Rightarrow> wrapped_reader \<Rightarrow> bool" where
  "reader_inv body s \<longleftrightarrow>
     wr_read s @ wr_left s = body \<and> wr_closes s = (if wr_waiting s then 0 else 1) \<and>
     (\<not> wr_waiting s \<longrightarrow> wr_cancelled s)"

lemma reader_inv_step: "reader_step s s' \<Longrightarrow> reader_inv body s \<Longrightarrow> reader_inv body s'"
  by (induction rule: reader_step.induct) (auto simp: reader_inv_def wrapper_Read_def)

lemma reader_reachable: "reader_step\<^sup>*\<^sup>* (NewReadCloserWrapper body) s \<Longrightarrow> reader_inv body s"
proof (induction rule: rtranclp_induct)
  case base
  show ?case by (simp add: reader_inv_def NewReadCloserWrapper_def)
next
  case (step s s')
  then show ?case by (blast intro: reader_inv_step)
qed

text \<open>
  C37: the body is handed over byte by byte in order; it is closed at most once and only when the context
  is done; while it is open nothing is lost; and once the context is done the goroutine can always
  close it and is then gone.
\<close>

theorem reader_closed_once:
  assumes "reader_step\<^sup>*\<^sup>* (NewReadCloserWrapper body) s"
  shows "wr_read s @ wr_left s = body \<and> wr_closes s \<le> 1 \<and> (wr_closes s = 1 \<longrightarrow> wr_cancelled s) \<and>
    (wr_closes s = 0 \<longrightarrow> wr_read (snd (wrapper_Read (length body) s)) = body) \<and>
    (wr_cancelled s \<longrightarrow> wr_closes s = 0 \<longrightarrow> (\<exists>s'. reader_step s s' \<and> wr_closes s' = 1 \<and> \<not> wr_waiting s'))"
proof -
  have inv: "reader_inv body s" by (rule reader_reachable [OF assms])
  then have len: "length (wr_left s) \<le> length body" by (auto simp: reader_inv_def)
  have "\<exists>s'. reader_step s s' \<and> wr_closes s' = 1 \<and> \<not> wr_waiting s'" if "wr_cancelled s" "wr_closes s = 0"
    using that inv reader_step.closes [of s]
    by (intro exI [of _ "s\<lparr>wr_closes := Suc (wr_closes s), wr_waiting := False\<rparr>"]) (auto simp: reader_inv_def split: if_splits)
  then show ?thesis using inv len by (auto simp: reader_inv_def wrapper_Read_def split: if_splits)
qed

lemma reader_closed_once_witness:
  "wr_closes \<lparr>wr_left = ''b'', wr_closes = 1, wr_cancelled = True, wr_waiting = False, wr_read = ''a''\<rparr> \<le> 1 \<and>
   reader_step\<^sup>*\<^sup>* (NewReadCloserWrapper ''ab'')
     \<lparr>wr_left = ''b'', wr_closes = 1, wr_cancelled = True, wr_waiting = False, wr_read = ''a''\<rparr>"
proof -
  let ?s0 = "NewReadCloserWrapper ''ab''"
  let ?s1 = "snd (wrapper_Read 1 ?s0)"
  let ?s2 = "?s1\<lparr>wr_cancelled := True\<rparr>"
  let ?s3 = "?s2\<lparr>wr_closes := Suc (wr_closes ?s2), wr_waiting := False\<rparr>"
  have "reader_step ?s0 ?s1" "reader_step ?s1 ?s2" by (rule reader_step.reads reader_step.cancels)+
  moreover have "reader_step ?s2 ?s3"
    by (rule reader_step.closes) (simp_all add: NewReadCloserWrapper_def wrapper_Read_def)
  ultimately have "reader_step\<^sup>*\<^sup>* ?s0 ?s3" by (meson converse_rtranclp_into_rtranclp rtranclp.rtrancl_refl)
  moreover have "?s3 = \<lparr>wr_left = ''b'', wr_closes = 1, wr_cancelled = True, wr_waiting = False, wr_read = ''a''\<rparr>"
    by (simp add: NewReadCloserWrapper_def wrapper_Read_def)
  ultimately have run: "reader_step\<^sup>*\<^sup>* ?s0
      \<lparr>wr_left = ''b'', wr_closes = 1, wr_cancelled = True, wr_waiting = False, wr_read = ''a''\<rparr>" by simp
  from reader_closed_once [OF run] run show ?thesis by blast
qed

end
