(* ===== verification/Templates.thy ===== *)
theory Templates
  imports Go_Strings
begin

section \<open>Placeholders in path patterns\<close>

text \<open>
  Both the endpoint paths (\<open>{name}\<close>) and the backend URL patterns (\<open>{{.Name}}\<close>) are plain
  strings whose placeholders the code replaces with \<open>ReplaceAll\<close>.  Here is the structured view the
  lemmas use: a template is a list of literals and holes, \<open>render\<close> writes it as the string the
  code works on, and replacing one placeholder in the string is filling that hole.
\<close>

datatype token = Lit string | Hole string

fun render_token :: "string \<Rightarrow> string \<Rightarrow> token \<Rightarrow> string" where
  "render_token op cl (Lit l) = l"
| "render_token op cl (Hole k) = op @ k @ cl"

definition render :: "string \<Rightarrow> string \<Rightarrow> token list \<Rightarrow> string" where
  "render op cl ts = concat (map (render_token op cl) ts)"

fun fill :: "string \<Rightarrow> string \<Rightarrow> token \<Rightarrow> token" where
  "fill k v (Lit l) = Lit l"
| "fill k v (Hole k') = (if k' = k then Lit v else Hole k')"

text \<open>Filling all holes of a map at once: the result a reader of the configuration expects.\<close>

fun fill_all :: "(string \<rightharpoonup> string) \<Rightarrow> token \<Rightarrow> token" where
  "fill_all m (Lit l) = Lit l"
| "fill_all m (Hole k) = (case m k of None \<Rightarrow> Hole k | Some v \<Rightarrow> Lit v)"

text \<open>
  Delimiters the scanner cannot confuse: a proper suffix of the opening delimiter never starts
  another one, and texts do not hold the delimiters' first bytes.
\<close>

definition good_delims :: "string \<Rightarrow> string \<Rightarrow> bool" where
  "good_delims op cl \<longleftrightarrow> op \<noteq> [] \<and> cl \<noteq> [] \<and> hd op \<notin> set cl \<and>
     (\<forall>n x. 0 < n \<longrightarrow> n < length op \<longrightarrow> \<not> prefix op (drop n op @ x))"

definition plain :: "string \<Rightarrow> string \<Rightarrow> string \<Rightarrow> bool" where
  "plain op cl s \<longleftrightarrow> hd op \<notin> set s \<and> hd cl \<notin> set s"

fun good_token :: "string \<Rightarrow> string \<Rightarrow> token \<Rightarrow> bool" where
  "good_token op cl (Lit l) = (hd op \<notin> set l)"
| "good_token op cl (Hole k) = plain op cl k"

lemma good_delims_colon: "good_delims ''{'' ''}''"
  by (simp add: good_delims_def)

lemma good_delims_path: "good_delims ''{{.'' ''}}''"
proof -
  have "\<not> prefix ''{{.'' (drop n ''{{.'' @ x)" if "0 < n" "n < length ''{{.''" for n x
    using that by (cases n rule: nat.exhaust; cases "n - 1" rule: nat.exhaust) (auto simp: less_Suc_eq)
  then show ?thesis by (simp add: good_delims_def)
qed

lemma prefix_hole_iff:
  assumes "cl \<noteq> []" and "hd cl \<notin> set k" and "hd cl \<notin> set k'"
  shows "prefix (op @ k @ cl) (op @ k' @ cl @ rest) \<longleftrightarrow> k = k'"
  using assms
proof (induction k arbitrary: k')
  case Nil
  then show ?case by (cases k'; cases cl) auto
next
  case (Cons a k)
  then show ?case by (cases k'; cases cl) auto
qed

lemma replace_all_skip:
  assumes "old \<noteq> []" and "\<forall>n < length p. \<not> prefix old (drop n p @ s)"
  shows "replace_all old new (p @ s) = p @ replace_all old new s"
  using assms(2)
proof (induction p)
  case (Cons c p)
  have "\<not> prefix old (c # p @ s)" using Cons.prems by force
  moreover have "\<forall>n < length p. \<not> prefix old (drop n p @ s)"
    using Cons.prems by (metis Suc_less_eq drop_Suc_Cons length_Cons)
  ultimately show ?case using Cons.IH assms(1) by simp
qed simp

lemma not_prefix_in_hole:
  assumes "good_delims op cl" and "plain op cl k'" and "k' \<noteq> k" and "plain op cl k"
    and "n < length (op @ k' @ cl)"
  shows "\<not> prefix (op @ k @ cl) (drop n (op @ k' @ cl) @ rest)"
proof (cases "n = 0")
  case True
  then show ?thesis
    using assms prefix_hole_iff [of cl k k' op rest] by (auto simp: good_delims_def plain_def)
next
  case False
  show ?thesis
  proof (cases "n < length op")
    case True
    then have "\<not> prefix op (drop n op @ k' @ cl @ rest)"
      using assms(1) False by (simp add: good_delims_def)
    then show ?thesis using True by (auto dest: append_prefixD)
  next
    case False
    have "drop n (op @ k' @ cl) \<noteq> []" using assms(5) by (simp only: drop_eq_Nil not_le)
    moreover have "set (drop n (op @ k' @ cl)) \<subseteq> set (k' @ cl)"
      using False by (metis drop_append drop_all linorder_not_less self_append_conv2 set_drop_subset)
    moreover have "hd op \<notin> set (k' @ cl)"
      using assms(1,2) by (simp add: good_delims_def plain_def)
    ultimately have "hd (drop n (op @ k' @ cl) @ rest) \<noteq> hd op" by (metis hd_append2 hd_in_set subsetD)
    moreover have "op \<noteq> []" using assms(1) by (simp add: good_delims_def)
    ultimately show ?thesis
      using \<open>drop n (op @ k' @ cl) \<noteq> []\<close> by (cases op; cases "drop n (op @ k' @ cl)") auto
  qed
qed

text \<open>
  A literal in which the placeholder of \<open>k\<close> cannot start, whatever follows it; texts without the
  opening byte are such literals, and so are placeholders of another style.
\<close>

definition safe_lit :: "string \<Rightarrow> string \<Rightarrow> string \<Rightarrow> string \<Rightarrow> bool" where
  "safe_lit op cl k l \<longleftrightarrow> (\<forall>n < length l. \<forall>s. \<not> prefix (op @ k @ cl) (drop n l @ s))"

fun safe_token :: "string \<Rightarrow> string \<Rightarrow> string \<Rightarrow> token \<Rightarrow> bool" where
  "safe_token op cl k (Lit l) = safe_lit op cl k l"
| "safe_token op cl k (Hole k') = plain op cl k'"

lemma safe_lit_no_head: "op \<noteq> [] \<Longrightarrow> hd op \<notin> set l \<Longrightarrow> safe_lit op cl k l"
proof -
  assume op: "op \<noteq> []" "hd op \<notin> set l"
  have "\<not> prefix (op @ k @ cl) (drop n l @ s)" if "n < length l" for n s
  proof -
    have "l ! n \<noteq> hd op" using op(2) nth_mem [OF that] by auto
    then show ?thesis using op(1) Cons_nth_drop_Suc [OF that, symmetric] by (cases op) auto
  qed
  then show ?thesis by (simp add: safe_lit_def)
qed

lemma replace_all_render_safe:
  assumes "good_delims op cl" and "plain op cl k" and "\<forall>t \<in> set ts. safe_token op cl k t"
  shows "replace_all (op @ k @ cl) v (render op cl ts) = render op cl (map (fill k v) ts)"
  using assms(3)
proof (induction ts)
  case (Cons t ts)
  have ne: "op @ k @ cl \<noteq> []" using assms(1) by (auto simp: good_delims_def)
  show ?case
  proof (cases t)
    case (Lit l)
    then have "\<forall>n < length l. \<not> prefix (op @ k @ cl) (drop n l @ render op cl ts)"
      using Cons.prems by (simp add: safe_lit_def)
    from replace_all_skip [OF ne this, of v] show ?thesis using Lit Cons by (simp add: render_def)
  next
    case (Hole k')
    show ?thesis
    proof (cases "k' = k")
      case True
      then show ?thesis
        using Hole Cons replace_all_hit [OF ne, of v "render op cl ts"] by (simp add: render_def)
    next
      case False
      have "plain op cl k'" using Cons.prems Hole by simp
      then have "\<forall>n < length (op @ k' @ cl). \<not> prefix (op @ k @ cl) (drop n (op @ k' @ cl) @ render op cl ts)"
        using not_prefix_in_hole [OF assms(1)] False assms(2) by blast
      from replace_all_skip [OF ne this, of v] show ?thesis
        using Hole Cons False by (simp add: render_def)
    qed
  qed
qed (simp add: render_def)

lemma good_token_safe: "good_delims op cl \<Longrightarrow> good_token op cl t \<Longrightarrow> safe_token op cl k t"
  by (cases t) (auto simp: good_delims_def safe_lit_no_head)

lemma replace_all_render:
  assumes "good_delims op cl" and "plain op cl k" and "\<forall>t \<in> set ts. good_token op cl t"
  shows "replace_all (op @ k @ cl) v (render op cl ts) = render op cl (map (fill k v) ts)"
  using assms good_token_safe by (intro replace_all_render_safe) auto

text \<open>Replacing the placeholders of a whole map, one \<open>ReplaceAll\<close> after the other.\<close>

fun replace_each :: "string \<Rightarrow> string \<Rightarrow> (string, string) gomap \<Rightarrow> string \<Rightarrow> string" where
  "replace_each op cl [] s = s"
| "replace_each op cl ((k, v) # kvs) s = replace_each op cl kvs (replace_all (op @ k @ cl) v s)"

lemma good_token_fill: "good_token op cl t \<Longrightarrow> hd op \<notin> set v \<Longrightarrow> good_token op cl (fill k v t)"
  by (cases t) auto

lemma fill_all_fill: "k \<notin> fst ` set kvs \<Longrightarrow>
  fill_all (map_of kvs) (fill k v t) = fill_all (map_of ((k, v) # kvs)) t"
  by (cases t) auto

lemma fill_all_empty [simp]: "fill_all (\<lambda>_. None) = id"
proof
  show "fill_all (\<lambda>_. None) t = id t" for t by (cases t) auto
qed

lemma replace_each_render:
  assumes "good_delims op cl" and "wf_map kvs"
    and "\<forall>(k, v) \<in> set kvs. plain op cl k \<and> hd op \<notin> set v"
    and "\<forall>t \<in> set ts. good_token op cl t"
  shows "replace_each op cl kvs (render op cl ts) = render op cl (map (fill_all (map_of kvs)) ts)"
  using assms(2-)
proof (induction kvs arbitrary: ts)
  case (Cons kv kvs)
  obtain k v where kv: "kv = (k, v)" by (cases kv)
  have "\<forall>t \<in> set (map (fill k v) ts). good_token op cl t"
    using Cons.prems kv by (auto intro: good_token_fill)
  then have rest: "replace_each op cl kvs (render op cl (map (fill k v) ts)) =
      render op cl (map (fill_all (map_of kvs)) (map (fill k v) ts))"
    using Cons.IH Cons.prems kv by auto
  have fills: "map (fill_all (map_of kvs)) (map (fill k v) ts) = map (fill_all (map_of (kv # kvs))) ts"
    using Cons.prems(1) kv by (simp add: fill_all_fill del: map_of.simps)
  have "replace_each op cl (kv # kvs) (render op cl ts) =
      replace_each op cl kvs (render op cl (map (fill k v) ts))"
    using Cons.prems kv replace_all_render [OF assms(1), of k ts v] by simp
  then show ?case unfolding rest fills .
qed simp

end
