(* ===== verification/Uri.thy ===== *)
theory Uri
  imports Config_Types Templates
begin

section \<open>Hosts and paths (\<open>config/uri.go\<close>)\<close>

text \<open>
  The two regular expressions of the file as matchers for \<open>find_all\<close>, the host sanitiser with
  its panicking variants, and the endpoint path conversion.  Each pattern is deterministic (the
  repeated class excludes the byte that follows it), so its leftmost-first match is the greedy one.
\<close>

subsection \<open>The patterns\<close>

text \<open>An opening text, a non-empty run of a class, a closing brace; the run is the submatch.\<close>

definition key_match :: "string \<Rightarrow> (char \<Rightarrow> bool) \<Rightarrow> string matcher" where
  "key_match opening cls s =
     (if prefix opening s then
        (let rest = drop (length opening) s; w = span_class cls rest
         in if w \<noteq> [] \<and> prefix ''}'' (drop (length w) rest)
            then Some (w, length opening + length w + 1) else None)
      else None)"

text \<open>\<open>endpointURLKeysPattern\<close>: \<^verbatim>\<open>/\{([a-zA-Z\-_0-9]+)\}\<close>\<close>

definition endpoint_key_char :: "char \<Rightarrow> bool" where
  "endpoint_key_char c \<longleftrightarrow> is_alpha c \<or> c = CHR ''-'' \<or> c = CHR ''_'' \<or> is_digit c"

definition endpointURLKeysPattern :: "string matcher" where
  "endpointURLKeysPattern = key_match ''/{'' endpoint_key_char"

text \<open>\<open>simpleURLKeysPattern\<close> (of \<open>config.go\<close>): \<^verbatim>\<open>\{([\w\-\.:/]+)\}\<close>\<close>

definition simple_key_char :: "char \<Rightarrow> bool" where
  "simple_key_char c \<longleftrightarrow> is_word c \<or> c \<in> set ''-.:/''"

definition simpleURLKeysPattern :: "string matcher" where
  "simpleURLKeysPattern = key_match ''{'' simple_key_char"

text \<open>
  \<open>hostPattern\<close>: \<^verbatim>\<open>(https?://)?([a-zA-Z0-9\._\-]+)(:[0-9]{2,6})?/?\<close>, with its three groups.
\<close>

definition host_char :: "char \<Rightarrow> bool" where
  "host_char c \<longleftrightarrow> is_alpha c \<or> is_digit c \<or> c \<in> set ''._-''"

definition host_port :: "string \<Rightarrow> string" where
  "host_port s =
     (if prefix '':'' s then
        (let ds = take 6 (span_class is_digit (drop 1 s))
         in if 2 \<le> length ds then CHR '':'' # ds else [])
      else [])"

definition host_name_port :: "string \<Rightarrow> (string \<times> string \<times> nat) option" where
  "host_name_port s =
     (let w = span_class host_char s in
      if w = [] then None
      else let r = drop (length w) s; p = host_port r; r' = drop (length p) r
           in Some (w, p, length w + length p + (if prefix ''/'' r' then 1 else 0)))"

definition host_scheme :: "string \<Rightarrow> string" where
  "host_scheme s =
     (if prefix ''http://'' s then ''http://'' else if prefix ''https://'' s then ''https://'' else [])"

definition hostPattern :: "(string \<times> string \<times> string) matcher" where
  "hostPattern s =
     (let sch = host_scheme s in
      case (if sch = [] then None else host_name_port (drop (length sch) s)) of
        Some (w, p, n) \<Rightarrow> Some ((sch, w, p), length sch + n)
      | None \<Rightarrow>
          (case host_name_port s of
             Some (w, p, n) \<Rightarrow> Some (([], w, p), n)
           | None \<Rightarrow> None))"

subsection \<open>The operations\<close>

definition SafeCleanHost :: "string \<Rightarrow> string option" where
  "SafeCleanHost host =
     (case find_all hostPattern host of
        [(sch, w, p)] \<Rightarrow> Some ((if sch = [] then ''http://'' else sch) @ w @ p)
      | _ \<Rightarrow> None)"

fun SafeCleanHosts :: "string list \<Rightarrow> cfg_error + string list" where
  "SafeCleanHosts [] = Inr []"
| "SafeCleanHosts (h # hosts) =
     (case SafeCleanHost h of
        None \<Rightarrow> Inl (InvalidHost h)
      | Some c \<Rightarrow>
          (case SafeCleanHosts hosts of Inl e \<Rightarrow> Inl e | Inr cleaned \<Rightarrow> Inr (c # cleaned)))"

definition CleanHosts :: "string list \<Rightarrow> string list run" where
  "CleanHosts hosts =
     (case SafeCleanHosts hosts of Inl e \<Rightarrow> Panic (cfg_error_msg e) | Inr ss \<Rightarrow> Ret ss)"

definition CleanHost :: "string \<Rightarrow> string run" where
  "CleanHost host = (case SafeCleanHost host of None \<Rightarrow> Panic ''invalid host'' | Some h \<Rightarrow> Ret h)"

definition CleanPath :: "string \<Rightarrow> string" where
  "CleanPath path = CHR ''/'' # trim_prefix ''/'' path"

definition replace_in_path :: "string \<Rightarrow> string \<Rightarrow> string" where
  "replace_in_path p result =
     (let parts = split_on CHR ''?'' result
      in join_with ''?'' (replace_all (''{'' @ p @ ''}'') ('':'' @ p) (hd parts) # tl parts))"

fun GetEndpointPath :: "nat \<Rightarrow> string \<Rightarrow> string list \<Rightarrow> string" where
  "GetEndpointPath u path [] = path"
| "GetEndpointPath u path (p # params) =
     (if u = ColonRouterPatternBuilder
      then GetEndpointPath u (replace_in_path p path) params
      else path)"

subsection \<open>Host sanitising\<close>

lemma host_port_cases:
  "host_port s = [] \<or> (\<exists>ds. host_port s = CHR '':'' # ds \<and> 2 \<le> length ds \<and> length ds \<le> 6 \<and>
     (\<forall>c \<in> set ds. is_digit c))"
  unfolding host_port_def Let_def
  using span_class_set [of _ is_digit "drop 1 s"] by (auto dest: in_set_takeD)

lemma host_name_port_Some:
  assumes "host_name_port s = Some (w, p, n)"
  shows "w \<noteq> []" and "\<forall>c \<in> set w. host_char c"
    and "p = [] \<or> (\<exists>ds. p = CHR '':'' # ds \<and> 2 \<le> length ds \<and> length ds \<le> 6 \<and> (\<forall>c \<in> set ds. is_digit c))"
  using assms host_port_cases span_class_set
  by (auto simp: host_name_port_def Let_def split: if_splits)

lemma hostPattern_Some:
  assumes "hostPattern s = Some ((sch, w, p), n)"
  shows "sch \<in> {[], ''http://'', ''https://''}" and "w \<noteq> []" and "\<forall>c \<in> set w. host_char c"
    and "p = [] \<or> (\<exists>ds. p = CHR '':'' # ds \<and> 2 \<le> length ds \<and> length ds \<le> 6 \<and> (\<forall>c \<in> set ds. is_digit c))"
  using assms host_name_port_Some unfolding hostPattern_def Let_def host_scheme_def
  by (auto split: option.splits if_splits prod.splits)

text \<open>The shape of a clean host: scheme, name, optional port.\<close>

definition clean_host :: "string \<Rightarrow> bool" where
  "clean_host h \<longleftrightarrow> (\<exists>sch w p. h = sch @ w @ p \<and> sch \<in> {''http://'', ''https://''} \<and>
     w \<noteq> [] \<and> (\<forall>c \<in> set w. host_char c) \<and>
     (p = [] \<or> (\<exists>ds. p = CHR '':'' # ds \<and> 2 \<le> length ds \<and> length ds \<le> 6 \<and> (\<forall>c \<in> set ds. is_digit c))))"

lemma find_all_element: "r \<in> set (find_all m s) \<Longrightarrow> \<exists>t n. m t = Some (r, n)"
  by (induction m s rule: find_all.induct) (auto split: option.splits)

lemma SafeCleanHost_shape:
  assumes "SafeCleanHost host = Some h"
  shows "clean_host h"
proof -
  from assms obtain sch w p where f: "find_all hostPattern host = [(sch, w, p)]"
    and h: "h = (if sch = [] then ''http://'' else sch) @ w @ p"
    by (auto simp: SafeCleanHost_def split: list.splits prod.splits)
  from f have "(sch, w, p) \<in> set (find_all hostPattern host)" by simp
  then obtain t n where "hostPattern t = Some ((sch, w, p), n)"
    by (blast dest: find_all_element)
  from hostPattern_Some [OF this] h show ?thesis
    unfolding clean_host_def
    by (intro exI [of _ "if sch = [] then ''http://'' else sch"] exI [of _ w] exI [of _ p]) auto
qed

lemma host_port_clean:
  "p = [] \<or> (\<exists>ds. p = CHR '':'' # ds \<and> 2 \<le> length ds \<and> length ds \<le> 6 \<and> (\<forall>c \<in> set ds. is_digit c)) \<Longrightarrow>
   host_port p = p"
proof (elim disjE exE conjE)
  fix ds
  assume ds: "p = CHR '':'' # ds" "2 \<le> length ds" "length ds \<le> 6" "\<forall>c \<in> set ds. is_digit c"
  then have "span_class is_digit ds = ds"
    using span_class_append [of ds is_digit "[]"] by simp
  then show "host_port p = p" using ds by (simp add: host_port_def)
qed (simp add: host_port_def)

lemma not_host_char [simp]: "\<not> host_char CHR '':''" "\<not> host_char CHR ''/''"
  by (simp_all add: host_char_def is_alpha_def is_lower_def is_upper_def is_digit_def)

lemma host_name_port_clean:
  assumes "w \<noteq> []" and "\<forall>c \<in> set w. host_char c"
    and p: "p = [] \<or> (\<exists>ds. p = CHR '':'' # ds \<and> 2 \<le> length ds \<and> length ds \<le> 6 \<and> (\<forall>c \<in> set ds. is_digit c))"
  shows "host_name_port (w @ p) = Some (w, p, length (w @ p))"
proof -
  have "span_class host_char (w @ p) = w"
    using assms by (intro span_class_append) auto
  then show ?thesis
    using assms(1) host_port_clean [OF p] by (simp add: host_name_port_def Let_def)
qed

lemma SafeCleanHost_clean:
  assumes "clean_host h"
  shows "SafeCleanHost h = Some h"
proof -
  from assms obtain sch w p where h: "h = sch @ w @ p" and sch: "sch \<in> {''http://'', ''https://''}"
    and w: "w \<noteq> []" "\<forall>c \<in> set w. host_char c"
    and p: "p = [] \<or> (\<exists>ds. p = CHR '':'' # ds \<and> 2 \<le> length ds \<and> length ds \<le> 6 \<and> (\<forall>c \<in> set ds. is_digit c))"
    unfolding clean_host_def by blast
  have "host_scheme h = sch" using sch h by (auto simp: host_scheme_def)
  then have "hostPattern h = Some ((sch, w, p), length h)"
    using host_name_port_clean [OF w p] sch h by (auto simp: hostPattern_def Let_def)
  then have "find_all hostPattern (h @ []) = (sch, w, p) # find_all hostPattern []"
    using w h by (intro find_all_match) auto
  then show ?thesis using sch h by (auto simp: SafeCleanHost_def)
qed

lemma SafeCleanHosts_Inr:
  "SafeCleanHosts hosts = Inr cs \<longleftrightarrow> map SafeCleanHost hosts = map Some cs"
proof (induction hosts arbitrary: cs)
  case (Cons h hosts)
  show ?case
  proof (cases "SafeCleanHosts hosts")
    case (Inl e)
    then have "\<nexists>cs. map SafeCleanHost hosts = map Some cs" using Cons.IH by auto
    then show ?thesis using Inl by (auto split: option.splits simp: map_eq_Cons_conv)
  next
    case (Inr ds)
    then have "map SafeCleanHost hosts = map Some ds" using Cons.IH by simp
    then show ?thesis using Inr by (auto split: option.splits simp: map_eq_Cons_conv inj_map_eq_map)
  qed
qed auto

lemma SafeCleanHosts_Inl:
  "SafeCleanHosts hosts = Inl e \<Longrightarrow> \<exists>h \<in> set hosts. SafeCleanHost h = None \<and> e = InvalidHost h"
  by (induction hosts) (auto split: option.splits sum.splits)

subsection \<open>Paths\<close>

lemma CleanPath_prefix: "prefix ''/'' (CleanPath path)"
  by (simp add: CleanPath_def)

lemma CleanPath_idem: "CleanPath (CleanPath path) = CleanPath path"
  by (simp add: CleanPath_def trim_prefix_def)

lemma CleanPath_absolute: "prefix ''/'' path \<Longrightarrow> CleanPath path = path"
  by (auto simp: CleanPath_def trim_prefix_def prefix_def)

text \<open>
  The conversion on a template: every placeholder of the parameter list becomes \<open>:name\<close>, the
  query part is untouched.
\<close>

lemma GetEndpointPath_brackets: "u \<noteq> ColonRouterPatternBuilder \<Longrightarrow> GetEndpointPath u path ps = path"
  by (cases ps) auto

definition query_suffix :: "string \<Rightarrow> bool" where
  "query_suffix r \<longleftrightarrow> r = [] \<or> hd r = CHR ''?''"

lemma replace_in_path_query:
  assumes "CHR ''?'' \<notin> set q" and "query_suffix r"
  shows "replace_in_path p (q @ r) = replace_all (''{'' @ p @ ''}'') ('':'' @ p) q @ r"
proof (cases r)
  case Nil
  then show ?thesis using assms(1) by (simp add: replace_in_path_def split_on_no_occurrence)
next
  case (Cons c r')
  then have r: "r = CHR ''?'' # r'" using assms(2) by (simp add: query_suffix_def)
  have "split_on CHR ''?'' (q @ r) = q # split_on CHR ''?'' r'"
    using assms(1) by (simp add: r split_on_append_sep)
  moreover have "join_with ''?'' (x # split_on CHR ''?'' r') = x @ r" for x
    using join_split [of "CHR ''?''" r'] r by (cases "split_on CHR ''?'' r'") auto
  ultimately show ?thesis by (simp add: replace_in_path_def)
qed

fun no_query_token :: "token \<Rightarrow> bool" where
  "no_query_token (Lit l) = (CHR ''?'' \<notin> set l)"
| "no_query_token (Hole k) = (CHR ''?'' \<notin> set k)"

lemma render_no_query: "(\<forall>t \<in> set ts. no_query_token t) \<Longrightarrow> CHR ''?'' \<notin> set (render ''{'' ''}'' ts)"
proof (induction ts)
  case (Cons t ts)
  then show ?case by (cases t) (auto simp: render_def)
qed (simp add: render_def)

definition colon_params :: "string list \<Rightarrow> string \<rightharpoonup> string" where
  "colon_params ps k = (if k \<in> set ps then Some (CHR '':'' # k) else None)"

lemma fill_all_colon: "fill_all (colon_params ps) (fill p (CHR '':'' # p) t) = fill_all (colon_params (p # ps)) t"
  by (cases t) (auto simp: colon_params_def)

lemma GetEndpointPath_render:
  assumes "\<forall>p \<in> set ps. plain ''{'' ''}'' p \<and> CHR ''?'' \<notin> set p"
    and "\<forall>t \<in> set ts. good_token ''{'' ''}'' t \<and> no_query_token t"
    and "query_suffix r"
  shows "GetEndpointPath ColonRouterPatternBuilder (render ''{'' ''}'' ts @ r) ps =
    render ''{'' ''}'' (map (fill_all (colon_params ps)) ts) @ r"
  using assms(1,2)
proof (induction ps arbitrary: ts)
  case Nil
  have "fill_all (colon_params []) = id"
    by (simp add: colon_params_def [abs_def])
  then show ?case by simp
next
  case (Cons p ps)
  let ?ts = "map (fill p (CHR '':'' # p)) ts"
  have good: "good_token ''{'' ''}'' (fill p (CHR '':'' # p) t) \<and> no_query_token (fill p (CHR '':'' # p) t)"
    if "t \<in> set ts" for t
  proof -
    have "good_token ''{'' ''}'' t \<and> no_query_token t" using that Cons.prems(2) by blast
    moreover have "plain ''{'' ''}'' p \<and> CHR ''?'' \<notin> set p" using Cons.prems(1) by simp
    ultimately show ?thesis by (cases t) (auto simp: plain_def)
  qed
  have "replace_in_path p (render ''{'' ''}'' ts @ r) = render ''{'' ''}'' ?ts @ r"
    using Cons.prems assms(3) replace_all_render [OF good_delims_colon, of p ts "CHR '':'' # p"]
    by (simp add: replace_in_path_query render_no_query)
  then have "GetEndpointPath ColonRouterPatternBuilder (render ''{'' ''}'' ts @ r) (p # ps) =
      GetEndpointPath ColonRouterPatternBuilder (render ''{'' ''}'' ?ts @ r) ps" by simp
  also have "\<dots> = render ''{'' ''}'' (map (fill_all (colon_params ps)) ?ts) @ r"
    using Cons.prems good by (intro Cons.IH) auto
  also have "map (fill_all (colon_params ps)) ?ts = map (fill_all (colon_params (p # ps))) ts"
    by (simp add: fill_all_colon)
  finally show ?case .
qed

end
