(* ===== verification/Config_Init.thy ===== *)
theory Config_Init
  imports Uri Encoding
begin

section \<open>Initialisation of the service configuration (\<open>config/config.go\<close>)\<close>

text \<open>
  \<open>ServiceConfig.Init\<close> and everything it calls: global parameters, async agents, endpoints with
  their validation, defaults and URL mappings.  The code updates the structs behind pointers and
  stops at the first error; the model returns the updated record or that error.  What the package
  keeps in variables or takes from other modules is the record \<open>cfg_env\<close>: the two patterns that
  setters can replace, the aliases, \<open>cases.Title\<close> on a string, \<open>net.ParseIP\<close> answering
  non-nil, the \<open>%v\<close> rendering of a key, and the decoder register.
\<close>

subsection \<open>The package's variables\<close>

record cfg_env =
  env_sequential :: "string \<Rightarrow> bool"
  env_invalid :: "string \<Rightarrow> string + bool"
  env_alias :: "(string, string) gomap"
  env_title :: "string \<Rightarrow> string"
  env_ParseIP :: "string \<Rightarrow> bool"
  env_show :: "json \<Rightarrow> string"
  env_json :: json_parser
  env_decoders :: decoder_register

abbreviation newline :: char where
  "newline \<equiv> CHR 0x0A"

text \<open>\<open>sequentialParamsPattern\<close>: \<^verbatim>\<open>^(resp[\d]+_.+)?(JWT\.([\w\-\.:/]+))?$\<close>; each group is optional, so it accepts the empty string.\<close>

definition sequentialParamsPattern :: "string \<Rightarrow> bool" where
  "sequentialParamsPattern s \<longleftrightarrow>
     s = [] \<or>
     (prefix ''resp'' s \<and>
       (let ds = span_class is_digit (drop 4 s); r = drop (4 + length ds) s
        in ds \<noteq> [] \<and> prefix ''_'' r \<and> tl r \<noteq> [] \<and> newline \<notin> set r)) \<or>
     (prefix ''JWT.'' s \<and> drop 4 s \<noteq> [] \<and> list_all simple_key_char (drop 4 s))"

text \<open>\<open>invalidPattern\<close>: \<^verbatim>\<open>^[^/]|\*.|/__(debug|echo|health)(/.*)?$\<close>\<close>

fun star_and_char :: "string \<Rightarrow> bool" where
  "star_and_char [] = False"
| "star_and_char (c # cs) = (c = CHR ''*'' \<and> cs \<noteq> [] \<and> hd cs \<noteq> newline \<or> star_and_char cs)"

definition reserved_here :: "string \<Rightarrow> bool" where
  "reserved_here s =
     list_ex (\<lambda>w. prefix w s \<and> (let r = drop (length w) s in r = [] \<or> prefix ''/'' r \<and> newline \<notin> set r))
       [''/__debug'', ''/__echo'', ''/__health'']"

fun reserved_suffix :: "string \<Rightarrow> bool" where
  "reserved_suffix [] = False"
| "reserved_suffix (c # cs) = (reserved_here (c # cs) \<or> reserved_suffix cs)"

definition invalidPattern :: "string \<Rightarrow> bool" where
  "invalidPattern s \<longleftrightarrow> (s \<noteq> [] \<and> hd s \<noteq> CHR ''/'') \<or> star_and_char s \<or> reserved_suffix s"

definition SetSequentialParamsPattern :: "(string \<Rightarrow> string + (string \<Rightarrow> bool)) \<Rightarrow> string \<Rightarrow> cfg_env \<Rightarrow> string + cfg_env" where
  "SetSequentialParamsPattern compile pattern env =
     (case compile pattern of Inl e \<Rightarrow> Inl e | Inr re \<Rightarrow> Inr (env\<lparr>env_sequential := re\<rparr>))"

definition SetInvalidPattern :: "(string \<Rightarrow> string \<Rightarrow> string + bool) \<Rightarrow> string \<Rightarrow> cfg_env \<Rightarrow> cfg_env" where
  "SetInvalidPattern matchString pattern env = env\<lparr>env_invalid := matchString pattern\<rparr>"

text \<open>The variables as declared, for given foreign functions.\<close>

definition default_env :: "(string \<Rightarrow> string) \<Rightarrow> (string \<Rightarrow> bool) \<Rightarrow> (json \<Rightarrow> string) \<Rightarrow> json_parser \<Rightarrow> cfg_env" where
  "default_env title parse_ip show_v jdec =
     \<lparr>env_sequential = sequentialParamsPattern, env_invalid = Inr \<circ> invalidPattern, env_alias = [],
      env_title = title, env_ParseIP = parse_ip, env_show = show_v, env_json = jdec,
      env_decoders = initDecoderRegister jdec\<rparr>"

subsection \<open>\<open>ExtraConfig\<close>\<close>

definition sanitize_value :: "(json \<Rightarrow> string) \<Rightarrow> json \<Rightarrow> json" where
  "sanitize_value show_v extra =
     (case extra of
        JMapI kvs \<Rightarrow> JObj (put_all (map (\<lambda>(k, v). (show_v k, v)) kvs) [])
      | _ \<Rightarrow> extra)"

definition sanitize :: "(json \<Rightarrow> string) \<Rightarrow> fields \<Rightarrow> fields" where
  "sanitize show_v e = map (\<lambda>(module, extra). (module, sanitize_value show_v extra)) e"

text \<open>The modules that are present when the loop starts are visited once each.\<close>

fun normalize_modules :: "(string, string) gomap \<Rightarrow> string list \<Rightarrow> fields \<Rightarrow> fields" where
  "normalize_modules alias [] e = e"
| "normalize_modules alias (m # ms) e =
     (case map_of alias m of
        Some a \<Rightarrow> normalize_modules alias ms
           (go_del m (go_put a (case map_of e m of Some v \<Rightarrow> v | None \<Rightarrow> JNull) e))
      | None \<Rightarrow> normalize_modules alias ms e)"

definition ExtraConfig_Normalize :: "(string, string) gomap \<Rightarrow> fields \<Rightarrow> fields" where
  "ExtraConfig_Normalize alias e = normalize_modules alias (map fst e) e"

definition Backend_Normalize :: "(string, string) gomap \<Rightarrow> Backend \<Rightarrow> Backend" where
  "Backend_Normalize alias b = b\<lparr>be_ExtraConfig := ExtraConfig_Normalize alias (be_ExtraConfig b)\<rparr>"

definition ServiceConfig_Normalize :: "cfg_env \<Rightarrow> ServiceConfig \<Rightarrow> ServiceConfig" where
  "ServiceConfig_Normalize env s =
     (let nrm = ExtraConfig_Normalize (env_alias env); nb = Backend_Normalize (env_alias env) in
      s\<lparr>sc_ExtraConfig := nrm (sc_ExtraConfig s),
        sc_Endpoints := map (\<lambda>e. e\<lparr>ep_ExtraConfig := nrm (ep_ExtraConfig e),
                                   ep_Backend := map nb (ep_Backend e)\<rparr>) (sc_Endpoints s),
        sc_AsyncAgents := map (\<lambda>a. a\<lparr>ag_ExtraConfig := nrm (ag_ExtraConfig a),
                                     ag_Backend := map nb (ag_Backend a)\<rparr>) (sc_AsyncAgents s)\<rparr>)"

text \<open>\<open>Hash\<close>: \<open>marshal\<close> is \<open>json.Marshal\<close>, \<open>digest\<close> the base64 of the SHA-256 sum.  The name is put back.\<close>

definition ServiceConfig_Hash ::
  "(ServiceConfig \<Rightarrow> gerror + string) \<Rightarrow> (string \<Rightarrow> string) \<Rightarrow> ServiceConfig \<Rightarrow> (gerror + string) \<times> ServiceConfig" where
  "ServiceConfig_Hash marshal digest s =
     (let name = sc_Name s; s' = s\<lparr>sc_Name := []\<rparr> in
      (case marshal s' of Inl e \<Rightarrow> Inl e | Inr b \<Rightarrow> Inr (digest b), s'\<lparr>sc_Name := name\<rparr>))"

subsection \<open>Global parameters and async agents\<close>

definition validateAddress :: "cfg_env \<Rightarrow> string \<Rightarrow> bool" where
  "validateAddress env address = env_ParseIP env address"

definition initGlobalParams :: "cfg_env \<Rightarrow> ServiceConfig \<Rightarrow> cfg_error + ServiceConfig" where
  "initGlobalParams env s =
     (let s = (if sc_Port s = 0 then s\<lparr>sc_Port := defaultPort\<rparr> else s) in
      if sc_Address s \<noteq> [] \<and> \<not> validateAddress env (sc_Address s) then Inl (InvalidAddress (sc_Address s))
      else
        (let s = (if sc_MaxIdleConnsPerHost s = 0
                  then s\<lparr>sc_MaxIdleConnsPerHost := DefaultMaxIdleConnsPerHost\<rparr> else s);
             s = (if sc_Timeout s = 0 then s\<lparr>sc_Timeout := DefaultTimeout\<rparr> else s)
         in case SafeCleanHosts (sc_Host s) of
              Inl e \<Rightarrow> Inl e
            | Inr hs \<Rightarrow> Inr (s\<lparr>sc_Host := hs,
                sc_ExtraConfig := sanitize (env_show env) (sc_ExtraConfig s)\<rparr>)))"

definition backend_hosts :: "ServiceConfig \<Rightarrow> Backend \<Rightarrow> cfg_error + string list" where
  "backend_hosts s b =
     (if be_Host b = [] then Inr (sc_Host s)
      else if \<not> be_HostSanitizationDisabled b then SafeCleanHosts (be_Host b)
      else Inr (be_Host b))"

definition backend_decoder :: "cfg_env \<Rightarrow> string \<Rightarrow> bool \<Rightarrow> decoder" where
  "backend_decoder env enc isCollection =
     DecoderRegister_Get (env_json env) (env_decoders env) (to_lower enc) isCollection"

text \<open>Loops that replace each element or stop at the first error.\<close>

fun map_err :: "('a \<Rightarrow> 'e + 'b) \<Rightarrow> 'a list \<Rightarrow> 'e + 'b list" where
  "map_err f [] = Inr []"
| "map_err f (x # xs) =
     (case f x of Inl e \<Rightarrow> Inl e
      | Inr y \<Rightarrow> (case map_err f xs of Inl e \<Rightarrow> Inl e | Inr ys \<Rightarrow> Inr (y # ys)))"

definition initAsyncAgentDefaults :: "ServiceConfig \<Rightarrow> AsyncAgent \<Rightarrow> AsyncAgent" where
  "initAsyncAgentDefaults s agent =
     (let c = ag_Consumer agent; cn = ag_Connection agent;
          c = (if sc_Timeout s \<noteq> 0 \<and> cs_Timeout c = 0 then c\<lparr>cs_Timeout := sc_Timeout s\<rparr> else c);
          c = (if cs_Workers c < 1 then c\<lparr>cs_Workers := 1\<rparr> else c);
          cn = (if cn_HealthInterval cn < cfg_Second then cn\<lparr>cn_HealthInterval := cfg_Second\<rparr> else cn)
      in agent\<lparr>ag_Consumer := c, ag_Connection := cn\<rparr>)"

definition initAsyncBackend :: "cfg_env \<Rightarrow> ServiceConfig \<Rightarrow> AsyncAgent \<Rightarrow> Backend \<Rightarrow> cfg_error + Backend" where
  "initAsyncBackend env s e b =
     (case backend_hosts s b of
        Inl err \<Rightarrow> Inl err
      | Inr hs \<Rightarrow> Inr (b\<lparr>be_Host := hs,
          be_Method := (if be_Method b = [] then ''GET'' else be_Method b),
          be_Timeout := cs_Timeout (ag_Consumer e),
          be_Decoder := backend_decoder env (be_Encoding b) (be_IsCollection b),
          be_ExtraConfig := sanitize (env_show env) (be_ExtraConfig b)\<rparr>))"

definition initAsyncAgent :: "cfg_env \<Rightarrow> ServiceConfig \<Rightarrow> AsyncAgent \<Rightarrow> cfg_error + AsyncAgent" where
  "initAsyncAgent env s agent =
     (let e = initAsyncAgentDefaults s agent in
      case map_err (initAsyncBackend env s e) (ag_Backend e) of
        Inl err \<Rightarrow> Inl err
      | Inr bs \<Rightarrow> Inr (e\<lparr>ag_ExtraConfig := sanitize (env_show env) (ag_ExtraConfig e), ag_Backend := bs\<rparr>))"

definition initAsyncAgents :: "cfg_env \<Rightarrow> ServiceConfig \<Rightarrow> cfg_error + ServiceConfig" where
  "initAsyncAgents env s =
     (case map_err (initAsyncAgent env s) (sc_AsyncAgents s) of
        Inl e \<Rightarrow> Inl e | Inr as \<Rightarrow> Inr (s\<lparr>sc_AsyncAgents := as\<rparr>))"

subsection \<open>Endpoints\<close>

definition endpoint_validate :: "cfg_env \<Rightarrow> EndpointConfig \<Rightarrow> cfg_error option" where
  "endpoint_validate env e =
     (case env_invalid env (ep_Endpoint e) of
        Inl err \<Rightarrow> Some (EndpointMatchError (ep_Endpoint e) (ep_Method e) err)
      | Inr matched \<Rightarrow>
          if matched then Some (EndpointPathError (ep_Endpoint e) (ep_Method e))
          else if ep_Backend e = [] then Some (NoBackendsError (ep_Endpoint e) (ep_Method e))
          else None)"

definition paramExtractionPattern :: "ServiceConfig \<Rightarrow> string matcher" where
  "paramExtractionPattern s = (if sc_DisableStrictREST s then simpleURLKeysPattern else endpointURLKeysPattern)"

definition extractPlaceHoldersFromURLTemplate :: "string \<Rightarrow> string matcher \<Rightarrow> string list" where
  "extractPlaceHoldersFromURLTemplate subject pattern = find_all pattern subject"

definition initEndpointDefaults :: "ServiceConfig \<Rightarrow> EndpointConfig \<Rightarrow> EndpointConfig" where
  "initEndpointDefaults s e =
     (let e = (if ep_Method e = [] then e\<lparr>ep_Method := ''GET''\<rparr> else e);
          e = (if sc_CacheTTL s \<noteq> 0 \<and> ep_CacheTTL e = 0 then e\<lparr>ep_CacheTTL := sc_CacheTTL s\<rparr> else e);
          e = (if sc_Timeout s \<noteq> 0 \<and> ep_Timeout e = 0 then e\<lparr>ep_Timeout := sc_Timeout s\<rparr> else e);
          e = (if ep_ConcurrentCalls e = 0 then e\<lparr>ep_ConcurrentCalls := 1\<rparr> else e)
      in if ep_OutputEncoding e = []
         then e\<lparr>ep_OutputEncoding := (if sc_OutputEncoding s \<noteq> [] then sc_OutputEncoding s else JSON)\<rparr>
         else e)"

definition initBackendDefaults :: "cfg_env \<Rightarrow> ServiceConfig \<Rightarrow> EndpointConfig \<Rightarrow> Backend \<Rightarrow> cfg_error + Backend" where
  "initBackendDefaults env s endpoint b =
     (case backend_hosts s b of
        Inl err \<Rightarrow> Inl err
      | Inr hs \<Rightarrow>
          (let enc = (if ep_OutputEncoding endpoint = NOOP then NOOP else be_Encoding b) in
           Inr (b\<lparr>be_Host := hs,
             be_Method := (if be_Method b = [] then ep_Method endpoint else be_Method b),
             be_Encoding := enc,
             be_Timeout := ep_Timeout endpoint,
             be_ConcurrentCalls := ep_ConcurrentCalls endpoint,
             be_Decoder := backend_decoder env enc (be_IsCollection b),
             be_HeadersToPass := map CanonicalMIMEHeaderKey (be_HeadersToPass b),
             be_SDScheme := (if be_SDScheme b = [] then ''http'' else be_SDScheme b)\<rparr>)))"

text \<open>
  \<open>uniqueOutput\<close> on the sorted slice: \<open>j\<close> is the last kept index, \<open>i\<close> the reading index, the
  slice is overwritten in place.
\<close>

function unique_loop :: "(string \<Rightarrow> bool) \<Rightarrow> string list \<Rightarrow> nat \<Rightarrow> nat \<Rightarrow> nat \<Rightarrow> string list \<times> nat \<times> nat" where
  "unique_loop sq output j outputSetSize i =
     (if i < length output then
        if output ! j = output ! i then unique_loop sq output j outputSetSize (Suc i)
        else unique_loop sq (output[Suc j := output ! i]) (Suc j)
               (if sq (output ! j) then outputSetSize else Suc outputSetSize) (Suc i)
      else (output, j, outputSetSize))"
  by pat_completeness auto
termination
  by (relation "measure (\<lambda>(sq, output, j, n, i). length output - i)") auto

declare unique_loop.simps [simp del]

definition uniqueOutput :: "(string \<Rightarrow> bool) \<Rightarrow> string list \<Rightarrow> string list \<times> nat" where
  "uniqueOutput sq output =
     (case unique_loop sq (sort output) 0 0 1 of (output', j, outputSetSize) \<Rightarrow>
        if j = length output' then (output', outputSetSize) else (take (Suc j) output', outputSetSize))"

definition input_set :: "string list \<Rightarrow> (string, unit) gomap" where
  "input_set ips = put_all (map (\<lambda>ip. (ip, ())) ips) []"

definition fromSetToSortedSlice :: "(string, unit) gomap \<Rightarrow> string list" where
  "fromSetToSortedSlice st = sort (map fst st)"

definition output_key :: "cfg_env \<Rightarrow> string \<Rightarrow> string" where
  "output_key env out = env_title env (take 1 out) @ drop 1 out"

text \<open>The loop over the output parameters: \<open>Inl\<close> is the undefined parameter.\<close>

fun url_mapping :: "cfg_env \<Rightarrow> (string, unit) gomap \<Rightarrow> string list \<Rightarrow> string \<Rightarrow> string list \<Rightarrow> string + string \<times> string list" where
  "url_mapping env inputParams [] pattern urlKeys = Inr (pattern, urlKeys)"
| "url_mapping env inputParams (out # outs) pattern urlKeys =
     (if \<not> env_sequential env out \<and> map_of inputParams out = None then Inl out
      else
        (let key = output_key env out in
         url_mapping env inputParams outs
           (replace_all (''{'' @ out @ ''}'') (''{{.'' @ key @ ''}}'') pattern) (urlKeys @ [key])))"

definition initBackendURLMappings ::
  "cfg_env \<Rightarrow> EndpointConfig \<Rightarrow> nat \<Rightarrow> (string, unit) gomap \<Rightarrow> Backend \<Rightarrow> cfg_error + Backend" where
  "initBackendURLMappings env e b inputParams backend =
     (let pattern = CleanPath (be_URLPattern backend);
          (outputParams, outputSetSize) = uniqueOutput (env_sequential env)
             (extractPlaceHoldersFromURLTemplate pattern simpleURLKeysPattern);
          ip = fromSetToSortedSlice inputParams
      in if outputSetSize > length ip
         then Inl (WrongNumberOfParamsError (ep_Endpoint e) (ep_Method e) b ip outputParams)
         else (case url_mapping env inputParams outputParams pattern [] of
                 Inl out \<Rightarrow> Inl (UndefinedOutputParamError (ep_Endpoint e) (ep_Method e) b ip outputParams out)
               | Inr (pattern', urlKeys) \<Rightarrow>
                   Inr (backend\<lparr>be_URLPattern := pattern', be_URLKeys := urlKeys\<rparr>)))"

definition initEndpointBackend ::
  "cfg_env \<Rightarrow> ServiceConfig \<Rightarrow> EndpointConfig \<Rightarrow> (string, unit) gomap \<Rightarrow> nat \<times> Backend \<Rightarrow> cfg_error + Backend" where
  "initEndpointBackend env s e inputSet jb =
     (let b = (snd jb)\<lparr>be_ParentEndpoint := ep_Endpoint e, be_ParentEndpointMethod := ep_Method e\<rparr> in
      case initBackendDefaults env s e b of
        Inl err \<Rightarrow> Inl err
      | Inr b \<Rightarrow>
          (case initBackendURLMappings env e (fst jb) inputSet b of
             Inl err \<Rightarrow> Inl err
           | Inr b \<Rightarrow> Inr (b\<lparr>be_ExtraConfig := sanitize (env_show env) (be_ExtraConfig b)\<rparr>)))"

definition initEndpoint :: "cfg_env \<Rightarrow> ServiceConfig \<Rightarrow> EndpointConfig \<Rightarrow> cfg_error + EndpointConfig" where
  "initEndpoint env s e0 =
     (let e = e0\<lparr>ep_Endpoint := CleanPath (ep_Endpoint e0)\<rparr> in
      case endpoint_validate env e of
        Some err \<Rightarrow> Inl err
      | None \<Rightarrow>
          (let inputParams = extractPlaceHoldersFromURLTemplate (ep_Endpoint e) (paramExtractionPattern s);
               inputSet = input_set inputParams;
               e = e\<lparr>ep_HeadersToPass := map CanonicalMIMEHeaderKey (ep_HeadersToPass e),
                     ep_Endpoint := GetEndpointPath (sc_uriParser s) (ep_Endpoint e) inputParams\<rparr>;
               e = initEndpointDefaults s e
           in if ep_OutputEncoding e = NOOP \<and> length (ep_Backend e) > 1 then Inl InvalidNoOpEncoding
              else
                (let e = e\<lparr>ep_ExtraConfig := sanitize (env_show env) (ep_ExtraConfig e)\<rparr> in
                 case map_err (initEndpointBackend env s e inputSet) (enumerate 0 (ep_Backend e)) of
                   Inl err \<Rightarrow> Inl err
                 | Inr bs \<Rightarrow> Inr (e\<lparr>ep_Backend := bs\<rparr>))))"

definition initEndpoints :: "cfg_env \<Rightarrow> ServiceConfig \<Rightarrow> cfg_error + ServiceConfig" where
  "initEndpoints env s =
     (case map_err (initEndpoint env s) (sc_Endpoints s) of
        Inl err \<Rightarrow> Inl err | Inr es \<Rightarrow> Inr (s\<lparr>sc_Endpoints := es\<rparr>))"

text \<open>\<open>NewSafeURIParser\<close> returns the routing pattern in force when it is called.\<close>

definition Init :: "cfg_env \<Rightarrow> nat \<Rightarrow> ServiceConfig \<Rightarrow> cfg_error + ServiceConfig" where
  "Init env routingPattern s =
     (let s = s\<lparr>sc_uriParser := routingPattern\<rparr> in
      if sc_Version s \<noteq> ConfigVersion then Inl (UnsupportedVersionError (sc_Version s) ConfigVersion)
      else case initGlobalParams env s of
             Inl err \<Rightarrow> Inl err
           | Inr s \<Rightarrow>
               (case initAsyncAgents env s of
                  Inl err \<Rightarrow> Inl err
                | Inr s \<Rightarrow> initEndpoints env s))"

subsection \<open>Loops\<close>

lemma map_err_Inr: "map_err f xs = Inr ys \<longleftrightarrow> list_all2 (\<lambda>x y. f x = Inr y) xs ys"
proof (induction xs arbitrary: ys)
  case (Cons x xs)
  have "map_err f (x # xs) = Inr ys \<longleftrightarrow> (\<exists>y zs. ys = y # zs \<and> f x = Inr y \<and> map_err f xs = Inr zs)"
    by (auto split: sum.split)
  then show ?case unfolding Cons.IH list_all2_Cons1 .
qed auto

lemma map_err_Inl:
  "map_err f xs = Inl e \<Longrightarrow> \<exists>ps x qs. xs = ps @ x # qs \<and> f x = Inl e \<and> (\<forall>p \<in> set ps. \<exists>y. f p = Inr y)"
proof (induction xs)
  case (Cons x xs)
  show ?case
  proof (cases "f x")
    case (Inl e')
    then show ?thesis using Cons.prems by (intro exI [of _ "[]"]) auto
  next
    case (Inr y)
    then obtain ps z qs where "xs = ps @ z # qs" "f z = Inl e" "\<forall>p \<in> set ps. \<exists>y. f p = Inr y"
      using Cons by (auto split: sum.splits)
    then show ?thesis using Inr by (intro exI [of _ "x # ps"]) auto
  qed
qed simp

lemma map_err_all:
  assumes "map_err f xs = Inr ys" and "\<And>x y. x \<in> set xs \<Longrightarrow> f x = Inr y \<Longrightarrow> P y"
  shows "list_all P ys"
  using assms(1) [unfolded map_err_Inr] assms(2)
  by (induction xs ys rule: list_all2_induct) auto

lemma map_err_length: "map_err f xs = Inr ys \<Longrightarrow> length ys = length xs"
  unfolding map_err_Inr by (auto dest: list_all2_lengthD)

subsection \<open>The in-place deduplication is the sorted set\<close>

definition count_open :: "(string \<Rightarrow> bool) \<Rightarrow> string list \<Rightarrow> nat" where
  "count_open sq xs = length [x \<leftarrow> xs. \<not> sq x]"

lemma unique_loop_spec:
  "\<exists>junk'. unique_loop sq (p @ x # junk @ rest) (length p) n (length p + 1 + length junk) =
     (p @ remdups_adj (x # rest) @ junk', length p + length (remdups_adj (x # rest)) - 1,
      n + count_open sq (butlast (remdups_adj (x # rest))))"
proof (induction rest arbitrary: p x junk n)
  case Nil
  then show ?case by (subst unique_loop.simps) (simp add: count_open_def)
next
  case (Cons y rest)
  let ?o = "p @ x # junk @ y # rest"
  have nth: "?o ! length p = x" "?o ! (length p + 1 + length junk) = y"
    by (simp_all add: nth_append)
  show ?case
  proof (cases "x = y")
    case True
    have "unique_loop sq ?o (length p) n (length p + 1 + length junk) =
        unique_loop sq (p @ x # (junk @ [y]) @ rest) (length p) n (length p + 1 + length (junk @ [y]))"
      using nth True by (subst unique_loop.simps) simp
    then show ?thesis using Cons.IH [of p x "junk @ [y]" n] True by simp
  next
    case False
    obtain junk' where upd: "?o[Suc (length p) := y] = (p @ [x]) @ y # junk' @ rest" "length junk' = length junk"
    proof (cases junk)
      case (Cons j js)
      then show ?thesis using that [of "js @ [y]"] by (simp add: list_update_append)
    qed (use that [of "[]"] in \<open>simp add: list_update_append\<close>)
    have "unique_loop sq ?o (length p) n (length p + 1 + length junk) =
        unique_loop sq ((p @ [x]) @ y # junk' @ rest) (length (p @ [x])) (if sq x then n else Suc n)
          (length (p @ [x]) + 1 + length junk')"
      using nth False upd by (subst unique_loop.simps) simp
    then show ?thesis
      using Cons.IH [of "p @ [x]" y junk' "if sq x then n else Suc n"] False
      by (cases "remdups_adj (y # rest)") (auto simp: count_open_def)
  qed
qed

lemma distinct_remdups_adj_sorted: "sorted (xs :: string list) \<Longrightarrow> distinct (remdups_adj xs)"
  by (induction xs rule: remdups_adj.induct) auto

lemma remdups_adj_sorted_set: "sorted (xs :: string list) \<Longrightarrow> remdups_adj xs = sorted_list_of_set (set xs)"
  by (metis distinct_remdups_adj_sorted remdups_adj_set sorted_list_of_set.idem_if_sorted_distinct sorted_remdups_adj)

lemma uniqueOutput_spec:
  "uniqueOutput sq xs =
     (sorted_list_of_set (set xs), count_open sq (butlast (sorted_list_of_set (set xs))))"
proof (cases "sort xs")
  case Nil
  then have "xs = []" by (metis length_0_conv length_sort)
  then show ?thesis by (simp add: uniqueOutput_def unique_loop.simps count_open_def)
next
  case (Cons x rest)
  then have dd: "remdups_adj (x # rest) = sorted_list_of_set (set xs)"
    by (metis set_sort remdups_adj_sorted_set sorted_sort)
  from unique_loop_spec [of sq "[]" x "[]" rest 0] dd
  obtain junk where loop: "unique_loop sq (x # rest) 0 0 1 =
      (sorted_list_of_set (set xs) @ junk, length (sorted_list_of_set (set xs)) - 1,
       count_open sq (butlast (sorted_list_of_set (set xs))))" by auto
  have "sorted_list_of_set (set xs) \<noteq> []" using dd by (metis list.distinct(1) remdups_adj_Nil_iff)
  then obtain n where "length (sorted_list_of_set (set xs)) = Suc n"
    by (cases "sorted_list_of_set (set xs)") auto
  then show ?thesis using loop Cons by (simp add: uniqueOutput_def)
qed

subsection \<open>Output parameters\<close>

lemma input_set_keys: "set (map fst (input_set ips)) = set ips" "wf_map (input_set ips)"
proof -
  have "fst ` set (put_all (map (\<lambda>ip. (ip, ())) ips) m) = fst ` set m \<union> set ips" for m :: "(string, unit) gomap"
    by (induction ips arbitrary: m) (auto simp: dom_update dom_map_of_conv_image_fst [symmetric] go_map_simps)
  then show "set (map fst (input_set ips)) = set ips" by (simp add: input_set_def)
  show "wf_map (input_set ips)" unfolding input_set_def by (rule wf_map_put_all) simp
qed

lemma input_set_lookup: "map_of (input_set ips) k = None \<longleftrightarrow> k \<notin> set ips"
  using input_set_keys(1) [of ips] by (simp add: map_of_eq_None_iff)

lemma fromSetToSortedSlice_input: "fromSetToSortedSlice (input_set ips) = sorted_list_of_set (set ips)"
  unfolding fromSetToSortedSlice_def
  using input_set_keys [of ips] by (metis sorted_list_of_set_sort_remdups wf_map_def distinct_remdups_id)

definition undeclared :: "cfg_env \<Rightarrow> (string, unit) gomap \<Rightarrow> string \<Rightarrow> bool" where
  "undeclared env ips out \<longleftrightarrow> \<not> env_sequential env out \<and> map_of ips out = None"

fun replace_keys :: "cfg_env \<Rightarrow> string list \<Rightarrow> string \<Rightarrow> string" where
  "replace_keys env [] pattern = pattern"
| "replace_keys env (out # outs) pattern =
     replace_keys env outs (replace_all (''{'' @ out @ ''}'') (''{{.'' @ output_key env out @ ''}}'') pattern)"

lemma url_mapping_spec:
  "url_mapping env ips outs pattern ks =
     (case find (undeclared env ips) outs of
        Some out \<Rightarrow> Inl out
      | None \<Rightarrow> Inr (replace_keys env outs pattern, ks @ map (output_key env) outs))"
  by (induction env ips outs pattern ks rule: url_mapping.induct) (auto simp: undeclared_def Let_def split: option.split)

definition backend_outputs :: "Backend \<Rightarrow> string list" where
  "backend_outputs b = sorted_list_of_set
     (set (extractPlaceHoldersFromURLTemplate (CleanPath (be_URLPattern b)) simpleURLKeysPattern))"

lemma initBackendURLMappings_Inr_iff:
  "initBackendURLMappings env e j (input_set ips) b = Inr b' \<longleftrightarrow>
     (\<forall>out \<in> set (backend_outputs b). env_sequential env out \<or> out \<in> set ips) \<and>
     b' = b\<lparr>be_URLPattern := replace_keys env (backend_outputs b) (CleanPath (be_URLPattern b)),
            be_URLKeys := map (output_key env) (backend_outputs b)\<rparr>"
  (is "_ \<longleftrightarrow> ?declared \<and> _")
proof -
  have find: "find (undeclared env (input_set ips)) (backend_outputs b) = None \<longleftrightarrow> ?declared"
    by (auto simp: find_None_iff undeclared_def input_set_lookup)
  have count: "count_open (env_sequential env) (butlast (backend_outputs b)) \<le> length (sorted_list_of_set (set ips))"
    if ?declared
  proof -
    let ?xs = "[x \<leftarrow> butlast (backend_outputs b). \<not> env_sequential env x]"
    have "distinct (butlast (backend_outputs b))" by (simp add: backend_outputs_def distinct_butlast)
    then have "length ?xs = card (set ?xs)" by (metis distinct_card distinct_filter)
    also have "\<dots> \<le> card (set ips)" using that by (intro card_mono) (auto dest: in_set_butlastD)
    finally show ?thesis by (simp add: count_open_def)
  qed
  show ?thesis
  proof (cases ?declared)
    case True
    then show ?thesis using count find
      by (auto simp: initBackendURLMappings_def uniqueOutput_spec fromSetToSortedSlice_input
          url_mapping_spec backend_outputs_def [symmetric] Let_def)
  next
    case False
    then show ?thesis using find
      by (auto simp: initBackendURLMappings_def uniqueOutput_spec fromSetToSortedSlice_input
          url_mapping_spec backend_outputs_def [symmetric] Let_def)
  qed
qed

subsection \<open>What initialisation establishes\<close>

definition valid_backend :: "cfg_env \<Rightarrow> EndpointConfig \<Rightarrow> Backend \<Rightarrow> bool" where
  "valid_backend env e b \<longleftrightarrow>
     be_Method b \<noteq> [] \<and> be_SDScheme b \<noteq> [] \<and> be_Timeout b = ep_Timeout e \<and>
     be_ConcurrentCalls b = ep_ConcurrentCalls e \<and> be_ParentEndpoint b = ep_Endpoint e \<and>
     be_ParentEndpointMethod b = ep_Method e \<and>
     (\<not> be_HostSanitizationDisabled b \<longrightarrow> list_all clean_host (be_Host b)) \<and>
     (ep_OutputEncoding e = NOOP \<longrightarrow> be_Encoding b = NOOP) \<and>
     be_Decoder b = backend_decoder env (be_Encoding b) (be_IsCollection b) \<and>
     list_all (\<lambda>h. CanonicalMIMEHeaderKey h = h) (be_HeadersToPass b) \<and>
     prefix ''/'' (be_URLPattern b)"

definition valid_endpoint :: "cfg_env \<Rightarrow> EndpointConfig \<Rightarrow> bool" where
  "valid_endpoint env e \<longleftrightarrow>
     prefix ''/'' (ep_Endpoint e) \<and> ep_Method e \<noteq> [] \<and> ep_Timeout e \<noteq> 0 \<and> ep_ConcurrentCalls e \<noteq> 0 \<and>
     ep_OutputEncoding e \<noteq> [] \<and> ep_Backend e \<noteq> [] \<and>
     (ep_OutputEncoding e = NOOP \<longrightarrow> length (ep_Backend e) = 1) \<and>
     list_all (\<lambda>h. CanonicalMIMEHeaderKey h = h) (ep_HeadersToPass e) \<and>
     list_all (valid_backend env e) (ep_Backend e)"

definition valid_agent :: "cfg_env \<Rightarrow> AsyncAgent \<Rightarrow> bool" where
  "valid_agent env a \<longleftrightarrow>
     cs_Timeout (ag_Consumer a) \<noteq> 0 \<and> 1 \<le> cs_Workers (ag_Consumer a) \<and>
     cfg_Second \<le> cn_HealthInterval (ag_Connection a) \<and>
     list_all (\<lambda>b. be_Method b \<noteq> [] \<and> be_Timeout b = cs_Timeout (ag_Consumer a) \<and>
       (\<not> be_HostSanitizationDisabled b \<longrightarrow> list_all clean_host (be_Host b)) \<and>
       be_Decoder b = backend_decoder env (be_Encoding b) (be_IsCollection b)) (ag_Backend a)"

definition valid_service :: "cfg_env \<Rightarrow> ServiceConfig \<Rightarrow> bool" where
  "valid_service env s \<longleftrightarrow>
     sc_Version s = ConfigVersion \<and> sc_Port s \<noteq> 0 \<and> sc_Timeout s \<noteq> 0 \<and> sc_MaxIdleConnsPerHost s \<noteq> 0 \<and>
     (sc_Address s \<noteq> [] \<longrightarrow> env_ParseIP env (sc_Address s)) \<and>
     list_all clean_host (sc_Host s) \<and>
     list_all (valid_agent env) (sc_AsyncAgents s) \<and> list_all (valid_endpoint env) (sc_Endpoints s)"

lemma SafeCleanHosts_clean: "SafeCleanHosts hosts = Inr cs \<Longrightarrow> list_all clean_host cs"
  unfolding SafeCleanHosts_Inr
proof (induction cs arbitrary: hosts)
  case (Cons c cs)
  then show ?case by (cases hosts) (auto dest: SafeCleanHost_shape)
qed simp

lemma backend_hosts_clean:
  "backend_hosts s b = Inr hs \<Longrightarrow> list_all clean_host (sc_Host s) \<Longrightarrow> \<not> be_HostSanitizationDisabled b \<Longrightarrow>
   list_all clean_host hs"
  by (auto simp: backend_hosts_def SafeCleanHosts_clean split: if_splits)

lemma replace_all_slash: "prefix ''/'' s \<Longrightarrow> prefix ''/'' (replace_all (CHR ''{'' # o') new s)"
  by (cases s) auto

lemma replace_keys_slash: "prefix ''/'' s \<Longrightarrow> prefix ''/'' (replace_keys env outs s)"
  by (induction env outs s rule: replace_keys.induct) (simp_all add: replace_all_slash)

lemma replace_in_path_slash: "prefix ''/'' s \<Longrightarrow> prefix ''/'' (replace_in_path p s)"
proof -
  assume "prefix ''/'' s"
  then obtain s' where s: "s = CHR ''/'' # s'" by (cases s) auto
  obtain q qs where q: "split_on CHR ''?'' s = (CHR ''/'' # q) # qs"
    unfolding s by (cases "split_on CHR ''?'' s'") auto
  show ?thesis unfolding replace_in_path_def q by (cases qs) auto
qed

lemma GetEndpointPath_slash: "prefix ''/'' s \<Longrightarrow> prefix ''/'' (GetEndpointPath u s ps)"
  by (induction u s ps rule: GetEndpointPath.induct) (auto intro: replace_in_path_slash)

lemma canonical_all: "list_all (\<lambda>h. CanonicalMIMEHeaderKey h = h) (map CanonicalMIMEHeaderKey hs)"
  by (induction hs) simp_all

lemma initBackendDefaults_fields:
  assumes "initBackendDefaults env s e b0 = Inr b" and "list_all clean_host (sc_Host s)"
    and "ep_Method e \<noteq> []" and "be_ParentEndpoint b0 = ep_Endpoint e" and "be_ParentEndpointMethod b0 = ep_Method e"
  shows "valid_backend env e (b\<lparr>be_URLPattern := ''/''\<rparr>)"
proof -
  obtain hs where hs: "backend_hosts s b0 = Inr hs"
    using assms(1) by (auto simp: initBackendDefaults_def split: sum.splits)
  have "\<not> be_HostSanitizationDisabled b0 \<longrightarrow> list_all clean_host hs"
    using backend_hosts_clean [OF hs assms(2)] by blast
  then show ?thesis
    using assms(1,3-) hs canonical_all [of "be_HeadersToPass b0"]
    by (auto simp: initBackendDefaults_def valid_backend_def Let_def split: if_splits)
qed

lemma initEndpointBackend_valid:
  assumes "initEndpointBackend env s e (input_set ips) jb = Inr b" and "list_all clean_host (sc_Host s)"
    and "ep_Method e \<noteq> []"
  shows "valid_backend env e b"
proof -
  let ?b = "(snd jb)\<lparr>be_ParentEndpoint := ep_Endpoint e, be_ParentEndpointMethod := ep_Method e\<rparr>"
  obtain b1 where b1: "initBackendDefaults env s e ?b = Inr b1"
    using assms(1) by (auto simp: initEndpointBackend_def Let_def split: sum.splits)
  obtain b2 where b2: "initBackendURLMappings env e (fst jb) (input_set ips) b1 = Inr b2"
    using assms(1) b1 by (auto simp: initEndpointBackend_def Let_def split: sum.splits)
  have b: "b = b2\<lparr>be_ExtraConfig := sanitize (env_show env) (be_ExtraConfig b2)\<rparr>"
    using assms(1) b1 b2 by (auto simp: initEndpointBackend_def Let_def)
  have "valid_backend env e (b1\<lparr>be_URLPattern := ''/''\<rparr>)"
    by (rule initBackendDefaults_fields [OF b1 assms(2,3)]) simp_all
  moreover have "prefix ''/'' (replace_keys env (backend_outputs b1) (CleanPath (be_URLPattern b1)))"
    using replace_keys_slash CleanPath_prefix by blast
  ultimately show ?thesis
    using b2 unfolding b initBackendURLMappings_Inr_iff by (auto simp: valid_backend_def)
qed

lemma initEndpointDefaults_fields:
  "sc_Timeout s \<noteq> 0 \<Longrightarrow> ep_Method (initEndpointDefaults s e) \<noteq> []"
  "sc_Timeout s \<noteq> 0 \<Longrightarrow> ep_Timeout (initEndpointDefaults s e) \<noteq> 0"
  "ep_ConcurrentCalls (initEndpointDefaults s e) \<noteq> 0"
  "ep_OutputEncoding (initEndpointDefaults s e) \<noteq> []"
  "ep_Endpoint (initEndpointDefaults s e) = ep_Endpoint e"
  "ep_Backend (initEndpointDefaults s e) = ep_Backend e"
  "ep_HeadersToPass (initEndpointDefaults s e) = ep_HeadersToPass e"
  "ep_ExtraConfig (initEndpointDefaults s e) = ep_ExtraConfig e"
  by (simp_all add: initEndpointDefaults_def Let_def JSON_def)

lemma initEndpoint_valid:
  assumes "initEndpoint env s e0 = Inr e" and "list_all clean_host (sc_Host s)" and "sc_Timeout s \<noteq> 0"
  shows "valid_endpoint env e"
proof -
  define e1 where "e1 = e0\<lparr>ep_Endpoint := CleanPath (ep_Endpoint e0)\<rparr>"
  define ips where "ips = extractPlaceHoldersFromURLTemplate (ep_Endpoint e1) (paramExtractionPattern s)"
  define e2 where "e2 = e1\<lparr>ep_HeadersToPass := map CanonicalMIMEHeaderKey (ep_HeadersToPass e1),
    ep_Endpoint := GetEndpointPath (sc_uriParser s) (ep_Endpoint e1) ips\<rparr>"
  define e3 where "e3 = (initEndpointDefaults s e2)
    \<lparr>ep_ExtraConfig := sanitize (env_show env) (ep_ExtraConfig (initEndpointDefaults s e2))\<rparr>"
  have valid: "endpoint_validate env e1 = None"
    using assms(1) by (auto simp: initEndpoint_def Let_def e1_def split: option.splits)
  then have ne: "ep_Backend e1 \<noteq> []" by (auto simp: endpoint_validate_def split: sum.splits if_splits)
  have res: "\<not> (ep_OutputEncoding e3 = NOOP \<and> length (ep_Backend e3) > 1) \<and>
      (\<exists>bs. map_err (initEndpointBackend env s e3 (input_set ips)) (enumerate 0 (ep_Backend e3)) = Inr bs \<and>
        e = e3\<lparr>ep_Backend := bs\<rparr>)"
    using assms(1) valid
    unfolding initEndpoint_def Let_def e1_def [symmetric] ips_def [symmetric] e2_def [symmetric] option.case
      e3_def
    by (auto split: if_splits sum.splits)
  then obtain bs where noop: "ep_OutputEncoding e3 = NOOP \<longrightarrow> length (ep_Backend e3) \<le> 1"
    and bs: "map_err (initEndpointBackend env s e3 (input_set ips)) (enumerate 0 (ep_Backend e3)) = Inr bs"
    and e: "e = e3\<lparr>ep_Backend := bs\<rparr>" by (auto simp: not_less)
  have e3: "ep_Method e3 \<noteq> []" "ep_Timeout e3 \<noteq> 0" "ep_ConcurrentCalls e3 \<noteq> 0" "ep_OutputEncoding e3 \<noteq> []"
    "ep_Backend e3 = ep_Backend e1" "ep_HeadersToPass e3 = map CanonicalMIMEHeaderKey (ep_HeadersToPass e1)"
    using initEndpointDefaults_fields [of s e2] assms(3) by (simp_all add: e3_def e2_def)
  have "prefix ''/'' (ep_Endpoint e3)"
    using GetEndpointPath_slash CleanPath_prefix
    by (simp add: e3_def e2_def e1_def initEndpointDefaults_fields)
  moreover have "list_all (valid_backend env e3) bs"
    using bs by (rule map_err_all) (rule initEndpointBackend_valid [OF _ assms(2) e3(1)])
  moreover have "valid_backend env e = valid_backend env e3"
    by (simp add: fun_eq_iff valid_backend_def e)
  moreover have "length bs = length (ep_Backend e3)" using map_err_length [OF bs] by simp
  ultimately show ?thesis
    using e3 ne noop canonical_all [of "ep_HeadersToPass e1"]
    by (auto simp: valid_endpoint_def e le_Suc_eq)
qed

lemma initAsyncAgent_valid:
  assumes "initAsyncAgent env s a0 = Inr a" and "list_all clean_host (sc_Host s)" and "sc_Timeout s \<noteq> 0"
  shows "valid_agent env a"
proof -
  define a1 where "a1 = initAsyncAgentDefaults s a0"
  obtain bs where bs: "map_err (initAsyncBackend env s a1) (ag_Backend a1) = Inr bs"
    and a: "a = a1\<lparr>ag_ExtraConfig := sanitize (env_show env) (ag_ExtraConfig a1), ag_Backend := bs\<rparr>"
    using assms(1) by (auto simp: initAsyncAgent_def Let_def a1_def split: sum.splits)
  have a1: "cs_Timeout (ag_Consumer a1) \<noteq> 0" "1 \<le> cs_Workers (ag_Consumer a1)"
    "cfg_Second \<le> cn_HealthInterval (ag_Connection a1)"
    using assms(3) by (simp_all add: a1_def initAsyncAgentDefaults_def Let_def)
  have "list_all (\<lambda>b. be_Method b \<noteq> [] \<and> be_Timeout b = cs_Timeout (ag_Consumer a1) \<and>
       (\<not> be_HostSanitizationDisabled b \<longrightarrow> list_all clean_host (be_Host b)) \<and>
       be_Decoder b = backend_decoder env (be_Encoding b) (be_IsCollection b)) bs"
    using bs
  proof (rule map_err_all)
    fix b0 b
    assume "initAsyncBackend env s a1 b0 = Inr b"
    then show "be_Method b \<noteq> [] \<and> be_Timeout b = cs_Timeout (ag_Consumer a1) \<and>
       (\<not> be_HostSanitizationDisabled b \<longrightarrow> list_all clean_host (be_Host b)) \<and>
       be_Decoder b = backend_decoder env (be_Encoding b) (be_IsCollection b)"
      using backend_hosts_clean [OF _ assms(2), of b0]
      by (auto simp: initAsyncBackend_def split: sum.splits if_splits)
  qed
  then show ?thesis using a1 by (simp add: valid_agent_def a)
qed

lemma initGlobalParams_fields:
  assumes "initGlobalParams env s0 = Inr s"
  shows "sc_Version s = sc_Version s0" "sc_Port s \<noteq> 0" "sc_Timeout s \<noteq> 0" "sc_MaxIdleConnsPerHost s \<noteq> 0"
    "sc_Address s \<noteq> [] \<longrightarrow> env_ParseIP env (sc_Address s)" "list_all clean_host (sc_Host s)"
    "sc_AsyncAgents s = sc_AsyncAgents s0" "sc_Endpoints s = sc_Endpoints s0"
    "sc_uriParser s = sc_uriParser s0"
  using assms SafeCleanHosts_clean
  by (auto simp: initGlobalParams_def Let_def validateAddress_def defaultPort_def DefaultTimeout_def
      cfg_Second_def DefaultMaxIdleConnsPerHost_def split: if_splits sum.splits)

lemma Init_valid:
  assumes "Init env u s0 = Inr s"
  shows "valid_service env s"
proof -
  obtain s1 s2 where v: "sc_Version s0 = ConfigVersion"
    and s1: "initGlobalParams env (s0\<lparr>sc_uriParser := u\<rparr>) = Inr s1"
    and s2: "initAsyncAgents env s1 = Inr s2" and s: "initEndpoints env s2 = Inr s"
    using assms by (auto simp: Init_def Let_def split: if_splits sum.splits)
  note g = initGlobalParams_fields [OF s1]
  obtain as where as: "map_err (initAsyncAgent env s1) (sc_AsyncAgents s1) = Inr as"
    and s2': "s2 = s1\<lparr>sc_AsyncAgents := as\<rparr>"
    using s2 by (auto simp: initAsyncAgents_def split: sum.splits)
  obtain es where es: "map_err (initEndpoint env s2) (sc_Endpoints s2) = Inr es"
    and s': "s = s2\<lparr>sc_Endpoints := es\<rparr>"
    using s by (auto simp: initEndpoints_def split: sum.splits)
  have "list_all (valid_agent env) as"
    using as by (rule map_err_all) (rule initAsyncAgent_valid [OF _ g(6,3)])
  moreover have "sc_Timeout s2 \<noteq> 0" "list_all clean_host (sc_Host s2)" using g(3,6) by (simp_all add: s2')
  then have "list_all (valid_endpoint env) es"
    using map_err_all [OF es] initEndpoint_valid by blast
  ultimately show ?thesis using g v by (simp add: valid_service_def s2' s')
qed

text \<open>
  C7: a configuration that initialises is consistent: supported version, no zero default left, valid
  address, clean hosts wherever sanitising is on, and every endpoint and backend wired to each
  other (method, timeout, concurrency, encoding, decoder, canonical headers, absolute paths).
\<close>

theorem Init_establishes_validity:
  assumes "Init env u s0 = Inr s"
  shows "valid_service env s"
  by (rule Init_valid [OF assms])

text \<open>
  the parameter check of a backend accepts exactly the patterns whose placeholders are all
  sequential or declared by the endpoint; then the URL keys are the distinct placeholders in order,
  with the first byte title-cased, and each one is replaced in the pattern.
\<close>

theorem url_mappings_exact:
  "initBackendURLMappings env e j (input_set ips) b = Inr b' \<longleftrightarrow>
     (\<forall>out \<in> set (extractPlaceHoldersFromURLTemplate (CleanPath (be_URLPattern b)) simpleURLKeysPattern).
        env_sequential env out \<or> out \<in> set ips) \<and>
     b' = b\<lparr>be_URLPattern := replace_keys env (backend_outputs b) (CleanPath (be_URLPattern b)),
            be_URLKeys := map (output_key env) (backend_outputs b)\<rparr>"
  by (simp add: initBackendURLMappings_Inr_iff backend_outputs_def)

text \<open>
  the in-place deduplication computes the sorted set of the placeholders, and the number it
  returns next to it counts the non-sequential ones among all but the greatest.
\<close>

theorem unique_output_exact:
  "uniqueOutput sq xs =
     (sorted_list_of_set (set xs), count_open sq (butlast (sorted_list_of_set (set xs))))"
  by (rule uniqueOutput_spec)

definition sample_env :: cfg_env where
  "sample_env = default_env (map up_char) (\<lambda>a. a = ''127.0.0.1'') (\<lambda>v. ''key'') (\<lambda>s. Inr JNull)"

definition sample_service :: ServiceConfig where
  "sample_service = zero_service\<lparr>sc_Version := 3, sc_Host := [''api.example.com:8080''],
     sc_Endpoints := [zero_endpoint\<lparr>ep_Endpoint := ''/users/{id}'', ep_HeadersToPass := [''x-token''],
       ep_Backend := [zero_backend\<lparr>be_URLPattern := ''/u/{id}?full=1''\<rparr>]\<rparr>]\<rparr>"

lemma sample_service_inits: "\<exists>s. Init sample_env ColonRouterPatternBuilder sample_service = Inr s"
proof -
  have "\<not> isl (Init sample_env ColonRouterPatternBuilder sample_service)" by code_simp
  then show ?thesis by (cases "Init sample_env ColonRouterPatternBuilder sample_service") auto
qed

lemma Init_establishes_validity_witness:
  "\<exists>s. Init sample_env ColonRouterPatternBuilder sample_service = Inr s \<and> valid_service sample_env s"
  using sample_service_inits Init_establishes_validity by blast

lemma url_mappings_exact_witness:
  "\<exists>b'. initBackendURLMappings sample_env zero_endpoint 0 (input_set [''id'']) (zero_backend\<lparr>be_URLPattern := ''/u/{id}''\<rparr>)
     = Inr b' \<and> be_URLKeys b' = [''Id'']"
proof -
  let ?b = "zero_backend\<lparr>be_URLPattern := ''/u/{id}''\<rparr>"
  let ?b' = "?b\<lparr>be_URLPattern := replace_keys sample_env (backend_outputs ?b) (CleanPath (be_URLPattern ?b)),
    be_URLKeys := map (output_key sample_env) (backend_outputs ?b)\<rparr>"
  have "\<forall>out \<in> set (extractPlaceHoldersFromURLTemplate (CleanPath (be_URLPattern ?b)) simpleURLKeysPattern).
      env_sequential sample_env out \<or> out \<in> set [''id'']" by code_simp
  then have "initBackendURLMappings sample_env zero_endpoint 0 (input_set [''id'']) ?b = Inr ?b'"
    using url_mappings_exact [of sample_env zero_endpoint 0 "[''id'']" ?b ?b'] by blast
  moreover have "be_URLKeys ?b' = [''Id'']" by code_simp
  ultimately show ?thesis by blast
qed

end
