(* ===== verification/Request.thy ===== *)
theory Request
  imports Config_Init
begin

section \<open>Requests: paths and copies (\<open>proxy/request.go\<close>)\<close>

text \<open>
  Path generation, the shallow and the deep copy of a request, and, on an explicit heap of byte
  arrays, the buffer pool the deep copy uses: the pool's buffers are reused, so what matters is
  that no body still in use shares an array with them.
\<close>

subsection \<open>Operations\<close>

definition GeneratePath :: "string \<Rightarrow> request \<Rightarrow> request" where
  "GeneratePath URLPattern r =
     (if entries (rParams r) = [] then r\<lparr>rPath := URLPattern\<rparr>
      else r\<lparr>rPath := replace_each ''{{.'' ''}}'' (entries (rParams r)) URLPattern\<rparr>)"

text \<open>
  \<open>reparse\<close> is \<open>url.Parse(u.String())\<close>, which gives nil when the text does not parse back.
  Query, body, parameters and headers are shared with the original.
\<close>

definition Clone :: "(url \<Rightarrow> url option) \<Rightarrow> request \<Rightarrow> request" where
  "Clone reparse r = r\<lparr>rURL := Option.bind (rURL r) reparse\<rparr>"

definition CloneRequestHeaders :: "(string, string list) gomap option \<Rightarrow> (string, string list) gomap" where
  "CloneRequestHeaders headers = put_all (entries headers) []"

definition CloneRequestParams :: "(string, string) gomap option \<Rightarrow> (string, string) gomap" where
  "CloneRequestParams params = put_all (entries params) []"

text \<open>The copy, and the original as the call leaves it: its reader is drained and replaced by one over the same bytes.\<close>

definition CloneRequest :: "(url \<Rightarrow> url option) \<Rightarrow> request \<Rightarrow> request \<times> request" where
  "CloneRequest reparse r =
     (let clone = (Clone reparse r)\<lparr>rHeaders := Some (CloneRequestHeaders (rHeaders r)),
                                    rParams := Some (CloneRequestParams (rParams r))\<rparr> in
      case rBody r of
        None \<Rightarrow> (clone, r)
      | Some data \<Rightarrow> (clone\<lparr>rBody := Some data\<rparr>, r\<lparr>rBody := Some data\<rparr>))"

subsection \<open>The buffer pool\<close>

text \<open>
  Byte arrays live at addresses below \<open>hpNext\<close>; \<open>hpPool\<close> are the arrays of the pooled
  buffers.  \<open>sync.Pool.Get\<close> may return any pooled buffer or a new one: the argument \<open>pick\<close>
  chooses.  A body in use is the address of its array.
\<close>

record body_heap =
  hpNext :: nat
  hpMem :: "nat \<Rightarrow> string"
  hpPool :: "nat list"

definition alloc :: "string \<Rightarrow> body_heap \<Rightarrow> nat \<times> body_heap" where
  "alloc bytes h = (hpNext h, h\<lparr>hpNext := Suc (hpNext h), hpMem := (hpMem h)(hpNext h := bytes)\<rparr>)"

definition pool_Get :: "nat \<Rightarrow> body_heap \<Rightarrow> nat \<times> body_heap" where
  "pool_Get pick h =
     (if pick < length (hpPool h)
      then (hpPool h ! pick, h\<lparr>hpPool := take pick (hpPool h) @ drop (Suc pick) (hpPool h)\<rparr>)
      else alloc [] h)"

definition pool_Put :: "nat \<Rightarrow> body_heap \<Rightarrow> body_heap" where
  "pool_Put buf h = h\<lparr>hpPool := buf # hpPool h\<rparr>"

definition write_array :: "nat \<Rightarrow> string \<Rightarrow> body_heap \<Rightarrow> body_heap" where
  "write_array a bytes h = h\<lparr>hpMem := (hpMem h)(a := bytes)\<rparr>"

text \<open>The part of \<open>CloneRequest\<close> behind the nil check: the arrays of the original's new body and of the copy's.\<close>

definition CloneRequest_body :: "nat \<Rightarrow> nat \<Rightarrow> body_heap \<Rightarrow> nat \<times> nat \<times> body_heap" where
  "CloneRequest_body pick body h =
     (let (buf, h) = pool_Get pick h;
          h = write_array buf [] h;
          h = write_array buf (hpMem h body) h;
          (originalBody, h) = alloc (hpMem h buf) h;
          (clonedBody, h) = alloc (hpMem h buf) h
      in (originalBody, clonedBody, pool_Put buf h))"

text \<open>Any number of later copies, of whatever bodies.\<close>

fun clone_many :: "(nat \<times> nat) list \<Rightarrow> body_heap \<Rightarrow> body_heap" where
  "clone_many [] h = h"
| "clone_many ((pick, body) # cs) h = clone_many cs (snd (snd (CloneRequest_body pick body h)))"

subsection \<open>Isolation\<close>

definition wf_heap :: "body_heap \<Rightarrow> bool" where
  "wf_heap h \<longleftrightarrow> (\<forall>a \<in> set (hpPool h). a < hpNext h)"

definition in_use :: "body_heap \<Rightarrow> nat \<Rightarrow> bool" where
  "in_use h a \<longleftrightarrow> a < hpNext h \<and> a \<notin> set (hpPool h)"

lemma pool_Get_cases:
  assumes "wf_heap h" and "pool_Get pick h = (buf, h')"
  shows "(\<forall>a. in_use h a \<longrightarrow> a \<noteq> buf \<and> a < hpNext h' \<and> hpMem h' a = hpMem h a)" and "buf < hpNext h'"
    and "set (hpPool h') \<subseteq> set (hpPool h)" and "hpNext h \<le> hpNext h'"
proof -
  consider (pooled) "pick < length (hpPool h)" | (new) "\<not> pick < length (hpPool h)" by blast
  then have "(\<forall>a. in_use h a \<longrightarrow> a \<noteq> buf \<and> a < hpNext h' \<and> hpMem h' a = hpMem h a) \<and>
    buf < hpNext h' \<and> set (hpPool h') \<subseteq> set (hpPool h) \<and> hpNext h \<le> hpNext h'"
  proof cases
    case pooled
    then have "hpPool h ! pick \<in> set (hpPool h)" by simp
    then show ?thesis
      using assms pooled
      by (auto simp: pool_Get_def wf_heap_def in_use_def dest: in_set_takeD in_set_dropD)
  next
    case new
    then show ?thesis using assms by (auto simp: pool_Get_def alloc_def in_use_def)
  qed
  then show "(\<forall>a. in_use h a \<longrightarrow> a \<noteq> buf \<and> a < hpNext h' \<and> hpMem h' a = hpMem h a)" and "buf < hpNext h'"
    and "set (hpPool h') \<subseteq> set (hpPool h)" and "hpNext h \<le> hpNext h'" by blast+
qed

lemma CloneRequest_body_spec:
  assumes "wf_heap h" and "in_use h body" and "CloneRequest_body pick body h = (ob, cb, h')"
  shows "wf_heap h' \<and> in_use h' ob \<and> in_use h' cb \<and> ob \<noteq> cb \<and>
    hpMem h' ob = hpMem h body \<and> hpMem h' cb = hpMem h body \<and>
    (\<forall>a. in_use h a \<longrightarrow> in_use h' a \<and> hpMem h' a = hpMem h a)"
proof -
  obtain buf h1 where g: "pool_Get pick h = (buf, h1)" by (cases "pool_Get pick h")
  note P = pool_Get_cases [OF assms(1) g]
  have b: "body \<noteq> buf" "hpMem h1 body = hpMem h body" using P(1) assms(2) by auto
  have ob: "ob = hpNext h1" and cb: "cb = Suc (hpNext h1)"
    and h': "hpNext h' = Suc (Suc (hpNext h1))" "hpPool h' = buf # hpPool h1"
      "hpMem h' = (hpMem h1)(buf := hpMem h body, hpNext h1 := hpMem h body, Suc (hpNext h1) := hpMem h body)"
    using assms(3) g b P(2)
    by (auto simp: CloneRequest_body_def Let_def write_array_def alloc_def pool_Put_def)
  have pool: "\<forall>a \<in> set (hpPool h1). a < hpNext h1"
    using P(3,4) assms(1) by (fastforce simp: wf_heap_def)
  have old: "in_use h' a \<and> hpMem h' a = hpMem h a" if "in_use h a" for a
    using that P(1,3) by (auto simp: in_use_def h')
  show ?thesis using pool P(2) old by (auto simp: wf_heap_def in_use_def ob cb h')
qed

lemma clone_many_keeps:
  assumes "wf_heap h" and "\<forall>(pick, body) \<in> set cs. in_use h body" and "in_use h a"
  shows "hpMem (clone_many cs h) a = hpMem h a \<and> in_use (clone_many cs h) a"
  using assms
proof (induction cs h rule: clone_many.induct)
  case (2 pick body cs h)
  obtain ob cb h' where c: "CloneRequest_body pick body h = (ob, cb, h')"
    by (cases "CloneRequest_body pick body h") auto
  have S: "wf_heap h'" "\<forall>a. in_use h a \<longrightarrow> in_use h' a \<and> hpMem h' a = hpMem h a"
    using CloneRequest_body_spec [OF "2.prems"(1) _ c] "2.prems"(2) by auto
  have "\<forall>(pick, body) \<in> set cs. in_use h' body" using "2.prems"(2) S(2) by auto
  then have "hpMem (clone_many cs h') a = hpMem h' a \<and> in_use (clone_many cs h') a"
    using "2.IH" c S "2.prems"(3) by simp
  then show ?case using c S(2) "2.prems"(3) by simp
qed simp

text \<open>
  C21: the two bodies a deep copy leaves hold the bytes of the body, at different arrays, and no
  series of later copies, which reuse the pooled buffers in any order, changes a byte of them.
\<close>

theorem clone_bodies_isolated:
  assumes "wf_heap h" and "in_use h body" and "CloneRequest_body pick body h = (ob, cb, h')"
    and "\<forall>(p, b) \<in> set cs. in_use h' b"
  shows "ob \<noteq> cb \<and> hpMem (clone_many cs h') ob = hpMem h body \<and> hpMem (clone_many cs h') cb = hpMem h body"
  using CloneRequest_body_spec [OF assms(1-3)] clone_many_keeps [OF _ assms(4)] by auto

lemma clone_bodies_isolated_witness:
  "let h = \<lparr>hpNext = 3, hpMem = (\<lambda>_. [])(2 := ''abc''), hpPool = [0, 1]\<rparr>;
       (ob, cb, h') = CloneRequest_body 1 2 h
   in hpMem (clone_many [(0, 2), (1, 3)] h') ob = ''abc''"
  using clone_bodies_isolated [of "\<lparr>hpNext = 3, hpMem = (\<lambda>_. [])(2 := ''abc''), hpPool = [0, 1]\<rparr>" 2 1 3 4 _ "[(0, 2), (1, 3)]"]
  by (simp add: CloneRequest_body_def pool_Get_def alloc_def write_array_def pool_Put_def wf_heap_def in_use_def Let_def)

subsection \<open>From the configured URL pattern to the path of a request\<close>

text \<open>
  A backend URL pattern as a template over \<open>{name}\<close> placeholders.  Names are runs of the
  class the configuration's pattern accepts and do not start with a dot.
\<close>

fun url_token :: "token \<Rightarrow> bool" where
  "url_token (Lit l) = (CHR ''{'' \<notin> set l)"
| "url_token (Hole k) = (k \<noteq> [] \<and> list_all simple_key_char k \<and> hd k \<noteq> CHR ''.'')"

fun hole_of :: "token \<Rightarrow> string list" where
  "hole_of (Lit l) = []"
| "hole_of (Hole k) = [k]"

definition holes :: "token list \<Rightarrow> string list" where
  "holes ts = concat (map hole_of ts)"

lemma simple_key_char_braces [simp]: "\<not> simple_key_char CHR ''{''" "\<not> simple_key_char CHR ''}''"
  by (simp_all add: simple_key_char_def is_word_def is_alpha_def is_lower_def is_upper_def is_digit_def)

lemma simple_keys_plain: "list_all simple_key_char k \<Longrightarrow> CHR ''{'' \<notin> set k \<and> CHR ''}'' \<notin> set k"
  by (auto simp: list_all_iff)

lemma simpleURLKeys_hole:
  assumes "k \<noteq> []" and "list_all simple_key_char k"
  shows "simpleURLKeysPattern (''{'' @ k @ ''}'' @ s) = Some (k, length (''{'' @ k @ ''}''))"
proof -
  have "span_class simple_key_char (k @ ''}'' @ s) = k"
    using assms(2) by (intro span_class_append) (auto simp: list_all_iff)
  then show ?thesis using assms(1) by (simp add: simpleURLKeysPattern_def key_match_def Let_def)
qed

lemma find_all_lit:
  "CHR ''{'' \<notin> set l \<Longrightarrow> find_all simpleURLKeysPattern (l @ s) = find_all simpleURLKeysPattern s"
proof (induction l)
  case (Cons c l)
  have "simpleURLKeysPattern (c # l @ s) = None"
    using Cons.prems by (auto simp: simpleURLKeysPattern_def key_match_def)
  then show ?case using Cons by simp
qed simp

lemma find_all_render:
  "\<forall>t \<in> set ts. url_token t \<Longrightarrow> find_all simpleURLKeysPattern (render ''{'' ''}'' ts) = holes ts"
proof (induction ts)
  case (Cons t ts)
  show ?case
  proof (cases t)
    case (Lit l)
    then show ?thesis using Cons find_all_lit by (simp add: render_def holes_def)
  next
    case (Hole k)
    then have "simpleURLKeysPattern ((''{'' @ k @ ''}'') @ render ''{'' ''}'' ts) = Some (k, length (''{'' @ k @ ''}''))"
      using Cons.prems simpleURLKeys_hole by simp
    from find_all_match [where m = simpleURLKeysPattern and p = "''{'' @ k @ ''}''" and s = "render ''{'' ''}'' ts", OF this]
    show ?thesis
      using Hole Cons by (simp add: render_def holes_def)
  qed
qed (simp add: render_def holes_def)

text \<open>The placeholder a key is replaced with cannot be mistaken for another name.\<close>

definition inner_key :: "(string \<Rightarrow> string) \<Rightarrow> string \<Rightarrow> string" where
  "inner_key key k = ''{{.'' @ key k @ ''}}''"

lemma inner_key_safe:
  assumes "CHR ''{'' \<notin> set (key k)" and "o' \<noteq> []" and "hd o' \<noteq> CHR ''.''" and "CHR ''{'' \<notin> set o'"
  shows "safe_lit ''{'' ''}'' o' (inner_key key k)"
proof -
  obtain x o1 where o': "o' = x # o1" "x \<noteq> CHR ''.''" "x \<noteq> CHR ''{''" using assms(2-4) by (cases o') auto
  have "\<not> prefix (''{'' @ o' @ ''}'') (drop n (inner_key key k) @ s)" if "n < length (inner_key key k)" for n s
  proof (cases "n \<le> 1")
    case True
    then consider "n = 0" | "n = 1" by linarith
    then show ?thesis using o' by cases (auto simp: inner_key_def)
  next
    case False
    then have "drop n (inner_key key k) = drop (n - 2) (''.'' @ key k @ ''}}'')"
      by (cases n; cases "n - 1") (auto simp: inner_key_def)
    moreover have "CHR ''{'' \<notin> set (''.'' @ key k @ ''}}'')" using assms(1) by simp
    ultimately have "CHR ''{'' \<notin> set (drop n (inner_key key k))" by (metis in_set_dropD)
    moreover have "drop n (inner_key key k) \<noteq> []" using that by simp
    ultimately show ?thesis by (cases "drop n (inner_key key k)") auto
  qed
  then show ?thesis by (simp add: safe_lit_def)
qed

definition mapped_to :: "string list \<Rightarrow> (string \<Rightarrow> string) \<Rightarrow> string \<rightharpoonup> string" where
  "mapped_to outs key k = (if k \<in> set outs then Some (inner_key key k) else None)"

fun renamed :: "string list \<Rightarrow> (string \<Rightarrow> string) \<Rightarrow> token \<Rightarrow> bool" where
  "renamed all key (Lit l) = (CHR ''{'' \<notin> set l \<or> (\<exists>k \<in> set all. l = inner_key key k))"
| "renamed all key (Hole k) = (k \<in> set all)"

lemma fill_all_mapped:
  "fill_all (mapped_to outs key) (fill o' (inner_key key o') t) = fill_all (mapped_to (o' # outs) key) t"
  by (cases t) (auto simp: mapped_to_def)

lemma replace_keys_render:
  assumes keys: "\<forall>k \<in> set all. url_token (Hole k) \<and> CHR ''{'' \<notin> set (output_key env k)"
    and "set outs \<subseteq> set all" and "\<forall>t \<in> set ts. renamed all (output_key env) t"
  shows "replace_keys env outs (render ''{'' ''}'' ts) =
    render ''{'' ''}'' (map (fill_all (mapped_to outs (output_key env))) ts)"
  using assms(2,3)
proof (induction outs arbitrary: ts)
  case Nil
  have "fill_all (mapped_to [] (output_key env)) = id" by (simp add: mapped_to_def [abs_def])
  then show ?case by simp
next
  case (Cons o' outs)
  let ?ts = "map (fill o' (inner_key (output_key env) o')) ts"
  have o': "url_token (Hole o')" "CHR ''{'' \<notin> set o'" "CHR ''}'' \<notin> set o'"
    using keys Cons.prems(1) simple_keys_plain [of o'] by auto
  have "\<forall>t \<in> set ts. safe_token ''{'' ''}'' o' t"
  proof
    fix t assume "t \<in> set ts"
    then have "renamed all (output_key env) t" using Cons.prems(2) by blast
    then show "safe_token ''{'' ''}'' o' t"
      using o' keys inner_key_safe [of "output_key env" _ o'] simple_keys_plain
      by (cases t) (auto simp: plain_def intro: safe_lit_no_head)
  qed
  then have "replace_all (''{'' @ o' @ ''}'') (inner_key (output_key env) o') (render ''{'' ''}'' ts) =
      render ''{'' ''}'' ?ts"
    using o' by (intro replace_all_render_safe good_delims_colon) (simp_all add: plain_def)
  then have "replace_keys env (o' # outs) (render ''{'' ''}'' ts) = replace_keys env outs (render ''{'' ''}'' ?ts)"
    by (simp only: replace_keys.simps inner_key_def)
  also have "\<dots> = render ''{'' ''}'' (map (fill_all (mapped_to outs (output_key env))) ?ts)"
  proof (rule Cons.IH)
    have "renamed all (output_key env) (fill o' (inner_key (output_key env) o') t)"
      if "renamed all (output_key env) t" for t
      using that Cons.prems(1) by (cases t) auto
    then show "\<forall>t \<in> set ?ts. renamed all (output_key env) t" using Cons.prems(2) by auto
  qed (use Cons.prems(1) in simp)
  also have "map (fill_all (mapped_to outs (output_key env))) ?ts =
      map (fill_all (mapped_to (o' # outs) (output_key env))) ts"
    by (simp add: fill_all_mapped)
  finally show ?case .
qed

fun rekey :: "(string \<Rightarrow> string) \<Rightarrow> token \<Rightarrow> token" where
  "rekey key (Lit l) = Lit l"
| "rekey key (Hole k) = Hole (key k)"

lemma render_rekey:
  "set (holes ts) \<subseteq> set outs \<Longrightarrow>
   render ''{'' ''}'' (map (fill_all (mapped_to outs key)) ts) = render ''{{.'' ''}}'' (map (rekey key) ts)"
proof (induction ts)
  case (Cons t ts)
  then show ?case by (cases t) (auto simp: render_def holes_def mapped_to_def inner_key_def)
qed (simp add: render_def)

text \<open>The text a reader of the configuration expects: literals, and the value of each parameter.\<close>

fun token_text :: "(string \<Rightarrow> string) \<Rightarrow> (string \<rightharpoonup> string) \<Rightarrow> token \<Rightarrow> string" where
  "token_text key m (Lit l) = l"
| "token_text key m (Hole k) = (case m (key k) of Some v \<Rightarrow> v | None \<Rightarrow> inner_key key k)"

lemma render_filled:
  "render ''{{.'' ''}}'' (map (fill_all m) (map (rekey key) ts)) = concat (map (token_text key m) ts)"
proof (induction ts)
  case (Cons t ts)
  then show ?case by (cases t) (auto simp: render_def inner_key_def split: option.split)
qed (simp add: render_def)

lemma output_key_plain:
  assumes "\<forall>c. env_title env [c] = [up_char c]" and "url_token (Hole k)"
  shows "plain ''{{.'' ''}}'' (output_key env k) \<and> CHR ''{'' \<notin> set (output_key env k)"
proof -
  obtain c cs where k: "k = c # cs" "simple_key_char c" "CHR ''{'' \<notin> set cs" "CHR ''}'' \<notin> set cs"
    using assms(2) simple_keys_plain [of "tl k"] by (cases k) auto
  have "is_upper (up_char c) \<or> up_char c = c"
    using is_upper_up_char [of c] by (auto simp: up_char_def)
  moreover have "\<not> is_upper CHR ''{''" "\<not> is_upper CHR ''}''" by (simp_all add: is_upper_def)
  ultimately have "up_char c \<noteq> CHR ''{''" "up_char c \<noteq> CHR ''}''" using k(2) by (metis simple_key_char_braces)+
  then show ?thesis using assms(1) k by (simp add: output_key_def plain_def)
qed

lemma good_rekey:
  assumes "\<forall>c. env_title env [c] = [up_char c]" and "url_token t"
  shows "good_token ''{{.'' ''}}'' (rekey (output_key env) t)"
  using assms output_key_plain [OF assms(1)] by (cases t) auto

text \<open>
  C22: what a client asks for reaches the backend: a URL pattern that passes initialisation, applied
  to the parameters of a request, is the pattern with each placeholder replaced by the value
  of its parameter.  The parameters may come in any order; their values hold no opening brace.
\<close>

theorem backend_path_generated:
  assumes init: "initBackendURLMappings env e j (input_set ips) b = Inr b'"
    and pattern: "CleanPath (be_URLPattern b) = render ''{'' ''}'' ts" "\<forall>t \<in> set ts. url_token t"
    and title: "\<forall>c. env_title env [c] = [up_char c]"
    and params: "wf_map ps" "\<forall>(k, v) \<in> set ps. plain ''{{.'' ''}}'' k \<and> CHR ''{'' \<notin> set v"
  shows "rPath (GeneratePath (be_URLPattern b') (r\<lparr>rParams := Some ps\<rparr>)) =
    concat (map (token_text (output_key env) (map_of ps)) ts)"
proof -
  let ?key = "output_key env"
  have outs: "backend_outputs b = sorted_list_of_set (set (holes ts))"
    using pattern find_all_render by (simp add: backend_outputs_def extractPlaceHoldersFromURLTemplate_def)
  have hs: "url_token (Hole k)" if "k \<in> set (holes ts)" for k
  proof -
    note mem = that
    obtain t where "t \<in> set ts" "k \<in> set (hole_of t)" using mem by (auto simp: holes_def)
    moreover have "url_token t" using \<open>t \<in> set ts\<close> pattern(2) by blast
    ultimately show ?thesis by (cases t rule: token.exhaust) auto
  qed
  have toks: "renamed (backend_outputs b) ?key t" if "t \<in> set ts" for t
    using that pattern(2) by (cases t rule: token.exhaust) (force simp: outs holes_def)+
  have "be_URLPattern b' = replace_keys env (backend_outputs b) (render ''{'' ''}'' ts)"
    using init pattern(1) by (simp add: initBackendURLMappings_Inr_iff)
  also have "\<dots> = render ''{'' ''}'' (map (fill_all (mapped_to (backend_outputs b) ?key)) ts)"
  proof (rule replace_keys_render [of "backend_outputs b"])
    show "\<forall>k \<in> set (backend_outputs b). url_token (Hole k) \<and> CHR ''{'' \<notin> set (output_key env k)"
      using hs output_key_plain [OF title] by (simp add: outs)
  qed (use toks in blast)+
  also have "\<dots> = render ''{{.'' ''}}'' (map (rekey ?key) ts)"
    by (rule render_rekey) (simp add: outs)
  finally have url: "be_URLPattern b' = render ''{{.'' ''}}'' (map (rekey ?key) ts)" .
  have "replace_each ''{{.'' ''}}'' ps (render ''{{.'' ''}}'' (map (rekey ?key) ts)) =
      render ''{{.'' ''}}'' (map (fill_all (map_of ps)) (map (rekey ?key) ts))"
    using params pattern(2) good_rekey [OF title]
    by (intro replace_each_render good_delims_path) auto
  then show ?thesis
    by (cases "ps = []") (simp_all add: GeneratePath_def url render_filled [symmetric])
qed

lemma backend_path_generated_witness:
  "rPath (GeneratePath ''/u/{{.Id}}?q={{.Name}}''
     \<lparr>rMethod = ''GET'', rURL = None, rQuery = None, rPath = [], rBody = None,
      rParams = Some [(''Name'', ''bob''), (''Id'', ''42'')], rHeaders = None\<rparr>) = ''/u/42?q=bob''"
proof -
  let ?b = "zero_backend\<lparr>be_URLPattern := ''/u/{id}?q={name}''\<rparr>"
  let ?ts = "[Lit ''/u/'', Hole ''id'', Lit ''?q='', Hole ''name'']"
  have title: "\<forall>c. env_title sample_env [c] = [up_char c]" by (simp add: sample_env_def default_env_def)
  have pat: "CleanPath (be_URLPattern ?b) = render ''{'' ''}'' ?ts"
    by (simp add: CleanPath_def trim_prefix_def render_def)
  have tok: "\<forall>t \<in> set ?ts. url_token t" by code_simp
  have outs: "backend_outputs ?b = [''id'', ''name'']" by code_simp
  have init: "initBackendURLMappings sample_env zero_endpoint 0 (input_set [''id'', ''name'']) ?b =
      Inr (?b\<lparr>be_URLPattern := replace_keys sample_env [''id'', ''name''] (CleanPath (be_URLPattern ?b)),
              be_URLKeys := map (output_key sample_env) [''id'', ''name'']\<rparr>)"
    by (simp add: initBackendURLMappings_Inr_iff outs)
  have keys: "replace_keys sample_env [''id'', ''name''] (CleanPath (be_URLPattern ?b)) = ''/u/{{.Id}}?q={{.Name}}''"
    by code_simp
  have conc: "concat (map (token_text (output_key sample_env) (map_of [(''Name'', ''bob''), (''Id'', ''42'')])) ?ts) = ''/u/42?q=bob''"
    by code_simp
  have "\<forall>(k, v) \<in> set [(''Name'', ''bob''), (''Id'', ''42'')]. plain ''{{.'' ''}}'' k \<and> CHR ''{'' \<notin> set v"
    by (simp add: plain_def)
  from backend_path_generated [OF init pat tok title _ this, unfolded conc,
      of "\<lparr>rMethod = ''GET'', rURL = None, rQuery = None, rPath = [], rBody = None, rParams = None, rHeaders = None\<rparr>"]
  show ?thesis using keys by simp
qed

end
