(* ===== verification/Merging.thy ===== *)
theory Merging
  imports Request
begin

section \<open>Merging responses (\<open>proxy/merging.go\<close>, \<open>proxy/register.go\<close>)\<close>

text \<open>
  The combiner, the incremental accumulator, the combiner register, and the reading of the merge
  options and of the sequential replacements.  The two mergers are in \<open>Parallel_Merge\<close> and
  \<open>Sequential_Merge\<close>.
\<close>

subsection \<open>The default combiner\<close>

type_synonym combiner = "nat \<Rightarrow> response option list \<Rightarrow> response option"

fun combine_loop :: "response option list \<Rightarrow> response option \<Rightarrow> bool \<Rightarrow> response option \<times> bool" where
  "combine_loop [] ret isComplete = (ret, isComplete)"
| "combine_loop (part # parts) ret isComplete =
     (case Option.bind part Data of
        None \<Rightarrow> combine_loop parts ret False
      | Some d \<Rightarrow>
          (let isComplete = (isComplete \<and> IsComplete (the part)) in
           case ret of
             None \<Rightarrow> combine_loop parts (Some (new_response (Some d) isComplete)) isComplete
           | Some r \<Rightarrow> combine_loop parts (Some (r\<lparr>Data := Some (put_all d (entries (Data r)))\<rparr>)) isComplete))"

definition combineData :: combiner where
  "combineData n parts =
     (case combine_loop parts None (length parts = n) of
        (None, isComplete) \<Rightarrow> Some (new_response (Some []) isComplete)
      | (Some r, isComplete) \<Rightarrow> Some (r\<lparr>IsComplete := isComplete\<rparr>))"

subsection \<open>The accumulator\<close>

record accumulator =
  pending :: int
  accData :: "response option"
  accErrs :: "gerror list"

definition newIncrementalMergeAccumulator :: "nat \<Rightarrow> accumulator" where
  "newIncrementalMergeAccumulator n = \<lparr>pending = int n, accData = None, accErrs = []\<rparr>"

text \<open>What a backend contributes: a response and an error, as a proxy returns them.\<close>

type_synonym outcome = "response option \<times> gerror option"

definition Merge :: "combiner \<Rightarrow> accumulator \<Rightarrow> outcome \<Rightarrow> accumulator" where
  "Merge rc i oc =
     (let i = i\<lparr>pending := pending i - 1\<rparr> in
      case snd oc of
        Some err \<Rightarrow> i\<lparr>accErrs := accErrs i @ [err],
                      accData := map_option (\<lambda>d. d\<lparr>IsComplete := False\<rparr>) (accData i)\<rparr>
      | None \<Rightarrow>
          (case fst oc of
             None \<Rightarrow> i\<lparr>accErrs := accErrs i @ [ENullResult]\<rparr>
           | Some res \<Rightarrow>
               (case accData i of
                  None \<Rightarrow> i\<lparr>accData := Some res\<rparr>
                | Some d \<Rightarrow> i\<lparr>accData := rc 2 [Some d, Some res]\<rparr>)))"

definition newMergeError :: "gerror list \<Rightarrow> gerror option" where
  "newMergeError errs = (if errs = [] then None else Some (EMerge errs))"

definition Result :: "accumulator \<Rightarrow> outcome" where
  "Result i =
     (case accData i of
        None \<Rightarrow> (None, newMergeError (accErrs i))
      | Some d \<Rightarrow>
          (Some (if pending i > 0 \<or> accErrs i \<noteq> [] then d\<lparr>IsComplete := False\<rparr> else d),
           newMergeError (accErrs i)))"

text \<open>A whole collection: the outcomes in the order they are merged.\<close>

definition collect :: "combiner \<Rightarrow> nat \<Rightarrow> outcome list \<Rightarrow> outcome" where
  "collect rc n ocs = Result (foldl (Merge rc) (newIncrementalMergeAccumulator n) ocs)"

subsection \<open>The combiner register\<close>

record combinerRegister =
  crData :: "combiner dyn untyped"
  crFallback :: combiner

definition newCombinerRegister :: "(string, combiner) gomap \<Rightarrow> combiner \<Rightarrow> combinerRegister" where
  "newCombinerRegister data fallback =
     \<lparr>crData = foldl (\<lambda>r (k, v). Untyped_Register r k (Typed v)) NewUntyped data, crFallback = fallback\<rparr>"

text \<open>
  The second result is the \<open>ok\<close> of the lookup: the one of the type assertion is local to its \<open>if\<close>, so a
  known name whose value is not a combiner gives the fallback and true.
\<close>

definition GetResponseCombiner :: "combinerRegister \<Rightarrow> string \<Rightarrow> combiner \<times> bool" where
  "GetResponseCombiner r name =
     (case Untyped_Get (crData r) name of
        None \<Rightarrow> (crFallback r, False)
      | Some v \<Rightarrow> (case dyn_assert v of Some rc \<Rightarrow> (rc, True) | None \<Rightarrow> (crFallback r, True)))"

definition SetResponseCombiner :: "combinerRegister \<Rightarrow> string \<Rightarrow> combiner \<Rightarrow> combinerRegister" where
  "SetResponseCombiner r name rc = r\<lparr>crData := Untyped_Register (crData r) name (Typed rc)\<rparr>"

definition defaultCombinerName :: string where "defaultCombinerName = ''default''"
definition mergeKey :: string where "mergeKey = ''combiner''"
definition isSequentialKey :: string where "isSequentialKey = ''sequential''"
definition parallelMerger :: string where "parallelMerger = ''parallel''"
definition typeKey :: string where "typeKey = ''strategy''"
definition forceDeepCloneKey :: string where "forceDeepCloneKey = ''force_sandboxed_request''"
definition sequentialPropagateKey :: string where "sequentialPropagateKey = ''sequential_propagated_params''"

definition initResponseCombiners :: combinerRegister where
  "initResponseCombiners = newCombinerRegister [(defaultCombinerName, combineData)] combineData"

text \<open>\<open>v.(string)\<close> without the comma-ok form panics on any other value.\<close>

definition getResponseCombinerName :: "combinerRegister \<Rightarrow> fields \<Rightarrow> string run" where
  "getResponseCombinerName reg extra =
     (case Option.bind (proxy_section extra) (\<lambda>e. map_of e mergeKey) of
        None \<Rightarrow> Ret defaultCombinerName
      | Some v \<Rightarrow>
          (case as_str v of
             None \<Rightarrow> Panic ''interface conversion''
           | Some name \<Rightarrow> Ret (if snd (GetResponseCombiner reg name) then name else defaultCombinerName)))"

definition getResponseCombiner :: "combinerRegister \<Rightarrow> fields \<Rightarrow> combiner run" where
  "getResponseCombiner reg extra =
     run_bind (getResponseCombinerName reg extra) (\<lambda>name. Ret (fst (GetResponseCombiner reg name)))"

subsection \<open>The merge options\<close>

text \<open>The name of the merger: an unknown or ill-typed strategy is the parallel one.\<close>

definition getMergerFactory :: "string list \<Rightarrow> fields \<Rightarrow> string" where
  "getMergerFactory mergers cfg =
     (case proxy_section cfg of
        None \<Rightarrow> parallelMerger
      | Some m \<Rightarrow>
          (case map_of m typeKey of
             None \<Rightarrow> if get_as as_bool m isSequentialKey = Some True then isSequentialKey else parallelMerger
           | Some v \<Rightarrow>
               (case as_str v of
                  Some t \<Rightarrow> if t \<in> set mergers then t else parallelMerger
                | None \<Rightarrow> parallelMerger)))"

definition forceDeepClone :: "EndpointConfig \<Rightarrow> bool" where
  "forceDeepClone cfg =
     (case proxy_section (ep_ExtraConfig cfg) of
        None \<Rightarrow> False
      | Some e \<Rightarrow> get_as as_bool e forceDeepCloneKey = Some True)"

definition hasUnsafeBackends :: "EndpointConfig \<Rightarrow> bool" where
  "hasUnsafeBackends cfg =
     (if length (ep_Backend cfg) = 1 then False
      else list_ex (\<lambda>b. to_upper (be_Method b) \<noteq> ''GET'' \<and> to_upper (be_Method b) \<noteq> ''HEAD'') (ep_Backend cfg))"

record sequentialBackendReplacement =
  sr_backendIndex :: nat
  sr_destination :: string
  sr_source :: "string list"
  sr_fullResponse :: bool

definition destKeyGenerator :: "string \<Rightarrow> string \<Rightarrow> string" where
  "destKeyGenerator i t = ''Resp'' @ i @ (if t \<noteq> [] then ''_'' @ t else [])"

text \<open>The class \<^verbatim>\<open>[\w-.]\<close>.\<close>

definition ref_char :: "char \<Rightarrow> bool" where
  "ref_char c \<longleftrightarrow> is_word c \<or> c = CHR ''-'' \<or> c = CHR ''.''"

text \<open>\<open>reUrlPatterns\<close>: \<^verbatim>\<open>\{\{\.Resp(\d+)_([\w-.]+)\}\}\<close>\<close>

definition reUrlPatterns :: "(string \<times> string) matcher" where
  "reUrlPatterns s =
     (if prefix ''{{.Resp'' s then
        (let r = drop 7 s; ds = span_class is_digit r; r = drop (length ds) r in
         if ds \<noteq> [] \<and> prefix ''_'' r then
           (let w = span_class ref_char (drop 1 r) in
            if w \<noteq> [] \<and> prefix ''}}'' (drop (1 + length w) r)
            then Some ((ds, w), 7 + length ds + 1 + length w + 2) else None)
         else None)
      else None)"

text \<open>\<open>rePropagatedParams\<close>: \<^verbatim>\<open>[Rr]esp(\d+)_?([\w-.]+)?\<close>\<close>

definition rePropagatedParams :: "(string \<times> string) matcher" where
  "rePropagatedParams s =
     (if prefix ''Resp'' s \<or> prefix ''resp'' s then
        (let r = drop 4 s; ds = span_class is_digit r; r = drop (length ds) r in
         if ds = [] then None
         else
           (let us = (if prefix ''_'' r then 1 else 0); w = span_class ref_char (drop us r)
            in Some ((ds, w), 4 + length ds + us + length w)))
      else None)"

definition replacement_of :: "string \<times> string \<Rightarrow> nat \<Rightarrow> sequentialBackendReplacement" where
  "replacement_of m backendIndex =
     \<lparr>sr_backendIndex = backendIndex, sr_destination = destKeyGenerator (fst m) (snd m),
      sr_source = split_on CHR ''.'' (snd m), sr_fullResponse = (snd m = [])\<rparr>"

definition url_replacements :: "string \<Rightarrow> sequentialBackendReplacement list" where
  "url_replacements pattern =
     List.map_filter (\<lambda>m. map_option (replacement_of m) (atoi_digits (fst m))) (find_all reUrlPatterns pattern)"

definition param_replacements :: "nat \<Rightarrow> string \<Rightarrow> sequentialBackendReplacement list" where
  "param_replacements totalBackends p =
     List.map_filter (\<lambda>m. case atoi_digits (fst m) of
         Some n \<Rightarrow> if n \<ge> totalBackends then None else Some (replacement_of m n)
       | None \<Rightarrow> None) (find_all rePropagatedParams p)"

text \<open>The list of propagated parameters; an element that is not a string panics.\<close>

fun strings_of :: "json list \<Rightarrow> string list run" where
  "strings_of [] = Ret []"
| "strings_of (p # ps) =
     (case as_str p of
        None \<Rightarrow> Panic ''interface conversion''
      | Some s \<Rightarrow> run_bind (strings_of ps) (\<lambda>ss. Ret (s # ss)))"

definition propagated_params :: "EndpointConfig \<Rightarrow> string list run" where
  "propagated_params cfg =
     (case Option.bind (proxy_section (ep_ExtraConfig cfg)) (\<lambda>e. get_as as_arr e sequentialPropagateKey) of
        None \<Rightarrow> Ret []
      | Some a \<Rightarrow> strings_of a)"

definition sequentialMergerConfig :: "EndpointConfig \<Rightarrow> sequentialBackendReplacement list list run" where
  "sequentialMergerConfig cfg =
     run_bind (propagated_params cfg) (\<lambda>propagatedParams.
       Ret (map (\<lambda>(i, b). url_replacements (be_URLPattern b) @
                 (if i > 0 then concat (map (param_replacements (length (ep_Backend cfg))) propagatedParams) else []))
            (enumerate 0 (ep_Backend cfg))))"

subsection \<open>Backend filters\<close>

type_synonym backend_filter = "(request \<Rightarrow> bool) option"
type_synonym filterer_factory = "EndpointConfig \<Rightarrow> gerror + backend_filter list"

definition defaultBackendFiltererFactory :: filterer_factory where
  "defaultBackendFiltererFactory cfg = Inr []"

record backendFiltererRegistry =
  bf_logPrefix :: string
  bf_filtererFactory :: filterer_factory

definition RegisterBackendFiltererFactory :: "string \<Rightarrow> filterer_factory \<Rightarrow> backendFiltererRegistry \<Rightarrow> backendFiltererRegistry" where
  "RegisterBackendFiltererFactory logPrefix f reg = reg\<lparr>bf_logPrefix := logPrefix, bf_filtererFactory := f\<rparr>"

definition ResetBackendFiltererFactory :: "backendFiltererRegistry \<Rightarrow> backendFiltererRegistry" where
  "ResetBackendFiltererFactory reg = reg\<lparr>bf_logPrefix := [], bf_filtererFactory := defaultBackendFiltererFactory\<rparr>"

text \<open>\<open>(i < filterCount) && (filters[i] != nil) && !filters[i](request)\<close>, negated.\<close>

definition selected :: "backend_filter list \<Rightarrow> nat \<Rightarrow> request \<Rightarrow> bool" where
  "selected filters i request =
     (if i < length filters then (case filters ! i of None \<Rightarrow> True | Some f \<Rightarrow> f request) else True)"

subsection \<open>The middleware\<close>

type_synonym cloner = "request \<Rightarrow> request \<times> request"
type_synonym merger = "cloner \<Rightarrow> int \<Rightarrow> combiner \<Rightarrow> backend_filter list \<Rightarrow> proxy list \<Rightarrow> proxy"

text \<open>A merger factory reads the endpoint when the middleware is made, and may panic there.\<close>

record merge_env =
  me_mergers :: "(string, EndpointConfig \<Rightarrow> merger run) gomap"
  me_combiners :: combinerRegister
  me_filters :: backendFiltererRegistry
  me_reparse :: "url \<Rightarrow> url option"

definition RegisterMergerFactory :: "string \<Rightarrow> (EndpointConfig \<Rightarrow> merger run) \<Rightarrow> merge_env \<Rightarrow> merge_env" where
  "RegisterMergerFactory name m env = env\<lparr>me_mergers := go_put name m (me_mergers env)\<rparr>"

definition RegisterResponseCombiner :: "string \<Rightarrow> combiner \<Rightarrow> merge_env \<Rightarrow> merge_env" where
  "RegisterResponseCombiner name f env = env\<lparr>me_combiners := SetResponseCombiner (me_combiners env) name f\<rparr>"

text \<open>The two copies a merger can use; the plain one shares everything but the URL.\<close>

definition reqClone_of :: "merge_env \<Rightarrow> EndpointConfig \<Rightarrow> cloner" where
  "reqClone_of env cfg =
     (if hasUnsafeBackends cfg \<or> forceDeepClone cfg then CloneRequest (me_reparse env)
      else (\<lambda>r. (Clone (me_reparse env) r, r)))"

definition merge_apply :: "merge_env \<Rightarrow> EndpointConfig \<Rightarrow> combiner \<Rightarrow> merger \<Rightarrow> middleware" where
  "merge_apply env cfg rc m next =
     (if length next \<noteq> length (ep_Backend cfg)
      then FatalNil ''not enough proxies for this endpoint: NewMergeDataMiddleware''
      else (case bf_filtererFactory (me_filters env) cfg of
              Inl err \<Rightarrow> Built (\<lambda>r. PRet None (Some err) r)
            | Inr filters \<Rightarrow>
                Built (m (reqClone_of env cfg) (percent_of 85 (ep_Timeout cfg)) rc filters next)))"

definition NewMergeDataMiddleware :: "merge_env \<Rightarrow> EndpointConfig \<Rightarrow> middleware option run" where
  "NewMergeDataMiddleware env cfg =
     (if ep_Backend cfg = [] then Ret None
      else if length (ep_Backend cfg) = 1 then Ret (Some emptyMiddlewareFallback)
      else run_bind (getResponseCombiner (me_combiners env) (ep_ExtraConfig cfg)) (\<lambda>rc.
        case map_of (me_mergers env) (getMergerFactory (map fst (me_mergers env)) (ep_ExtraConfig cfg)) of
          None \<Rightarrow> Panic ''invalid memory address or nil pointer dereference''
        | Some mf \<Rightarrow> run_bind (mf cfg) (\<lambda>m. Ret (Some (merge_apply env cfg rc m)))))"

subsection \<open>What a collection yields\<close>

definition ok_of :: "outcome \<Rightarrow> response option" where
  "ok_of oc = (case snd oc of None \<Rightarrow> fst oc | Some e \<Rightarrow> None)"

definition err_of :: "outcome \<Rightarrow> gerror option" where
  "err_of oc = (case snd oc of Some e \<Rightarrow> Some e | None \<Rightarrow> (case fst oc of None \<Rightarrow> Some ENullResult | Some r \<Rightarrow> None))"

definition oks :: "outcome list \<Rightarrow> response list" where
  "oks ocs = List.map_filter ok_of ocs"

definition errs :: "outcome list \<Rightarrow> gerror list" where
  "errs ocs = List.map_filter err_of ocs"

lemma oks_errs_simps [simp]:
  "oks [] = []" "errs [] = []"
  "oks (a @ b) = oks a @ oks b" "errs (a @ b) = errs a @ errs b"
  "oks [oc] = (case ok_of oc of None \<Rightarrow> [] | Some r \<Rightarrow> [r])"
  "errs [oc] = (case err_of oc of None \<Rightarrow> [] | Some e \<Rightarrow> [e])"
  by (simp_all add: oks_def errs_def map_filter_simps map_filter_def split: option.split)

lemma ok_or_err: "(\<exists>r. ok_of oc = Some r \<and> err_of oc = None) \<or> (ok_of oc = None \<and> (\<exists>e. err_of oc = Some e))"
  by (auto simp: ok_of_def err_of_def split: option.split)

text \<open>The merged data: on each key the value of the last response that has it.\<close>

definition merged_map :: "response list \<Rightarrow> string \<rightharpoonup> json" where
  "merged_map rs = foldl (\<lambda>m r. m ++ map_of (entries (Data r))) Map.empty rs"

lemma merged_map_simps [simp]:
  "merged_map [] = Map.empty" "merged_map [r] = map_of (entries (Data r))"
  "merged_map (rs @ [r]) = merged_map rs ++ map_of (entries (Data r))"
  by (simp_all add: merged_map_def)

definition all_complete :: "response list \<Rightarrow> bool" where
  "all_complete rs \<longleftrightarrow> (\<forall>r \<in> set rs. IsComplete r \<and> (length rs > 1 \<longrightarrow> Data r \<noteq> None))"

lemma combineData_two:
  "combineData 2 [Some d, Some r] =
     Some (new_response (Some (case (Data d, Data r) of
              (Some dd, Some dr) \<Rightarrow> put_all dr dd | (Some dd, None) \<Rightarrow> dd
            | (None, Some dr) \<Rightarrow> dr | (None, None) \<Rightarrow> []))
       (Data d \<noteq> None \<and> Data r \<noteq> None \<and> IsComplete d \<and> IsComplete r))"
  by (cases "Data d"; cases "Data r") (simp_all add: combineData_def new_response_def Let_def)

definition acc_inv :: "nat \<Rightarrow> outcome list \<Rightarrow> accumulator \<Rightarrow> bool" where
  "acc_inv n ocs acc \<longleftrightarrow>
     pending acc = int n - int (length ocs) \<and> accErrs acc = errs ocs \<and>
     (case accData acc of
        None \<Rightarrow> oks ocs = []
      | Some d \<Rightarrow> oks ocs \<noteq> [] \<and> wf_map (entries (Data d)) \<and>
          map_of (entries (Data d)) = merged_map (oks ocs) \<and>
          (IsComplete d \<longrightarrow> all_complete (oks ocs)) \<and>
          (errs ocs = [] \<longrightarrow> all_complete (oks ocs) \<longrightarrow> IsComplete d) \<and>
          (if length (oks ocs) = 1 then Data d = Data (hd (oks ocs)) else Data d \<noteq> None))"

lemma combine_merges:
  assumes "wf_map (entries (Data d))" and "wf_map (entries (Data r))" and "combineData 2 [Some d, Some r] = Some x"
  shows "wf_map (entries (Data x)) \<and> map_of (entries (Data x)) = map_of (entries (Data d)) ++ map_of (entries (Data r)) \<and>
    Data x \<noteq> None \<and> (IsComplete x \<longleftrightarrow> Data d \<noteq> None \<and> Data r \<noteq> None \<and> IsComplete d \<and> IsComplete r)"
  using assms by (cases "Data d"; cases "Data r") (auto simp: combineData_two go_map_simps wf_map_put_all)

lemma Merge_err: "err_of oc = Some e \<Longrightarrow>
  \<exists>d'. Merge rc acc oc = acc\<lparr>pending := pending acc - 1, accErrs := accErrs acc @ [e], accData := d'\<rparr> \<and>
    (d' = accData acc \<or> d' = map_option (\<lambda>d. d\<lparr>IsComplete := False\<rparr>) (accData acc))"
  by (cases "snd oc"; cases "fst oc") (auto simp: Merge_def err_of_def Let_def intro: exI [of _ "accData acc"])

lemma acc_inv_many:
  assumes "pending acc = int n - int (length ocs)" and "accErrs acc = errs ocs" and "accData acc = Some d"
    and "wf_map (entries (Data d))" and "map_of (entries (Data d)) = merged_map (oks ocs)"
    and "IsComplete d \<longrightarrow> all_complete (oks ocs)" and "errs ocs = [] \<longrightarrow> all_complete (oks ocs) \<longrightarrow> IsComplete d"
    and "oks ocs \<noteq> []" and "length (oks ocs) \<noteq> 1" and "Data d \<noteq> None"
  shows "acc_inv n ocs acc"
  using assms by (simp add: acc_inv_def)

lemma acc_inv_step:
  assumes inv: "acc_inv n ocs acc" and wf: "\<forall>r. ok_of oc = Some r \<longrightarrow> wf_map (entries (Data r))"
  shows "acc_inv n (ocs @ [oc]) (Merge combineData acc oc)"
proof (cases "ok_of oc")
  case None
  then obtain e where e: "err_of oc = Some e" using ok_or_err [of oc] by auto
  obtain d' where "Merge combineData acc oc = acc\<lparr>pending := pending acc - 1, accErrs := accErrs acc @ [e], accData := d'\<rparr>"
    "d' = accData acc \<or> d' = map_option (\<lambda>d. d\<lparr>IsComplete := False\<rparr>) (accData acc)"
    using Merge_err [OF e] by blast
  then show ?thesis using inv None e by (auto simp: acc_inv_def split: option.splits)
next
  case (Some r)
  then have oc: "snd oc = None" "fst oc = Some r" by (auto simp: ok_of_def split: option.splits)
  have e: "err_of oc = None" using oc by (simp add: err_of_def)
  show ?thesis
  proof (cases "accData acc")
    case None
    then show ?thesis using inv Some e oc wf
      by (auto simp: acc_inv_def Merge_def Let_def all_complete_def)
  next
    case d: (Some d)
    obtain x where x: "combineData 2 [Some d, Some r] = Some x" by (simp add: combineData_two)
    have inv': "pending acc = int n - int (length ocs)" "accErrs acc = errs ocs" "oks ocs \<noteq> []"
      "wf_map (entries (Data d))" "map_of (entries (Data d)) = merged_map (oks ocs)"
      "IsComplete d \<longrightarrow> all_complete (oks ocs)" "errs ocs = [] \<longrightarrow> all_complete (oks ocs) \<longrightarrow> IsComplete d"
      "if length (oks ocs) = 1 then Data d = Data (hd (oks ocs)) else Data d \<noteq> None"
      using inv d by (simp_all add: acc_inv_def)
    note C = combine_merges [OF inv'(4) _ x] 
    have two: "length (oks ocs @ [r]) > 1" "length (oks ocs @ [r]) \<noteq> 1" using inv'(3) by (cases "oks ocs"; simp)+
    have ac: "all_complete (oks ocs @ [r]) \<longleftrightarrow>
        all_complete (oks ocs) \<and> Data d \<noteq> None \<and> Data r \<noteq> None \<and> IsComplete r"
      using two inv'(3,8) by (cases "oks ocs"; cases "tl (oks ocs)") (auto simp: all_complete_def)
    have wr: "wf_map (entries (Data r))" using wf Some by blast
    have m: "Merge combineData acc oc = acc\<lparr>pending := pending acc - 1, accData := Some x\<rparr>"
      using oc d x by (simp add: Merge_def Let_def)
    have o: "oks (ocs @ [oc]) = oks ocs @ [r]" "errs (ocs @ [oc]) = errs ocs" using Some e by simp_all
    have xc: "IsComplete x = (Data d \<noteq> None \<and> Data r \<noteq> None \<and> IsComplete d \<and> IsComplete r)" using C wr by simp
    have "IsComplete x \<longrightarrow> all_complete (oks ocs @ [r])"
      and "errs ocs = [] \<longrightarrow> all_complete (oks ocs @ [r]) \<longrightarrow> IsComplete x"
      unfolding ac xc using inv'(6,7) by simp_all
    moreover have "wf_map (entries (Data x))" "Data x \<noteq> None"
      "map_of (entries (Data x)) = merged_map (oks ocs @ [r])" using C [OF wr] inv'(5) by simp_all
    ultimately show ?thesis
      using two(2) inv'(1,2) by (intro acc_inv_many [where d = x]) (simp_all only: m o, simp_all)
  qed
qed

lemma acc_inv_foldl:
  "\<forall>r \<in> set (oks ocs). wf_map (entries (Data r)) \<Longrightarrow>
   acc_inv n ocs (foldl (Merge combineData) (newIncrementalMergeAccumulator n) ocs)"
proof (induction ocs rule: rev_induct)
  case Nil
  then show ?case by (simp add: acc_inv_def newIncrementalMergeAccumulator_def)
next
  case (snoc oc ocs)
  then show ?case using acc_inv_step [of n ocs _ oc] by simp
qed

lemma collect_combineData:
  assumes "\<forall>r \<in> set (oks ocs). wf_map (entries (Data r))" and "length ocs \<le> n"
  shows "snd (collect combineData n ocs) = newMergeError (errs ocs) \<and>
    (case fst (collect combineData n ocs) of
       None \<Rightarrow> oks ocs = []
     | Some d \<Rightarrow> oks ocs \<noteq> [] \<and> map_of (entries (Data d)) = merged_map (oks ocs) \<and>
         (IsComplete d \<longleftrightarrow> errs ocs = [] \<and> length ocs = n \<and> all_complete (oks ocs)))"
  using acc_inv_foldl [OF assms(1), of n] assms(2)
  by (auto simp: acc_inv_def collect_def Result_def split: option.splits)

text \<open>With distinct keys, the order in which the responses come does not matter.\<close>

definition disjoint_data :: "response list \<Rightarrow> bool" where
  "disjoint_data rs \<longleftrightarrow>
     (\<forall>i < length rs. \<forall>j < length rs. i \<noteq> j \<longrightarrow>
        dom (map_of (entries (Data (rs ! i)))) \<inter> dom (map_of (entries (Data (rs ! j)))) = {})"

lemma merged_map_Some: "merged_map rs k = Some v \<Longrightarrow> \<exists>r \<in> set rs. map_of (entries (Data r)) k = Some v"
  by (induction rs rule: rev_induct) (auto simp: map_add_Some_iff)

lemma merged_map_dom: "merged_map rs k = None \<longleftrightarrow> (\<forall>r \<in> set rs. map_of (entries (Data r)) k = None)"
  by (induction rs rule: rev_induct) auto

end
