(* ===== verification/Parallel_Merge.thy ===== *)
theory Parallel_Merge
  imports Merging
begin

section \<open>The parallel merger (\<open>parallelMerge\<close> and \<open>requestPart\<close> of \<open>proxy/merging.go\<close>)\<close>

text \<open>
  One goroutine per selected backend sends what its proxy returned on one of two buffered
  channels; the caller receives once per goroutine and merges.  The interleavings are a step relation
  on the goroutines still running, the two channels, the deadline and the accumulator.  A channel
  item carries the index of its sender, which no step reads.
\<close>

subsection \<open>Starting the goroutines\<close>

text \<open>Each selected proxy gets its own copy; the copier may also change the original.\<close>

fun launch :: "cloner \<Rightarrow> backend_filter list \<Rightarrow> nat \<Rightarrow> proxy list \<Rightarrow> request \<Rightarrow> pres list \<times> request" where
  "launch reqCloner filters i [] request = ([], request)"
| "launch reqCloner filters i (n # next) request =
     (if \<not> selected filters i request then launch reqCloner filters (Suc i) next request
      else (case reqCloner request of (copy, request') \<Rightarrow>
            case launch reqCloner filters (Suc i) next request' of (rs, request'') \<Rightarrow>
              (n copy # rs, request'')))"

fun first_panic :: "pres list \<Rightarrow> string option" where
  "first_panic [] = None"
| "first_panic (PPanic e # rs) = Some e"
| "first_panic (PRet resp err r # rs) = first_panic rs"

text \<open>What \<open>requestPart\<close> makes of a result: an error, the null result error, or a response.\<close>

definition part_of :: "pres \<Rightarrow> outcome" where
  "part_of p =
     (case pres_error p of
        Some err \<Rightarrow> (None, Some err)
      | None \<Rightarrow> (case pres_response p of None \<Rightarrow> (None, Some ENullResult) | Some r \<Rightarrow> (Some r, None)))"

lemma part_of_shape: "(\<exists>r. part_of p = (Some r, None)) \<or> (\<exists>e. part_of p = (None, Some e))"
  by (auto simp: part_of_def split: option.split)

subsection \<open>The interleavings\<close>

record pm_state =
  pmRunning :: "nat list"
  pmParts :: "(nat \<times> response) list"
  pmFailed :: "(nat \<times> gerror) list"
  pmDone :: bool
  pmReceived :: nat
  pmAcc :: accumulator

text \<open>
  The parameters: the outcome of each goroutine's proxy, the error of the expired context, the
  combiner, the capacity of the channels and the number of goroutines.
\<close>

record pm_env =
  pmOutcome :: "nat \<Rightarrow> outcome"
  pmCtxErr :: gerror
  pmCombiner :: combiner
  pmCap :: nat
  pmCount :: nat

definition pm_start :: "pm_env \<Rightarrow> pm_state" where
  "pm_start env = \<lparr>pmRunning = [0..<pmCount env], pmParts = [], pmFailed = [], pmDone = False,
     pmReceived = 0, pmAcc = newIncrementalMergeAccumulator (pmCount env)\<rparr>"

inductive pm_step :: "pm_env \<Rightarrow> pm_state \<Rightarrow> pm_state \<Rightarrow> bool" for env :: pm_env where
  fail: "i \<in> set (pmRunning s) \<Longrightarrow> snd (pmOutcome env i) = Some e \<Longrightarrow> length (pmFailed s) < pmCap env \<Longrightarrow>
    pm_step env s (s\<lparr>pmRunning := remove1 i (pmRunning s), pmFailed := pmFailed s @ [(i, e)]\<rparr>)"
| deliver: "i \<in> set (pmRunning s) \<Longrightarrow> pmOutcome env i = (Some r, None) \<Longrightarrow> length (pmParts s) < pmCap env \<Longrightarrow>
    pm_step env s (s\<lparr>pmRunning := remove1 i (pmRunning s), pmParts := pmParts s @ [(i, r)]\<rparr>)"
| late: "i \<in> set (pmRunning s) \<Longrightarrow> pmOutcome env i = (Some r, None) \<Longrightarrow> pmDone s \<Longrightarrow>
    length (pmFailed s) < pmCap env \<Longrightarrow>
    pm_step env s (s\<lparr>pmRunning := remove1 i (pmRunning s), pmFailed := pmFailed s @ [(i, pmCtxErr env)]\<rparr>)"
| expire: "\<not> pmDone s \<Longrightarrow> pm_step env s (s\<lparr>pmDone := True\<rparr>)"
| take_failed: "pmReceived s < pmCount env \<Longrightarrow> pmFailed s = (i, e) # es \<Longrightarrow>
    pm_step env s (s\<lparr>pmFailed := es, pmReceived := Suc (pmReceived s),
      pmAcc := Merge (pmCombiner env) (pmAcc s) (None, Some e)\<rparr>)"
| take_part: "pmReceived s < pmCount env \<Longrightarrow> pmParts s = (i, r) # rs \<Longrightarrow>
    pm_step env s (s\<lparr>pmParts := rs, pmReceived := Suc (pmReceived s),
      pmAcc := Merge (pmCombiner env) (pmAcc s) (Some r, None)\<rparr>)"

inductive_cases pm_stepE: "pm_step env s s'"

text \<open>The call returns when every goroutine has been heard.\<close>

definition pm_returns :: "pm_env \<Rightarrow> pm_state \<Rightarrow> bool" where
  "pm_returns env s \<longleftrightarrow> pmReceived s = pmCount env"

text \<open>
  The same as one function, for a given schedule: the order in which the outcomes are received, and
  the goroutines that find the context expired when they have a response to send.
\<close>

definition late_part :: "gerror \<Rightarrow> (nat \<Rightarrow> bool) \<Rightarrow> outcome list \<Rightarrow> nat \<Rightarrow> outcome" where
  "late_part ctxErr late ocs i =
     (if late i \<and> snd (ocs ! i) = None then (None, Some ctxErr) else ocs ! i)"

definition parallelMerge :: "gerror \<Rightarrow> (nat \<Rightarrow> nat list) \<Rightarrow> (nat \<Rightarrow> bool) \<Rightarrow> merger" where
  "parallelMerge ctxErr order late reqCloner timeout rc filters next request =
     (case launch reqCloner filters 0 next request of (rs, request') \<Rightarrow>
        case first_panic rs of
          Some e \<Rightarrow> PPanic e
        | None \<Rightarrow>
            (let ocs = map part_of rs; n = length ocs in
             case collect rc n (map (late_part ctxErr late ocs) (order n)) of
               (resp, err) \<Rightarrow> PRet resp err request'))"

subsection \<open>Invariant\<close>

text \<open>
  Every goroutine is at exactly one place: running, in a channel, or merged.  The log is the
  ghost list of what was merged, in order.
\<close>

definition pm_item :: "pm_env \<Rightarrow> bool \<Rightarrow> nat \<Rightarrow> outcome \<Rightarrow> bool" where
  "pm_item env don i oc \<longleftrightarrow>
     oc = pmOutcome env i \<or> (don \<and> snd (pmOutcome env i) = None \<and> oc = (None, Some (pmCtxErr env)))"

definition pm_places :: "pm_state \<Rightarrow> (nat \<times> outcome) list \<Rightarrow> nat list" where
  "pm_places s lg = map fst lg @ map fst (pmParts s) @ map fst (pmFailed s) @ pmRunning s"

definition pm_inv :: "pm_env \<Rightarrow> pm_state \<Rightarrow> (nat \<times> outcome) list \<Rightarrow> bool" where
  "pm_inv env s lg \<longleftrightarrow>
     mset (pm_places s lg) = mset [0..<pmCount env] \<and>
     pmReceived s = length lg \<and>
     pmAcc s = foldl (Merge (pmCombiner env)) (newIncrementalMergeAccumulator (pmCount env)) (map snd lg) \<and>
     (\<forall>(i, oc) \<in> set lg. pm_item env (pmDone s) i oc) \<and>
     (\<forall>(i, r) \<in> set (pmParts s). pm_item env (pmDone s) i (Some r, None)) \<and>
     (\<forall>(i, e) \<in> set (pmFailed s). pm_item env (pmDone s) i (None, Some e))"

definition pm_wf :: "pm_env \<Rightarrow> bool" where
  "pm_wf env \<longleftrightarrow> pmCount env \<le> pmCap env \<and>
     (\<forall>i. (\<exists>r. pmOutcome env i = (Some r, None)) \<or> (\<exists>e. pmOutcome env i = (None, Some e)))"

lemma pm_inv_start: "pm_inv env (pm_start env) []"
  by (simp add: pm_inv_def pm_start_def pm_places_def)

lemma mset_remove1: "i \<in> set xs \<Longrightarrow> add_mset i (mset (remove1 i xs)) = mset xs"
  by simp

lemma pm_inv_step:
  assumes wf: "pm_wf env" and inv: "pm_inv env s lg" and step: "pm_step env s s'"
  shows "\<exists>lg'. pm_inv env s' lg'"
  using step
proof cases
  case (fail i e)
  moreover have "pmOutcome env i = (None, Some e)" using wf fail(3) by (auto simp: pm_wf_def) (metis prod.sel(2) option.distinct(1) option.inject)
  ultimately show ?thesis using inv mset_remove1 [OF fail(2)]
    by (intro exI [of _ lg]) (auto simp: pm_inv_def pm_places_def pm_item_def)
next
  case (deliver i r)
  then show ?thesis using inv mset_remove1 [OF deliver(2)]
    by (intro exI [of _ lg]) (auto simp: pm_inv_def pm_places_def pm_item_def)
next
  case (late i r)
  then show ?thesis using inv mset_remove1 [OF late(2)]
    by (intro exI [of _ lg]) (auto simp: pm_inv_def pm_places_def pm_item_def)
next
  case expire
  then show ?thesis using inv
    by (intro exI [of _ lg]) (auto simp: pm_inv_def pm_places_def pm_item_def)
next
  case (take_failed i e es)
  then show ?thesis using inv
    by (intro exI [of _ "lg @ [(i, (None, Some e))]"]) (auto simp: pm_inv_def pm_places_def)
next
  case (take_part i r rs)
  then show ?thesis using inv
    by (intro exI [of _ "lg @ [(i, (Some r, None))]"]) (auto simp: pm_inv_def pm_places_def)
qed

lemma pm_inv_reachable: "(pm_step env)\<^sup>*\<^sup>* (pm_start env) s \<Longrightarrow> pm_wf env \<Longrightarrow> \<exists>lg. pm_inv env s lg"
  by (induction rule: rtranclp_induct) (use pm_inv_start pm_inv_step in blast)+

text \<open>Nobody is lost, and the buffers always have room for whoever still runs.\<close>

lemma pm_counts:
  assumes "pm_inv env s lg"
  shows "pmReceived s + length (pmParts s) + length (pmFailed s) + length (pmRunning s) = pmCount env"
proof -
  have "size (mset (pm_places s lg)) = size (mset [0..<pmCount env])" using assms by (simp add: pm_inv_def)
  then show ?thesis using assms by (simp add: pm_places_def pm_inv_def)
qed

text \<open>Every step uses up work.\<close>

definition pm_work :: "pm_state \<Rightarrow> nat" where
  "pm_work s = 2 * length (pmRunning s) + length (pmParts s) + length (pmFailed s) + (if pmDone s then 0 else 1)"

lemma length_remove1_in: "i \<in> set xs \<Longrightarrow> Suc (length (remove1 i xs)) = length xs"
  by (metis Suc_pred One_nat_def length_pos_if_in_set length_remove1)

lemma pm_step_work: "pm_step env s s' \<Longrightarrow> pm_work s' < pm_work s"
proof (induction rule: pm_step.induct)
  case (fail i s e)
  with length_remove1_in [OF fail(1)] show ?case by (simp add: pm_work_def)
next
  case (deliver i s r)
  with length_remove1_in [OF deliver(1)] show ?case by (simp add: pm_work_def)
next
  case (late i s r)
  with length_remove1_in [OF late(1)] show ?case by (simp add: pm_work_def)
qed (simp_all add: pm_work_def)

lemma pm_steps_work: "(pm_step env ^^ k) s s' \<Longrightarrow> k + pm_work s' \<le> pm_work s"
proof (induction k arbitrary: s')
  case (Suc k)
  then obtain s1 where "(pm_step env ^^ k) s s1" "pm_step env s1 s'" by auto
  then show ?case using Suc.IH pm_step_work by fastforce
qed simp

lemma pm_progress:
  assumes "pm_wf env" and "pm_inv env s lg" and "pmReceived s < pmCount env"
  shows "\<exists>s'. pm_step env s s' \<and> pmDone s' = pmDone s"
proof -
  note c = pm_counts [OF assms(2)]
  show ?thesis
  proof (cases "pmParts s")
    case (Cons p ps)
    obtain i r where "p = (i, r)" by (cases p)
    then show ?thesis using pm_step.take_part [OF assms(3), of i r ps] Cons by fastforce
  next
    case parts: Nil
    show ?thesis
    proof (cases "pmFailed s")
      case (Cons p ps)
      obtain i e where "p = (i, e)" by (cases p)
      then show ?thesis using pm_step.take_failed [OF assms(3), of i e ps] Cons by fastforce
    next
      case failed: Nil
      then obtain i where i: "i \<in> set (pmRunning s)" using c parts assms(3) by (cases "pmRunning s") auto
      have cap: "0 < pmCap env" using assms(1,3) by (auto simp: pm_wf_def)
      consider (ok) r where "pmOutcome env i = (Some r, None)" | (err) e where "pmOutcome env i = (None, Some e)"
        using assms(1) unfolding pm_wf_def by blast
      then show ?thesis
      proof cases
        case ok
        then show ?thesis using pm_step.deliver [OF i ok] parts cap by fastforce
      next
        case err
        then show ?thesis using pm_step.fail [OF i, of env e] failed cap by fastforce
      qed
    qed
  qed
qed

subsection \<open>Properties\<close>

text \<open>
  C14: the parallel merger never blocks and always returns: from any reachable state some step other
  than the expiry of the context is possible until all goroutines are heard, a goroutine that still
  runs finds room in both channels, and no run has more than 2n+1 steps.
\<close>

theorem parallel_merge_returns:
  assumes "pm_wf env" and "(pm_step env ^^ k) (pm_start env) s"
  shows "k \<le> 2 * pmCount env + 1 \<and>
    (\<not> pm_returns env s \<longrightarrow> (\<exists>s'. pm_step env s s' \<and> pmDone s' = pmDone s)) \<and>
    (pmRunning s \<noteq> [] \<longrightarrow> length (pmParts s) < pmCap env \<and> length (pmFailed s) < pmCap env)"
proof -
  have "(pm_step env)\<^sup>*\<^sup>* (pm_start env) s" using assms(2) by (rule relpowp_imp_rtranclp)
  then obtain lg where inv: "pm_inv env s lg" using pm_inv_reachable assms(1) by blast
  note c = pm_counts [OF inv]
  have "k + pm_work s \<le> 2 * pmCount env + 1"
    using pm_steps_work [OF assms(2)] by (simp add: pm_work_def pm_start_def)
  moreover have "pmReceived s < pmCount env" if "\<not> pm_returns env s"
    using c that by (auto simp: pm_returns_def)
  moreover have "pmCount env \<le> pmCap env" using assms(1) by (simp add: pm_wf_def)
  ultimately show ?thesis using c pm_progress [OF assms(1) inv] by (cases "pmRunning s") auto
qed

definition sample_pm :: pm_env where
  "sample_pm = \<lparr>pmOutcome = (\<lambda>i. if i = 1 then (None, Some ENullResult) else (Some (new_response (Some []) True), None)),
     pmCtxErr = ECtx ''context deadline exceeded'', pmCombiner = combineData, pmCap = 3, pmCount = 2\<rparr>"

lemma sample_pm_wf: "pm_wf sample_pm"
  by (auto simp: pm_wf_def sample_pm_def)

lemma parallel_merge_returns_witness:
  "\<exists>s'. pm_step sample_pm (pm_start sample_pm) s' \<and> pmDone s' = pmDone (pm_start sample_pm)"
proof -
  have "\<not> pm_returns sample_pm (pm_start sample_pm)"
    by (simp add: pm_returns_def pm_start_def sample_pm_def)
  then show ?thesis
    using parallel_merge_returns [of sample_pm 0 "pm_start sample_pm"] sample_pm_wf by simp
qed

lemma pm_result:
  assumes "pm_wf env" and "(pm_step env)\<^sup>*\<^sup>* (pm_start env) s" and "pm_returns env s"
  shows "\<exists>lg. mset (map fst lg) = mset [0..<pmCount env] \<and>
    Result (pmAcc s) = collect (pmCombiner env) (pmCount env) (map snd lg) \<and>
    (\<forall>(i, oc) \<in> set lg. pm_item env (pmDone s) i oc)"
proof -
  obtain lg where inv: "pm_inv env s lg" using pm_inv_reachable assms(1,2) by blast
  have "pmParts s = []" "pmFailed s = []" "pmRunning s = []"
    using pm_counts [OF inv] assms(3) by (auto simp: pm_returns_def)
  then show ?thesis
    using inv by (intro exI [of _ lg]) (auto simp: pm_inv_def pm_places_def collect_def)
qed

text \<open>
  C15: whatever the interleaving, what a finished call returns is the collection of every goroutine's
  outcome exactly once, in the order received; only when the context has expired may a response
  be replaced by the context's error.
\<close>

theorem parallel_merge_result:
  assumes "pm_wf env" and "(pm_step env)\<^sup>*\<^sup>* (pm_start env) s" and "pm_returns env s"
  shows "\<exists>lg. mset (map fst lg) = mset [0..<pmCount env] \<and>
    Result (pmAcc s) = collect (pmCombiner env) (pmCount env) (map snd lg) \<and>
    (\<forall>(i, oc) \<in> set lg. pm_item env (pmDone s) i oc)"
  by (rule pm_result [OF assms])

lemma sample_pm_run:
  "(pm_step sample_pm)\<^sup>*\<^sup>* (pm_start sample_pm)
     \<lparr>pmRunning = [], pmParts = [], pmFailed = [], pmDone = False, pmReceived = 2,
      pmAcc = Merge combineData (Merge combineData (newIncrementalMergeAccumulator 2) (None, Some ENullResult))
        (Some (new_response (Some []) True), None)\<rparr>"
proof -
  let ?r = "new_response (Some []) True" and ?a = "newIncrementalMergeAccumulator 2"
  let ?s0 = "\<lparr>pmRunning = [0, 1], pmParts = [], pmFailed = [], pmDone = False, pmReceived = 0, pmAcc = ?a\<rparr>"
  let ?s1 = "\<lparr>pmRunning = [0], pmParts = [], pmFailed = [(1, ENullResult)], pmDone = False, pmReceived = 0, pmAcc = ?a\<rparr>"
  let ?s2 = "\<lparr>pmRunning = [], pmParts = [(0, ?r)], pmFailed = [(1, ENullResult)], pmDone = False, pmReceived = 0, pmAcc = ?a\<rparr>"
  let ?a3 = "Merge combineData ?a (None, Some ENullResult)"
  let ?s3 = "\<lparr>pmRunning = [], pmParts = [(0, ?r)], pmFailed = [], pmDone = False, pmReceived = 1, pmAcc = ?a3\<rparr>"
  let ?s4 = "\<lparr>pmRunning = [], pmParts = [], pmFailed = [], pmDone = False, pmReceived = 2,
    pmAcc = Merge combineData ?a3 (Some ?r, None)\<rparr>"
  have start: "pm_start sample_pm = ?s0" by (simp add: pm_start_def sample_pm_def upt_rec)
  have "pm_step sample_pm ?s0 ?s1" using pm_step.fail [of 1 ?s0 sample_pm ENullResult] by (simp add: sample_pm_def)
  moreover have "pm_step sample_pm ?s1 ?s2" using pm_step.deliver [of 0 ?s1 sample_pm ?r] by (simp add: sample_pm_def)
  moreover have "pm_step sample_pm ?s2 ?s3" using pm_step.take_failed [of ?s2 sample_pm 1 ENullResult "[]"] by (simp add: sample_pm_def)
  moreover have "pm_step sample_pm ?s3 ?s4" using pm_step.take_part [of ?s3 sample_pm 0 ?r "[]"] by (simp add: sample_pm_def numeral_2_eq_2)
  ultimately show ?thesis unfolding start by (meson rtranclp.rtrancl_refl rtranclp.rtrancl_into_rtrancl)
qed

lemma parallel_merge_result_witness:
  "\<exists>lg. mset (map fst lg) = mset [0..<pmCount sample_pm] \<and>
    Result (Merge combineData (Merge combineData (newIncrementalMergeAccumulator 2) (None, Some ENullResult))
        (Some (new_response (Some []) True), None)) = collect combineData 2 (map snd lg)"
  using parallel_merge_result [OF sample_pm_wf sample_pm_run] by (auto simp: pm_returns_def sample_pm_def)

text \<open>What the response says of the outcomes that were merged.\<close>

definition merges :: "response option \<Rightarrow> outcome list \<Rightarrow> bool" where
  "merges resp ocs \<longleftrightarrow>
     (case resp of
        None \<Rightarrow> oks ocs = []
      | Some d \<Rightarrow> oks ocs \<noteq> [] \<and> map_of (entries (Data d)) = merged_map (oks ocs) \<and>
          (IsComplete d \<longleftrightarrow> errs ocs = [] \<and> all_complete (oks ocs)))"

lemma parallelMerge_merges:
  assumes "launch cl filters 0 next req = (rs, req')" and "first_panic rs = None"
    and perm: "\<And>n. mset (order n) = mset [0..<n]"
    and wf: "\<forall>r \<in> set (oks (map part_of rs)). wf_map (entries (Data r))"
    and res: "parallelMerge ctxErr order (\<lambda>_. False) cl timeout combineData filters next req = PRet resp err req'"
  shows "\<exists>ocs. mset ocs = mset (map part_of rs) \<and> err = newMergeError (errs ocs) \<and>
    merges resp ocs"
proof -
  define ps where "ps = map part_of rs"
  define ocs where "ocs = map (late_part ctxErr (\<lambda>_. False) ps) (order (length ps))"
  have "mset ocs = image_mset ((!) ps) (mset [0..<length ps])"
    unfolding ocs_def mset_map by (simp only: perm) (simp add: late_part_def [abs_def] del: mset_upt)
  also have "\<dots> = mset ps" by (metis map_nth mset_map)
  finally have m: "mset ocs = mset ps" .
  then have "set ocs = set ps" by (rule mset_eq_setD)
  then have "set (oks ocs) = set (oks ps)" by (simp add: oks_def List.map_filter_def)
  then have wf': "\<forall>r \<in> set (oks ocs). wf_map (entries (Data r))" using wf by (simp add: ps_def)
  have len: "length ocs = length ps" using m by (rule mset_eq_length)
  have "collect combineData (length ps) ocs = (resp, err)"
    using assms(1,2) res by (simp add: parallelMerge_def Let_def ps_def [symmetric] ocs_def split: prod.splits)
  then show ?thesis
    using collect_combineData [OF wf', of "length ps"] len m
    by (intro exI [of _ ocs]) (auto simp: ps_def merges_def split: option.splits)
qed

text \<open>
  C13: a call of the parallel merger with the default combiner, for every order of arrival: the error
  collects exactly the failures, no response means every backend failed, the data holds on each
  key the value of the last response that has it, and the response is complete exactly when
  nothing failed and all the parts are complete.
\<close>

theorem parallel_merge_correct:
  assumes "launch cl filters 0 next req = (rs, req')" and "first_panic rs = None"
    and perm: "\<And>n. mset (order n) = mset [0..<n]"
    and wf: "\<forall>r \<in> set (oks (map part_of rs)). wf_map (entries (Data r))"
    and res: "parallelMerge ctxErr order (\<lambda>_. False) cl timeout combineData filters next req = PRet resp err req'"
  shows "\<exists>ocs. mset ocs = mset (map part_of rs) \<and> err = newMergeError (errs ocs) \<and>
    (case resp of
       None \<Rightarrow> oks ocs = []
     | Some d \<Rightarrow> oks ocs \<noteq> [] \<and> map_of (entries (Data d)) = merged_map (oks ocs) \<and>
         (IsComplete d \<longleftrightarrow> errs ocs = [] \<and> all_complete (oks ocs)))"
  using parallelMerge_merges [OF assms] by (simp add: merges_def)

definition sample_backend :: "string \<Rightarrow> proxy" where
  "sample_backend k r = PRet (Some (new_response (Some [(k, JStr (rPath r))]) True)) None r"

definition sample_request :: request where
  "sample_request = \<lparr>rMethod = ''GET'', rURL = None, rQuery = None, rPath = ''/x'', rBody = None,
     rParams = None, rHeaders = None\<rparr>"

lemma parallel_merge_correct_witness:
  "\<exists>ocs. mset ocs = mset (map part_of [sample_backend ''a'' sample_request, sample_backend ''b'' sample_request]) \<and>
    None = newMergeError (errs ocs)"
proof -
  let ?next = "[sample_backend ''a'', sample_backend ''b'']"
  have l: "launch (\<lambda>r. (r, r)) [] 0 ?next sample_request =
      ([sample_backend ''a'' sample_request, sample_backend ''b'' sample_request], sample_request)"
    by (simp add: selected_def)
  have p: "mset (rev [0..<n]) = mset [0..<n]" for n :: nat by simp
  have "\<exists>resp. parallelMerge ENullResult (\<lambda>n. rev [0..<n]) (\<lambda>_. False) (\<lambda>r. (r, r)) 1 combineData [] ?next sample_request =
      PRet resp None sample_request"
    by (simp add: parallelMerge_def selected_def sample_backend_def part_of_def collect_def Let_def late_part_def
        Merge_def newIncrementalMergeAccumulator_def combineData_two Result_def newMergeError_def upt_rec)
  then obtain resp where r: "parallelMerge ENullResult (\<lambda>n. rev [0..<n]) (\<lambda>_. False) (\<lambda>r. (r, r)) 1 combineData [] ?next
      sample_request = PRet resp None sample_request" ..
  have fp: "first_panic [sample_backend ''a'' sample_request, sample_backend ''b'' sample_request] = None"
    by (simp add: sample_backend_def)
  have wf: "\<forall>r \<in> set (oks (map part_of [sample_backend ''a'' sample_request, sample_backend ''b'' sample_request])).
      wf_map (entries (Data r))"
    by (simp add: sample_backend_def part_of_def oks_def map_filter_simps ok_of_def)
  from parallel_merge_correct [OF l fp p wf r] show ?thesis by blast
qed

subsection \<open>The function and the interleavings\<close>

lemma pm_can_return:
  assumes "pm_wf env"
  shows "\<exists>s. (pm_step env)\<^sup>*\<^sup>* (pm_start env) s \<and> pm_returns env s"
proof -
  have "\<exists>s'. (pm_step env)\<^sup>*\<^sup>* (pm_start env) s' \<and> pm_returns env s'" if "(pm_step env)\<^sup>*\<^sup>* (pm_start env) s" for s
    using that
  proof (induction "pm_work s" arbitrary: s rule: less_induct)
    case less
    obtain lg where inv: "pm_inv env s lg" using pm_inv_reachable [OF less(2) assms] by blast
    show ?case
    proof (cases "pm_returns env s")
      case False
      then have "pmReceived s < pmCount env" using pm_counts [OF inv] by (auto simp: pm_returns_def)
      then obtain s1 where s1: "pm_step env s s1" using pm_progress [OF assms inv] by blast
      from less(1) [OF pm_step_work [OF this]] show ?thesis using less(2) s1 rtranclp.rtrancl_into_rtrancl by metis
    qed (use less(2) in blast)
  qed
  then show ?thesis by blast
qed

lemma launch_same: "cl req = (copy, req) \<Longrightarrow> launch cl [] i ps req = (map (\<lambda>n. n copy) ps, req)"
  by (induction ps arbitrary: i) (simp_all add: selected_def)

text \<open>What a finished call returns is what the function returns for some order of arrival and some late goroutines.\<close>

lemma pm_parallelMerge:
  assumes run: "pm_wf env" "(pm_step env)\<^sup>*\<^sup>* (pm_start env) s" "pm_returns env s"
    and calls: "launch cl filters 0 ps req = (rs, req')" "first_panic rs = None"
    and env: "pmCount env = length rs" "\<forall>i < length rs. pmOutcome env i = part_of (rs ! i)"
  shows "\<exists>order late. mset order = mset [0..<length rs] \<and> (\<not> pmDone s \<longrightarrow> late = (\<lambda>_. False)) \<and>
    parallelMerge (pmCtxErr env) (\<lambda>_. order) late cl timeout (pmCombiner env) filters ps req =
      (case Result (pmAcc s) of (resp, err) \<Rightarrow> PRet resp err req')"
proof -
  obtain lg where lg: "mset (map fst lg) = mset [0..<length rs]" "\<forall>(i, oc) \<in> set lg. pm_item env (pmDone s) i oc"
    and res: "Result (pmAcc s) = collect (pmCombiner env) (length rs) (map snd lg)"
    using pm_result [OF run] env(1) by auto
  define late where "late i \<longleftrightarrow> (\<exists>oc. (i, oc) \<in> set lg \<and> oc \<noteq> pmOutcome env i)" for i
  have dist: "distinct (map fst lg)" using lg(1) by (metis distinct_upt mset_eq_imp_distinct_iff)
  have range: "set (map fst lg) = {0..<length rs}" using lg(1) by (metis atLeastLessThan_upt mset_eq_setD)
  have item: "late_part (pmCtxErr env) late (map part_of rs) i = oc" if "(i, oc) \<in> set lg" for i oc
  proof -
    have i: "i < length rs" using range that by force
    have one: "oc' = oc" if "(i, oc') \<in> set lg" for oc'
      using eq_key_imp_eq_value [OF dist that \<open>(i, oc) \<in> set lg\<close>] .
    have "late i \<longleftrightarrow> oc \<noteq> pmOutcome env i" unfolding late_def using one that by blast
    moreover have "pm_item env (pmDone s) i oc" using lg(2) that by blast
    ultimately show ?thesis using env(2) i by (auto simp: late_part_def pm_item_def)
  qed
  have items: "map (late_part (pmCtxErr env) late (map part_of rs)) (map fst lg) = map snd lg"
    using item by (simp add: case_prod_beta')
  have "parallelMerge (pmCtxErr env) (\<lambda>_. map fst lg) late cl timeout (pmCombiner env) filters ps req =
      (case Result (pmAcc s) of (resp, err) \<Rightarrow> PRet resp err req')"
    using calls res by (simp only: parallelMerge_def Let_def items prod.case option.case length_map)
  moreover have "late = (\<lambda>_. False)" if "\<not> pmDone s"
  proof
    fix i
    show "late i = False" using lg(2) that unfolding late_def pm_item_def by blast
  qed
  ultimately show ?thesis
    using lg(1) by blast
qed

end
