(* ===== verification/Concurrent.thy ===== *)
theory Concurrent
  imports Parallel_Merge
begin

section \<open>Concurrent calls to one backend (\<open>proxy/concurrent.go\<close>)\<close>

text \<open>
  The same request is sent several times at once and the first complete response wins.  As for the parallel
  merger the interleavings are a step relation: goroutines, two buffered channels, the two deadlines and
  the receiving loop.  \<open>NewConcurrentMiddlewareWithLogger\<close> is the code as a function of a schedule.
\<close>

subsection \<open>The receiving loop for a schedule\<close>

text \<open>An entry of the schedule is the goroutine heard next, or \<open>None\<close> when the loop hears \<open>ctx.Done()\<close>.\<close>

fun receive :: "(nat \<Rightarrow> outcome) \<Rightarrow> nat option list \<Rightarrow> response option \<Rightarrow> gerror option \<Rightarrow> outcome" where
  "receive ocs [] response err = (response, err)"
| "receive ocs (None # sched) response err = receive ocs sched response err"
| "receive ocs (Some i # sched) response err =
     (case fst (ocs i) of
        Some r \<Rightarrow> if IsComplete r then (Some r, None) else receive ocs sched (Some r) err
      | None \<Rightarrow> receive ocs sched response (snd (ocs i)))"

text \<open>\<open>processConcurrentCall\<close>: a response that finds the context done becomes the context's error.\<close>

definition processConcurrentCall :: "gerror \<Rightarrow> (nat \<Rightarrow> bool) \<Rightarrow> (nat \<Rightarrow> pres) \<Rightarrow> nat \<Rightarrow> outcome" where
  "processConcurrentCall ctxErr late calls i =
     (if late i \<and> snd (part_of (calls i)) = None then (None, Some ctxErr) else part_of (calls i))"

text \<open>
  \<open>turn i\<close> is what the next proxy does the \<open>i\<close>-th time it is called.  All calls but the last get a
  deep copy of the request.
\<close>

definition concurrent_proxy ::
  "(url \<Rightarrow> url option) \<Rightarrow> gerror \<Rightarrow> (nat \<Rightarrow> bool) \<Rightarrow> (nat \<Rightarrow> nat option list) \<Rightarrow> nat \<Rightarrow> (nat \<Rightarrow> proxy) \<Rightarrow> proxy" where
  "concurrent_proxy reparse ctxErr late sched n turn request =
     (let calls = (\<lambda>i. turn i (if i < n - 1 then fst (CloneRequest reparse request) else request)) in
      case first_panic (map calls [0..<n]) of
        Some e \<Rightarrow> PPanic e
      | None \<Rightarrow> (case receive (processConcurrentCall ctxErr late calls) (sched n) None None of
                   (response, err) \<Rightarrow> PRet response err request))"

text \<open>One concurrent call is fatal and gives a nil middleware; channels of a negative size panic.\<close>

definition NewConcurrentMiddlewareWithLogger ::
  "(url \<Rightarrow> url option) \<Rightarrow> gerror \<Rightarrow> (nat \<Rightarrow> bool) \<Rightarrow> (nat \<Rightarrow> nat option list) \<Rightarrow> Backend \<Rightarrow> middleware option" where
  "NewConcurrentMiddlewareWithLogger reparse ctxErr late sched remote =
     (if be_ConcurrentCalls remote = 1 then None
      else Some (wrap_single ''NewConcurrentMiddleware only accepts 1 proxy''
        (\<lambda>next request. if be_ConcurrentCalls remote < 0 then PPanic ''makechan: size out of range''
          else concurrent_proxy reparse ctxErr late sched (nat (be_ConcurrentCalls remote)) (\<lambda>_. next) request)))"

definition serviceTimeout :: "Backend \<Rightarrow> int" where
  "serviceTimeout remote = percent_of 75 (be_Timeout remote)"

subsection \<open>The interleavings\<close>

record cc_state =
  ccRunning :: "nat list"
  ccResults :: "(nat \<times> response) list"
  ccFailed :: "(nat \<times> gerror) list"
  ccExpired :: bool
  ccDone :: bool
  ccIter :: nat
  ccResponse :: "response option"
  ccErr :: "gerror option"
  ccReturned :: "outcome option"

text \<open>
  \<open>ccExpired\<close>: the service timeout is over (which is also so when the caller's context is done);
  \<open>ccDone\<close>: the caller's context is done.  Returning cancels what still runs.
\<close>

record cc_env =
  ccOutcome :: "nat \<Rightarrow> outcome"
  ccCtxErr :: gerror
  ccCalls :: nat

definition cc_start :: "cc_env \<Rightarrow> cc_state" where
  "cc_start env = \<lparr>ccRunning = [0..<ccCalls env], ccResults = [], ccFailed = [], ccExpired = False,
     ccDone = False, ccIter = 0, ccResponse = None, ccErr = None, ccReturned = None\<rparr>"

definition cc_cancelled :: "cc_state \<Rightarrow> bool" where
  "cc_cancelled s \<longleftrightarrow> ccExpired s \<or> ccReturned s \<noteq> None"

inductive cc_step :: "cc_env \<Rightarrow> cc_state \<Rightarrow> cc_state \<Rightarrow> bool" for env :: cc_env where
  fail: "i \<in> set (ccRunning s) \<Longrightarrow> ccOutcome env i = (None, Some e) \<Longrightarrow> length (ccFailed s) < ccCalls env \<Longrightarrow>
    cc_step env s (s\<lparr>ccRunning := remove1 i (ccRunning s), ccFailed := ccFailed s @ [(i, e)]\<rparr>)"
| deliver: "i \<in> set (ccRunning s) \<Longrightarrow> ccOutcome env i = (Some r, None) \<Longrightarrow> length (ccResults s) < ccCalls env \<Longrightarrow>
    cc_step env s (s\<lparr>ccRunning := remove1 i (ccRunning s), ccResults := ccResults s @ [(i, r)]\<rparr>)"
| late: "i \<in> set (ccRunning s) \<Longrightarrow> ccOutcome env i = (Some r, None) \<Longrightarrow> cc_cancelled s \<Longrightarrow>
    length (ccFailed s) < ccCalls env \<Longrightarrow>
    cc_step env s (s\<lparr>ccRunning := remove1 i (ccRunning s), ccFailed := ccFailed s @ [(i, ccCtxErr env)]\<rparr>)"
| expire: "\<not> ccExpired s \<Longrightarrow> cc_step env s (s\<lparr>ccExpired := True\<rparr>)"
| abandon: "\<not> ccDone s \<Longrightarrow> cc_step env s (s\<lparr>ccExpired := True, ccDone := True\<rparr>)"
| take_complete: "ccReturned s = None \<Longrightarrow> ccIter s < ccCalls env \<Longrightarrow> ccResults s = (i, r) # rs \<Longrightarrow> IsComplete r \<Longrightarrow>
    cc_step env s (s\<lparr>ccResults := rs, ccReturned := Some (Some r, None)\<rparr>)"
| take_partial: "ccReturned s = None \<Longrightarrow> ccIter s < ccCalls env \<Longrightarrow> ccResults s = (i, r) # rs \<Longrightarrow> \<not> IsComplete r \<Longrightarrow>
    cc_step env s (s\<lparr>ccResults := rs, ccIter := Suc (ccIter s), ccResponse := Some r\<rparr>)"
| take_failed: "ccReturned s = None \<Longrightarrow> ccIter s < ccCalls env \<Longrightarrow> ccFailed s = (i, e) # es \<Longrightarrow>
    cc_step env s (s\<lparr>ccFailed := es, ccIter := Suc (ccIter s), ccErr := Some e\<rparr>)"
| take_done: "ccReturned s = None \<Longrightarrow> ccIter s < ccCalls env \<Longrightarrow> ccDone s \<Longrightarrow>
    cc_step env s (s\<lparr>ccIter := Suc (ccIter s)\<rparr>)"
| finish: "ccReturned s = None \<Longrightarrow> ccIter s = ccCalls env \<Longrightarrow>
    cc_step env s (s\<lparr>ccReturned := Some (ccResponse s, ccErr s)\<rparr>)"

subsection \<open>Invariant\<close>

definition cc_wf :: "cc_env \<Rightarrow> bool" where
  "cc_wf env \<longleftrightarrow> (\<forall>i. (\<exists>r. ccOutcome env i = (Some r, None)) \<or> (\<exists>e. ccOutcome env i = (None, Some e)))"

text \<open>Where a response and an error can come from.\<close>

definition from_call :: "cc_env \<Rightarrow> response \<Rightarrow> bool" where
  "from_call env r \<longleftrightarrow> (\<exists>i < ccCalls env. ccOutcome env i = (Some r, None))"

definition error_of_call :: "cc_env \<Rightarrow> gerror \<Rightarrow> bool" where
  "error_of_call env e \<longleftrightarrow> e = ccCtxErr env \<or> (\<exists>i < ccCalls env. ccOutcome env i = (None, Some e))"

definition complete_call :: "cc_env \<Rightarrow> nat \<Rightarrow> bool" where
  "complete_call env i \<longleftrightarrow> i < ccCalls env \<and> (\<exists>r. ccOutcome env i = (Some r, None) \<and> IsComplete r)"

definition cc_pending :: "cc_state \<Rightarrow> nat" where
  "cc_pending s = length (ccResults s) + length (ccFailed s) + length (ccRunning s)"

definition cc_inv :: "cc_env \<Rightarrow> cc_state \<Rightarrow> bool" where
  "cc_inv env s \<longleftrightarrow>
     (\<forall>i \<in> set (ccRunning s). i < ccCalls env) \<and>
     (\<forall>(i, r) \<in> set (ccResults s). i < ccCalls env \<and> ccOutcome env i = (Some r, None)) \<and>
     (\<forall>(i, e) \<in> set (ccFailed s). error_of_call env e) \<and>
     (\<forall>r. ccResponse s = Some r \<longrightarrow> from_call env r \<and> \<not> IsComplete r) \<and>
     (\<forall>e. ccErr s = Some e \<longrightarrow> error_of_call env e) \<and>
     (ccDone s \<longrightarrow> ccExpired s) \<and>
     ccIter s \<le> ccCalls env \<and> cc_pending s \<le> ccCalls env"

text \<open>
  Until the caller's context is done every iteration hears a goroutine, and until the service timeout no
  complete response is lost.
\<close>

definition cc_live :: "cc_env \<Rightarrow> cc_state \<Rightarrow> bool" where
  "cc_live env s \<longleftrightarrow>
     (\<not> ccDone s \<and> ccReturned s = None \<longrightarrow> ccIter s + cc_pending s = ccCalls env) \<and>
     (\<not> ccExpired s \<and> ccReturned s = None \<longrightarrow>
        (\<forall>i. complete_call env i \<longrightarrow> i \<in> set (ccRunning s) \<or> i \<in> fst ` set (ccResults s)))"

definition cc_answer :: "cc_env \<Rightarrow> cc_state \<Rightarrow> bool" where
  "cc_answer env s \<longleftrightarrow>
     (\<forall>response err. ccReturned s = Some (response, err) \<longrightarrow>
        (\<forall>r. response = Some r \<longrightarrow> from_call env r) \<and>
        (\<forall>e. err = Some e \<longrightarrow> error_of_call env e) \<and>
        (\<forall>r. response = Some r \<and> IsComplete r \<longrightarrow> err = None) \<and>
        (\<not> ccExpired s \<and> (\<exists>i. complete_call env i) \<longrightarrow> (\<exists>r. response = Some r \<and> IsComplete r)))"

lemma remove1_pending: "i \<in> set xs \<Longrightarrow> length xs = Suc (length (remove1 i xs))"
  by (simp add: length_remove1_in)

lemma remove1_split: "i \<in> set xs \<Longrightarrow> set xs = insert i (set (remove1 i xs))"
  by (induction xs) auto

lemma cc_inv_step:
  assumes "cc_inv env s" and "cc_step env s s'"
  shows "cc_inv env s'"
  using assms(2)
proof cases
  case (fail i e)
  then show ?thesis using assms(1) remove1_pending [OF fail(2)] notin_set_remove1 [of _ "ccRunning s" i]
    by (auto simp: cc_inv_def cc_pending_def error_of_call_def)
next
  case (deliver i r)
  then show ?thesis using assms(1) remove1_pending [OF deliver(2)] notin_set_remove1 [of _ "ccRunning s" i]
    by (auto simp: cc_inv_def cc_pending_def)
next
  case (late i r)
  then show ?thesis using assms(1) remove1_pending [OF late(2)] notin_set_remove1 [of _ "ccRunning s" i]
    by (auto simp: cc_inv_def cc_pending_def error_of_call_def)
next
  case (take_partial i r rs)
  then show ?thesis using assms(1) by (auto simp: cc_inv_def cc_pending_def from_call_def)
qed (use assms(1) in \<open>auto simp: cc_inv_def cc_pending_def\<close>)

lemma complete_call_fst: "complete_call env i \<Longrightarrow> snd (ccOutcome env i) = None"
  by (auto simp: complete_call_def)

lemma cc_live_step:
  assumes "cc_inv env s" and "cc_live env s" and "cc_step env s s'"
  shows "cc_live env s'"
  using assms(3)
proof cases
  case (fail i e)
  have "\<not> complete_call env i" using fail(3) complete_call_fst by fastforce
  then have "complete_call env j \<Longrightarrow> j \<in> set (ccRunning s) \<Longrightarrow> j \<in> set (remove1 i (ccRunning s))" for j
    by (metis in_set_remove1)
  then show ?thesis using assms(2) fail remove1_pending [OF fail(2)]
    unfolding cc_live_def cc_pending_def by auto
next
  case (deliver i r)
  show ?thesis using assms(2) deliver remove1_pending [OF deliver(2)] remove1_split [OF deliver(2)]
    unfolding cc_live_def cc_pending_def by auto
next
  case (late i r)
  then show ?thesis using assms(2) remove1_pending [OF late(2)]
    by (auto simp: cc_live_def cc_cancelled_def cc_pending_def)
next
  case (take_partial i r rs)
  then have "ccOutcome env i = (Some r, None)" using assms(1) by (auto simp: cc_inv_def)
  then have "\<not> complete_call env i" using take_partial by (auto simp: complete_call_def)
  then show ?thesis using assms(2) take_partial unfolding cc_live_def cc_pending_def by auto
next
  case take_done
  then show ?thesis using assms(1) by (auto simp: cc_inv_def cc_live_def)
qed (use assms(2) in \<open>auto simp: cc_live_def cc_pending_def\<close>)

lemma cc_answer_step:
  assumes "cc_inv env s" and "cc_live env s" and "cc_answer env s" and "cc_step env s s'"
  shows "cc_answer env s'"
  using assms(4)
proof cases
  case (take_complete i r rs)
  then have "from_call env r" using assms(1) by (auto simp: cc_inv_def from_call_def)
  then show ?thesis using take_complete by (auto simp: cc_answer_def)
next
  case finish
  have "\<not> complete_call env i" if "\<not> ccExpired s" for i
  proof -
    have "\<not> ccDone s" using assms(1) that by (auto simp: cc_inv_def)
    then have "cc_pending s = 0" using assms(2) finish by (simp add: cc_live_def)
    then show ?thesis using assms(2) finish that by (auto simp: cc_live_def cc_pending_def)
  qed
  then show ?thesis using assms(1) finish by (auto simp: cc_answer_def cc_inv_def)
qed (use assms(3) in \<open>auto simp: cc_answer_def\<close>)

lemma cc_reachable:
  "(cc_step env)\<^sup>*\<^sup>* (cc_start env) s \<Longrightarrow> cc_inv env s \<and> cc_live env s \<and> cc_answer env s"
proof (induction rule: rtranclp_induct)
  case base
  show ?case by (auto simp: cc_inv_def cc_live_def cc_answer_def cc_start_def cc_pending_def complete_call_def)
next
  case (step s s')
  then show ?case using cc_inv_step cc_live_step cc_answer_step by blast
qed

subsection \<open>Termination\<close>

definition cc_work :: "cc_env \<Rightarrow> cc_state \<Rightarrow> nat" where
  "cc_work env s = 2 * length (ccRunning s) + length (ccResults s) + length (ccFailed s) +
     (if ccExpired s then 0 else 1) + (if ccDone s then 0 else 1) + (ccCalls env - ccIter s) +
     (if ccReturned s = None then 1 else 0)"

lemma cc_step_work: "cc_step env s s' \<Longrightarrow> cc_work env s' < cc_work env s"
proof (induction rule: cc_step.induct)
  case (fail i s e)
  with remove1_pending [OF fail(1)] show ?case by (simp add: cc_work_def)
next
  case (deliver i s r)
  with remove1_pending [OF deliver(1)] show ?case by (simp add: cc_work_def)
next
  case (late i s r)
  with remove1_pending [OF late(1)] show ?case by (simp add: cc_work_def)
qed (simp_all add: cc_work_def)

lemma cc_steps_work: "(cc_step env ^^ k) s s' \<Longrightarrow> k + cc_work env s' \<le> cc_work env s"
proof (induction k arbitrary: s')
  case (Suc k)
  then obtain s1 where "(cc_step env ^^ k) s s1" "cc_step env s1 s'" by auto
  then show ?case using Suc.IH cc_step_work by fastforce
qed simp

text \<open>A goroutine always finds room, even after the call has returned.\<close>

lemma cc_room:
  assumes "cc_inv env s" and "ccRunning s \<noteq> []"
  shows "length (ccResults s) < ccCalls env" and "length (ccFailed s) < ccCalls env"
  using assms by (cases "ccRunning s"; auto simp: cc_inv_def cc_pending_def)+

definition same_deadlines :: "cc_state \<Rightarrow> cc_state \<Rightarrow> bool" where
  "same_deadlines s s' \<longleftrightarrow> ccExpired s' = ccExpired s \<and> ccDone s' = ccDone s"

lemma step_keeps: "cc_step env s s' \<Longrightarrow> same_deadlines s s' \<Longrightarrow> \<exists>s'. cc_step env s s' \<and> same_deadlines s s'"
  by blast

lemma cc_goroutine_step:
  assumes "cc_wf env" and "cc_inv env s" and "ccRunning s \<noteq> []"
  shows "\<exists>s'. cc_step env s s' \<and> same_deadlines s s'"
proof -
  obtain i where i: "i \<in> set (ccRunning s)" using assms(3) by (cases "ccRunning s") auto
  consider (ok) r where "ccOutcome env i = (Some r, None)" | (err) e where "ccOutcome env i = (None, Some e)"
    using assms(1) unfolding cc_wf_def by blast
  then show ?thesis
  proof cases
    case ok
    from cc_step.deliver [OF i ok cc_room(1) [OF assms(2,3)]] show ?thesis
      by (rule step_keeps) (simp add: same_deadlines_def)
  next
    case err
    from cc_step.fail [OF i err cc_room(2) [OF assms(2,3)]] show ?thesis
      by (rule step_keeps) (simp add: same_deadlines_def)
  qed
qed

lemma cc_progress:
  assumes "cc_wf env" and inv: "cc_inv env s" and live: "cc_live env s" and none: "ccReturned s = None"
  shows "\<exists>s'. cc_step env s s' \<and> same_deadlines s s'"
proof (cases "ccIter s = ccCalls env")
  case True
  from cc_step.finish [OF none this] show ?thesis by (rule step_keeps) (simp add: same_deadlines_def)
next
  case False
  then have lt: "ccIter s < ccCalls env" using inv by (simp add: cc_inv_def)
  consider (gone) "ccDone s" | (running) "ccRunning s \<noteq> []" | (results) i r rs where "ccResults s = (i, r) # rs"
    | (failed) i e es where "ccFailed s = (i, e) # es"
  proof -
    have "cc_pending s \<noteq> 0" if "\<not> ccDone s" using live none lt that by (auto simp: cc_live_def)
    then show ?thesis using that by (cases "ccResults s"; cases "ccFailed s") (auto simp: cc_pending_def)
  qed
  then show ?thesis
  proof cases
    case gone
    from cc_step.take_done [OF none lt this] show ?thesis by (rule step_keeps) (simp add: same_deadlines_def)
  next
    case running
    then show ?thesis using cc_goroutine_step assms(1) inv by blast
  next
    case (results i r rs)
    show ?thesis
    proof (cases "IsComplete r")
      case True
      from cc_step.take_complete [OF none lt results this] show ?thesis
        by (rule step_keeps) (simp add: same_deadlines_def)
    next
      case False
      from cc_step.take_partial [OF none lt results this] show ?thesis
        by (rule step_keeps) (simp add: same_deadlines_def)
    qed
  next
    case (failed i e es)
    from cc_step.take_failed [OF none lt this] show ?thesis by (rule step_keeps) (simp add: same_deadlines_def)
  qed
qed

subsection \<open>Properties\<close>

text \<open>
  C28: the concurrent proxy always returns and leaks no goroutine: no run is longer than 3n+3 steps, and in any
  reachable state a step other than the expiry of a deadline is possible as long as the call has not returned or a
  goroutine is still running.
\<close>

theorem concurrent_returns:
  assumes "cc_wf env" and "(cc_step env ^^ k) (cc_start env) s"
  shows "k \<le> 3 * ccCalls env + 3 \<and>
    (ccReturned s = None \<or> ccRunning s \<noteq> [] \<longrightarrow> (\<exists>s'. cc_step env s s' \<and> same_deadlines s s'))"
proof -
  have "k + cc_work env s \<le> 3 * ccCalls env + 3"
    using cc_steps_work [OF assms(2)] by (simp add: cc_work_def cc_start_def)
  moreover have "cc_inv env s \<and> cc_live env s"
    using cc_reachable [OF relpowp_imp_rtranclp [OF assms(2)]] by blast
  ultimately show ?thesis using cc_progress cc_goroutine_step assms(1) by auto
qed

definition sample_cc :: cc_env where
  "sample_cc = \<lparr>ccOutcome = (\<lambda>i. if i = 0 then (None, Some ENoHosts) else (Some (new_response None True), None)),
     ccCtxErr = ECtx ''context deadline exceeded'', ccCalls = 2\<rparr>"

lemma concurrent_returns_witness:
  "\<exists>s'. cc_step sample_cc (cc_start sample_cc) s' \<and> same_deadlines (cc_start sample_cc) s'"
  using concurrent_returns [of sample_cc 0 "cc_start sample_cc"]
  by (auto simp: cc_wf_def sample_cc_def cc_start_def)

text \<open>
  C29: what a concurrent call returns: a response is the answer of one of the calls, an error is the failure of one of
  them or the context's, a complete response comes without an error, and while no deadline is over a call
  with a complete answer among its replicas returns a complete response.
\<close>

theorem concurrent_answer:
  assumes "(cc_step env)\<^sup>*\<^sup>* (cc_start env) s" and "ccReturned s = Some (response, err)"
  shows "(\<forall>r. response = Some r \<longrightarrow> from_call env r \<and> (IsComplete r \<longrightarrow> err = None)) \<and>
    (\<forall>e. err = Some e \<longrightarrow> error_of_call env e) \<and>
    (\<not> ccExpired s \<and> (\<exists>i. complete_call env i) \<longrightarrow> (\<exists>r. response = Some r \<and> IsComplete r))"
  using cc_reachable [OF assms(1)] assms(2) by (simp add: cc_answer_def)

text \<open>The first call fails, the second one answers.\<close>

lemma sample_cc_run:
  "(cc_step sample_cc)\<^sup>*\<^sup>* (cc_start sample_cc)
     \<lparr>ccRunning = [], ccResults = [], ccFailed = [(0, ENoHosts)], ccExpired = False, ccDone = False, ccIter = 0,
      ccResponse = None, ccErr = None, ccReturned = Some (Some (new_response None True), None)\<rparr>"
proof -
  let ?s0 = "cc_start sample_cc"
  let ?s1 = "?s0\<lparr>ccRunning := [1], ccFailed := [(0, ENoHosts)]\<rparr>"
  let ?s2 = "?s1\<lparr>ccRunning := [], ccResults := [(1, new_response None True)]\<rparr>"
  let ?s3 = "?s2\<lparr>ccResults := [], ccReturned := Some (Some (new_response None True), None)\<rparr>"
  have "cc_step sample_cc ?s0 ?s1"
    using cc_step.fail [of 0 ?s0 sample_cc ENoHosts] by (simp add: cc_start_def sample_cc_def upt_rec)
  moreover have "cc_step sample_cc ?s1 ?s2"
    using cc_step.deliver [of 1 ?s1 sample_cc "new_response None True"] by (simp add: cc_start_def sample_cc_def)
  moreover have "cc_step sample_cc ?s2 ?s3"
    using cc_step.take_complete [of ?s2 sample_cc 1 "new_response None True" "[]"] by (simp add: cc_start_def sample_cc_def)
  ultimately have "(cc_step sample_cc)\<^sup>*\<^sup>* ?s0 ?s3"
    by (meson rtranclp.rtrancl_into_rtrancl rtranclp.rtrancl_refl)
  then show ?thesis by (simp add: cc_start_def)
qed

lemma concurrent_answer_witness:
  "from_call sample_cc (new_response None True)"
  using concurrent_answer [OF sample_cc_run] by simp

text \<open>
  a caller that goes away can be answered with neither a response nor an error, although the calls that still run
  would succeed.
\<close>

theorem concurrent_gives_up_silently:
  "\<exists>s. (cc_step env)\<^sup>*\<^sup>* (cc_start env) s \<and> ccReturned s = Some (None, None)"
proof -
  let ?gone = "\<lambda>k. (cc_start env)\<lparr>ccExpired := True, ccDone := True, ccIter := k\<rparr>"
  have "cc_step env (cc_start env) (?gone 0)"
    using cc_step.abandon [of "cc_start env" env] by (simp add: cc_start_def)
  then have start: "(cc_step env)\<^sup>*\<^sup>* (cc_start env) (?gone 0)" by blast
  have "(cc_step env)\<^sup>*\<^sup>* (cc_start env) (?gone k)" if "k \<le> ccCalls env" for k
    using that
  proof (induction k)
    case (Suc k)
    have "cc_step env (?gone k) (?gone (Suc k))"
      using cc_step.take_done [of "?gone k" env] Suc.prems by (simp add: cc_start_def)
    with Suc show ?case by (meson Suc_leD rtranclp.rtrancl_into_rtrancl)
  qed (use start in simp)
  moreover have "cc_step env (?gone (ccCalls env)) ((?gone (ccCalls env))\<lparr>ccReturned := Some (None, None)\<rparr>)"
    using cc_step.finish [of "?gone (ccCalls env)" env] by (simp add: cc_start_def)
  ultimately have "(cc_step env)\<^sup>*\<^sup>* (cc_start env) ((?gone (ccCalls env))\<lparr>ccReturned := Some (None, None)\<rparr>)"
    by (meson order_refl rtranclp.rtrancl_into_rtrancl)
  then show ?thesis by (intro exI conjI) (assumption, simp)
qed

end
