(* ===== verification/Balancer.thy ===== *)
theory Balancer
  imports Config_Types Register "HOL-Library.Word"
begin

section \<open>Service discovery and load balancing (\<open>sd/\<close>)\<close>

text \<open>
  Subscribers, their register, and the three balancers.  A subscriber's answer may change with time, so
  \<open>Hosts\<close> takes the moment of the call.  The counter of the round robin balancer is a 64-bit word;
  \<open>atomic.AddUint64\<close> makes every call one step, so concurrent calls are calls in some order.
  \<open>fastrand.Uint32n\<close> and \<open>rand.Perm\<close> are arguments.  The contract every balancer meets is
  the locale \<open>balancer\<close>.
\<close>

subsection \<open>Subscribers\<close>

datatype subscriber = FixedSubscriber "string list" | SubscriberFunc "nat \<Rightarrow> gerror + string list"

fun Hosts :: "subscriber \<Rightarrow> nat \<Rightarrow> gerror + string list" where
  "Hosts (FixedSubscriber s) now = Inr s"
| "Hosts (SubscriberFunc f) now = f now"

type_synonym subscriber_factory = "Backend \<Rightarrow> subscriber"

definition FixedSubscriberFactory :: subscriber_factory where
  "FixedSubscriberFactory cfg = FixedSubscriber (be_Host cfg)"

text \<open>\<open>perm n\<close> is the permutation \<open>rand.Perm(n)\<close> draws.\<close>

definition NewRandomFixedSubscriber :: "(nat \<Rightarrow> nat list) \<Rightarrow> string list \<Rightarrow> string list" where
  "NewRandomFixedSubscriber perm hosts = map (\<lambda>i. hosts ! i) (perm (length hosts))"

type_synonym sd_register = "subscriber_factory dyn untyped"

definition sd_initRegister :: sd_register where
  "sd_initRegister = NewUntyped"

definition sd_Register :: "sd_register \<Rightarrow> string \<Rightarrow> subscriber_factory \<Rightarrow> sd_register" where
  "sd_Register r name sf = Untyped_Register r name (Typed sf)"

definition sd_Get :: "sd_register \<Rightarrow> string \<Rightarrow> subscriber_factory" where
  "sd_Get r name =
     (case Untyped_Get r name of
        None \<Rightarrow> FixedSubscriberFactory
      | Some tmp \<Rightarrow> (case dyn_assert tmp of Some sf \<Rightarrow> sf | None \<Rightarrow> FixedSubscriberFactory))"

subsection \<open>Balancers\<close>

datatype balancer = nopBalancer string | roundRobinLB subscriber "64 word" | randomLB subscriber

definition balancer_hosts :: "subscriber \<Rightarrow> nat \<Rightarrow> gerror + string list" where
  "balancer_hosts s now =
     (case Hosts s now of
        Inl err \<Rightarrow> Inl err
      | Inr hs \<Rightarrow> if length hs \<le> 0 then Inl ENoHosts else Inr hs)"

definition NewRoundRobinLB :: "(nat \<Rightarrow> nat) \<Rightarrow> subscriber \<Rightarrow> balancer" where
  "NewRoundRobinLB rand s =
     (case s of
        FixedSubscriber [] \<Rightarrow> roundRobinLB s 0
      | FixedSubscriber [h] \<Rightarrow> nopBalancer h
      | FixedSubscriber hs \<Rightarrow> roundRobinLB s (of_nat (rand (length hs mod 2 ^ 32)))
      | SubscriberFunc f \<Rightarrow> roundRobinLB s 0)"

definition NewRandomLB :: "subscriber \<Rightarrow> balancer" where
  "NewRandomLB s = (case s of FixedSubscriber [h] \<Rightarrow> nopBalancer h | _ \<Rightarrow> randomLB s)"

definition NewBalancer :: "nat \<Rightarrow> (nat \<Rightarrow> nat) \<Rightarrow> subscriber \<Rightarrow> balancer" where
  "NewBalancer gomaxprocs rand s = (if gomaxprocs = 1 then NewRoundRobinLB rand s else NewRandomLB s)"

text \<open>\<open>AddUint64\<close> returns the new value; the offset is taken from the value before.\<close>

definition roundRobinLB_Host :: "nat \<Rightarrow> subscriber \<Rightarrow> 64 word \<Rightarrow> (gerror + string) run \<times> 64 word" where
  "roundRobinLB_Host now s counter =
     (case balancer_hosts s now of
        Inl err \<Rightarrow> (Ret (Inl err), counter)
      | Inr hosts \<Rightarrow>
          (let counter' = counter + 1; offset = (counter' - 1) mod of_nat (length hosts)
           in (Ret (Inr (hosts ! unat offset)), counter')))"

definition randomLB_Host :: "(nat \<Rightarrow> nat) \<Rightarrow> nat \<Rightarrow> subscriber \<Rightarrow> (gerror + string) run" where
  "randomLB_Host rand now s =
     (case balancer_hosts s now of
        Inl err \<Rightarrow> Ret (Inl err)
      | Inr hosts \<Rightarrow>
          (let i = rand (length hosts mod 2 ^ 32)
           in if i < length hosts then Ret (Inr (hosts ! i)) else Panic ''index out of range''))"

fun Host :: "(nat \<Rightarrow> nat) \<Rightarrow> nat \<Rightarrow> balancer \<Rightarrow> (gerror + string) run \<times> balancer" where
  "Host rand now (nopBalancer h) = (Ret (Inr h), nopBalancer h)"
| "Host rand now (roundRobinLB s counter) =
     (case roundRobinLB_Host now s counter of (res, counter') \<Rightarrow> (res, roundRobinLB s counter'))"
| "Host rand now (randomLB s) = (randomLB_Host rand now s, randomLB s)"

subsection \<open>The contract\<close>

locale balancer =
  fixes host :: "'b \<Rightarrow> (gerror + string) run \<times> 'b"
    and inv :: "'b \<Rightarrow> bool"
    and offered :: "'b \<Rightarrow> gerror + string list"
  assumes inv_host: "inv b \<Longrightarrow> inv (snd (host b))"
    and offered_host: "inv b \<Longrightarrow> offered (snd (host b)) = offered b"
    and host_member: "inv b \<Longrightarrow> offered b = Inr hs \<Longrightarrow> hs \<noteq> [] \<Longrightarrow> \<exists>h \<in> set hs. fst (host b) = Ret (Inr h)"
    and host_none: "inv b \<Longrightarrow> offered b = Inr [] \<Longrightarrow> fst (host b) = Ret (Inl ENoHosts)"
    and host_error: "inv b \<Longrightarrow> offered b = Inl e \<Longrightarrow> fst (host b) = Ret (Inl e)"
begin

fun hosts_of_calls :: "nat \<Rightarrow> 'b \<Rightarrow> (gerror + string) run list" where
  "hosts_of_calls 0 b = []"
| "hosts_of_calls (Suc k) b = fst (host b) # hosts_of_calls k (snd (host b))"

lemma calls_member:
  "inv b \<Longrightarrow> offered b = Inr hs \<Longrightarrow> hs \<noteq> [] \<Longrightarrow> r \<in> set (hosts_of_calls k b) \<Longrightarrow> \<exists>h \<in> set hs. r = Ret (Inr h)"
proof (induction k arbitrary: b)
  case (Suc k)
  show ?case
  proof (cases "r = fst (host b)")
    case True
    then show ?thesis using host_member [OF Suc.prems(1-3)] by blast
  next
    case False
    then have "r \<in> set (hosts_of_calls k (snd (host b)))" using Suc.prems(4) by simp
    then show ?thesis
      using Suc.IH [OF inv_host [OF Suc.prems(1)]] offered_host [OF Suc.prems(1)] Suc.prems(2,3) by simp
  qed
qed simp

lemma calls_no_panic: "inv b \<Longrightarrow> r \<in> set (hosts_of_calls k b) \<Longrightarrow> \<exists>x. r = Ret x"
proof (induction k arbitrary: b)
  case (Suc k)
  have "\<exists>x. fst (host b) = Ret x"
  proof (cases "offered b")
    case (Inr hs)
    then show ?thesis using Suc.prems(1) host_member host_none by (cases "hs = []") blast+
  qed (use Suc.prems(1) host_error in blast)
  then show ?case using Suc inv_host by auto
qed simp

end

text \<open>
  The balancers of the package meet it: the random one when its source keeps to its documented
  range, and all while the number of hosts fits the 32 bits the code converts it to.
\<close>

fun balancer_offered :: "nat \<Rightarrow> balancer \<Rightarrow> gerror + string list" where
  "balancer_offered now (nopBalancer h) = Inr [h]"
| "balancer_offered now (roundRobinLB s c) = Hosts s now"
| "balancer_offered now (randomLB s) = Hosts s now"

fun balancer_inv :: "(nat \<Rightarrow> nat) \<Rightarrow> nat \<Rightarrow> balancer \<Rightarrow> bool" where
  "balancer_inv rand now (nopBalancer h) = True"
| "balancer_inv rand now (roundRobinLB s c) = (\<forall>hs. Hosts s now = Inr hs \<longrightarrow> length hs < 2 ^ 32)"
| "balancer_inv rand now (randomLB s) =
     ((\<forall>n > 0. rand n < n) \<and> (\<forall>hs. Hosts s now = Inr hs \<longrightarrow> length hs < 2 ^ 32))"

lemma round_robin_offset:
  fixes c :: "64 word"
  assumes "0 < n" and "n < 2 ^ 32"
  shows "unat ((c + 1 - 1) mod of_nat n) = unat c mod n" and "unat ((c + 1 - 1) mod of_nat n) < n"
proof -
  have "n < 2 ^ 64" using assms(2) by simp
  then have "unat (of_nat n :: 64 word) = n" by (simp add: unat_of_nat take_bit_nat_eq_self)
  then show "unat ((c + 1 - 1) mod of_nat n) = unat c mod n" by (simp add: unat_mod_distrib)
  then show "unat ((c + 1 - 1) mod of_nat n) < n" using assms(1) by simp
qed

lemma roundRobinLB_Host_Inr:
  assumes "Hosts s now = Inr hs" and "hs \<noteq> []" and "length hs < 2 ^ 32"
  shows "roundRobinLB_Host now s c = (Ret (Inr (hs ! (unat c mod length hs))), c + 1)"
  using assms round_robin_offset(1) [of "length hs" c]
  by (simp add: roundRobinLB_Host_def balancer_hosts_def Let_def)

interpretation lb: balancer "Host rand now" "balancer_inv rand now" "balancer_offered now"
proof unfold_locales
  fix b :: balancer and hs :: "string list" and e :: gerror
  assume inv: "balancer_inv rand now b"
  show "balancer_inv rand now (snd (Host rand now b))" and "balancer_offered now (snd (Host rand now b)) = balancer_offered now b"
    using inv by (cases b; auto split: prod.split)+
  show "fst (Host rand now b) = Ret (Inl ENoHosts)" if "balancer_offered now b = Inr []"
    using that by (cases b) (auto simp: roundRobinLB_Host_def randomLB_Host_def balancer_hosts_def)
  show "fst (Host rand now b) = Ret (Inl e)" if "balancer_offered now b = Inl e"
    using that by (cases b) (auto simp: roundRobinLB_Host_def randomLB_Host_def balancer_hosts_def)
  show "\<exists>h \<in> set hs. fst (Host rand now b) = Ret (Inr h)" if "balancer_offered now b = Inr hs" "hs \<noteq> []"
  proof (cases b)
    case (roundRobinLB s c)
    have "length hs < 2 ^ 32" using inv roundRobinLB that by simp
    from roundRobinLB_Host_Inr [OF _ that(2) this, of s now c] show ?thesis
      using roundRobinLB that by simp
  next
    case (randomLB s)
    have "length hs < 2 ^ 32" "\<forall>n > 0. rand n < n" using inv randomLB that by simp_all
    moreover have "0 < length hs" using that(2) by simp
    ultimately have "length hs mod 2 ^ 32 = length hs" "rand (length hs) < length hs" by simp_all
    then show ?thesis using randomLB that by (simp add: randomLB_Host_def balancer_hosts_def Let_def)
  qed (use that in auto)
qed

lemma balancer_inv_new:
  assumes "\<forall>n > 0. rand n < n" and "\<forall>hs. Hosts s now = Inr hs \<longrightarrow> length hs < 2 ^ 32"
  shows "balancer_inv rand now (NewBalancer p rand s)"
  using assms by (auto simp: NewBalancer_def NewRoundRobinLB_def NewRandomLB_def split: subscriber.split list.split)

subsection \<open>Properties\<close>

text \<open>
  C31: whichever balancer is built for a subscriber, any series of calls at a time when it offers
  hosts gives only offered hosts and never panics.
\<close>

theorem balancer_picks_offered_hosts:
  assumes "\<forall>n > 0. rand n < n" and "Hosts s now = Inr hs" and "hs \<noteq> []" and "length hs < 2 ^ 32"
    and "r \<in> set (lb.hosts_of_calls rand now k (NewBalancer p rand s))"
  shows "\<exists>h \<in> set hs. r = Ret (Inr h)"
proof -
  have inv: "balancer_inv rand now (NewBalancer p rand s)"
    using assms(1,2,4) by (intro balancer_inv_new) auto
  have "balancer_offered now (NewBalancer p rand s) = Inr hs"
    using assms(2) by (auto simp: NewBalancer_def NewRoundRobinLB_def NewRandomLB_def split: subscriber.split list.split)
  then show ?thesis using lb.calls_member [OF inv] assms(3,5) by blast
qed

lemma balancer_picks_offered_hosts_witness:
  "\<exists>h \<in> set [''a'', ''b'']. hd (lb.hosts_of_calls (\<lambda>n. n - 1) 0 3 (NewBalancer 4 (\<lambda>n. n - 1) (FixedSubscriber [''a'', ''b'']))) = Ret (Inr h)"
  by (rule balancer_picks_offered_hosts [where rand = "\<lambda>n. n - 1" and s = "FixedSubscriber [''a'', ''b'']" and now = 0 and k = 3 and p = 4])
    (simp_all add: numeral_3_eq_3)

lemma round_robin_calls:
  assumes "Hosts s now = Inr hs" and "hs \<noteq> []" and "length hs < 2 ^ 32" and "unat c + k < 2 ^ 64"
  shows "lb.hosts_of_calls rand now k (roundRobinLB s c) =
    map (\<lambda>i. Ret (Inr (hs ! ((unat c + i) mod length hs)))) [0..<k]"
  using assms(4)
proof (induction k arbitrary: c)
  case (Suc k)
  have "unat (c + 1) = Suc (unat c)" using Suc.prems by (simp add: unat_word_ariths)
  moreover have "unat (c + 1) + k < 2 ^ 64" using Suc.prems calculation by simp
  ultimately show ?case
    using Suc.IH [of "c + 1"] roundRobinLB_Host_Inr [OF assms(1-3), of c]
    by (simp add: upt_conv_Cons map_Suc_upt [symmetric] del: upt_Suc)
qed simp

text \<open>
  C30: round robin is fair: while the 64-bit counter does not wrap, as many consecutive calls as there
  are hosts use every host once, wherever the counter stands.
\<close>

theorem round_robin_fair:
  assumes "Hosts s now = Inr hs" and "hs \<noteq> []" and "length hs < 2 ^ 32" and "unat c + length hs < 2 ^ 64"
  shows "mset (lb.hosts_of_calls rand now (length hs) (roundRobinLB s c)) = mset (map (\<lambda>h. Ret (Inr h)) hs)"
proof -
  let ?n = "length hs"
  have rot: "map (\<lambda>i. hs ! ((unat c + i) mod ?n)) [0..<?n] = rotate (unat c) hs"
    by (rule nth_equalityI) (simp_all add: nth_rotate add.commute)
  have m: "mset (rotate (unat c) hs) = mset hs"
    using mset_append [of "take (unat c mod ?n) hs" "drop (unat c mod ?n) hs"]
    by (simp only: rotate_drop_take mset_append append_take_drop_id add.commute)
  have "lb.hosts_of_calls rand now ?n (roundRobinLB s c) =
      map (\<lambda>h. Ret (Inr h)) (map (\<lambda>i. hs ! ((unat c + i) mod ?n)) [0..<?n])"
    using round_robin_calls [OF assms, of rand] by simp
  then have "lb.hosts_of_calls rand now ?n (roundRobinLB s c) = map (\<lambda>h. Ret (Inr h)) (rotate (unat c) hs)"
    by (simp only: rot)
  then show ?thesis by (simp only: mset_map m)
qed

lemma round_robin_fair_witness:
  "mset (lb.hosts_of_calls (\<lambda>_. 0) 0 (length [''a'', ''b'', ''c'']) (roundRobinLB (FixedSubscriber [''a'', ''b'', ''c'']) 7)) =
   mset (map (\<lambda>h. Ret (Inr h)) [''a'', ''b'', ''c''])"
  by (rule round_robin_fair) simp_all

end
