(* ===== verification/Url_Query.thy ===== *)
theory Url_Query
  imports Go_Strings
begin

section \<open>Query strings: \<open>url.Values\<close>\<close>

text \<open>
  What the balancing middleware, the GraphQL middleware and the routers use of \<open>net/url\<close>:
  escaping, \<open>Values.Add\<close>, \<open>Values.Encode\<close> and \<open>ParseQuery\<close>, with the round trip through a query string.
\<close>

subsection \<open>Escaping\<close>

definition hex_digits :: string where
  "hex_digits = ''0123456789ABCDEF''"

definition hex_char :: "nat \<Rightarrow> char" where
  "hex_char n = hex_digits ! (n mod 16)"

definition unhex :: "char \<Rightarrow> nat option" where
  "unhex c =
     (if is_digit c then Some (digit_val c)
      else if c \<in> set ''abcdef'' then Some (of_char c - of_char CHR ''a'' + 10)
      else if c \<in> set ''ABCDEF'' then Some (of_char c - of_char CHR ''A'' + 10)
      else None)"

definition unreserved :: "char \<Rightarrow> bool" where
  "unreserved c \<longleftrightarrow> is_alpha c \<or> is_digit c \<or> c \<in> set ''-_.~''"

definition escape_char :: "char \<Rightarrow> string" where
  "escape_char c =
     (if unreserved c then [c]
      else if c = CHR '' '' then ''+''
      else [CHR ''%'', hex_char (of_char c div 16), hex_char (of_char c mod 16)])"

definition QueryEscape :: "string \<Rightarrow> string" where
  "QueryEscape s = concat (map escape_char s)"

fun QueryUnescape :: "string \<Rightarrow> string option" where
  "QueryUnescape [] = Some []"
| "QueryUnescape (c # cs) =
     (if c = CHR ''%'' then
        (case cs of
           a # b # rest \<Rightarrow>
             (case (unhex a, unhex b) of
                (Some x, Some y) \<Rightarrow> map_option (\<lambda>r. char_of (16 * x + y) # r) (QueryUnescape rest)
              | _ \<Rightarrow> None)
         | _ \<Rightarrow> None)
      else map_option (\<lambda>r. (if c = CHR ''+'' then CHR '' '' else c) # r) (QueryUnescape cs))"

lemma unhex_hex_char [simp]:
  assumes "n < 16"
  shows "unhex (hex_char n) = Some n"
proof -
  have "n \<in> set [0..<16]" using assms by simp
  also have "[0..<16] = [0, 1, 2, 3, 4, 5, 6, 7, 8, 9, 10, 11, 12, 13, 14, 15]" by (simp add: upt_rec)
  finally show ?thesis
    by (auto simp: hex_char_def hex_digits_def unhex_def is_digit_def digit_val_def)
qed

lemma unescape_char: "QueryUnescape (escape_char c @ s) = map_option ((#) c) (QueryUnescape s)"
proof -
  consider "unreserved c" | "\<not> unreserved c" "c = CHR '' ''" | "\<not> unreserved c" "c \<noteq> CHR '' ''" by blast
  then show ?thesis
  proof cases
    case 1
    then have "c \<noteq> CHR ''%''" "c \<noteq> CHR ''+''"
      by (auto simp: unreserved_def is_alpha_def is_lower_def is_upper_def is_digit_def)
    then show ?thesis using 1 by (simp add: escape_char_def)
  next
    case 3
    have "(of_char c :: nat) < 256" by simp
    then have "(of_char c :: nat) div 16 < 16" by linarith
    moreover have "(of_char c :: nat) mod 16 < 16" by simp
    ultimately show ?thesis
      using 3 by (simp add: escape_char_def option.map_comp comp_def)
  qed (simp add: escape_char_def)
qed

lemma QueryUnescape_QueryEscape [simp]: "QueryUnescape (QueryEscape s) = Some s"
  by (induction s) (simp_all add: QueryEscape_def unescape_char)

lemma hex_char_range: "hex_char n \<in> set hex_digits"
  unfolding hex_char_def by (rule nth_mem) (simp add: hex_digits_def)

lemma QueryEscape_plain: "c \<in> set (QueryEscape s) \<Longrightarrow> c \<noteq> CHR ''&'' \<and> c \<noteq> CHR ''='' \<and> c \<noteq> CHR '';''"
proof -
  assume "c \<in> set (QueryEscape s)"
  then obtain x where "c \<in> set (escape_char x)" by (auto simp: QueryEscape_def)
  then have "unreserved c \<or> c \<in> {CHR ''+'', CHR ''%''} \<or> c \<in> set hex_digits"
    using hex_char_range by (auto simp: escape_char_def split: if_splits)
  then show ?thesis
    by (auto simp: unreserved_def is_alpha_def is_lower_def is_upper_def is_digit_def hex_digits_def)
qed

subsection \<open>Values\<close>

type_synonym url_values = "(string, string list) gomap"

definition values_of :: "url_values \<Rightarrow> string \<Rightarrow> string list" where
  "values_of m k = (case map_of m k of None \<Rightarrow> [] | Some vs \<Rightarrow> vs)"

definition Values_Add :: "string \<Rightarrow> string \<Rightarrow> url_values \<Rightarrow> url_values" where
  "Values_Add k v m = go_put k (values_of m k @ [v]) m"

definition sorted_pairs :: "url_values \<Rightarrow> (string \<times> string) list" where
  "sorted_pairs m = concat (map (\<lambda>k. map (Pair k) (values_of m k)) (sort (map fst m)))"

definition encode_pair :: "string \<times> string \<Rightarrow> string" where
  "encode_pair kv = QueryEscape (fst kv) @ ''='' @ QueryEscape (snd kv)"

definition Values_Encode :: "url_values \<Rightarrow> string" where
  "Values_Encode m = join_with ''&'' (map encode_pair (sorted_pairs m))"

text \<open>\<open>strings.Cut(p, "=")\<close>\<close>

definition cut_eq :: "string \<Rightarrow> string \<times> string" where
  "cut_eq p = (takeWhile (\<lambda>c. c \<noteq> CHR ''='') p, drop 1 (dropWhile (\<lambda>c. c \<noteq> CHR ''='') p))"

definition parse_pair :: "string \<Rightarrow> (string \<times> string) option" where
  "parse_pair p =
     (if CHR '';'' \<in> set p \<or> p = [] then None
      else (case cut_eq p of (k, v) \<Rightarrow>
        (case (QueryUnescape k, QueryUnescape v) of (Some k', Some v') \<Rightarrow> Some (k', v') | _ \<Rightarrow> None)))"

fun add_pairs :: "(string \<times> string) list \<Rightarrow> url_values \<Rightarrow> url_values" where
  "add_pairs [] m = m"
| "add_pairs ((k, v) # ps) m = add_pairs ps (Values_Add k v m)"

text \<open>\<open>URL.Query\<close>: malformed pairs are skipped.\<close>

definition ParseQuery :: "string \<Rightarrow> url_values" where
  "ParseQuery s = add_pairs (List.map_filter parse_pair (split_on CHR ''&'' s)) []"

lemma parse_encode_pair: "parse_pair (encode_pair kv) = Some kv"
proof -
  obtain k v where kv: "kv = (k, v)" by (cases kv)
  have k: "\<forall>c \<in> set (QueryEscape k). c \<noteq> CHR ''=''" using QueryEscape_plain by blast
  then have "takeWhile (\<lambda>c. c \<noteq> CHR ''='') (encode_pair kv) = QueryEscape k"
    and "dropWhile (\<lambda>c. c \<noteq> CHR ''='') (encode_pair kv) = CHR ''='' # QueryEscape v"
    by (simp_all add: kv encode_pair_def takeWhile_append2 dropWhile_append2)
  moreover have "CHR '';'' \<notin> set (encode_pair kv)"
    using QueryEscape_plain by (auto simp: kv encode_pair_def)
  ultimately show ?thesis by (simp add: parse_pair_def cut_eq_def kv) (simp add: encode_pair_def)
qed

lemma encode_pair_no_amp: "CHR ''&'' \<notin> set (encode_pair kv)"
  using QueryEscape_plain by (auto simp: encode_pair_def)

lemma map_filter_encoded: "List.map_filter parse_pair (map encode_pair ps) = ps"
  by (induction ps) (simp_all add: map_filter_simps parse_encode_pair)

lemma ParseQuery_encoded: "ParseQuery (join_with ''&'' (map encode_pair ps)) = add_pairs ps []"
proof (cases "ps = []")
  case True
  then show ?thesis by (simp add: ParseQuery_def map_filter_simps parse_pair_def)
next
  case False
  then have "split_on CHR ''&'' (join_with ''&'' (map encode_pair ps)) = map encode_pair ps"
    using encode_pair_no_amp by (intro split_join) auto
  then show ?thesis by (simp add: ParseQuery_def map_filter_encoded)
qed

lemma values_of_add: "values_of (Values_Add k v m) k' = (if k' = k then values_of m k @ [v] else values_of m k')"
  by (simp add: values_of_def Values_Add_def go_map_simps)

lemma map_of_add_pairs:
  "map_of (add_pairs ps m) k =
   (case map snd (filter (\<lambda>p. fst p = k) ps) of [] \<Rightarrow> map_of m k | vs \<Rightarrow> Some (values_of m k @ vs))"
proof (induction ps m rule: add_pairs.induct)
  case (2 k' v ps m)
  then show ?case
    by (cases "map snd (filter (\<lambda>p. fst p = k) ps)")
      (auto simp: values_of_def Values_Add_def go_map_simps)
qed simp

lemma filter_sorted_pairs:
  assumes "wf_map m"
  shows "map snd (filter (\<lambda>p. fst p = k) (sorted_pairs m)) = values_of m k"
proof -
  have pick: "map snd (filter (\<lambda>p. fst p = k) (concat (map (\<lambda>k. map (Pair k) (values_of m k)) ks))) =
      (if k \<in> set ks then values_of m k else [])" if "distinct ks" for ks
    using that
  proof (induction ks)
    case (Cons k' ks)
    have "filter (\<lambda>p. fst p = k) (map (Pair k') vs) = (if k' = k then map (Pair k') vs else [])" for vs :: "string list"
      by (induction vs) auto
    then show ?case using Cons by (auto simp: comp_def)
  qed simp
  have "distinct (sort (map fst m))" using assms by (simp add: wf_map_def)
  moreover have "values_of m k = []" if "k \<notin> fst ` set m"
    using that map_of_eq_None_iff [of m k] by (simp add: values_of_def)
  ultimately show ?thesis using pick [of "sort (map fst m)"] by (auto simp: sorted_pairs_def)
qed

lemma ParseQuery_Encode:
  assumes "wf_map m" and "\<forall>(k, vs) \<in> set m. vs \<noteq> []"
  shows "map_of (ParseQuery (Values_Encode m)) = map_of m"
proof
  fix k
  have "map_of (ParseQuery (Values_Encode m)) k = (case values_of m k of [] \<Rightarrow> None | vs \<Rightarrow> Some vs)"
    by (simp add: Values_Encode_def ParseQuery_encoded map_of_add_pairs filter_sorted_pairs [OF assms(1)])
      (simp add: values_of_def split: list.split)
  also have "\<dots> = map_of m k"
    using assms(2) by (cases "map_of m k") (auto simp: values_of_def dest!: map_of_SomeD split: list.split)
  finally show "map_of (ParseQuery (Values_Encode m)) k = map_of m k" .
qed

end
