(* ===== verification/Middlewares.thy ===== *)
theory Middlewares
  imports Request Balancer Url_Query
begin

section \<open>The middlewares around a backend\<close>

text \<open>
  Header and query string filters, the static response, logging, the request builder, the load
  balancer and the shadow proxy (\<open>proxy/headers_filter.go\<close>, \<open>query_strings_filter.go\<close>, \<open>static.go\<close>,
  \<open>logging.go\<close>, \<open>http.go\<close>, \<open>balancing.go\<close>, \<open>shadow.go\<close>).  Where a middleware hands a new request
  struct to the next proxy, the caller's request comes back as it was.
\<close>

subsection \<open>Filters\<close>

definition count_present :: "string list \<Rightarrow> (string, string list) gomap \<Rightarrow> nat" where
  "count_present names m = length (filter (\<lambda>v. map_of m v \<noteq> None) names)"

fun pick_present :: "string list \<Rightarrow> (string, string list) gomap \<Rightarrow> (string, string list) gomap \<Rightarrow> (string, string list) gomap" where
  "pick_present [] m acc = acc"
| "pick_present (v # vs) m acc =
     pick_present vs m (case map_of m v of Some values \<Rightarrow> go_put v values acc | None \<Rightarrow> acc)"

text \<open>What the caller sees of a call made with a request struct of its own.\<close>

fun for_caller :: "request \<Rightarrow> pres \<Rightarrow> pres" where
  "for_caller r (PRet resp err r') = PRet resp err r"
| "for_caller r (PPanic e) = PPanic e"

definition filter_headers :: "string list \<Rightarrow> proxy \<Rightarrow> proxy" where
  "filter_headers names nextProxy request =
     (let hs = entries (rHeaders request) in
      if hs = [] then nextProxy request
      else if count_present names hs = length hs then nextProxy request
      else for_caller request (nextProxy (request\<lparr>rHeaders := Some (pick_present names hs [])\<rparr>)))"

text \<open>Unlike the generic frame, these two read \<open>next[0]\<close> while building.\<close>

definition wrap_first :: "string \<Rightarrow> (proxy \<Rightarrow> proxy) \<Rightarrow> middleware" where
  "wrap_first msg f next =
     (if length next > 1 then FatalNil msg
      else case next of [] \<Rightarrow> BuildPanic ''index out of range'' | p # _ \<Rightarrow> Built (f p))"

definition NewFilterHeadersMiddleware :: "Backend \<Rightarrow> middleware" where
  "NewFilterHeadersMiddleware remote =
     (if be_HeadersToPass remote = [] then emptyMiddlewareFallback
      else wrap_first ''NewFilterHeadersMiddleware only accepts 1 proxy'' (filter_headers (be_HeadersToPass remote)))"

definition filter_query :: "string list \<Rightarrow> proxy \<Rightarrow> proxy" where
  "filter_query names nextProxy request =
     (let qs = entries (rQuery request) in
      if qs = [] then nextProxy request
      else if count_present names qs = length qs then nextProxy request
      else for_caller request (nextProxy (request\<lparr>rQuery := Some (pick_present names qs [])\<rparr>)))"

definition NewFilterQueryStringsMiddleware :: "Backend \<Rightarrow> middleware" where
  "NewFilterQueryStringsMiddleware remote =
     (if be_QueryStringsToPass remote = [] then emptyMiddlewareFallback
      else wrap_first ''NewFilterQueryStringsMiddleware only accepts 1 proxy'' (filter_query (be_QueryStringsToPass remote)))"

subsection \<open>Static responses\<close>

record staticConfig =
  st_Data :: fields
  st_Strategy :: string
  st_Match :: "response option \<Rightarrow> gerror option \<Rightarrow> bool"

definition staticKey :: string where "staticKey = ''static''"

definition staticAlwaysMatch :: "response option \<Rightarrow> gerror option \<Rightarrow> bool" where
  "staticAlwaysMatch r err = True"

definition staticIfSuccessMatch :: "response option \<Rightarrow> gerror option \<Rightarrow> bool" where
  "staticIfSuccessMatch r err = (err = None)"

definition staticIfErroredMatch :: "response option \<Rightarrow> gerror option \<Rightarrow> bool" where
  "staticIfErroredMatch r err = (err \<noteq> None)"

definition staticIfCompleteMatch :: "response option \<Rightarrow> gerror option \<Rightarrow> bool" where
  "staticIfCompleteMatch r err = (err = None \<and> (case r of None \<Rightarrow> False | Some x \<Rightarrow> IsComplete x))"

definition staticIfIncompleteMatch :: "response option \<Rightarrow> gerror option \<Rightarrow> bool" where
  "staticIfIncompleteMatch r err = (case r of None \<Rightarrow> True | Some x \<Rightarrow> \<not> IsComplete x)"

definition strategy_match :: "string \<Rightarrow> response option \<Rightarrow> gerror option \<Rightarrow> bool" where
  "strategy_match name =
     (if name = ''always'' then staticAlwaysMatch
      else if name = ''success'' then staticIfSuccessMatch
      else if name = ''errored'' then staticIfErroredMatch
      else if name = ''complete'' then staticIfCompleteMatch
      else if name = ''incomplete'' then staticIfIncompleteMatch
      else staticAlwaysMatch)"

definition getStaticMiddlewareCfg :: "fields \<Rightarrow> staticConfig option" where
  "getStaticMiddlewareCfg extra =
     (case Option.bind (proxy_section extra) (\<lambda>e. get_as as_obj e staticKey) of
        None \<Rightarrow> None
      | Some tmp \<Rightarrow>
          (case get_as as_obj tmp ''data'' of
             None \<Rightarrow> None
           | Some data \<Rightarrow>
               (let name = (case get_as as_str tmp ''strategy'' of Some s \<Rightarrow> s | None \<Rightarrow> ''always'')
                in Some \<lparr>st_Data = data, st_Strategy = name, st_Match = strategy_match name\<rparr>)))"

text \<open>The static entries go into the map of the response.\<close>

definition add_static :: "fields \<Rightarrow> response option \<Rightarrow> response" where
  "add_static static result =
     (case result of
        None \<Rightarrow> new_response (Some (put_all static [])) False
      | Some r \<Rightarrow> r\<lparr>Data := Some (put_all static (entries (Data r)))\<rparr>)"

definition static_proxy :: "staticConfig \<Rightarrow> proxy \<Rightarrow> proxy" where
  "static_proxy cfg next request =
     (case next request of
        PPanic e \<Rightarrow> PPanic e
      | PRet result err r \<Rightarrow>
          if \<not> st_Match cfg result err then PRet result err r
          else PRet (Some (add_static (st_Data cfg) result)) err r)"

definition NewStaticMiddleware :: "EndpointConfig \<Rightarrow> middleware" where
  "NewStaticMiddleware endpointConfig =
     (case getStaticMiddlewareCfg (ep_ExtraConfig endpointConfig) of
        None \<Rightarrow> emptyMiddlewareFallback
      | Some cfg \<Rightarrow> wrap_single ''NewStaticMiddleware only accepts 1 proxy'' (static_proxy cfg))"

subsection \<open>Logging and the request builder\<close>

text \<open>Besides the log, the logging proxy hands over result and error as they are.\<close>

definition logging_proxy :: "proxy \<Rightarrow> proxy" where
  "logging_proxy next request =
     (case next request of
        PPanic e \<Rightarrow> PPanic e
      | PRet result err r \<Rightarrow> (case err of Some e \<Rightarrow> PRet result (Some e) r | None \<Rightarrow> PRet result None r))"

definition NewLoggingMiddleware :: "string \<Rightarrow> middleware" where
  "NewLoggingMiddleware name = wrap_single ''NewLoggingMiddleware only accepts 1 proxy'' logging_proxy"

definition build_request :: "Backend \<Rightarrow> proxy \<Rightarrow> proxy" where
  "build_request remote next r = next ((GeneratePath (be_URLPattern remote) r)\<lparr>rMethod := be_Method remote\<rparr>)"

definition newRequestBuilderMiddleware :: "Backend \<Rightarrow> middleware" where
  "newRequestBuilderMiddleware remote =
     wrap_single ''newRequestBuilderMiddleware only accepts 1 proxy'' (build_request remote)"

subsection \<open>Load balancing\<close>

text \<open>
  \<open>host\<close> is what the balancer answers to this call and \<open>parse\<close> is \<open>url.Parse\<close>.  When it fails,
  the request is left without URL.
\<close>

definition add_query :: "request \<Rightarrow> url \<Rightarrow> url" where
  "add_query r u =
     (if entries (rQuery r) = [] then u
      else if uRawQuery u \<noteq> [] then u\<lparr>uRawQuery := uRawQuery u @ ''&'' @ Values_Encode (entries (rQuery r))\<rparr>
      else u\<lparr>uRawQuery := uRawQuery u @ Values_Encode (entries (rQuery r))\<rparr>)"

definition balanced :: "(string \<Rightarrow> gerror + url) \<Rightarrow> (gerror + string) run \<Rightarrow> proxy \<Rightarrow> proxy" where
  "balanced parse host next r =
     (case host of
        Panic e \<Rightarrow> PPanic e
      | Ret (Inl err) \<Rightarrow> PRet None (Some err) r
      | Ret (Inr h) \<Rightarrow>
          (case parse (h @ rPath r) of
             Inl err \<Rightarrow> PRet None (Some err) (r\<lparr>rURL := None\<rparr>)
           | Inr u \<Rightarrow> next (r\<lparr>rURL := Some (add_query r u)\<rparr>)))"

definition newLoadBalancedMiddleware :: "(string \<Rightarrow> gerror + url) \<Rightarrow> (gerror + string) run \<Rightarrow> middleware" where
  "newLoadBalancedMiddleware parse host =
     wrap_single ''newLoadBalancedMiddleware only accepts 1 proxy'' (balanced parse host)"

text \<open>A call as a step of the balancer it shares with the other calls.\<close>

definition balanced_call ::
  "(string \<Rightarrow> gerror + url) \<Rightarrow> (nat \<Rightarrow> nat) \<Rightarrow> nat \<Rightarrow> proxy \<Rightarrow> balancer \<Rightarrow> request \<Rightarrow> pres \<times> balancer" where
  "balanced_call parse rand now next lb r =
     (case Host rand now lb of (host, lb') \<Rightarrow> (balanced parse host next r, lb'))"

definition balanced_by :: "string \<Rightarrow> nat \<Rightarrow> (nat \<Rightarrow> nat) \<Rightarrow> subscriber \<Rightarrow> balancer" where
  "balanced_by strategy gomaxprocs rand s =
     (if strategy = ''round-robin'' then NewRoundRobinLB rand s
      else if strategy = ''random'' then NewRandomLB s
      else NewBalancer gomaxprocs rand s)"

text \<open>The subscriber of a backend comes from the register.\<close>

definition default_subscriber :: "sd_register \<Rightarrow> Backend \<Rightarrow> subscriber" where
  "default_subscriber reg remote = sd_Get reg (be_SD remote) remote"

subsection \<open>Shadow traffic\<close>

text \<open>
  The second proxy runs in its own goroutine on a deep copy: the caller never waits for it and never
  sees its result, but a panic in it ends the process.  The copy shares the query map with the request, which values
  do not show: \<open>Shadow_Requests\<close> says for which backends the two calls on shared maps are these, and that a shadow
  backend that adds to the query is none of them.
\<close>

definition NewShadowProxyWithTimeout :: "(url \<Rightarrow> url option) \<Rightarrow> int \<Rightarrow> proxy \<Rightarrow> proxy \<Rightarrow> proxy" where
  "NewShadowProxyWithTimeout reparse timeout p1 p2 request =
     (case CloneRequest reparse request of
        (shadowRequest, request') \<Rightarrow>
          (case p2 shadowRequest of
             PPanic e \<Rightarrow> PPanic e
           | PRet _ _ _ \<Rightarrow> p1 request'))"

definition NewShadowProxy :: "(url \<Rightarrow> url option) \<Rightarrow> proxy \<Rightarrow> proxy \<Rightarrow> proxy" where
  "NewShadowProxy reparse p1 p2 = NewShadowProxyWithTimeout reparse DefaultTimeout p1 p2"

fun ShadowMiddlewareWithTimeoutAndLogger :: "(url \<Rightarrow> url option) \<Rightarrow> int \<Rightarrow> middleware" where
  "ShadowMiddlewareWithTimeoutAndLogger reparse timeout [] =
     FatalNil ''not enough proxies for this endpoint: ShadowMiddlewareWithTimeoutAndLogger only accepts 1 or 2 proxies, got 0''"
| "ShadowMiddlewareWithTimeoutAndLogger reparse timeout [p] = Built p"
| "ShadowMiddlewareWithTimeoutAndLogger reparse timeout [p1, p2] = Built (NewShadowProxyWithTimeout reparse timeout p1 p2)"
| "ShadowMiddlewareWithTimeoutAndLogger reparse timeout (p1 # p2 # p3 # ps) =
     FatalNil ''too many proxies for this proxy middleware: ShadowMiddlewareWithTimeoutAndLogger only accepts 1 or 2 proxies''"

fun ShadowMiddlewareWithLogger :: "(url \<Rightarrow> url option) \<Rightarrow> middleware" where
  "ShadowMiddlewareWithLogger reparse [] =
     FatalNil ''not enough proxies for this endpoint: ShadowMiddlewareWithLogger only accepts 1 or 2 proxies, got 0''"
| "ShadowMiddlewareWithLogger reparse [p] = Built p"
| "ShadowMiddlewareWithLogger reparse [p1, p2] = Built (NewShadowProxy reparse p1 p2)"
| "ShadowMiddlewareWithLogger reparse (p1 # p2 # p3 # ps) =
     FatalNil ''too many proxies for this proxy middleware: ShadowMiddlewareWithLogger only accepts 1 or 2 proxies''"

definition shadowKey :: string where "shadowKey = ''shadow''"
definition shadowTimeoutKey :: string where "shadowTimeoutKey = ''shadow_timeout''"

text \<open>\<open>parse\<close> is \<open>time.ParseDuration\<close>, \<open>None\<close> its error.\<close>

definition isShadowBackend :: "(string \<Rightarrow> int option) \<Rightarrow> Backend \<Rightarrow> int \<times> bool" where
  "isShadowBackend parse c =
     (let duration = be_Timeout c in
      case proxy_section (be_ExtraConfig c) of
        None \<Rightarrow> (duration, False)
      | Some e \<Rightarrow>
          (if get_as as_bool e shadowKey \<noteq> Some True then (duration, False)
           else (case get_as as_str e shadowTimeoutKey of
                   None \<Rightarrow> (duration, True)
                 | Some t \<Rightarrow> (case parse t of Some d \<Rightarrow> (d, True) | None \<Rightarrow> (duration, True)))))"
subsection \<open>What the filters let through\<close>

lemma map_of_pick_present:
  "map_of (pick_present names m acc) k = (if k \<in> set names \<and> map_of m k \<noteq> None then map_of m k else map_of acc k)"
  by (induction names m acc rule: pick_present.induct) (auto simp: go_map_simps split: option.splits)

lemma wf_pick_present: "wf_map acc \<Longrightarrow> wf_map (pick_present names m acc)"
proof (induction names m acc rule: pick_present.induct)
  case (2 v vs m acc)
  then show ?case by (cases "map_of m v") (simp_all add: wf_map_put)
qed simp

lemma same_headers: "rHeaders r = hs \<Longrightarrow> r\<lparr>rHeaders := hs\<rparr> = r"
  by (cases r) simp

lemma same_query: "rQuery r = qs \<Longrightarrow> r\<lparr>rQuery := qs\<rparr> = r"
  by (cases r) simp

lemma pick_present_restrict: "map_of (pick_present names m []) = map_of m |` set names"
  by (rule ext) (auto simp: map_of_pick_present restrict_map_def)

text \<open>With distinct names the count is the number of entries that pass, so all pass when it is full.\<close>

lemma count_present_full:
  assumes "distinct names" and "wf_map m" and "count_present names m = length m"
  shows "map_of m |` set names = map_of m"
proof -
  let ?hits = "filter (\<lambda>v. map_of m v \<noteq> None) names"
  have sub: "set ?hits \<subseteq> set (map fst m)" by (auto simp: map_of_eq_None_iff)
  have "card (set ?hits) = length m" using assms by (simp add: count_present_def distinct_card [symmetric])
  moreover have "card (set (map fst m)) = length m"
    using assms(2) distinct_card [of "map fst m"] by (simp add: wf_map_def)
  ultimately have "set ?hits = set (map fst m)" using card_subset_eq [OF _ sub] by simp
  then have "k \<in> set names" if "map_of m k \<noteq> None" for k
    using that by (auto simp: map_of_eq_None_iff)
  then show ?thesis by (intro ext) (metis restrict_in restrict_out)
qed

lemma for_caller_obs [simp]:
  "pres_response (for_caller r p) = pres_response p" "pres_error (for_caller r p) = pres_error p"
  by (cases p; simp)+

lemma for_caller_twice [simp]: "for_caller r0 (for_caller r p) = for_caller r0 p"
  by (cases p) simp_all

lemma for_caller_answer:
  "\<forall>r0. for_caller r0 p = for_caller r0 q \<Longrightarrow> pres_response p = pres_response q"
  "\<forall>r0. for_caller r0 p = for_caller r0 q \<Longrightarrow> pres_error p = pres_error q"
  by (cases p; cases q; simp)+

lemma filter_headers_call:
  assumes "distinct names" and "wf_map hs" and "rHeaders r = Some hs"
  shows "\<exists>hs'. map_of hs' = map_of hs |` set names \<and> wf_map hs' \<and>
    (\<forall>r0. for_caller r0 (filter_headers names next r) = for_caller r0 (next (r\<lparr>rHeaders := Some hs'\<rparr>)))"
proof (cases "hs = [] \<or> count_present names hs = length hs")
  case True
  then have "map_of hs |` set names = map_of hs"
    using count_present_full [OF assms(1,2)] by auto
  moreover have "filter_headers names next r = next r" using True assms(3) by (auto simp: filter_headers_def)
  then have "filter_headers names next r = next (r\<lparr>rHeaders := Some hs\<rparr>)" by (simp only: same_headers [OF assms(3)])
  ultimately show ?thesis using assms(2) by auto
next
  case False
  then show ?thesis using assms(3)
    by (intro exI [of _ "pick_present names hs []"]) (simp add: filter_headers_def pick_present_restrict wf_pick_present)
qed

text \<open>
  the header filter: with distinct names to pass, the next proxy is handed exactly the headers
  of the request that are named, with their values, and the caller gets what it answers.
\<close>

theorem header_filter_exact:
  assumes "distinct names" and "wf_map hs" and "rHeaders r = Some hs"
  shows "\<exists>hs'. map_of hs' = map_of hs |` set names \<and> wf_map hs' \<and>
    pres_response (filter_headers names next r) = pres_response (next (r\<lparr>rHeaders := Some hs'\<rparr>)) \<and>
    pres_error (filter_headers names next r) = pres_error (next (r\<lparr>rHeaders := Some hs'\<rparr>))"
  using filter_headers_call [OF assms] for_caller_answer by blast

lemma header_filter_exact_witness:
  "\<exists>hs'. map_of hs' = map_of [(''A'', [''1'']), (''B'', [''2''])] |` {''B'', ''C''}"
proof -
  let ?r = "\<lparr>rMethod = [], rURL = None, rQuery = None, rPath = [], rBody = None, rParams = None,
    rHeaders = Some [(''A'', [''1'']), (''B'', [''2''])]\<rparr>"
  from header_filter_exact [of "[''B'', ''C'']" "[(''A'', [''1'']), (''B'', [''2''])]" ?r NoopProxy]
  show ?thesis by auto
qed

lemma filter_query_call:
  assumes "distinct names" and "wf_map qs" and "rQuery r = Some qs"
  shows "\<exists>qs'. map_of qs' = map_of qs |` set names \<and> wf_map qs' \<and>
    (\<forall>r0. for_caller r0 (filter_query names next r) = for_caller r0 (next (r\<lparr>rQuery := Some qs'\<rparr>)))"
proof (cases "qs = [] \<or> count_present names qs = length qs")
  case True
  then have "map_of qs |` set names = map_of qs"
    using count_present_full [OF assms(1,2)] by auto
  moreover have "filter_query names next r = next r" using True assms(3) by (auto simp: filter_query_def)
  then have "filter_query names next r = next (r\<lparr>rQuery := Some qs\<rparr>)" by (simp only: same_query [OF assms(3)])
  ultimately show ?thesis using assms(2) by auto
next
  case False
  then show ?thesis using assms(3)
    by (intro exI [of _ "pick_present names qs []"]) (simp add: filter_query_def pick_present_restrict wf_pick_present)
qed

text \<open>
  the query string filter hands over exactly the named parameters when the names are distinct.
\<close>

theorem query_filter_exact:
  assumes "distinct names" and "wf_map qs" and "rQuery r = Some qs"
  shows "\<exists>qs'. map_of qs' = map_of qs |` set names \<and> wf_map qs' \<and>
    pres_response (filter_query names next r) = pres_response (next (r\<lparr>rQuery := Some qs'\<rparr>)) \<and>
    pres_error (filter_query names next r) = pres_error (next (r\<lparr>rQuery := Some qs'\<rparr>))"
  using filter_query_call [OF assms] for_caller_answer by blast

lemma query_filter_exact_witness:
  "\<exists>qs'. map_of qs' = map_of [(''a'', [''1'']), (''b'', [''2''])] |` {''b'', ''c''}"
proof -
  let ?r = "\<lparr>rMethod = [], rURL = None, rQuery = Some [(''a'', [''1'']), (''b'', [''2''])], rPath = [], rBody = None,
    rParams = None, rHeaders = None\<rparr>"
  from query_filter_exact [of "[''b'', ''c'']" "[(''a'', [''1'']), (''b'', [''2''])]" ?r NoopProxy]
  show ?thesis by auto
qed

text \<open>
  names listed twice defeat the filter.  Two spellings of a header in the configuration become the same name
  when the defaults are set; on a request with that header and one that is not listed the count of hits is the number of
  headers, and the unlisted header reaches the backend.
\<close>

theorem duplicate_header_name_leaks:
  "filter_headers (map CanonicalMIMEHeaderKey [''X-Tenant'', ''x-tenant'']) next
     (r\<lparr>rHeaders := Some [(''X-Tenant'', [t]), (''Authorization'', [secret])]\<rparr>) =
   next (r\<lparr>rHeaders := Some [(''X-Tenant'', [t]), (''Authorization'', [secret])]\<rparr>)"
proof -
  have "map CanonicalMIMEHeaderKey [''X-Tenant'', ''x-tenant''] = [''X-Tenant'', ''X-Tenant'']" by code_simp
  then show ?thesis by (simp only:) (simp add: filter_headers_def count_present_def)
qed

subsection \<open>Static data\<close>

lemma map_of_add_static:
  "wf_map static \<Longrightarrow> map_of (entries (Data (add_static static result))) =
     (case result of None \<Rightarrow> Map.empty | Some r \<Rightarrow> map_of (entries (Data r))) ++ map_of static"
  by (auto simp: add_static_def go_map_simps split: option.split)

text \<open>
  the static middleware: when the strategy accepts the outcome the client gets the response with
  the static entries laid over its data, and the error unchanged; otherwise it gets the outcome.
\<close>

theorem static_overlay:
  assumes "next r = PRet result err r'" and "wf_map (st_Data cfg)"
  shows "\<exists>resp. static_proxy cfg next r = PRet resp err r' \<and>
    (if st_Match cfg result err
     then (\<exists>s. resp = Some s \<and> map_of (entries (Data s)) =
        (case result of None \<Rightarrow> Map.empty | Some x \<Rightarrow> map_of (entries (Data x))) ++ map_of (st_Data cfg) \<and>
        IsComplete s = (case result of None \<Rightarrow> False | Some x \<Rightarrow> IsComplete x))
     else resp = result)"
  using assms map_of_add_static [OF assms(2), of result]
  by (auto simp: static_proxy_def add_static_def split: option.split)

lemma static_overlay_witness:
  "\<exists>resp. static_proxy \<lparr>st_Data = [(''k'', JStr ''v'')], st_Strategy = ''errored'', st_Match = strategy_match ''errored''\<rparr>
     (\<lambda>r. PRet None (Some ENoHosts) r)
     \<lparr>rMethod = [], rURL = None, rQuery = None, rPath = [], rBody = None, rParams = None, rHeaders = None\<rparr> =
     PRet (Some resp) (Some ENoHosts)
     \<lparr>rMethod = [], rURL = None, rQuery = None, rPath = [], rBody = None, rParams = None, rHeaders = None\<rparr> \<and>
     map_of (entries (Data resp)) = [''k'' \<mapsto> JStr ''v'']"
proof -
  let ?cfg = "\<lparr>st_Data = [(''k'', JStr ''v'')], st_Strategy = ''errored'', st_Match = strategy_match ''errored''\<rparr>"
  let ?r = "\<lparr>rMethod = [], rURL = None, rQuery = None, rPath = [], rBody = None, rParams = None, rHeaders = None\<rparr>"
  have "st_Match ?cfg None (Some ENoHosts)" by (simp add: strategy_match_def staticIfErroredMatch_def)
  with static_overlay [of "\<lambda>r. PRet None (Some ENoHosts) r" ?r None "Some ENoHosts" ?r ?cfg] show ?thesis by auto
qed

subsection \<open>The balanced request\<close>

lemma values_of_add_pairs: "values_of (add_pairs ps m) k = values_of m k @ map snd (filter (\<lambda>p. fst p = k) ps)"
proof (cases "map snd (filter (\<lambda>p. fst p = k) ps)")
  case Nil
  then show ?thesis by (simp add: values_of_def map_of_add_pairs)
next
  case (Cons v vs)
  then show ?thesis unfolding values_of_def [of "add_pairs ps m"] by (simp add: map_of_add_pairs)
qed

lemma split_on_join: "split_on c (s @ c # t) = split_on c s @ split_on c t"
proof (induction s)
  case (Cons x s)
  obtain p ps where "split_on c s = p # ps" by (cases "split_on c s") (use split_on.elims in force)+
  then show ?case using Cons by (cases "x = c") auto
qed simp

lemma map_filter_append: "List.map_filter f (xs @ ys) = List.map_filter f xs @ List.map_filter f ys"
  by (simp add: List.map_filter_def)

lemma values_of_ParseQuery_join:
  "values_of (ParseQuery (a @ ''&'' @ b)) k = values_of (ParseQuery a) k @ values_of (ParseQuery b) k"
  by (simp add: ParseQuery_def split_on_join map_filter_append values_of_add_pairs) (simp add: values_of_def)

lemma values_of_ParseQuery_Encode: "wf_map m \<Longrightarrow> values_of (ParseQuery (Values_Encode m)) k = values_of m k"
  by (simp add: Values_Encode_def ParseQuery_encoded values_of_add_pairs filter_sorted_pairs) (simp add: values_of_def)

lemma values_of_add_query:
  "wf_map (entries (rQuery r)) \<Longrightarrow>
   values_of (ParseQuery (uRawQuery (add_query r u))) k =
     values_of (ParseQuery (uRawQuery u)) k @ values_of (entries (rQuery r)) k"
  using values_of_ParseQuery_join [of "uRawQuery u"]
  by (auto simp: add_query_def values_of_ParseQuery_Encode)
    (simp_all add: values_of_def ParseQuery_def parse_pair_def map_filter_simps)

text \<open>
  the backend gets the parameters of the request: the URL the balancer builds starts with the host chosen and
  the path, and each query parameter has the values the path fixes followed by those of the request.
\<close>

theorem balanced_query_complete:
  assumes "parse (h @ rPath r) = Inr u" and "wf_map (entries (rQuery r))"
  shows "\<exists>u'. balanced parse (Ret (Inr h)) next r = next (r\<lparr>rURL := Some u'\<rparr>) \<and> uBase u' = uBase u \<and>
    (\<forall>k. values_of (ParseQuery (uRawQuery u')) k =
         values_of (ParseQuery (uRawQuery u)) k @ values_of (entries (rQuery r)) k)"
  using assms values_of_add_query [OF assms(2)]
  by (intro exI [of _ "add_query r u"]) (simp add: balanced_def add_query_def)

lemma balanced_query_complete_witness:
  "\<exists>u' :: url. uBase u' = ''http://h/p'' \<and>
     (\<forall>k. values_of (ParseQuery (uRawQuery u')) k =
          values_of (ParseQuery ''a=1'') k @ values_of [(''a'', [''2'', ''& 3''])] k)"
proof -
  let ?r = "\<lparr>rMethod = [], rURL = None, rQuery = Some [(''a'', [''2'', ''& 3''])], rPath = ''/p?a=1'', rBody = None,
    rParams = None, rHeaders = None\<rparr>"
  let ?parse = "\<lambda>s. if s = ''http://h/p?a=1'' then Inr \<lparr>uBase = ''http://h/p'', uRawQuery = ''a=1''\<rparr> else Inl EInternal"
  from balanced_query_complete [of ?parse "''http://h''" ?r "\<lparr>uBase = ''http://h/p'', uRawQuery = ''a=1''\<rparr>" NoopProxy]
  have "\<exists>u'. balanced ?parse (Ret (Inr ''http://h'')) NoopProxy ?r = NoopProxy (?r\<lparr>rURL := Some u'\<rparr>) \<and> uBase u' = ''http://h/p'' \<and>
     (\<forall>k. values_of (ParseQuery (uRawQuery u')) k =
          values_of (ParseQuery ''a=1'') k @ values_of [(''a'', [''2'', ''& 3''])] k)" by simp
  then show ?thesis by blast
qed

text \<open>
  a balanced call never panics by itself: it reports the subscriber's error, or that there is no host, or forwards the request
  to one of the hosts the subscriber offers.
\<close>

theorem balanced_call_offered:
  assumes "balancer_inv rand now lb"
  shows "case balancer_offered now lb of
      Inl e \<Rightarrow> fst (balanced_call parse rand now next lb r) = PRet None (Some e) r
    | Inr hs \<Rightarrow>
        (if hs = [] then fst (balanced_call parse rand now next lb r) = PRet None (Some ENoHosts) r
         else \<exists>h \<in> set hs. fst (balanced_call parse rand now next lb r) = balanced parse (Ret (Inr h)) next r)"
proof (cases "balancer_offered now lb")
  case (Inl e)
  then show ?thesis using lb.host_error [OF assms Inl]
    by (cases "Host rand now lb") (simp add: balanced_call_def balanced_def)
next
  case (Inr hs)
  show ?thesis
  proof (cases "hs = []")
    case True
    then show ?thesis using lb.host_none [OF assms] Inr
      by (cases "Host rand now lb") (simp add: balanced_call_def balanced_def)
  next
    case False
    then show ?thesis using lb.host_member [OF assms Inr False] Inr
      by (auto simp: balanced_call_def split: prod.splits)
  qed
qed

lemma balanced_call_offered_witness:
  "\<exists>h \<in> {''http://a'', ''http://b''}.
     fst (balanced_call parse id 0 next (roundRobinLB (FixedSubscriber [''http://a'', ''http://b'']) 7) r) =
     balanced parse (Ret (Inr h)) next r"
  using balanced_call_offered [of id 0 "roundRobinLB (FixedSubscriber [''http://a'', ''http://b'']) 7" parse "next" r] by simp

subsection \<open>Shadow traffic is invisible\<close>

lemma CloneRequest_original: "snd (CloneRequest reparse r) = r"
  by (cases "rBody r") (simp_all add: CloneRequest_def Let_def)

lemma shadow_calm:
  assumes "p2 (fst (CloneRequest reparse r)) = PRet resp err rs"
  shows "NewShadowProxyWithTimeout reparse timeout p1 p2 r = p1 r"
  using assms CloneRequest_original [of reparse r]
  by (cases "CloneRequest reparse r") (simp add: NewShadowProxyWithTimeout_def)

text \<open>
  unless the shadow backend panics, a request with shadow traffic is answered as if there were none, and
  the shadow backend gets the same method, path, query, body, parameters and headers.
\<close>

theorem shadow_transparent:
  assumes "p2 (fst (CloneRequest reparse r)) = PRet resp err rs" and "wf_map (entries (rHeaders r))" and "wf_map (entries (rParams r))"
  shows "NewShadowProxyWithTimeout reparse timeout p1 p2 r = p1 r \<and>
    (let c = fst (CloneRequest reparse r) in
       rMethod c = rMethod r \<and> rPath c = rPath r \<and> rQuery c = rQuery r \<and> rBody c = rBody r \<and>
       map_of (entries (rHeaders c)) = map_of (entries (rHeaders r)) \<and>
       map_of (entries (rParams c)) = map_of (entries (rParams r)))"
proof
  show "NewShadowProxyWithTimeout reparse timeout p1 p2 r = p1 r"
    using assms(1) by (rule shadow_calm)
qed (use assms(2,3) in \<open>cases "rBody r"; simp add: CloneRequest_def Clone_def CloneRequestHeaders_def
      CloneRequestParams_def Let_def go_map_simps\<close>)

lemma shadow_transparent_witness:
  "NewShadowProxyWithTimeout Some 5 (\<lambda>r. PRet None (Some ENoHosts) r) NoopProxy
     \<lparr>rMethod = ''GET'', rURL = None, rQuery = None, rPath = ''/x'', rBody = Some ''b'', rParams = None, rHeaders = Some [(''A'', [])]\<rparr> =
   PRet None (Some ENoHosts)
     \<lparr>rMethod = ''GET'', rURL = None, rQuery = None, rPath = ''/x'', rBody = Some ''b'', rParams = None, rHeaders = Some [(''A'', [])]\<rparr>"
proof -
  let ?r = "\<lparr>rMethod = ''GET'', rURL = None, rQuery = None, rPath = ''/x'', rBody = Some ''b'', rParams = None, rHeaders = Some [(''A'', [])]\<rparr>"
  have "NoopProxy (fst (CloneRequest Some ?r)) = PRet None None (fst (CloneRequest Some ?r))" by (simp add: NoopProxy_def)
  from shadow_transparent [where reparse = Some and r = ?r and ?p2.0 = NoopProxy, OF this] show ?thesis by simp
qed


end
