(* ===== verification/Http_Proxy.thy ===== *)
theory Http_Proxy
  imports Middlewares Formatter Encoding
begin

section \<open>Calling a backend over HTTP (\<open>proxy/http.go\<close>, \<open>proxy/http_response.go\<close>, \<open>transport/http/client/\<close>)\<close>

text \<open>
  The request sent, the status handlers, the response parsers and the proxy built from them.  The
  HTTP client is the argument \<open>re\<close> (any function from requests to a response or an error),
  \<open>valid\<close> is the check \<open>http.NewRequest\<close> makes of the method and the URL text, \<open>url_text\<close> is
  \<open>URL.String\<close>, and \<open>gunzip\<close> is \<open>gzip.NewReader\<close>: it makes the reader of the decompressed bytes,
  or fails.
\<close>

subsection \<open>Messages\<close>

record http_request =
  hqMethod :: string
  hqURL :: string
  hqHeader :: "(string, string list) gomap"
  hqBody :: "string option"
  hqContentLength :: int

text \<open>\<open>hrBroken\<close>: the error in which reading the body ends, when it breaks off.\<close>

record http_response =
  hrStatusCode :: int
  hrHeader :: "(string, string list) gomap"
  hrBody :: string
  hrBroken :: "gerror option"
  hrURL :: "string option"

text \<open>\<open>Header.Get\<close>: the first value of the canonical name.\<close>

definition header_get :: "(string, string list) gomap \<Rightarrow> string \<Rightarrow> string" where
  "header_get h k = (case map_of h (CanonicalMIMEHeaderKey k) of Some (v # vs) \<Rightarrow> v | _ \<Rightarrow> [])"

text \<open>\<open>strconv.Atoi\<close>.\<close>

definition Atoi :: "string \<Rightarrow> int option" where
  "Atoi s =
     (let neg = (s \<noteq> [] \<and> hd s = CHR ''-''); ds = (if s \<noteq> [] \<and> hd s \<in> set ''+-'' then tl s else s);
          n = (if neg then - int (nat_of_digits ds) else int (nat_of_digits ds))
      in if ds \<noteq> [] \<and> list_all is_digit ds \<and> is_i64 n then Some n else None)"

subsection \<open>Status handlers\<close>

type_synonym status_handler = "http_response \<Rightarrow> http_response option \<times> gerror option"

definition NewErrInvalidStatusCode :: "http_response \<Rightarrow> string \<Rightarrow> gerror" where
  "NewErrInvalidStatusCode resp errPrefix =
     EInvalidStatus (hrStatusCode resp) errPrefix (case hrURL resp of Some u \<Rightarrow> u | None \<Rightarrow> [])"

definition DefaultHTTPStatusHandler :: status_handler where
  "DefaultHTTPStatusHandler resp =
     (if hrStatusCode resp \<noteq> 200 \<and> hrStatusCode resp \<noteq> 201 then (None, Some EInvalidStatusCode)
      else (Some resp, None))"

definition DefaultHTTPStatusHandlerWithErrPrefix :: "string \<Rightarrow> status_handler" where
  "DefaultHTTPStatusHandlerWithErrPrefix errPrefix resp =
     (if hrStatusCode resp \<noteq> 200 \<and> hrStatusCode resp \<noteq> 201
      then (None, Some (NewErrInvalidStatusCode resp errPrefix)) else (Some resp, None))"

text \<open>The error keeps the body, and the response gets a reader over the same bytes.\<close>

definition response_body :: "http_response \<Rightarrow> string" where
  "response_body resp = (case ReadAll (hrBody resp, hrBroken resp) of Inr body \<Rightarrow> body | Inl err \<Rightarrow> [])"

definition reread :: "http_response \<Rightarrow> http_response" where
  "reread resp = resp\<lparr>hrBody := response_body resp, hrBroken := None\<rparr>"

definition newHTTPResponseError :: "http_response \<Rightarrow> gerror" where
  "newHTTPResponseError resp =
     EHTTPResponse (hrStatusCode resp) (response_body resp) (header_get (hrHeader resp) ''Content-Type'')"

definition newNamedError :: "http_response \<Rightarrow> string \<Rightarrow> gerror" where
  "newNamedError resp name =
     ENamedHTTPResponse (hrStatusCode resp) (response_body resp) (header_get (hrHeader resp) ''Content-Type'') name"

definition ErrorHTTPStatusHandler :: status_handler where
  "ErrorHTTPStatusHandler resp =
     (case snd (DefaultHTTPStatusHandler resp) of
        None \<Rightarrow> (Some resp, None)
      | Some _ \<Rightarrow> (Some (reread resp), Some (newHTTPResponseError resp)))"

definition ErrorHTTPStatusHandlerWithErrPrefix :: "string \<Rightarrow> status_handler" where
  "ErrorHTTPStatusHandlerWithErrPrefix errPrefix resp =
     (case snd (DefaultHTTPStatusHandlerWithErrPrefix errPrefix resp) of
        None \<Rightarrow> (Some resp, None)
      | Some _ \<Rightarrow> (Some (reread resp), Some (newHTTPResponseError resp)))"

definition NoOpHTTPStatusHandler :: status_handler where
  "NoOpHTTPStatusHandler resp = (Some resp, None)"

definition DetailedHTTPStatusHandler :: "string \<Rightarrow> status_handler" where
  "DetailedHTTPStatusHandler name resp =
     (case snd (DefaultHTTPStatusHandler resp) of
        None \<Rightarrow> (Some resp, None)
      | Some _ \<Rightarrow> (Some (reread resp), Some (newNamedError resp name)))"

definition DetailedHTTPStatusHandlerWithErrPrefix :: "string \<Rightarrow> string \<Rightarrow> status_handler" where
  "DetailedHTTPStatusHandlerWithErrPrefix name errPrefix resp =
     (case snd (DefaultHTTPStatusHandlerWithErrPrefix errPrefix resp) of
        None \<Rightarrow> (Some resp, None)
      | Some _ \<Rightarrow> (Some (reread resp), Some (newNamedError resp name)))"

definition client_Namespace :: string where
  "client_Namespace = ''github.com/devopsfaith/krakend/http''"

text \<open>\<open>return_error_details\<close>, when the key is there at all, hides \<open>return_error_code\<close>.\<close>

definition GetHTTPStatusHandler :: "Backend \<Rightarrow> status_handler" where
  "GetHTTPStatusHandler remote =
     (let errPrefix = ''['' @ be_Method remote @ '' '' @ be_URLPattern remote @ '']:'';
          default = DefaultHTTPStatusHandlerWithErrPrefix errPrefix
      in case get_as as_obj (be_ExtraConfig remote) client_Namespace of
           None \<Rightarrow> default
         | Some m \<Rightarrow>
             (case map_of m ''return_error_details'' of
                Some v \<Rightarrow>
                  (case as_str v of
                     Some b \<Rightarrow> if b \<noteq> [] then DetailedHTTPStatusHandlerWithErrPrefix b errPrefix else default
                   | None \<Rightarrow> default)
              | None \<Rightarrow>
                  (if get_as as_bool m ''return_error_code'' = Some True
                   then ErrorHTTPStatusHandlerWithErrPrefix errPrefix else default)))"

subsection \<open>Response parsers\<close>

type_synonym parsed = "(gerror + response) run"
type_synonym response_parser = "http_response \<Rightarrow> parsed"

text \<open>A formatter is a function that may panic; the default configuration changes nothing.\<close>

record HTTPResponseParserConfig =
  pc_Decoder :: decoder
  pc_EntityFormatter :: "response \<Rightarrow> response run"

definition DefaultHTTPResponseParserConfig :: HTTPResponseParserConfig where
  "DefaultHTTPResponseParserConfig = \<lparr>pc_Decoder = (\<lambda>r v. Inr v), pc_EntityFormatter = Ret\<rparr>"

text \<open>The decoder reads the body, with the error it breaks off in, through \<open>gunzip\<close> when it is compressed.\<close>

definition DefaultHTTPResponseParserFactory ::
  "(body_reader \<Rightarrow> gerror + body_reader) \<Rightarrow> HTTPResponseParserConfig \<Rightarrow> response_parser" where
  "DefaultHTTPResponseParserFactory gunzip cfg resp =
     (let reader = (if header_get (hrHeader resp) ''Content-Encoding'' = ''gzip'' then gunzip (hrBody resp, hrBroken resp)
                    else Inr (hrBody resp, hrBroken resp))
      in case reader of
           Inl err \<Rightarrow> Ret (Inl err)
         | Inr body \<Rightarrow>
             (case pc_Decoder cfg body None of
                Inl err \<Rightarrow> Ret (Inl err)
              | Inr data \<Rightarrow>
                  run_bind (pc_EntityFormatter cfg (new_response data True)) (\<lambda>newResponse. Ret (Inr newResponse))))"

definition NoOpHTTPResponseParser :: response_parser where
  "NoOpHTTPResponseParser resp =
     Ret (Inr \<lparr>Data = Some [], IsComplete = True,
               Metadata = \<lparr>Headers = hrHeader resp, StatusCode = hrStatusCode resp\<rparr>,
               Io = Some (hrBody resp)\<rparr>)"

subsection \<open>The request sent\<close>

definition clientHTTPOptions :: string where "clientHTTPOptions = ''backend/http/client''"
definition clientHTTPOptionRedirectPost :: string where "clientHTTPOptionRedirectPost = ''send_body_on_redirect''"

text \<open>Whether the body is buffered, so that its length is known to \<open>http.NewRequest\<close>.\<close>

definition redirectPostReaderFactory :: "Backend \<Rightarrow> bool" where
  "redirectPostReaderFactory cfg =
     (case get_as as_obj (be_ExtraConfig cfg) clientHTTPOptions of
        None \<Rightarrow> False
      | Some v \<Rightarrow> get_as as_bool v clientHTTPOptionRedirectPost = Some True)"

definition copied_headers :: "request \<Rightarrow> (string, string list) gomap" where
  "copied_headers request = put_all (entries (rHeaders request)) []"

definition content_length :: "bool \<Rightarrow> request \<Rightarrow> int" where
  "content_length buffered request =
     (case rBody request of
        None \<Rightarrow> 0
      | Some body \<Rightarrow>
          (let known = (if buffered then int (length body) else 0) in
           case map_of (entries (rHeaders request)) ''Content-Length'' of
             Some [v] \<Rightarrow> if v \<noteq> ''chunked'' then (case Atoi v of Some n \<Rightarrow> n | None \<Rightarrow> known) else known
           | _ \<Rightarrow> known))"

definition requestToBackend :: "bool \<Rightarrow> string \<Rightarrow> request \<Rightarrow> http_request" where
  "requestToBackend buffered u request =
     \<lparr>hqMethod = (if rMethod request = [] then ''GET'' else to_upper (rMethod request)), hqURL = u, hqHeader = copied_headers request,
      hqBody = rBody request, hqContentLength = content_length buffered request\<rparr>"

subsection \<open>The proxy\<close>

text \<open>An \<open>HTTPResponseError\<close> with a name, as the value it is stored as.\<close>

fun error_entry :: "gerror \<Rightarrow> (string \<times> json \<times> int) option" where
  "error_entry (ENamedHTTPResponse code msg enc name) =
     Some (''error_'' @ name, JOther (show_int code @ '' '' @ msg @ '' '' @ enc), code)"
| "error_entry _ = None"

definition handle_response :: "status_handler \<Rightarrow> response_parser \<Rightarrow> request \<Rightarrow> http_response \<Rightarrow> pres" where
  "handle_response ch rp request resp =
     (case ch resp of
        (resp', Some err) \<Rightarrow>
          (case error_entry err of
             Some (key, t, code) \<Rightarrow>
               PRet (Some \<lparr>Data = Some [(key, t)], IsComplete = False,
                           Metadata = \<lparr>Headers = [], StatusCode = code\<rparr>, Io = None\<rparr>) None request
           | None \<Rightarrow> PRet None (Some err) request)
      | (None, None) \<Rightarrow> PPanic ''invalid memory address or nil pointer dereference''
      | (Some resp', None) \<Rightarrow>
          (case rp resp' of
             Panic e \<Rightarrow> PPanic e
           | Ret (Inl err) \<Rightarrow> PRet None (Some err) request
           | Ret (Inr r) \<Rightarrow> PRet (Some r) None request))"

text \<open>
  \<open>ctxErr\<close>: the error of the context when it is done once the client has answered.  The body of
  the request is used up and closed.
\<close>

definition NewHTTPProxyDetailed ::
  "(string \<Rightarrow> string \<Rightarrow> gerror option) \<Rightarrow> (url \<Rightarrow> string) \<Rightarrow> gerror option \<Rightarrow> Backend \<Rightarrow>
   (http_request \<Rightarrow> gerror + http_response) \<Rightarrow> status_handler \<Rightarrow> response_parser \<Rightarrow> proxy" where
  "NewHTTPProxyDetailed valid url_text ctxErr cfg re ch rp request =
     (case rURL request of
        None \<Rightarrow> PPanic ''invalid memory address or nil pointer dereference''
      | Some u \<Rightarrow>
          (case valid (to_upper (rMethod request)) (url_text u) of
             Some err \<Rightarrow>
               PRet None (Some err)
                 (if redirectPostReaderFactory cfg then request\<lparr>rBody := map_option (\<lambda>_. []) (rBody request)\<rparr> else request)
           | None \<Rightarrow>
               (let answer = re (requestToBackend (redirectPostReaderFactory cfg) (url_text u) request);
                    request' = request\<lparr>rBody := map_option (\<lambda>_. []) (rBody request)\<rparr>
                in case ctxErr of
                     Some err \<Rightarrow> PRet None (Some err) request'
                   | None \<Rightarrow> (case answer of
                                Inl err \<Rightarrow> PRet None (Some err) request'
                              | Inr resp \<Rightarrow> handle_response ch rp request' resp))))"

definition NewHTTPProxyWithHTTPExecutor ::
  "'t flatmap_lib \<Rightarrow> (body_reader \<Rightarrow> gerror + body_reader) \<Rightarrow> (string \<Rightarrow> string \<Rightarrow> gerror option) \<Rightarrow> (url \<Rightarrow> string) \<Rightarrow>
   gerror option \<Rightarrow> Backend \<Rightarrow> (http_request \<Rightarrow> gerror + http_response) \<Rightarrow> decoder \<Rightarrow> proxy" where
  "NewHTTPProxyWithHTTPExecutor lib gunzip valid url_text ctxErr remote re dec =
     (if be_Encoding remote = NOOP
      then NewHTTPProxyDetailed valid url_text ctxErr remote re NoOpHTTPStatusHandler NoOpHTTPResponseParser
      else NewHTTPProxyDetailed valid url_text ctxErr remote re (GetHTTPStatusHandler remote)
        (DefaultHTTPResponseParserFactory gunzip
          \<lparr>pc_Decoder = dec, pc_EntityFormatter = Format lib (NewEntityFormatter remote)\<rparr>))"

definition CustomHTTPProxyFactory ::
  "'t flatmap_lib \<Rightarrow> (body_reader \<Rightarrow> gerror + body_reader) \<Rightarrow> (string \<Rightarrow> string \<Rightarrow> gerror option) \<Rightarrow> (url \<Rightarrow> string) \<Rightarrow>
   gerror option \<Rightarrow> (http_request \<Rightarrow> gerror + http_response) \<Rightarrow> Backend \<Rightarrow> proxy" where
  "CustomHTTPProxyFactory lib gunzip valid url_text ctxErr cf backend =
     NewHTTPProxyWithHTTPExecutor lib gunzip valid url_text ctxErr backend cf (be_Decoder backend)"
subsection \<open>Properties\<close>

text \<open>A handler that accepts only 200 and 201, and answers anything else with an error.\<close>

definition strict_handler :: "status_handler \<Rightarrow> bool" where
  "strict_handler ch \<longleftrightarrow>
     (\<forall>resp. if hrStatusCode resp \<in> {200, 201} then ch resp = (Some resp, None)
             else (\<exists>r e. ch resp = (r, Some e)))"

lemma strict_handlers:
  "strict_handler (DefaultHTTPStatusHandlerWithErrPrefix p)"
  "strict_handler (ErrorHTTPStatusHandlerWithErrPrefix p)"
  "strict_handler (DetailedHTTPStatusHandlerWithErrPrefix n p)"
  by (auto simp: strict_handler_def DefaultHTTPStatusHandlerWithErrPrefix_def
      ErrorHTTPStatusHandlerWithErrPrefix_def DetailedHTTPStatusHandlerWithErrPrefix_def)

lemma strict_GetHTTPStatusHandler: "strict_handler (GetHTTPStatusHandler remote)"
  using strict_handlers by (simp add: GetHTTPStatusHandler_def Let_def split: option.split)

lemma handle_response_complete:
  assumes "strict_handler ch" and "handle_response ch rp request resp = PRet (Some r) err r'" and "IsComplete r"
  shows "hrStatusCode resp \<in> {200, 201} \<and> rp resp = Ret (Inr r) \<and> err = None"
proof (cases "hrStatusCode resp \<in> {200, 201}")
  case True
  then have "ch resp = (Some resp, None)" using assms(1) by (simp add: strict_handler_def)
  then show ?thesis using True assms(2)
    by (cases "rp resp") (auto simp: handle_response_def split: sum.splits)
next
  case False
  from assms(1) have "if hrStatusCode resp \<in> {200, 201} then ch resp = (Some resp, None) else (\<exists>r e. ch resp = (r, Some e))"
    unfolding strict_handler_def by (rule spec)
  then obtain x e where "ch resp = (x, Some e)" using False by auto
  then show ?thesis using assms(2,3) by (auto simp: handle_response_def split: option.splits)
qed

text \<open>
  a complete response of a backend that is not pass-through is the parsed answer of the client to the request
  sent, with the status 200 or 201.
\<close>

theorem http_complete_only_on_success:
  assumes "be_Encoding remote \<noteq> NOOP"
    and "NewHTTPProxyWithHTTPExecutor lib gunzip valid url_text ctxErr remote re dec request = PRet (Some r) err r'"
    and "IsComplete r"
  shows "\<exists>u resp. rURL request = Some u \<and>
    re (requestToBackend (redirectPostReaderFactory remote) (url_text u) request) = Inr resp \<and>
    hrStatusCode resp \<in> {200, 201} \<and> err = None \<and>
    DefaultHTTPResponseParserFactory gunzip
      \<lparr>pc_Decoder = dec, pc_EntityFormatter = Format lib (NewEntityFormatter remote)\<rparr> resp = Ret (Inr r)"
  using assms handle_response_complete [OF strict_GetHTTPStatusHandler]
  by (auto simp: NewHTTPProxyWithHTTPExecutor_def NewHTTPProxyDetailed_def Let_def split: option.splits sum.splits)

definition sample_http :: "int \<Rightarrow> http_request \<Rightarrow> gerror + http_response" where
  "sample_http code hq = Inr \<lparr>hrStatusCode = code, hrHeader = [(''Content-Type'', [''text/plain''])], hrBody = ''oops'',
     hrBroken = None, hrURL = None\<rparr>"

definition sample_call :: request where
  "sample_call = \<lparr>rMethod = ''get'', rURL = Some \<lparr>uBase = ''http://h/'', uRawQuery = []\<rparr>, rQuery = None, rPath = [],
     rBody = None, rParams = None, rHeaders = None\<rparr>"

definition sample_lib :: "unit flatmap_lib" where
  "sample_lib = \<lparr>fmNew = (\<lambda>_. None), fmMove = (\<lambda>t _ _. t), fmAppend = (\<lambda>t _ _. t), fmDel = (\<lambda>t _. t),
     fmGet = (\<lambda>t _. JNull)\<rparr>"

lemma http_complete_only_on_success_witness:
  "\<exists>resp. sample_http 200 (requestToBackend False ''http://h/'' sample_call) = Inr resp \<and> hrStatusCode resp \<in> {200, 201}"
proof -
  have run: "NewHTTPProxyWithHTTPExecutor sample_lib Inr (\<lambda>_ _. None) uBase None zero_backend (sample_http 200)
      (\<lambda>s v. Inr (Some [(''a'', JStr (fst s))])) sample_call = PRet (Some (new_response (Some [(''a'', JStr ''oops'')]) True)) None sample_call"
    by code_simp
  have enc: "be_Encoding zero_backend \<noteq> NOOP" by (simp add: zero_backend_def NOOP_def)
  have "redirectPostReaderFactory zero_backend = False" by code_simp
  with http_complete_only_on_success [OF enc run] show ?thesis by (auto simp: sample_call_def)
qed

text \<open>
  C36: a pass-through backend is transparent: whatever the status, the client's answer reaches the endpoint as
  a complete response with the status, the headers and the body bytes untouched.
\<close>

theorem http_noop_transparent:
  assumes "be_Encoding remote = NOOP" and "rURL request = Some u" and "valid (to_upper (rMethod request)) (url_text u) = None"
    and "re (requestToBackend (redirectPostReaderFactory remote) (url_text u) request) = Inr resp"
  shows "\<exists>r'. NewHTTPProxyWithHTTPExecutor lib gunzip valid url_text None remote re dec request =
    PRet (Some \<lparr>Data = Some [], IsComplete = True,
      Metadata = \<lparr>Headers = hrHeader resp, StatusCode = hrStatusCode resp\<rparr>, Io = Some (hrBody resp)\<rparr>) None r'"
  using assms
  by (simp add: NewHTTPProxyWithHTTPExecutor_def NewHTTPProxyDetailed_def handle_response_def
      NoOpHTTPStatusHandler_def NoOpHTTPResponseParser_def Let_def)

lemma http_noop_transparent_witness:
  "\<exists>r'. NewHTTPProxyWithHTTPExecutor sample_lib Inr (\<lambda>_ _. None) uBase None (zero_backend\<lparr>be_Encoding := NOOP\<rparr>) (sample_http 418)
     (\<lambda>s v. Inr v) sample_call =
   PRet (Some \<lparr>Data = Some [], IsComplete = True,
      Metadata = \<lparr>Headers = [(''Content-Type'', [''text/plain''])], StatusCode = 418\<rparr>, Io = Some ''oops''\<rparr>) None r'"
  using http_noop_transparent [where remote = "zero_backend\<lparr>be_Encoding := NOOP\<rparr>" and request = sample_call
      and u = "\<lparr>uBase = ''http://h/'', uRawQuery = []\<rparr>"
      and resp = "\<lparr>hrStatusCode = 418, hrHeader = [(''Content-Type'', [''text/plain''])], hrBody = ''oops'', hrBroken = None, hrURL = None\<rparr>"
      and re = "sample_http 418" and url_text = uBase and valid = "\<lambda>_ _. None" and lib = sample_lib and gunzip = Inr and dec = "\<lambda>s v. Inr v"]
  by (simp add: sample_call_def sample_http_def)

text \<open>
  with \<open>return_error_details\<close> a failing status is data: the endpoint gets an incomplete response
  without error whose only entry is \<open>error_<name>\<close> and whose status is the backend's.
\<close>

theorem http_error_details:
  assumes "be_Encoding remote \<noteq> NOOP" and "rURL request = Some u" and "valid (to_upper (rMethod request)) (url_text u) = None"
    and "re (requestToBackend (redirectPostReaderFactory remote) (url_text u) request) = Inr resp"
    and "hrStatusCode resp \<notin> {200, 201}"
    and "get_as as_obj (be_ExtraConfig remote) client_Namespace = Some m"
    and "map_of m ''return_error_details'' = Some (JStr name)" and "name \<noteq> []"
  shows "\<exists>r' r v. NewHTTPProxyWithHTTPExecutor lib gunzip valid url_text None remote re dec request = PRet (Some r) None r' \<and>
    Data r = Some [(''error_'' @ name, v)] \<and> \<not> IsComplete r \<and> StatusCode (Metadata r) = hrStatusCode resp"
proof -
  let ?p = "''['' @ be_Method remote @ '' '' @ be_URLPattern remote @ '']:''"
  have "GetHTTPStatusHandler remote = DetailedHTTPStatusHandlerWithErrPrefix name ?p"
    using assms(6-8) by (simp add: GetHTTPStatusHandler_def Let_def)
  then show ?thesis using assms
    by (simp add: NewHTTPProxyWithHTTPExecutor_def NewHTTPProxyDetailed_def handle_response_def
        DetailedHTTPStatusHandlerWithErrPrefix_def DefaultHTTPStatusHandlerWithErrPrefix_def newNamedError_def Let_def)
qed

lemma http_error_details_witness:
  "\<exists>r' r v. NewHTTPProxyWithHTTPExecutor sample_lib Inr (\<lambda>_ _. None) uBase None
     (zero_backend\<lparr>be_ExtraConfig := [(client_Namespace, JObj [(''return_error_details'', JStr ''users'')])]\<rparr>) (sample_http 503)
     (\<lambda>s v. Inr v) sample_call = PRet (Some r) None r' \<and> Data r = Some [(''error_users'', v)]"
proof -
  let ?b = "zero_backend\<lparr>be_ExtraConfig := [(client_Namespace, JObj [(''return_error_details'', JStr ''users'')])]\<rparr>"
  let ?resp = "\<lparr>hrStatusCode = 503, hrHeader = [(''Content-Type'', [''text/plain''])], hrBody = ''oops'',
     hrBroken = None, hrURL = None\<rparr>"
  have "\<exists>r' r v. NewHTTPProxyWithHTTPExecutor sample_lib Inr (\<lambda>_ _. None) uBase None ?b (sample_http 503)
     (\<lambda>s v. Inr v) sample_call = PRet (Some r) None r' \<and>
     Data r = Some [(''error_'' @ ''users'', v)] \<and> \<not> IsComplete r \<and> StatusCode (Metadata r) = hrStatusCode ?resp"
    by (rule http_error_details [where u = "\<lparr>uBase = ''http://h/'', uRawQuery = []\<rparr>" and m = "[(''return_error_details'', JStr ''users'')]"])
      (simp_all add: zero_backend_def NOOP_def sample_call_def sample_http_def get_as_def)
  then show ?thesis by auto
qed


end
