(* ===== verification/Graphql.thy ===== *)
theory Graphql
  imports Http_Proxy
begin

section \<open>GraphQL backends (\<open>transport/http/client/graphql/\<close>, \<open>proxy/graphql.go\<close>)\<close>

text \<open>
  The extractor that fills the variables of a GraphQL operation from the parameters or the body of a
  request, and the middleware that turns the request into a GraphQL one.  \<open>encoding/json\<close> in both directions, the
  file read for \<open>query_path\<close> and \<open>cases.Title\<close> are arguments.
\<close>

subsection \<open>Options\<close>

record GraphQLRequest =
  gq_Query :: string
  gq_OperationName :: string
  gq_Variables :: "fields option"

record gql_options =
  go_Request :: GraphQLRequest
  go_QueryPath :: string
  go_Type :: string
  go_Method :: string

record gql_env =
  ge_unmarshal_options :: "json \<Rightarrow> gerror + gql_options"
  ge_read_file :: "string \<Rightarrow> gerror + string"
  ge_title :: "string \<Rightarrow> string"
  ge_marshal :: "GraphQLRequest \<Rightarrow> gerror + string"
  ge_marshal_vars :: "fields \<Rightarrow> gerror + string"
  ge_unmarshal :: "string \<Rightarrow> gerror + json"

definition gql_Namespace :: string where
  "gql_Namespace = ''github.com/devopsfaith/krakend/transport/http/client/graphql''"

definition ErrNoConfigFound :: gerror where
  "ErrNoConfigFound = EText ''grapghql: no configuration found''"

definition GetOptions :: "gql_env \<Rightarrow> fields \<Rightarrow> gerror + gql_options" where
  "GetOptions env cfg =
     (case map_of cfg gql_Namespace of
        None \<Rightarrow> Inl ErrNoConfigFound
      | Some tmp \<Rightarrow>
          (case ge_unmarshal_options env tmp of
             Inl err \<Rightarrow> Inl err
           | Inr opt \<Rightarrow>
               (let opt = opt\<lparr>go_Method := to_upper (go_Method opt), go_Type := to_lower (go_Type opt)\<rparr>;
                    opt = (if go_Method opt \<noteq> ''GET'' \<and> go_Method opt \<noteq> ''POST'' then opt\<lparr>go_Method := ''POST''\<rparr> else opt)
                in if go_QueryPath opt \<noteq> [] then
                     (case ge_read_file env (go_QueryPath opt) of
                        Inl err \<Rightarrow> Inl err
                      | Inr q \<Rightarrow> Inr (opt\<lparr>go_Request := (go_Request opt)\<lparr>gq_Query := q\<rparr>\<rparr>))
                   else Inr opt)))"

subsection \<open>The extractor\<close>

text \<open>
  \<open>placeholder v\<close>: the parameter a variable of the form \<open>{name}\<close> stands for.  The code reads
  \<open>val[0]\<close> of an empty string and slices \<open>val[2:len-1]\<close> of \<open>{}\<close>, which panic.
\<close>

definition placeholder :: "(string \<Rightarrow> string) \<Rightarrow> string \<Rightarrow> string option run" where
  "placeholder title val =
     (if val = [] then Panic ''index out of range''
      else if hd val = CHR ''{'' \<and> last val = CHR ''}'' then
        (if length val < 3 then Panic ''slice bounds out of range''
         else Ret (Some (title [val ! 1] @ butlast (drop 2 val))))
      else Ret None)"

fun replacements :: "(string \<Rightarrow> string) \<Rightarrow> fields \<Rightarrow> (string \<times> string) list run" where
  "replacements title [] = Ret []"
| "replacements title ((k, v) # vars) =
     (case as_str v of
        None \<Rightarrow> replacements title vars
      | Some val \<Rightarrow>
          run_bind (placeholder title val) (\<lambda>p.
          run_bind (replacements title vars) (\<lambda>rs.
            Ret (case p of Some key \<Rightarrow> (k, key) # rs | None \<Rightarrow> rs))))"

type_synonym params = "(string, string) gomap option"

record extractor =
  ex_cfg :: gql_options
  ex_paramExtractor :: "params \<Rightarrow> GraphQLRequest"
  ex_newBody :: "params \<Rightarrow> gerror + string"

fun set_replacements :: "(string \<times> string) list \<Rightarrow> params \<Rightarrow> fields \<Rightarrow> fields" where
  "set_replacements [] params vars = vars"
| "set_replacements ((k, key) # rs) params vars =
     set_replacements rs params
       (go_put k (JStr (case map_of (entries params) key of Some s \<Rightarrow> s | None \<Rightarrow> [])) vars)"

definition paramExtractor :: "gql_options \<Rightarrow> (string \<times> string) list \<Rightarrow> params \<Rightarrow> GraphQLRequest" where
  "paramExtractor opt rs params =
     \<lparr>gq_Query = gq_Query (go_Request opt), gq_OperationName = gq_OperationName (go_Request opt),
      gq_Variables = Some (set_replacements rs params (put_all (entries (gq_Variables (go_Request opt))) []))\<rparr>"

definition gql_New :: "gql_env \<Rightarrow> gql_options \<Rightarrow> extractor run" where
  "gql_New env opt =
     run_bind (replacements (ge_title env) (entries (gq_Variables (go_Request opt)))) (\<lambda>rs.
       Ret (if rs = []
            then \<lparr>ex_cfg = opt, ex_paramExtractor = (\<lambda>_. go_Request opt),
                  ex_newBody = (\<lambda>_. Inr (case ge_marshal env (go_Request opt) of Inr b \<Rightarrow> b | Inl _ \<Rightarrow> []))\<rparr>
            else \<lparr>ex_cfg = opt, ex_paramExtractor = paramExtractor opt rs,
                  ex_newBody = (\<lambda>params. ge_marshal env (paramExtractor opt rs params))\<rparr>))"

text \<open>
  Decoding into the fresh map: an object adds its entries, \<open>null\<close> leaves a nil map, which no entry
  can be stored in.
\<close>

fun add_missing :: "fields \<Rightarrow> fields \<Rightarrow> fields" where
  "add_missing [] vars = vars"
| "add_missing ((k, v) # ds) vars = add_missing ds (if map_of vars k \<noteq> None then vars else go_put k v vars)"

definition fromBody :: "gql_env \<Rightarrow> extractor \<Rightarrow> string \<Rightarrow> (gerror + GraphQLRequest) run" where
  "fromBody env e b =
     (let cfg = go_Request (ex_cfg e);
          req = (\<lambda>vars. \<lparr>gq_Query = gq_Query cfg, gq_OperationName = gq_OperationName cfg, gq_Variables = vars\<rparr>)
      in case ge_unmarshal env b of
           Inl err \<Rightarrow> Ret (Inl err)
         | Inr v \<Rightarrow>
             (if v = JNull then
                (if entries (gq_Variables cfg) = [] then Ret (Inr (req None))
                 else Panic ''assignment to entry in nil map'')
              else (case as_obj v of
                      None \<Rightarrow> Ret (Inl (EText ''json: cannot unmarshal value into Go value of type map''))
                    | Some m \<Rightarrow> Ret (Inr (req (Some (add_missing (entries (gq_Variables cfg)) (put_all m []))))))))"

definition BodyFromBody :: "gql_env \<Rightarrow> extractor \<Rightarrow> string \<Rightarrow> (gerror + string) run" where
  "BodyFromBody env e b =
     run_bind (fromBody env e b) (\<lambda>v. Ret (case v of Inl err \<Rightarrow> Inl err | Inr gr \<Rightarrow> ge_marshal env gr))"

definition BodyFromParams :: "extractor \<Rightarrow> params \<Rightarrow> gerror + string" where
  "BodyFromParams e params = ex_newBody e params"

definition query_values :: "gql_env \<Rightarrow> GraphQLRequest \<Rightarrow> url_values" where
  "query_values env gr =
     (let vars = Values_Add ''query'' (gq_Query gr) [];
          vars = (if gq_OperationName gr \<noteq> [] then Values_Add ''operationName'' (gq_OperationName gr) vars else vars)
      in if entries (gq_Variables gr) \<noteq> [] then
           Values_Add ''variables'' (case ge_marshal_vars env (entries (gq_Variables gr)) of Inr s \<Rightarrow> s | Inl _ \<Rightarrow> []) vars
         else vars)"

definition QueryFromBody :: "gql_env \<Rightarrow> extractor \<Rightarrow> string \<Rightarrow> (gerror + url_values) run" where
  "QueryFromBody env e b =
     run_bind (fromBody env e b) (\<lambda>v. Ret (case v of Inl err \<Rightarrow> Inl err | Inr gr \<Rightarrow> Inr (query_values env gr)))"

definition QueryFromParams :: "gql_env \<Rightarrow> extractor \<Rightarrow> params \<Rightarrow> gerror + url_values" where
  "QueryFromParams env e params = Inr (query_values env (ex_paramExtractor e params))"

subsection \<open>The middleware\<close>

definition body_text :: "request \<Rightarrow> string" where
  "body_text req = (case rBody req of None \<Rightarrow> [] | Some b \<Rightarrow> b)"

text \<open>The generators of the two operation types; a mutation uses up the body.\<close>

definition generateBody :: "gql_env \<Rightarrow> string \<Rightarrow> extractor \<Rightarrow> request \<Rightarrow> (gerror + string) run" where
  "generateBody env typ e req =
     (if typ = ''mutation'' then BodyFromBody env e (body_text req) else Ret (BodyFromParams e (rParams req)))"

definition generateQuery :: "gql_env \<Rightarrow> string \<Rightarrow> extractor \<Rightarrow> request \<Rightarrow> (gerror + url_values) run" where
  "generateQuery env typ e req =
     (if typ = ''mutation'' then QueryFromBody env e (body_text req) else Ret (QueryFromParams env e (rParams req)))"

definition used_body :: "string \<Rightarrow> request \<Rightarrow> request" where
  "used_body typ req = (if typ = ''mutation'' then req\<lparr>rBody := map_option (\<lambda>_. []) (rBody req)\<rparr> else req)"

text \<open>The headers are stored into the map of the request, which must not be nil.\<close>

definition with_content :: "string \<Rightarrow> string \<Rightarrow> request \<Rightarrow> request run" where
  "with_content method body req =
     (case rHeaders req of
        None \<Rightarrow> Panic ''assignment to entry in nil map''
      | Some h \<Rightarrow> Ret (req\<lparr>rBody := Some body, rMethod := method,
          rHeaders := Some (go_put ''Content-Type'' [''application/json'']
                             (go_put ''Content-Length'' [show_nat (length body)] h))\<rparr>))"

fun add_values :: "url_values \<Rightarrow> url_values \<Rightarrow> url_values" where
  "add_values [] m = m"
| "add_values ((k, vs) # q) m = add_values q (add_pairs (map (Pair k) vs) m)"

definition merged_query :: "url_values \<Rightarrow> request \<Rightarrow> request" where
  "merged_query q req = req\<lparr>rQuery := Some (case rQuery req of Some m \<Rightarrow> add_values q m | None \<Rightarrow> q)\<rparr>"

definition graphql_get :: "gql_env \<Rightarrow> gql_options \<Rightarrow> extractor \<Rightarrow> proxy \<Rightarrow> proxy" where
  "graphql_get env opt e next req =
     (case generateQuery env (go_Type opt) e req of
        Panic p \<Rightarrow> PPanic p
      | Ret (Inl err) \<Rightarrow> PRet None (Some err) (used_body (go_Type opt) req)
      | Ret (Inr q) \<Rightarrow>
          (case with_content (go_Method opt) [] req of
             Panic p \<Rightarrow> PPanic p
           | Ret req' \<Rightarrow> next (merged_query q req')))"

definition graphql_post :: "gql_env \<Rightarrow> gql_options \<Rightarrow> extractor \<Rightarrow> proxy \<Rightarrow> proxy" where
  "graphql_post env opt e next req =
     (case generateBody env (go_Type opt) e req of
        Panic p \<Rightarrow> PPanic p
      | Ret (Inl err) \<Rightarrow> PRet None (Some err) (used_body (go_Type opt) req)
      | Ret (Inr b) \<Rightarrow>
          (case with_content (go_Method opt) b req of
             Panic p \<Rightarrow> PPanic p
           | Ret req' \<Rightarrow> next req'))"

definition NewGraphQLMiddleware :: "gql_env \<Rightarrow> Backend \<Rightarrow> middleware run" where
  "NewGraphQLMiddleware env remote =
     (case GetOptions env (be_ExtraConfig remote) of
        Inl err \<Rightarrow> Ret emptyMiddlewareFallback
      | Inr opt \<Rightarrow>
          run_bind (gql_New env opt) (\<lambda>e.
            Ret (if go_Type opt \<noteq> ''mutation'' \<and> go_Type opt \<noteq> ''query'' then emptyMiddlewareFallback
                 else if go_Method opt = ''GET''
                 then wrap_single ''NewGraphQLMiddleware only accepts 1 proxy'' (graphql_get env opt e)
                 else wrap_single ''NewGraphQLMiddleware only accepts 1 proxy'' (graphql_post env opt e))))"
subsection \<open>Variables\<close>

definition is_placeholder :: "(string \<Rightarrow> string) \<Rightarrow> json \<Rightarrow> string option" where
  "is_placeholder title v =
     (case as_str v of
        None \<Rightarrow> None
      | Some val \<Rightarrow> (case placeholder title val of Ret p \<Rightarrow> p | Panic e \<Rightarrow> None))"

text \<open>What a configured variable is sent as.\<close>

definition fill_variable :: "(string \<Rightarrow> string) \<Rightarrow> params \<Rightarrow> json \<Rightarrow> json" where
  "fill_variable title params v =
     (case is_placeholder title v of
        None \<Rightarrow> v
      | Some key \<Rightarrow> JStr (case map_of (entries params) key of Some s \<Rightarrow> s | None \<Rightarrow> []))"

lemma replacements_spec:
  "replacements title vars = Ret rs \<Longrightarrow> wf_map vars \<Longrightarrow>
   map_of rs k = Option.bind (map_of vars k) (is_placeholder title) \<and> wf_map rs \<and> fst ` set rs \<subseteq> fst ` set vars"
proof (induction vars arbitrary: rs)
  case (Cons kv vars)
  obtain k' v where kv: "kv = (k', v)" by (cases kv)
  have new: "k' \<notin> fst ` set vars" "wf_map vars" using Cons.prems(2) kv by simp_all
  then have none: "map_of vars k' = None" by (simp add: map_of_eq_None_iff)
  show ?case
  proof (cases "as_str v")
    case None
    then have "replacements title vars = Ret rs" using Cons.prems(1) kv by simp
    from Cons.IH [OF this new(2)] show ?thesis using None kv none by (auto simp: is_placeholder_def)
  next
    case (Some val)
    then obtain p rs' where p: "placeholder title val = Ret p" and rs': "replacements title vars = Ret rs'"
      and rs: "rs = (case p of Some key \<Rightarrow> (k', key) # rs' | None \<Rightarrow> rs')"
      using Cons.prems(1) kv by (auto simp: run_bind_Ret_iff)
    show ?thesis
      using Cons.IH [OF rs' new(2)] new(1) Some p rs kv none
      by (cases p) (auto simp: is_placeholder_def)
  qed
qed simp

lemma map_of_set_replacements:
  "wf_map rs \<Longrightarrow> map_of (set_replacements rs params vars) k =
     (case map_of rs k of
        Some key \<Rightarrow> Some (JStr (case map_of (entries params) key of Some s \<Rightarrow> s | None \<Rightarrow> []))
      | None \<Rightarrow> map_of vars k)"
proof (induction rs params vars rule: set_replacements.induct)
  case (2 k' key rs params vars)
  then have "map_of rs k' = None" by (simp add: map_of_eq_None_iff)
  then show ?case using 2 by (auto simp: go_map_simps split: option.splits)
qed simp

lemma variables_filled:
  assumes "gql_New env opt = Ret e" and "wf_map (entries (gq_Variables (go_Request opt)))"
  shows "map_of (entries (gq_Variables (ex_paramExtractor e params))) k =
    map_option (fill_variable (ge_title env) params) (map_of (entries (gq_Variables (go_Request opt))) k)"
proof -
  let ?vars = "entries (gq_Variables (go_Request opt))"
  obtain rs where rs: "replacements (ge_title env) ?vars = Ret rs"
    using assms(1) by (auto simp: gql_New_def run_bind_Ret_iff)
  note spec = replacements_spec [OF rs assms(2)]
  show ?thesis
  proof (cases "rs = []")
    case True
    then have none: "Option.bind (map_of ?vars k) (is_placeholder (ge_title env)) = None" using spec [of k] by simp
    have "ex_paramExtractor e params = go_Request opt"
      using assms(1) rs True by (auto simp: gql_New_def)
    then show ?thesis
      using none by (cases "map_of ?vars k") (simp_all add: fill_variable_def)
  next
    case False
    then have "ex_paramExtractor e params = paramExtractor opt rs params"
      using assms(1) rs by (auto simp: gql_New_def)
    then show ?thesis
      using spec assms(2)
      by (cases "map_of ?vars k")
        (auto simp: paramExtractor_def map_of_set_replacements go_map_simps fill_variable_def split: option.splits)
  qed
qed

text \<open>A placeholder is a text of at least one byte between braces: the name of a parameter in title case.\<close>

lemma placeholder_text: "is_placeholder title (JStr (''{'' @ c # name @ ''}'')) = Some (title [c] @ name)"
  by (simp add: is_placeholder_def placeholder_def butlast_append)

lemma placeholder_only_text:
  assumes "is_placeholder title v = Some key"
  obtains c name where "v = JStr (''{'' @ c # name @ ''}'')"
proof -
  obtain val where v: "v = JStr val" and p: "placeholder title val = Ret (Some key)"
    using assms by (cases v) (auto simp: is_placeholder_def split: run.splits)
  then have val: "val \<noteq> []" "hd val = CHR ''{''" "last val = CHR ''}''" "3 \<le> length val"
    by (auto simp: placeholder_def split: if_splits)
  then obtain c rest where cut: "val = CHR ''{'' # c # rest" "rest \<noteq> []"
    by (cases val; cases "tl val"; cases "tl (tl val)") auto
  then have "rest = butlast rest @ ''}''" using val(3) append_butlast_last_id [OF cut(2)] by simp
  then have "v = JStr (''{'' @ c # butlast rest @ ''}'')" using v cut(1) by simp
  then show thesis by (rule that)
qed

text \<open>The value a request has for a parameter, or the empty string.\<close>

definition param_value :: "params \<Rightarrow> string \<Rightarrow> string" where
  "param_value params key = (case map_of (entries params) key of Some s \<Rightarrow> s | None \<Rightarrow> [])"

text \<open>
  C39: the variables of a query: a configured variable with a text of the form \<open>{name}\<close> is sent under its name with the value
  the request has for the parameter of that name, its first byte in title case, or with the empty string; any other one is
  sent as it is configured; and nothing else is sent.
\<close>

theorem graphql_variables:
  assumes "gql_New env opt = Ret e" and "wf_map (entries (gq_Variables (go_Request opt)))"
  shows "let configured = map_of (entries (gq_Variables (go_Request opt)));
      sent = map_of (entries (gq_Variables (ex_paramExtractor e params)))
    in (\<forall>c name. configured k = Some (JStr (''{'' @ c # name @ ''}'')) \<longrightarrow>
      sent k = Some (JStr (param_value params (ge_title env [c] @ name)))) \<and>
    (\<forall>v. configured k = Some v \<and> (\<nexists>c name. v = JStr (''{'' @ c # name @ ''}'')) \<longrightarrow> sent k = Some v) \<and>
    (configured k = None \<longrightarrow> sent k = None)"
proof -
  note sent = variables_filled [OF assms, of params k]
  have "fill_variable (ge_title env) params v = v" if "\<nexists>c name. v = JStr (''{'' @ c # name @ ''}'')" for v
    by (cases "is_placeholder (ge_title env) v")
      (use that placeholder_only_text [of "ge_title env" v] in \<open>auto simp: fill_variable_def\<close>)
  moreover have "fill_variable (ge_title env) params (JStr (''{'' @ c # name @ ''}'')) = JStr (param_value params (ge_title env [c] @ name))"
    for c name
    using placeholder_text [of "ge_title env" c name] by (simp add: fill_variable_def param_value_def)
  ultimately show ?thesis unfolding Let_def sent by auto
qed

definition sample_gql :: gql_env where
  "sample_gql = \<lparr>ge_unmarshal_options = (\<lambda>_. Inl EInternal), ge_read_file = (\<lambda>_. Inl EInternal), ge_title = map up_char,
     ge_marshal = (\<lambda>gr. Inr (gq_Query gr)), ge_marshal_vars = (\<lambda>_. Inr ''{}''), ge_unmarshal = (\<lambda>s. if s = ''null'' then Inr JNull else Inr (JObj [(''b'', JStr s)]))\<rparr>"

definition sample_opt :: gql_options where
  "sample_opt = \<lparr>go_Request = \<lparr>gq_Query = ''q'', gq_OperationName = [], gq_Variables = Some [(''a'', JStr ''{id}''), (''b'', JInt 1)]\<rparr>,
     go_QueryPath = [], go_Type = ''query'', go_Method = ''POST''\<rparr>"

lemma graphql_variables_witness:
  "\<exists>e. gql_New sample_gql sample_opt = Ret e \<and>
     map_of (entries (gq_Variables (ex_paramExtractor e (Some [(''Id'', ''42'')])))) ''a'' = Some (JStr ''42'') \<and>
     map_of (entries (gq_Variables (ex_paramExtractor e (Some [(''Id'', ''42'')])))) ''b'' = Some (JInt 1)"
proof -
  have "replacements (map up_char) [(''a'', JStr ''{id}''), (''b'', JInt 1)] = Ret [(''a'', ''Id'')]" by code_simp
  then have new: "gql_New sample_gql sample_opt =
    Ret \<lparr>ex_cfg = sample_opt, ex_paramExtractor = paramExtractor sample_opt [(''a'', ''Id'')],
         ex_newBody = (\<lambda>params. ge_marshal sample_gql (paramExtractor sample_opt [(''a'', ''Id'')] params))\<rparr>"
    by (simp add: gql_New_def sample_opt_def sample_gql_def)
  have wf: "wf_map (entries (gq_Variables (go_Request sample_opt)))" by (simp add: sample_opt_def)
  have title: "ge_title sample_gql ''i'' @ ''d'' = ''Id''" by (simp add: sample_gql_def) code_simp
  have a: "map_of (entries (gq_Variables (go_Request sample_opt))) ''a'' = Some (JStr (''{'' @ CHR ''i'' # ''d'' @ ''}''))"
    and b: "map_of (entries (gq_Variables (go_Request sample_opt))) ''b'' = Some (JInt 1)"
    by (simp_all add: sample_opt_def)
  let ?p = "Some [(''Id'', ''42'')]"
  note at = graphql_variables [OF new wf, where params = ?p, unfolded Let_def]
  have "map_of (entries (gq_Variables (paramExtractor sample_opt [(''a'', ''Id'')] ?p))) ''a'' = Some (JStr (param_value ?p (ge_title sample_gql ''i'' @ ''d'')))"
    using at [where k = "''a''"] a by (simp only: extractor.simps)
  moreover have "map_of (entries (gq_Variables (paramExtractor sample_opt [(''a'', ''Id'')] ?p))) ''b'' = Some (JInt 1)"
    using at [where k = "''b''"] b by simp
  ultimately show ?thesis using new unfolding title by (simp add: param_value_def)
qed

lemma map_of_add_missing:
  "map_of (add_missing ds vars) k = (case map_of vars k of Some v \<Rightarrow> Some v | None \<Rightarrow> map_of ds k)"
  by (induction ds vars rule: add_missing.induct) (auto simp: go_map_simps split: option.splits)

text \<open>
  the variables of a mutation: the object in the request's body, completed with the configured
  defaults for the names it lacks.
\<close>

theorem graphql_mutation_variables:
  assumes "ge_unmarshal env b = Inr (JObj m)" and "wf_map m"
  shows "\<exists>gr. fromBody env e b = Ret (Inr gr) \<and>
    gq_Query gr = gq_Query (go_Request (ex_cfg e)) \<and> gq_OperationName gr = gq_OperationName (go_Request (ex_cfg e)) \<and>
    map_of (entries (gq_Variables gr)) = map_of (entries (gq_Variables (go_Request (ex_cfg e)))) ++ map_of m"
  using assms
  by (auto simp: fromBody_def Let_def map_of_add_missing go_map_simps map_add_def fun_eq_iff split: option.split)

lemma graphql_mutation_variables_witness:
  "\<exists>gr. fromBody sample_gql \<lparr>ex_cfg = sample_opt, ex_paramExtractor = (\<lambda>_. go_Request sample_opt), ex_newBody = (\<lambda>_. Inr [])\<rparr> ''x'' = Ret (Inr gr) \<and>
     map_of (entries (gq_Variables gr)) ''b'' = Some (JStr ''x'')"
proof -
  let ?e = "\<lparr>ex_cfg = sample_opt, ex_paramExtractor = (\<lambda>_. go_Request sample_opt), ex_newBody = (\<lambda>_. Inr [])\<rparr>"
  have "\<exists>gr. fromBody sample_gql ?e ''x'' = Ret (Inr gr) \<and>
    gq_Query gr = gq_Query (go_Request (ex_cfg ?e)) \<and> gq_OperationName gr = gq_OperationName (go_Request (ex_cfg ?e)) \<and>
    map_of (entries (gq_Variables gr)) = map_of (entries (gq_Variables (go_Request (ex_cfg ?e)))) ++ map_of [(''b'', JStr ''x'')]"
    by (rule graphql_mutation_variables) (simp_all add: sample_gql_def)
  then show ?thesis by auto
qed

text \<open>
  a mutation whose body is the JSON text \<open>null\<close> panics when the configuration has default variables.
\<close>

theorem graphql_null_body_panics:
  assumes "ge_unmarshal env b = Inr JNull" and "entries (gq_Variables (go_Request (ex_cfg e))) \<noteq> []"
  shows "graphql_post env (opt\<lparr>go_Type := ''mutation''\<rparr>) e next (req\<lparr>rBody := Some b\<rparr>) = PPanic ''assignment to entry in nil map''"
  using assms by (simp add: graphql_post_def generateBody_def BodyFromBody_def fromBody_def body_text_def Let_def)

lemma graphql_null_body_panics_witness:
  "graphql_post sample_gql (sample_opt\<lparr>go_Type := ''mutation''\<rparr>)
     \<lparr>ex_cfg = sample_opt, ex_paramExtractor = (\<lambda>_. go_Request sample_opt), ex_newBody = (\<lambda>_. Inr [])\<rparr> NoopProxy
     (sample_call\<lparr>rBody := Some ''null''\<rparr>) = PPanic ''assignment to entry in nil map''"
  by (rule graphql_null_body_panics) (simp_all add: sample_gql_def sample_opt_def)

subsection \<open>The request handed on\<close>

lemma show_nat_digits: "list_all is_digit (show_nat n) \<and> show_nat n \<noteq> []"
proof (induction n rule: show_nat.induct)
  case (1 n)
  have "n mod 10 < 10" by simp
  then have "48 + n mod 10 \<le> 57" by linarith
  moreover from this have "(48 + n mod 10) mod 256 = 48 + n mod 10" by simp
  ultimately have "is_digit (digit_char n)" by (simp add: digit_char_def is_digit_def less_eq_char_def)
  then show ?case using 1 by (cases "n < 10") (simp_all add: show_nat.simps [of n])
qed

lemma Atoi_show_nat:
  assumes "n < 2 ^ 63"
  shows "Atoi (show_nat n) = Some (int n)"
proof -
  obtain c cs where s: "show_nat n = c # cs" "is_digit c" "list_all is_digit cs"
    using show_nat_digits [of n] by (cases "show_nat n") auto
  then have "c \<noteq> CHR ''-''" "c \<noteq> CHR ''+''" by (auto simp: is_digit_def)
  moreover have "nat_of_digits (c # cs) = n" using nat_of_digits_show [of n] s by simp
  moreover have "is_i64 (int n)" using assms by (simp add: is_i64_def)
  ultimately show ?thesis using s by (simp add: Atoi_def)
qed

text \<open>
  a GraphQL request over POST: the next proxy is handed the configured method, the generated body and the
  JSON content type, and the content length the HTTP proxy will announce is the length of that body.
\<close>

theorem graphql_post_request:
  assumes "generateBody env (go_Type opt) e req = Ret (Inr b)" and "rHeaders req = Some h" and "length b < 2 ^ 63"
  shows "\<exists>req'. graphql_post env opt e nxt req = nxt req' \<and>
    rMethod req' = go_Method opt \<and> rBody req' = Some b \<and>
    map_of (entries (rHeaders req')) ''Content-Type'' = Some [''application/json''] \<and>
    content_length buffered req' = int (length b)"
proof -
  have "show_nat (length b) \<noteq> ''chunked''"
    using show_nat_digits [of "length b"] by (auto simp: is_digit_def)
  then show ?thesis using assms Atoi_show_nat [OF assms(3)]
    by (intro exI [of _ "req\<lparr>rBody := Some b, rMethod := go_Method opt,
          rHeaders := Some (go_put ''Content-Type'' [''application/json'']
                             (go_put ''Content-Length'' [show_nat (length b)] h))\<rparr>"])
      (simp add: graphql_post_def with_content_def content_length_def go_map_simps)
qed

lemma graphql_post_request_witness:
  "\<exists>req'. graphql_post sample_gql sample_opt
       \<lparr>ex_cfg = sample_opt, ex_paramExtractor = (\<lambda>_. go_Request sample_opt), ex_newBody = (\<lambda>_. Inr ''body'')\<rparr> NoopProxy
       (sample_call\<lparr>rHeaders := Some []\<rparr>) = NoopProxy req' \<and> rBody req' = Some ''body'' \<and> content_length False req' = 4"
proof -
  let ?e = "\<lparr>ex_cfg = sample_opt, ex_paramExtractor = (\<lambda>_. go_Request sample_opt), ex_newBody = (\<lambda>_. Inr ''body'')\<rparr>"
  let ?req = "sample_call\<lparr>rHeaders := Some []\<rparr>"
  have "generateBody sample_gql (go_Type sample_opt) ?e ?req = Ret (Inr ''body'')"
    by (simp add: generateBody_def BodyFromParams_def sample_opt_def)
  from graphql_post_request [where nxt = NoopProxy and buffered = False and h = "[]", OF this]
  have "\<exists>req'. graphql_post sample_gql sample_opt ?e NoopProxy ?req = NoopProxy req' \<and> rMethod req' = go_Method sample_opt \<and>
    rBody req' = Some ''body'' \<and> map_of (entries (rHeaders req')) ''Content-Type'' = Some [''application/json''] \<and>
    content_length False req' = int (length ''body'')" by simp
  then show ?thesis by auto
qed


end
