(* ===== verification/Plugins.thy ===== *)
theory Plugins
  imports Http_Proxy
begin

section \<open>Plugins: loading, modifiers, client and server handlers\<close>

text \<open>
  \<open>plugin/plugin.go\<close>, the loaders of \<open>proxy/plugin\<close>, \<open>transport/http/client/plugin\<close> and
  \<open>transport/http/server/plugin\<close>, the modifier middleware of \<open>proxy/plugin.go\<close> and the two handler
  injections.  Opening a shared object is the argument \<open>opener\<close>, reading a folder \<open>read_dir\<close>.
\<close>

subsection \<open>Scanning and loading\<close>

definition Scan ::
  "(string \<Rightarrow> gerror + (string \<times> bool) list) \<Rightarrow> (string \<Rightarrow> string \<Rightarrow> string) \<Rightarrow> string \<Rightarrow> string \<Rightarrow> gerror + string list" where
  "Scan read_dir path_join folder pattern =
     (case read_dir folder of
        Inl err \<Rightarrow> Inl err
      | Inr files \<Rightarrow> Inr (map (\<lambda>(name, isDir). path_join folder name)
          (filter (\<lambda>(name, isDir). \<not> isDir \<and> sublist pattern name) files)))"

text \<open>
  What a shared object turns out to be: it does not open, lacks the symbol, has a symbol of another type,
  registers some components, or registers some and panics.
\<close>

datatype 'reg shared_object =
    OpenError string
  | LookupError string
  | UnknownType
  | Registers "'reg list"
  | RegistersAndPanics "'reg list" string

text \<open>\<open>open\<close> of the three packages: the panic is recovered into an error, what was registered stays.\<close>

fun plugin_open :: "string \<Rightarrow> ('reg \<Rightarrow> 's \<Rightarrow> 's) \<Rightarrow> 'reg shared_object \<Rightarrow> 's \<Rightarrow> string option \<times> 's" where
  "plugin_open unknown register (OpenError e) s = (Some e, s)"
| "plugin_open unknown register (LookupError e) s = (Some e, s)"
| "plugin_open unknown register UnknownType s = (Some unknown, s)"
| "plugin_open unknown register (Registers rs) s = (None, fold register rs s)"
| "plugin_open unknown register (RegistersAndPanics rs e) s = (Some e, fold register rs s)"

definition load_error :: "nat \<Rightarrow> string \<Rightarrow> string \<Rightarrow> string" where
  "load_error k pluginName err = ''plugin #'' @ show_nat k @ '' ('' @ pluginName @ ''): '' @ err"

fun load_loop ::
  "string \<Rightarrow> ('reg \<Rightarrow> 's \<Rightarrow> 's) \<Rightarrow> (string \<Rightarrow> 'reg shared_object) \<Rightarrow> nat \<Rightarrow> string list \<Rightarrow> 's \<Rightarrow> nat \<times> string list \<times> 's" where
  "load_loop unknown register opener k [] s = (0, [], s)"
| "load_loop unknown register opener k (pluginName # ps) s =
     (case plugin_open unknown register (opener pluginName) s of
        (Some err, s1) \<Rightarrow>
          (case load_loop unknown register opener (Suc k) ps s1 of
             (n, errs, s2) \<Rightarrow> (n, load_error k pluginName err # errs, s2))
      | (None, s1) \<Rightarrow>
          (case load_loop unknown register opener (Suc k) ps s1 of (n, errs, s2) \<Rightarrow> (Suc n, errs, s2)))"

text \<open>The loader's error joins the errors of the plugins that failed.\<close>

definition loaderError_Error :: "string list \<Rightarrow> string" where
  "loaderError_Error errs =
     ''plugin loader found '' @ show_nat (length errs) @ '' error(s): '' @ [CHR 0x0A] @ join_with [CHR 0x0A] errs"

definition plugin_load ::
  "string \<Rightarrow> ('reg \<Rightarrow> 's \<Rightarrow> 's) \<Rightarrow> (string \<Rightarrow> 'reg shared_object) \<Rightarrow> string list \<Rightarrow> 's \<Rightarrow> (nat \<times> gerror option) \<times> 's" where
  "plugin_load unknown register opener plugins s =
     (case load_loop unknown register opener 0 plugins s of
        (n, errs, s') \<Rightarrow> ((n, if errs \<noteq> [] then Some (EText (loaderError_Error errs)) else None), s'))"

text \<open>\<open>LoadWithLogger\<close>: scan, then load.\<close>

definition LoadWithLogger ::
  "string \<Rightarrow> ('reg \<Rightarrow> 's \<Rightarrow> 's) \<Rightarrow> (string \<Rightarrow> 'reg shared_object) \<Rightarrow> gerror + string list \<Rightarrow> 's \<Rightarrow> (nat \<times> gerror option) \<times> 's" where
  "LoadWithLogger unknown register opener scanned s =
     (case scanned of
        Inl err \<Rightarrow> ((0, Some err), s)
      | Inr plugins \<Rightarrow> plugin_load unknown register opener plugins s)"

subsection \<open>Modifiers\<close>

text \<open>A modifier gets and returns any value; the two wrappers carry the fields of a request and of a response.\<close>

datatype wrapper = RequestWrapper request | ResponseWrapper request response | OtherValue string

type_synonym modifier = "wrapper \<Rightarrow> (gerror + wrapper) run"
type_synonym ModifierFactory = "fields \<Rightarrow> modifier option"
type_synonym modifierRegister = "ModifierFactory dyn namespaced"

definition plugin_Namespace :: string where
  "plugin_Namespace = ''github.com/devopsfaith/krakend/proxy/plugin''"
definition requestNamespace :: string where
  "requestNamespace = ''github.com/devopsfaith/krakend/proxy/plugin/request''"
definition responseNamespace :: string where
  "responseNamespace = ''github.com/devopsfaith/krakend/proxy/plugin/response''"

definition getModifier :: "modifierRegister \<Rightarrow> string \<Rightarrow> string \<Rightarrow> ModifierFactory option" where
  "getModifier reg namespace name =
     (case Namespaced_Get reg namespace of
        None \<Rightarrow> None
      | Some r \<Rightarrow> (case Untyped_Get r name of None \<Rightarrow> None | Some m \<Rightarrow> dyn_assert m))"

definition GetRequestModifier :: "modifierRegister \<Rightarrow> string \<Rightarrow> ModifierFactory option" where
  "GetRequestModifier reg name = getModifier reg requestNamespace name"

definition GetResponseModifier :: "modifierRegister \<Rightarrow> string \<Rightarrow> ModifierFactory option" where
  "GetResponseModifier reg name = getModifier reg responseNamespace name"

definition RegisterModifier :: "string \<Rightarrow> ModifierFactory \<Rightarrow> bool \<Rightarrow> bool \<Rightarrow> modifierRegister \<Rightarrow> modifierRegister" where
  "RegisterModifier name factory appliesToRequest appliesToResponse reg =
     (let reg = (if appliesToRequest then Namespaced_Register reg requestNamespace name (Typed factory) else reg)
      in if appliesToResponse then Namespaced_Register reg responseNamespace name (Typed factory) else reg)"

text \<open>The loop over the configured names: request modifiers first, and a name found there is not looked up again.\<close>

fun collect_modifiers :: "modifierRegister \<Rightarrow> fields \<Rightarrow> json list \<Rightarrow> modifier list \<times> modifier list" where
  "collect_modifiers reg cfg [] = ([], [])"
| "collect_modifiers reg cfg (p # ps) =
     (case collect_modifiers reg cfg ps of
        (reqs, resps) \<Rightarrow>
          (case as_str p of
             None \<Rightarrow> (reqs, resps)
           | Some name \<Rightarrow>
               (case GetRequestModifier reg name of
                  Some mf \<Rightarrow> (case mf cfg of Some fn \<Rightarrow> (fn # reqs, resps) | None \<Rightarrow> (reqs, resps))
                | None \<Rightarrow>
                    (case GetResponseModifier reg name of
                       Some mf \<Rightarrow> (case mf cfg of Some fn \<Rightarrow> (reqs, fn # resps) | None \<Rightarrow> (reqs, resps))
                     | None \<Rightarrow> (reqs, resps)))))"

fun executeRequestModifiers :: "modifier list \<Rightarrow> request \<Rightarrow> (gerror + request) run" where
  "executeRequestModifiers [] tmp = Ret (Inr tmp)"
| "executeRequestModifiers (f # fs) tmp =
     (case f (RequestWrapper tmp) of
        Panic e \<Rightarrow> Panic e
      | Ret (Inl err) \<Rightarrow> Ret (Inl err)
      | Ret (Inr (RequestWrapper t)) \<Rightarrow> executeRequestModifiers fs t
      | Ret (Inr (ResponseWrapper q t)) \<Rightarrow> executeRequestModifiers fs tmp
      | Ret (Inr (OtherValue v)) \<Rightarrow> executeRequestModifiers fs tmp)"

fun response_modifiers :: "modifier list \<Rightarrow> request \<Rightarrow> response \<Rightarrow> (gerror + response) run" where
  "response_modifiers [] req tmp = Ret (Inr tmp)"
| "response_modifiers (f # fs) req tmp =
     (case f (ResponseWrapper req tmp) of
        Panic e \<Rightarrow> Panic e
      | Ret (Inl err) \<Rightarrow> Ret (Inl err)
      | Ret (Inr (ResponseWrapper q t)) \<Rightarrow> response_modifiers fs q t
      | Ret (Inr (RequestWrapper t)) \<Rightarrow> response_modifiers fs req tmp
      | Ret (Inr (OtherValue v)) \<Rightarrow> response_modifiers fs req tmp)"

text \<open>Wrapping a nil response dereferences it.\<close>

definition executeResponseModifiers :: "modifier list \<Rightarrow> response option \<Rightarrow> request \<Rightarrow> pres" where
  "executeResponseModifiers fs resp req =
     (case resp of
        None \<Rightarrow> PPanic ''invalid memory address or nil pointer dereference''
      | Some r \<Rightarrow>
          (case response_modifiers fs req r of
             Panic e \<Rightarrow> PPanic e
           | Ret (Inl err) \<Rightarrow> PRet None (Some err) req
           | Ret (Inr r') \<Rightarrow> PRet (Some r') None req))"

definition after_response :: "modifier list \<Rightarrow> pres \<Rightarrow> pres" where
  "after_response respModifiers p =
     (case p of
        PPanic e \<Rightarrow> PPanic e
      | PRet resp err r \<Rightarrow>
          (case err of
             Some e \<Rightarrow> PRet resp err r
           | None \<Rightarrow> executeResponseModifiers respModifiers resp r))"

definition before_request :: "modifier list \<Rightarrow> proxy \<Rightarrow> proxy" where
  "before_request reqModifiers next r =
     (case executeRequestModifiers reqModifiers r of
        Panic e \<Rightarrow> PPanic e
      | Ret (Inl err) \<Rightarrow> PRet None (Some err) r
      | Ret (Inr r') \<Rightarrow> next r')"

definition plugin_proxy :: "modifier list \<Rightarrow> modifier list \<Rightarrow> proxy \<Rightarrow> proxy" where
  "plugin_proxy reqModifiers respModifiers next =
     (if reqModifiers = [] then (\<lambda>r. after_response respModifiers (next r))
      else if respModifiers = [] then before_request reqModifiers next
      else before_request reqModifiers (\<lambda>r. after_response respModifiers (next r)))"

definition newPluginMiddleware :: "modifierRegister \<Rightarrow> fields \<Rightarrow> middleware" where
  "newPluginMiddleware reg cfg =
     (case get_as as_arr cfg ''name'' of
        None \<Rightarrow> emptyMiddlewareFallback
      | Some plugins \<Rightarrow>
          (case collect_modifiers reg cfg plugins of
             (reqModifiers, respModifiers) \<Rightarrow>
               (if reqModifiers = [] \<and> respModifiers = [] then emptyMiddlewareFallback
                else wrap_single ''newPluginMiddleware only accepts 1 proxy'' (plugin_proxy reqModifiers respModifiers))))"

definition NewPluginMiddleware :: "modifierRegister \<Rightarrow> EndpointConfig \<Rightarrow> middleware" where
  "NewPluginMiddleware reg endpoint =
     (case get_as as_obj (ep_ExtraConfig endpoint) plugin_Namespace of
        None \<Rightarrow> emptyMiddlewareFallback
      | Some cfg \<Rightarrow> newPluginMiddleware reg cfg)"

definition NewBackendPluginMiddleware :: "modifierRegister \<Rightarrow> Backend \<Rightarrow> middleware" where
  "NewBackendPluginMiddleware reg remote =
     (case get_as as_obj (be_ExtraConfig remote) plugin_Namespace of
        None \<Rightarrow> emptyMiddlewareFallback
      | Some cfg \<Rightarrow> newPluginMiddleware reg cfg)"

subsection \<open>Client and server handlers\<close>

type_synonym executor = "http_request \<Rightarrow> gerror + http_response"
type_synonym client_handler = "fields \<Rightarrow> gerror + (http_request \<Rightarrow> http_response)"

definition client_plugin_Namespace :: string where
  "client_plugin_Namespace = ''github.com/devopsfaith/krakend/transport/http/client/executor''"

definition RegisterClient :: "string \<Rightarrow> client_handler \<Rightarrow> client_handler dyn namespaced \<Rightarrow> client_handler dyn namespaced" where
  "RegisterClient name handler reg = Namespaced_Register reg client_plugin_Namespace name (Typed handler)"

definition HTTPRequestExecutorWithContext ::
  "client_handler dyn namespaced \<Rightarrow> (Backend \<Rightarrow> executor) \<Rightarrow> Backend \<Rightarrow> executor" where
  "HTTPRequestExecutorWithContext reg next cfg =
     (case get_as as_obj (be_ExtraConfig cfg) client_plugin_Namespace of
        None \<Rightarrow> next cfg
      | Some extra \<Rightarrow>
          (case Namespaced_Get reg client_plugin_Namespace of
             None \<Rightarrow> next cfg
           | Some r \<Rightarrow>
               (case get_as as_str extra ''name'' of
                  None \<Rightarrow> next cfg
                | Some name \<Rightarrow>
                    (case Option.bind (Untyped_Get r name) dyn_assert of
                       None \<Rightarrow> next cfg
                     | Some hf \<Rightarrow>
                         (case hf extra of
                            Inl err \<Rightarrow> next cfg
                          | Inr handler \<Rightarrow> (\<lambda>req. Inr (handler req)))))))"

type_synonym 'h server_handler = "fields \<Rightarrow> 'h \<Rightarrow> gerror + 'h"

definition server_plugin_Namespace :: string where
  "server_plugin_Namespace = ''github_com/devopsfaith/krakend/transport/http/server/handler''"

definition RegisterHandler :: "string \<Rightarrow> 'h server_handler \<Rightarrow> 'h server_handler dyn namespaced \<Rightarrow> 'h server_handler dyn namespaced" where
  "RegisterHandler name handler reg = Namespaced_Register reg server_plugin_Namespace name (Typed handler)"

fun inject_handlers :: "'h server_handler dyn untyped \<Rightarrow> fields \<Rightarrow> string list \<Rightarrow> 'h \<Rightarrow> 'h" where
  "inject_handlers r extra [] handler = handler"
| "inject_handlers r extra (name # fifo) handler =
     (case Option.bind (Untyped_Get r name) dyn_assert of
        None \<Rightarrow> inject_handlers r extra fifo handler
      | Some hf \<Rightarrow>
          (case hf extra handler of
             Inl err \<Rightarrow> inject_handlers r extra fifo handler
           | Inr handlerWrapper \<Rightarrow> inject_handlers r extra fifo handlerWrapper))"

definition plugin_fifo :: "fields \<Rightarrow> string list option" where
  "plugin_fifo extra =
     (case get_as as_arr extra ''name'' of
        Some fifoRaw \<Rightarrow> Some (List.map_filter as_str fifoRaw)
      | None \<Rightarrow> map_option (\<lambda>name. [name]) (get_as as_str extra ''name''))"

text \<open>\<open>New\<close> of the server package: the handler the next stage is run with.\<close>

definition server_New :: "'h server_handler dyn namespaced \<Rightarrow> (ServiceConfig \<Rightarrow> 'h \<Rightarrow> 'r) \<Rightarrow> ServiceConfig \<Rightarrow> 'h \<Rightarrow> 'r" where
  "server_New reg next cfg handler =
     (case get_as as_obj (sc_ExtraConfig cfg) server_plugin_Namespace of
        None \<Rightarrow> next cfg handler
      | Some extra \<Rightarrow>
          (case Namespaced_Get reg server_plugin_Namespace of
             None \<Rightarrow> next cfg handler
           | Some r \<Rightarrow>
               (case plugin_fifo extra of
                  None \<Rightarrow> next cfg handler
                | Some fifo \<Rightarrow> next cfg (inject_handlers r extra fifo handler))))"
subsection \<open>Loading\<close>

fun components :: "'reg shared_object \<Rightarrow> 'reg list" where
  "components (Registers rs) = rs"
| "components (RegistersAndPanics rs e) = rs"
| "components _ = []"

fun loads :: "'reg shared_object \<Rightarrow> bool" where
  "loads (Registers rs) = True"
| "loads _ = False"

lemma plugin_open_spec:
  "snd (plugin_open unknown register so s) = fold register (components so) s \<and>
   (fst (plugin_open unknown register so s) = None \<longleftrightarrow> loads so)"
  by (cases so) auto

lemma load_loop_spec:
  "load_loop unknown register opener k ps s = (n, errs, s') \<Longrightarrow>
   n = length (filter (\<lambda>p. loads (opener p)) ps) \<and> n + length errs = length ps \<and>
   s' = fold register (concat (map (\<lambda>p. components (opener p)) ps)) s"
proof (induction ps arbitrary: k s n errs s')
  case (Cons p ps)
  obtain err s1 where o1: "plugin_open unknown register (opener p) s = (err, s1)" by fastforce
  obtain n2 errs2 s2 where rest: "load_loop unknown register opener (Suc k) ps s1 = (n2, errs2, s2)"
    using prod_cases3 by blast
  have spec: "s1 = fold register (components (opener p)) s" "err = None \<longleftrightarrow> loads (opener p)"
    using plugin_open_spec [of unknown register "opener p" s] o1 by simp_all
  show ?case
    using Cons.IH [OF rest] Cons.prems o1 rest spec by (cases err) auto
qed simp

text \<open>
  loading: every plugin of the folder is tried whatever happens to the others, the components each of them registers
  before it fails stay registered, in order, the count is the number of plugins that loaded, and there is an error exactly when one
  did not.
\<close>

theorem plugin_load_all:
  "\<exists>n err. plugin_load unknown register opener plugins s =
     ((n, err), fold register (concat (map (\<lambda>p. components (opener p)) plugins)) s) \<and>
   n = length (filter (\<lambda>p. loads (opener p)) plugins) \<and>
   (err = None) = (n = length plugins)"
proof -
  obtain n errs s' where run: "load_loop unknown register opener 0 plugins s = (n, errs, s')"
    using prod_cases3 by blast
  show ?thesis using load_loop_spec [OF run] run by (auto simp: plugin_load_def)
qed

subsection \<open>Modifiers\<close>

lemma getModifier_lookup: "getModifier reg ns name = Option.bind (lookup_in reg (ns, name)) dyn_assert"
  by (auto simp: getModifier_def lookup_in_def split: option.split)

lemma namespaces_differ [simp]: "requestNamespace \<noteq> responseNamespace" "responseNamespace \<noteq> requestNamespace"
  by (simp_all add: requestNamespace_def responseNamespace_def)

lemma Namespaced_Register_store: "Namespaced_Register reg ns name v = store_in reg (ns, name) v"
  by (simp add: store_in_def)

text \<open>
  a modifier is found under its name for each side it was registered for, and no other name or side is
  affected.
\<close>

theorem register_modifier_lookup:
  "GetRequestModifier (RegisterModifier name mf forReq forResp reg) name' =
     (if forReq \<and> name' = name then Some mf else GetRequestModifier reg name') \<and>
   GetResponseModifier (RegisterModifier name mf forReq forResp reg) name' =
     (if forResp \<and> name' = name then Some mf else GetResponseModifier reg name')"
  by (simp add: GetRequestModifier_def GetResponseModifier_def RegisterModifier_def getModifier_lookup
      Namespaced_Register_store namespaced_reg.lookup_store Let_def)

lemma request_modifier_registered: "GetRequestModifier (RegisterModifier name mf True forResp reg) name = Some mf"
  by (simp add: GetRequestModifier_def RegisterModifier_def getModifier_lookup
      Namespaced_Register_store namespaced_reg.lookup_store Let_def)

text \<open>
  a modifier registered for requests and responses under one name never sees a response: the middleware takes it as a
  request modifier only.
\<close>

theorem dual_modifier_request_only:
  "snd (collect_modifiers (RegisterModifier name mf True True reg) cfg (replicate k (JStr name))) = []"
proof (induction k)
  case (Suc k)
  obtain reqs where "collect_modifiers (RegisterModifier name mf True True reg) cfg (replicate k (JStr name)) = (reqs, [])"
    using Suc by (cases "collect_modifiers (RegisterModifier name mf True True reg) cfg (replicate k (JStr name))") simp
  then show ?case by (simp add: request_modifier_registered split: option.split)
qed simp

text \<open>Modifiers that always answer with a wrapper of their side.\<close>

definition on_request :: "(request \<Rightarrow> request) \<Rightarrow> modifier" where
  "on_request g w = (case w of RequestWrapper r \<Rightarrow> Ret (Inr (RequestWrapper (g r))) | _ \<Rightarrow> Ret (Inr w))"

definition on_response :: "(response \<Rightarrow> response) \<Rightarrow> modifier" where
  "on_response g w = (case w of ResponseWrapper q r \<Rightarrow> Ret (Inr (ResponseWrapper q (g r))) | _ \<Rightarrow> Ret (Inr w))"

lemma executeRequestModifiers_append:
  "executeRequestModifiers (map on_request gs @ fs) r = executeRequestModifiers fs (fold (\<lambda>g. g) gs r)"
  by (induction gs arbitrary: r) (simp_all add: on_request_def)

lemma executeRequestModifiers_map: "executeRequestModifiers (map on_request gs) r = Ret (Inr (fold (\<lambda>g. g) gs r))"
  using executeRequestModifiers_append [of gs "[]" r] by simp

lemma response_modifiers_map: "response_modifiers (map on_response hs) q r = Ret (Inr (fold (\<lambda>h. h) hs r))"
  by (induction hs arbitrary: r) (simp_all add: on_response_def)

lemma plugin_proxy_maps:
  assumes "nxt (fold (\<lambda>g. g) gs r) = PRet (Some x) None r'" and "gs \<noteq> [] \<or> hs \<noteq> []"
  shows "plugin_proxy (map on_request gs) (map on_response hs) nxt r = PRet (Some (fold (\<lambda>h. h) hs x)) None r'"
  using assms executeRequestModifiers_map [of gs r] response_modifiers_map [of hs r' x]
  by (cases "gs = []"; cases "hs = []")
    (simp_all add: plugin_proxy_def before_request_def after_response_def executeResponseModifiers_def)

text \<open>
  What an entry of the configured list does: a name registered for requests whose factory builds a modifier changes the
  request, one registered for responses only changes the response, anything else does nothing.
\<close>

datatype change = ChangesRequest "request \<Rightarrow> request" | ChangesResponse "response \<Rightarrow> response" | ChangesNothing

fun does :: "modifierRegister \<Rightarrow> fields \<Rightarrow> json \<Rightarrow> change \<Rightarrow> bool" where
  "does reg cfg p (ChangesRequest g) \<longleftrightarrow>
     (\<exists>name mf. p = JStr name \<and> GetRequestModifier reg name = Some mf \<and> mf cfg = Some (on_request g))"
| "does reg cfg p (ChangesResponse h) \<longleftrightarrow>
     (\<exists>name mf. p = JStr name \<and> GetRequestModifier reg name = None \<and> GetResponseModifier reg name = Some mf \<and>
        mf cfg = Some (on_response h))"
| "does reg cfg p ChangesNothing \<longleftrightarrow>
     (\<forall>name. p = JStr name \<longrightarrow>
        (case GetRequestModifier reg name of
           Some mf \<Rightarrow> mf cfg = None
         | None \<Rightarrow> (case GetResponseModifier reg name of None \<Rightarrow> True | Some mf \<Rightarrow> mf cfg = None)))"

fun change_request :: "change \<Rightarrow> request \<Rightarrow> request" where
  "change_request (ChangesRequest g) r = g r"
| "change_request c r = r"

fun change_response :: "change \<Rightarrow> response \<Rightarrow> response" where
  "change_response (ChangesResponse h) x = h x"
| "change_response c x = x"

text \<open>The modifiers collected are those of the entries, in the order of the list.\<close>

fun request_change :: "change \<Rightarrow> (request \<Rightarrow> request) option" where
  "request_change (ChangesRequest g) = Some g"
| "request_change c = None"

fun response_change :: "change \<Rightarrow> (response \<Rightarrow> response) option" where
  "response_change (ChangesResponse h) = Some h"
| "response_change c = None"

lemma collect_step:
  assumes "does reg cfg p c" and "collect_modifiers reg cfg ps = (reqs, resps)"
  shows "collect_modifiers reg cfg (p # ps) =
    (map on_request (List.map_filter request_change [c]) @ reqs, map on_response (List.map_filter response_change [c]) @ resps)"
proof (cases c)
  case ChangesNothing
  show ?thesis
  proof (cases "as_str p")
    case (Some name)
    then have "p = JStr name" by (cases p) simp_all
    then show ?thesis using assms ChangesNothing by (auto simp: map_filter_simps split: option.splits)
  qed (simp add: assms(2) ChangesNothing map_filter_simps)
qed (use assms in \<open>auto simp: map_filter_simps\<close>)

lemma collect_changes:
  "list_all2 (does reg cfg) plugins cs \<Longrightarrow>
   collect_modifiers reg cfg plugins =
     (map on_request (List.map_filter request_change cs), map on_response (List.map_filter response_change cs))"
proof (induction rule: list_all2_induct)
  case (Cons p ps c cs)
  from collect_step [OF Cons(1,3)] show ?case
    by (cases "request_change c"; cases "response_change c") (simp_all add: map_filter_simps del: collect_modifiers.simps)
qed (simp add: map_filter_simps)

lemma fold_request_changes: "fold (\<lambda>g. g) (List.map_filter request_change cs) r = fold change_request cs r"
  by (induction cs arbitrary: r) (auto simp: map_filter_simps split: option.splits elim: request_change.elims change_request.elims)

lemma fold_response_changes: "fold (\<lambda>h. h) (List.map_filter response_change cs) x = fold change_response cs x"
  by (induction cs arbitrary: x) (auto simp: map_filter_simps split: option.splits elim: response_change.elims change_response.elims)

text \<open>
  C38: modifiers run in the configured order: with a list of names of which each changes requests, responses or nothing, the
  middleware is built, the next proxy is called with the request that all the request modifiers have changed, in the order of
  the list, and its response is changed by all the response modifiers, in the order of the list, on the way back.
\<close>

theorem modifiers_in_order:
  assumes "get_as as_arr cfg ''name'' = Some plugins" and "list_all2 (does reg cfg) plugins cs"
    and "nxt (fold change_request cs r) = PRet (Some x) None r'"
  shows "\<exists>p. newPluginMiddleware reg cfg [nxt] = Built p \<and> p r = PRet (Some (fold change_response cs x)) None r'"
proof -
  let ?gs = "List.map_filter request_change cs" and ?hs = "List.map_filter response_change cs"
  note collected = collect_changes [OF assms(2)]
  show ?thesis
  proof (cases "?gs = [] \<and> ?hs = []")
    case True
    then have "fold change_request cs r = r" "fold change_response cs x = x"
      using fold_request_changes [of cs r] fold_response_changes [of cs x] by simp_all
    then show ?thesis using assms(1,3) collected True by (simp add: newPluginMiddleware_def emptyMiddlewareFallback_def
        EmptyMiddlewareWithLogger_def)
  next
    case False
    have "nxt (fold (\<lambda>g. g) ?gs r) = PRet (Some x) None r'" using assms(3) by (simp add: fold_request_changes)
    from plugin_proxy_maps [where gs = ?gs and hs = ?hs and nxt = nxt and r = r, OF this] False show ?thesis
      using assms(1) collected by (auto simp: newPluginMiddleware_def wrap_single_def fold_response_changes)
  qed
qed

definition path_changes :: modifierRegister where
  "path_changes =
     RegisterModifier ''set'' (\<lambda>_. Some (on_request (\<lambda>r. r\<lparr>rPath := ''/a''\<rparr>))) True False
       (RegisterModifier ''add'' (\<lambda>_. Some (on_request (\<lambda>r. r\<lparr>rPath := rPath r @ ''b''\<rparr>))) True False
         (RegisterModifier ''done'' (\<lambda>_. Some (on_response (\<lambda>x. x\<lparr>IsComplete := True\<rparr>))) False True Namespaced_New))"

lemma modifiers_in_order_witness:
  "\<exists>p. newPluginMiddleware path_changes [(''name'', JArr [JStr ''set'', JStr ''done'', JNull, JStr ''add''])]
      [\<lambda>r. PRet (Some (new_response (Some [(''path'', JStr (rPath r))]) False)) None r] = Built p \<and>
    p sample_call = PRet (Some (new_response (Some [(''path'', JStr ''/ab'')]) True)) None (sample_call\<lparr>rPath := ''/ab''\<rparr>)"
proof -
  let ?cs = "[ChangesRequest (\<lambda>r. r\<lparr>rPath := ''/a''\<rparr>), ChangesResponse (\<lambda>x. x\<lparr>IsComplete := True\<rparr>), ChangesNothing,
    ChangesRequest (\<lambda>r. r\<lparr>rPath := rPath r @ ''b''\<rparr>)]"
  let ?next = "\<lambda>r. PRet (Some (new_response (Some [(''path'', JStr (rPath r))]) False)) None r"
  have names: "get_as as_arr [(''name'', JArr [JStr ''set'', JStr ''done'', JNull, JStr ''add''])] ''name'' =
      Some [JStr ''set'', JStr ''done'', JNull, JStr ''add'']" by (simp add: get_as_def)
  have none: "GetRequestModifier Namespaced_New n = None" for n by (simp add: GetRequestModifier_def getModifier_def register_defs)
  have each: "list_all2 (does path_changes [(''name'', JArr [JStr ''set'', JStr ''done'', JNull, JStr ''add''])])
      [JStr ''set'', JStr ''done'', JNull, JStr ''add''] ?cs"
    by (auto simp: path_changes_def register_modifier_lookup none)
  have "?next (fold change_request ?cs sample_call) =
      PRet (Some (new_response (Some [(''path'', JStr ''/ab'')]) False)) None (sample_call\<lparr>rPath := ''/ab''\<rparr>)"
    by (simp add: sample_call_def)
  from modifiers_in_order [OF names each, where nxt = ?next, OF this] show ?thesis by (simp add: new_response_def)
qed

text \<open>
  a request modifier that fails stops the request: neither the modifiers behind it nor the next proxy run, and
  its error is the answer.
\<close>

theorem modifier_error_stops:
  assumes "f (RequestWrapper (fold (\<lambda>g. g) gs r)) = Ret (Inl err)"
  shows "plugin_proxy (map on_request gs @ f # fs) resps next r = PRet None (Some err) r"
proof -
  have "executeRequestModifiers (map on_request gs @ f # fs) r = Ret (Inl err)"
    using assms by (simp add: executeRequestModifiers_append)
  then show ?thesis by (simp add: plugin_proxy_def before_request_def)
qed

lemma modifier_error_stops_witness:
  "plugin_proxy (map on_request [\<lambda>r. r\<lparr>rPath := ''/a''\<rparr>] @ (\<lambda>w. Ret (Inl EInternal)) # []) [] NoopProxy sample_call =
   PRet None (Some EInternal) sample_call"
  by (rule modifier_error_stops) simp

subsection \<open>Server handlers\<close>

text \<open>The wrappers of the names that are registered with the right type and build their handler.\<close>

definition wrapper_of :: "'h server_handler dyn untyped \<Rightarrow> fields \<Rightarrow> string \<Rightarrow> 'h \<Rightarrow> 'h" where
  "wrapper_of r extra name h =
     (case Option.bind (Untyped_Get r name) dyn_assert of
        None \<Rightarrow> h
      | Some hf \<Rightarrow> (case hf extra h of Inl err \<Rightarrow> h | Inr h' \<Rightarrow> h'))"

lemma inject_handlers_fold: "inject_handlers r extra fifo handler = fold (wrapper_of r extra) fifo handler"
  by (induction r extra fifo handler rule: inject_handlers.induct)
    (auto simp: wrapper_of_def split: option.splits sum.splits)

text \<open>
  the server runs with the router wrapped by every usable plugin in the order of the list, so the last one
  listed sees a request first; names that are unknown, of another type or fail are skipped.
\<close>

theorem server_handler_order:
  assumes "get_as as_obj (sc_ExtraConfig cfg) server_plugin_Namespace = Some extra"
    and "Namespaced_Get reg server_plugin_Namespace = Some r" and "plugin_fifo extra = Some (fifo @ [l])"
  shows "server_New reg next cfg handler = next cfg (wrapper_of r extra l (fold (wrapper_of r extra) fifo handler))"
  using assms by (simp add: server_New_def inject_handlers_fold)

lemma server_handler_order_witness:
  "server_New (RegisterHandler ''p'' (\<lambda>_ h. Inr (''p('' @ h @ '')'')) Namespaced_New) (\<lambda>_ h. h)
     (zero_service\<lparr>sc_ExtraConfig := [(server_plugin_Namespace, JObj [(''name'', JArr [JStr ''none'', JStr ''p''])])]\<rparr>) ''router'' =
   ''p(router)''"
proof -
  let ?r = "[(''p'', Typed (\<lambda>_ h. Inr (''p('' @ h @ '')'')))] :: string server_handler dyn untyped"
  have reg: "Namespaced_Get (RegisterHandler ''p'' (\<lambda>_ h. Inr (''p('' @ h @ '')'')) Namespaced_New) server_plugin_Namespace = Some ?r"
    by (simp add: RegisterHandler_def register_defs)
  have fifo: "plugin_fifo [(''name'', JArr [JStr ''none'', JStr ''p''])] = Some ([''none''] @ [''p''])"
    by (simp add: plugin_fifo_def get_as_def map_filter_simps)
  from server_handler_order [OF _ reg fifo, of
      "zero_service\<lparr>sc_ExtraConfig := [(server_plugin_Namespace, JObj [(''name'', JArr [JStr ''none'', JStr ''p''])])]\<rparr>" "\<lambda>_ h. h" "''router''"]
  show ?thesis by (simp add: get_as_def wrapper_of_def Untyped_Get_def)
qed


end
