(* ===== verification/Dns_Srv.thy ===== *)
theory Dns_Srv
  imports Balancer
begin

section \<open>The DNS SRV subscriber (\<open>sd/dnssrv/subscriber.go\<close>)\<close>

text \<open>
  The records, the order they are sorted by, the weights' normalisation and reduction on 16-bit
  words, and the cached host set.  \<open>net.LookupSRV\<close> and \<open>rand.Perm\<close> are arguments; the loop that
  refreshes the cache is a series of calls of \<open>update\<close>.
\<close>

subsection \<open>Records and their order\<close>

datatype srv = SRV (Target: string) (Port: "16 word") (Priority: "16 word") (Weight: "16 word")

text \<open>The comparison the code sorts with.\<close>

definition srv_less :: "srv \<Rightarrow> srv \<Rightarrow> bool" where
  "srv_less a b =
     (if Priority a = Priority b then
        (if Weight a = Weight b then
           (if Target a = Target b then Port a < Port b else Target a < Target b)
         else Weight a > Weight b)
      else Priority a < Priority b)"

text \<open>It is the strict part of a linear order, so any sorting algorithm gives the same list.\<close>

instantiation srv :: linorder
begin

definition less_srv :: "srv \<Rightarrow> srv \<Rightarrow> bool" where
  "less_srv a b \<longleftrightarrow> srv_less a b"

definition less_eq_srv :: "srv \<Rightarrow> srv \<Rightarrow> bool" where
  "less_eq_srv a b \<longleftrightarrow> a = b \<or> srv_less a b"

instance
proof
  fix x y z :: srv
  show "(x < y) = (x \<le> y \<and> \<not> y \<le> x)"
    by (cases x; cases y) (auto simp: less_srv_def less_eq_srv_def srv_less_def split: if_splits)
  show "x \<le> x" by (simp add: less_eq_srv_def)
  show "x \<le> z" if "x \<le> y" "y \<le> z"
    using that by (cases x; cases y; cases z) (auto simp: less_eq_srv_def srv_less_def split: if_splits)
  show "x = y" if "x \<le> y" "y \<le> x"
    using that by (cases x; cases y) (auto simp: less_eq_srv_def srv_less_def split: if_splits)
  show "x \<le> y \<or> y \<le> x"
    by (cases x; cases y) (auto simp: less_eq_srv_def srv_less_def)
qed

end

subsection \<open>Weights\<close>

function localGCD :: "16 word \<Rightarrow> 16 word \<Rightarrow> 16 word" where
  "localGCD a b = (if b > 0 then localGCD b (a mod b) else a)"
  by pat_completeness auto
termination
  by (relation "measure (\<lambda>(a, b). unat b)") (auto simp: word_less_nat_alt unat_mod_distrib)

declare localGCD.simps [simp del]

definition gcd_weights :: "16 word list \<Rightarrow> 16 word" where
  "gcd_weights ws = (case ws of [] \<Rightarrow> 0 | w # ws \<Rightarrow> foldl localGCD w ws)"

definition normalize_ws :: "16 word list \<Rightarrow> 16 word list" where
  "normalize_ws ws =
     (let scale = (if length ws > 100 then length ws else 100); sm = sum_list (map unat ws)
      in if sm \<le> scale then ws else map (\<lambda>w. of_nat (unat w * scale div sm)) ws)"

definition compact :: "16 word list \<Rightarrow> 16 word list" where
  "compact ws =
     (let tmp = normalize_ws ws; d = gcd_weights tmp
      in if d < 2 then tmp else map (\<lambda>w. w div d) tmp)"

subsection \<open>The subscriber\<close>

type_synonym lookup = "string \<Rightarrow> gerror + srv list"

record dns_subscriber =
  dns_name :: string
  dns_cache :: "string list"
  dns_ttl :: int
  dns_lookup :: lookup
  dns_scheme :: string

text \<open>\<open>net.JoinHostPort\<close>.\<close>

definition JoinHostPort :: "string \<Rightarrow> string \<Rightarrow> string" where
  "JoinHostPort h p = (if CHR '':'' \<in> set h then ''['' @ h @ '']:'' @ p else h @ '':'' @ p)"

definition srv_host :: "string \<Rightarrow> srv \<Rightarrow> string" where
  "srv_host scheme a = scheme @ ''://'' @ JoinHostPort (Target a) (show_nat (unat (Port a)))"

definition weighted :: "string list \<Rightarrow> 16 word list \<Rightarrow> string list" where
  "weighted hosts ws = concat (map (\<lambda>(h, times). replicate (unat times) h) (zip hosts ws))"

definition top_priority :: "srv list \<Rightarrow> srv list" where
  "top_priority srvs = takeWhile (\<lambda>a. \<not> Priority a > Priority (hd srvs)) srvs"

definition resolve :: "dns_subscriber \<Rightarrow> gerror + string list" where
  "resolve s =
     (case dns_lookup s (dns_name s) of
        Inl err \<Rightarrow> Inl err
      | Inr srvs \<Rightarrow>
          (let top = top_priority (sort srvs)
           in Inr (weighted (map (srv_host (dns_scheme s)) top) (compact (map Weight top)))))"

definition update :: "(nat \<Rightarrow> nat list) \<Rightarrow> dns_subscriber \<Rightarrow> dns_subscriber" where
  "update perm s =
     (case resolve s of
        Inl err \<Rightarrow> s
      | Inr instances \<Rightarrow>
          s\<lparr>dns_cache := (if length instances > 100 then NewRandomFixedSubscriber perm instances else instances)\<rparr>)"

definition dns_Hosts :: "dns_subscriber \<Rightarrow> gerror + string list" where
  "dns_Hosts s = Inr (dns_cache s)"

definition NewDetailedWithScheme ::
  "(nat \<Rightarrow> nat list) \<Rightarrow> string \<Rightarrow> lookup \<Rightarrow> int \<Rightarrow> string \<Rightarrow> dns_subscriber" where
  "NewDetailedWithScheme perm name lookup ttl scheme =
     update perm \<lparr>dns_name = name, dns_cache = [], dns_ttl = ttl, dns_lookup = lookup,
       dns_scheme = (if scheme = [] then ''http'' else scheme)\<rparr>"

definition NewDetailed :: "(nat \<Rightarrow> nat list) \<Rightarrow> string \<Rightarrow> lookup \<Rightarrow> int \<Rightarrow> dns_subscriber" where
  "NewDetailed perm name lookup ttl = NewDetailedWithScheme perm name lookup ttl ''http''"

definition dns_New :: "(nat \<Rightarrow> nat list) \<Rightarrow> lookup \<Rightarrow> int \<Rightarrow> string \<Rightarrow> dns_subscriber" where
  "dns_New perm DefaultLookup ttl name = NewDetailed perm name DefaultLookup ttl"

text \<open>\<open>cfg.Host[0]\<close> panics without hosts.\<close>

definition dns_SubscriberFactory :: "(nat \<Rightarrow> nat list) \<Rightarrow> lookup \<Rightarrow> int \<Rightarrow> Backend \<Rightarrow> dns_subscriber run" where
  "dns_SubscriberFactory perm DefaultLookup ttl cfg =
     (case be_Host cfg of
        [] \<Rightarrow> Panic ''index out of range''
      | h # _ \<Rightarrow> Ret (NewDetailedWithScheme perm h DefaultLookup ttl (be_SDScheme cfg)))"

definition dns_DefaultTTL :: int where "dns_DefaultTTL = 30 * cfg_Second"
definition dns_MinTTL :: int where "dns_MinTTL = cfg_Second"
definition dns_Namespace :: string where "dns_Namespace = ''dns''"

definition SetTTL :: "int \<Rightarrow> int \<Rightarrow> int" where
  "SetTTL d TTL = (if d < dns_MinTTL then TTL else d)"

text \<open>The refresh loop, after a number of ticks with the lookups of each tick.\<close>

fun refresh :: "(nat \<Rightarrow> nat list) \<Rightarrow> lookup list \<Rightarrow> dns_subscriber \<Rightarrow> dns_subscriber" where
  "refresh perm [] s = s"
| "refresh perm (l # ls) s = refresh perm ls (update perm (s\<lparr>dns_lookup := l\<rparr>))"

subsection \<open>Weights: exactness and bounds\<close>

lemma unat_localGCD: "unat (localGCD a b) = gcd (unat a) (unat b)"
proof (induction a b rule: localGCD.induct)
  case (1 a b)
  show ?case
  proof (cases "b > 0")
    case True
    then have "unat (localGCD a b) = gcd (unat b) (unat a mod unat b)"
      using 1 by (simp add: localGCD.simps [of a b] unat_mod_distrib)
    then show ?thesis by (simp add: gcd_red_nat [symmetric] gcd.commute)
  next
    case False
    then show ?thesis by (subst localGCD.simps) (simp add: word_gt_0)
  qed
qed

lemma unat_gcd_weights: "unat (gcd_weights ws) = Gcd (unat ` set ws)"
proof (cases ws)
  case (Cons w ws')
  have "unat (foldl localGCD w ws') = gcd (unat w) (Gcd (unat ` set ws'))" for w
    by (induction ws' arbitrary: w) (simp_all add: unat_localGCD gcd.assoc)
  then show ?thesis by (simp add: Cons gcd_weights_def)
qed (simp add: gcd_weights_def)

definition scale_of :: "16 word list \<Rightarrow> nat" where
  "scale_of ws = max 100 (length ws)"

lemma normalize_alt: "normalize_ws ws =
  (if sum_list (map unat ws) \<le> scale_of ws then ws
   else map (\<lambda>w. of_nat (unat w * scale_of ws div sum_list (map unat ws))) ws)"
  by (simp add: normalize_ws_def scale_of_def max_def Let_def)

lemma unat_normalize:
  assumes "scale_of ws < sum_list (map unat ws)"
  shows "map unat (normalize_ws ws) = map (\<lambda>w. unat w * scale_of ws div sum_list (map unat ws)) ws"
proof -
  have le: "unat w * scale_of ws div sum_list (map unat ws) \<le> unat w" for w :: "16 word"
  proof -
    have "unat w * scale_of ws \<le> unat w * sum_list (map unat ws)" using assms by (intro mult_le_mono) simp_all
    then show ?thesis using assms
      by (metis div_le_mono div_mult_self_is_m gr_zeroI less_nat_zero_code)
  qed
  have "unat (of_nat (unat w * scale_of ws div sum_list (map unat ws)) :: 16 word) =
      unat w * scale_of ws div sum_list (map unat ws)" for w :: "16 word"
  proof -
    have "unat w * scale_of ws div sum_list (map unat ws) < 2 ^ LENGTH(16)"
      using le [of w] unsigned_less by (rule le_less_trans)
    then show ?thesis by (simp add: unat_of_nat take_bit_nat_eq_self)
  qed
  then show ?thesis using assms by (simp add: normalize_alt)
qed

lemma sum_div_le: "(\<Sum>x\<leftarrow>xs. f x * c div s) * s \<le> c * (\<Sum>x\<leftarrow>xs. f x)" for s :: nat
proof (induction xs)
  case (Cons x xs)
  have "(\<Sum>x\<leftarrow>x # xs. f x * c div s) * s = f x * c div s * s + (\<Sum>x\<leftarrow>xs. f x * c div s) * s"
    by (simp add: distrib_right)
  also have "\<dots> \<le> f x * c + c * (\<Sum>x\<leftarrow>xs. f x)" using Cons by (intro add_mono) simp_all
  finally show ?case by (simp add: algebra_simps)
qed simp

lemma normalize_bound: "sum_list (map unat (normalize_ws ws)) \<le> scale_of ws"
proof (cases "sum_list (map unat ws) \<le> scale_of ws")
  case False
  let ?s = "sum_list (map unat ws)"
  have "sum_list (map unat (normalize_ws ws)) * ?s \<le> scale_of ws * ?s"
    using False sum_div_le [of unat "scale_of ws" ?s ws] by (simp add: unat_normalize)
  then show ?thesis using False by simp
qed (simp add: normalize_alt)

lemma compact_exact:
  "map (\<lambda>w. unat w * max 1 (Gcd (unat ` set (normalize_ws ws)))) (compact ws) = map unat (normalize_ws ws)"
proof (cases "gcd_weights (normalize_ws ws) < 2")
  case True
  then have "Gcd (unat ` set (normalize_ws ws)) < 2"
    by (simp add: unat_gcd_weights [symmetric] word_less_nat_alt)
  then have "max 1 (Gcd (unat ` set (normalize_ws ws))) = 1" by simp
  then show ?thesis using True by (simp add: compact_def Let_def)
next
  case False
  then have g: "\<not> Gcd (unat ` set (normalize_ws ws)) < 2"
    by (simp add: unat_gcd_weights [symmetric] word_less_nat_alt)
  have "unat w div Gcd (unat ` set (normalize_ws ws)) * Gcd (unat ` set (normalize_ws ws)) = unat w"
    if "w \<in> set (normalize_ws ws)" for w
    using that by (intro dvd_div_mult_self Gcd_dvd) simp
  then show ?thesis using False g
    by (simp add: compact_def Let_def unat_div_distrib unat_gcd_weights max_def)
qed

lemma compact_length: "length (compact ws) = length ws"
  by (simp add: compact_def normalize_ws_def Let_def)

lemma compact_sum: "sum_list (map unat (compact ws)) \<le> sum_list (map unat (normalize_ws ws))"
proof -
  have "sum_list (map unat (compact ws)) \<le>
      sum_list (map (\<lambda>w. unat w * max 1 (Gcd (unat ` set (normalize_ws ws)))) (compact ws))"
    by (intro sum_list_mono) simp
  then show ?thesis by (simp only: compact_exact)
qed

lemma length_weighted: "length hosts = length ws \<Longrightarrow> length (weighted hosts ws) = sum_list (map unat ws)"
proof (induction hosts ws rule: list_induct2)
  case Nil
  then show ?case by (simp add: weighted_def)
next
  case (Cons h hs w ws)
  then show ?case by (simp add: weighted_def)
qed

lemma length_resolve:
  assumes "resolve s = Inr instances" and "dns_lookup s (dns_name s) = Inr srvs"
  shows "length instances \<le> max 100 (length srvs)"
proof -
  let ?top = "top_priority (sort srvs)"
  have "length instances = sum_list (map unat (compact (map Weight ?top)))"
    using assms by (auto simp: resolve_def Let_def length_weighted compact_length)
  also have "\<dots> \<le> scale_of (map Weight ?top)"
    using compact_sum normalize_bound by (rule order_trans)
  also have "length ?top \<le> length srvs"
    using length_takeWhile_le [of _ "sort srvs"] by (simp add: top_priority_def)
  then have "scale_of (map Weight ?top) \<le> max 100 (length srvs)" by (auto simp: scale_of_def)
  finally show ?thesis .
qed

text \<open>
  C32: however large the advertised weights are, a resolution never leaves more instances than the larger of
  100 and the number of records.
\<close>

theorem resolve_bounded:
  assumes "dns_lookup s (dns_name s) = Inr srvs"
  shows "\<exists>instances. resolve s = Inr instances \<and> length instances \<le> max 100 (length srvs)"
proof -
  obtain instances where "resolve s = Inr instances" using assms by (simp add: resolve_def Let_def)
  with length_resolve [OF this assms] show ?thesis by blast
qed

definition sample_srvs :: "srv list" where
  "sample_srvs = [SRV ''b'' 80 1 2, SRV ''c'' 81 2 1, SRV ''a'' 80 1 4]"

definition sample_subscriber :: dns_subscriber where
  "sample_subscriber = \<lparr>dns_name = ''svc'', dns_cache = [], dns_ttl = 0, dns_lookup = (\<lambda>_. Inr sample_srvs),
     dns_scheme = ''http''\<rparr>"

lemma resolve_bounded_witness: "\<exists>instances. resolve sample_subscriber = Inr instances \<and> length instances \<le> 100"
  using resolve_bounded [of sample_subscriber sample_srvs] by (simp add: sample_subscriber_def sample_srvs_def)

text \<open>The records of the best priority are the ones the instances come from.\<close>

lemma set_top_priority:
  "set (top_priority (sort srvs)) = {a \<in> set srvs. \<forall>b \<in> set srvs. Priority a \<le> Priority b}"
proof (cases "sort srvs")
  case (Cons h t)
  have srt: "sorted (h # t)" and st: "set srvs = set (h # t)"
    by (metis Cons sorted_sort, metis Cons set_sort)
  have mono: "Priority a \<le> Priority b" if "a \<le> b" for a b :: srv
    using that by (auto simp: less_eq_srv_def srv_less_def split: if_splits)
  have "set (takeWhile (\<lambda>a. \<not> Priority a > Priority h) xs) = {a \<in> set xs. Priority a \<le> Priority h}"
    if "sorted xs" for xs :: "srv list"
    using that
  proof (induction xs)
    case (Cons x xs)
    show ?case
    proof (cases "Priority x > Priority h")
      case True
      have "\<not> Priority a \<le> Priority h" if "a \<in> set (x # xs)" for a
        using that Cons.prems mono [of x a] True by auto
      then show ?thesis using True by auto
    next
      case False
      then show ?thesis using Cons by auto
    qed
  qed simp
  from this [OF srt] have "set (top_priority (sort srvs)) = {a \<in> set srvs. Priority a \<le> Priority h}"
    by (simp add: top_priority_def Cons st)
  moreover have "Priority h \<le> Priority b" if "b \<in> set srvs" for b
    using that srt mono [of h b] by (auto simp: st)
  moreover have "h \<in> set srvs" by (simp add: st)
  ultimately show ?thesis by (auto intro: order_trans)
next
  case Nil
  then have "srvs = []" by (metis set_empty set_sort)
  then show ?thesis by (simp add: top_priority_def)
qed

lemma count_weighted:
  "length hosts = length ws \<Longrightarrow>
   count_list (weighted hosts ws) h = (\<Sum>(k, w) \<leftarrow> zip hosts ws. if k = h then unat w else 0)"
proof (induction hosts ws rule: list_induct2)
  case (Cons x xs y ys)
  have "count_list (replicate n x) h = (if x = h then n else 0)" for n :: nat by (induction n) auto
  then show ?case using Cons by (simp add: weighted_def count_list_append)
qed (simp add: weighted_def)

lemma set_weighted:
  "length hosts = length ws \<Longrightarrow> h \<in> set (weighted hosts ws) \<longleftrightarrow> (\<exists>w. (h, w) \<in> set (zip hosts ws) \<and> w \<noteq> 0)"
  by (induction hosts ws rule: list_induct2) (auto simp: weighted_def unat_gt_0 word_neq_0_conv [symmetric] unat_eq_0)

text \<open>
  only the best priority is served: an instance is the address of a record whose
  priority value is the smallest of the answer.
\<close>

theorem resolve_best_priority:
  assumes "dns_lookup s (dns_name s) = Inr srvs" and "resolve s = Inr instances" and "h \<in> set instances"
  shows "\<exists>a \<in> set srvs. h = srv_host (dns_scheme s) a \<and> (\<forall>b \<in> set srvs. Priority a \<le> Priority b)"
proof -
  let ?top = "top_priority (sort srvs)"
  have "h \<in> set (weighted (map (srv_host (dns_scheme s)) ?top) (compact (map Weight ?top)))"
    using assms by (auto simp: resolve_def Let_def)
  then obtain w where "(h, w) \<in> set (zip (map (srv_host (dns_scheme s)) ?top) (compact (map Weight ?top)))"
    by (auto simp: set_weighted compact_length)
  then have "h \<in> srv_host (dns_scheme s) ` set ?top" by (auto dest: set_zip_leftD)
  then show ?thesis by (auto simp: set_top_priority)
qed

lemma resolve_best_priority_witness:
  "\<exists>a \<in> set sample_srvs. ''http://a:80'' = srv_host ''http'' a \<and> (\<forall>b \<in> set sample_srvs. Priority a \<le> Priority b)"
proof -
  have "resolve sample_subscriber = Inr (replicate 2 ''http://a:80'' @ replicate 1 ''http://b:80'')" by code_simp
  from resolve_best_priority [OF _ this, of sample_srvs "''http://a:80''"] show ?thesis
    by (simp add: sample_subscriber_def)
qed

text \<open>
  the multiplicities keep the ratio of the advertised weights exactly when their sum is small
  enough to need no scaling: the number of instances of a record times the common divisor is its weight.
\<close>

theorem compact_keeps_ratio:
  assumes "sum_list (map unat ws) \<le> max 100 (length ws)"
  shows "map (\<lambda>w. unat w * max 1 (Gcd (unat ` set ws))) (compact ws) = map unat ws"
  using compact_exact [of ws] assms by (simp add: normalize_alt scale_of_def)

lemma compact_keeps_ratio_witness:
  "map (\<lambda>w. unat w * max 1 (Gcd (unat ` set [20 :: 16 word, 10, 30]))) (compact [20, 10, 30]) = [20, 10, 30]"
  using compact_keeps_ratio [of "[20, 10, 30]"] by simp

text \<open>
  records that all advertise the weight zero are never served: the resolution succeeds with no
  instance, and the subscriber's cache is emptied.
\<close>

theorem zero_weights_serve_nothing:
  assumes "dns_lookup s (dns_name s) = Inr srvs" and "\<forall>a \<in> set srvs. Weight a = 0"
  shows "resolve s = Inr [] \<and> dns_Hosts (update perm s) = Inr []"
proof -
  let ?top = "top_priority (sort srvs)"
  have sub: "set ?top \<subseteq> set srvs" by (auto simp: set_top_priority)
  obtain ins where r: "resolve s = Inr ins" using assms(1) by (simp add: resolve_def Let_def)
  have z: "map Weight ?top = replicate (length ?top) 0"
    using assms(2) sub by (intro replicate_eqI) auto
  have "sum_list (map unat (normalize_ws (map Weight ?top))) = 0"
    by (simp only: z) (simp add: normalize_alt sum_list_replicate)
  then have "sum_list (map unat (compact (map Weight ?top))) = 0"
    using compact_sum [of "map Weight ?top"] by (metis le_zero_eq)
  moreover have "length ins = sum_list (map unat (compact (map Weight ?top)))"
    using r assms(1) by (auto simp: resolve_def Let_def length_weighted compact_length)
  ultimately have "length ins = 0" by (simp only:)
  then have "ins = []" by simp
  then show ?thesis using r by (simp add: update_def dns_Hosts_def)
qed

lemma zero_weights_serve_nothing_witness:
  "resolve (sample_subscriber\<lparr>dns_lookup := \<lambda>_. Inr [SRV ''a'' 80 0 0, SRV ''b'' 80 0 0]\<rparr>) = Inr []"
  using zero_weights_serve_nothing
    [of "sample_subscriber\<lparr>dns_lookup := \<lambda>_. Inr [SRV ''a'' 80 0 0, SRV ''b'' 80 0 0]\<rparr>" "[SRV ''a'' 80 0 0, SRV ''b'' 80 0 0]"]
  by (simp add: sample_subscriber_def)

text \<open>
  C33: a failed lookup keeps the hosts served before, at every tick of the refresh loop.
\<close>

theorem refresh_keeps_hosts_on_errors:
  assumes "\<forall>l \<in> set ls. \<exists>err. l (dns_name s) = Inl err"
  shows "dns_Hosts (refresh perm ls s) = dns_Hosts s"
  using assms
proof (induction ls arbitrary: s)
  case (Cons l ls)
  obtain err where "l (dns_name s) = Inl err" using Cons.prems by auto
  then have "update perm (s\<lparr>dns_lookup := l\<rparr>) = s\<lparr>dns_lookup := l\<rparr>"
    by (simp add: update_def resolve_def)
  then have "dns_Hosts (refresh perm (l # ls) s) = dns_Hosts (refresh perm ls (s\<lparr>dns_lookup := l\<rparr>))" by simp
  also have "\<dots> = dns_Hosts (s\<lparr>dns_lookup := l\<rparr>)" using Cons.prems by (intro Cons.IH) simp
  finally show ?case by (simp add: dns_Hosts_def)
qed simp

lemma refresh_keeps_hosts_on_errors_witness:
  "dns_Hosts (refresh (\<lambda>n. [0..<n]) [\<lambda>_. Inl ENoHosts] (sample_subscriber\<lparr>dns_cache := [''http://x:1'']\<rparr>)) = Inr [''http://x:1'']"
  using refresh_keeps_hosts_on_errors [of "[\<lambda>_. Inl ENoHosts]" "sample_subscriber\<lparr>dns_cache := [''http://x:1'']\<rparr>" "\<lambda>n. [0..<n]"]
  by (simp add: dns_Hosts_def)

end
