(* ===== verification/Sequential_Merge.thy ===== *)
theory Sequential_Merge
  imports Parallel_Merge Formatter
begin

section \<open>The sequential merger (\<open>sequentialMerge\<close> of \<open>proxy/merging.go\<close>)\<close>

text \<open>
  Backends run one after the other; values of earlier responses are written into the parameters of
  the request before a later one runs.  The default combiner merges into the map of the first
  response, and \<open>parts\<close> still points to that response, so the maps and the readers live in
  an explicit store: address \<open>i\<close> is the map (the reader) of backend \<open>i\<close>'s response, and the
  addresses from the number of backends on are maps the combiner made.
\<close>

subsection \<open>State\<close>

record seq_part =
  pt_data :: "nat option"
  pt_io :: "nat option"

record seq_acc =
  sa_data :: "nat option"
  sa_complete :: bool
  sa_meta :: metadata
  sa_io :: "nat option"

record seq_state =
  sqMaps :: "nat \<Rightarrow> fields"
  sqReaders :: "nat \<Rightarrow> string"
  sqParts :: "nat \<Rightarrow> seq_part option"
  sqPending :: int
  sqAcc :: "seq_acc option"
  sqErrs :: "gerror list"
  sqRegistry :: "(string, string) gomap"
  sqRequest :: request

record seq_env =
  seTotal :: nat
  seCloner :: cloner
  seFilters :: "backend_filter list"
  seReplacements :: "sequentialBackendReplacement list list"
  seLate :: "nat \<Rightarrow> bool"
  seCtxErr :: gerror
  seShow :: "json \<Rightarrow> string"
  seFloat :: "nat \<Rightarrow> string"

definition seq_start :: "nat \<Rightarrow> request \<Rightarrow> seq_state" where
  "seq_start n request = \<lparr>sqMaps = (\<lambda>_. []), sqReaders = (\<lambda>_. []), sqParts = (\<lambda>_. None), sqPending = int n,
     sqAcc = None, sqErrs = [], sqRegistry = [], sqRequest = request\<rparr>"

subsection \<open>Propagated parameters\<close>

text \<open>
  The walk over all but the last component of the source: it stops where a component is missing or
  not an object, and the last component is looked up where the walk stopped.
\<close>

fun descend :: "fields \<Rightarrow> string list \<Rightarrow> fields" where
  "descend data [] = data"
| "descend data (k # ks) =
     (case map_of data k of
        None \<Rightarrow> data
      | Some v \<Rightarrow> (case as_obj v of None \<Rightarrow> data | Some clean \<Rightarrow> descend clean ks))"

definition param_text :: "(json \<Rightarrow> string) \<Rightarrow> (nat \<Rightarrow> string) \<Rightarrow> json \<Rightarrow> string" where
  "param_text show_v show_f v =
     (case v of
        JArr clean \<Rightarrow> join_with '','' (map show_v clean)
      | JStr clean \<Rightarrow> clean
      | JInt clean \<Rightarrow> show_int clean
      | JFloat clean \<Rightarrow> show_f clean
      | JBool clean \<Rightarrow> (if clean then ''true'' else ''false'')
      | _ \<Rightarrow> show_v v)"

text \<open>\<open>request.Params[k] = v\<close>, which panics on a nil map.\<close>

definition set_param :: "string \<Rightarrow> string \<Rightarrow> seq_state \<Rightarrow> seq_state run" where
  "set_param k v st =
     (case rParams (sqRequest st) of
        None \<Rightarrow> Panic ''assignment to entry in nil map''
      | Some ps \<Rightarrow> Ret (st\<lparr>sqRequest := (sqRequest st)\<lparr>rParams := Some (go_put k v ps)\<rparr>\<rparr>))"

definition remember :: "string \<Rightarrow> string \<Rightarrow> seq_state \<Rightarrow> seq_state" where
  "remember k v st = st\<lparr>sqRegistry := go_put k v (sqRegistry st)\<rparr>"

definition part_fields :: "seq_state \<Rightarrow> seq_part \<Rightarrow> fields" where
  "part_fields st p = (case pt_data p of None \<Rightarrow> [] | Some a \<Rightarrow> sqMaps st a)"

definition apply_replacement :: "seq_env \<Rightarrow> nat \<Rightarrow> sequentialBackendReplacement \<Rightarrow> seq_state \<Rightarrow> seq_state run" where
  "apply_replacement env i r st =
     (if sr_backendIndex r \<ge> i then Ret st
      else case sqParts st (sr_backendIndex r) of
        None \<Rightarrow> Ret st
      | Some part \<Rightarrow>
          (let data = descend (part_fields st part) (butlast (sr_source r));
               found = (case map_of (sqRegistry st) (sr_destination r) of None \<Rightarrow> [] | Some f \<Rightarrow> f)
           in if found \<noteq> [] then set_param (sr_destination r) found st
              else if sr_fullResponse r then
                (case pt_io part of
                   None \<Rightarrow> Ret st
                 | Some a \<Rightarrow>
                     (let buf = sqReaders st a; st = st\<lparr>sqReaders := (sqReaders st)(a := [])\<rparr> in
                      run_bind (set_param (sr_destination r) buf st)
                        (\<lambda>st. Ret (remember (sr_destination r) buf st))))
              else
                (case map_of data (last (sr_source r)) of
                   None \<Rightarrow> Ret st
                 | Some v \<Rightarrow>
                     (let param = param_text (seShow env) (seFloat env) v in
                      run_bind (set_param (sr_destination r) param st)
                        (\<lambda>st. Ret (remember (sr_destination r) param st))))))"

fun apply_replacements :: "seq_env \<Rightarrow> nat \<Rightarrow> sequentialBackendReplacement list \<Rightarrow> seq_state \<Rightarrow> seq_state run" where
  "apply_replacements env i [] st = Ret st"
| "apply_replacements env i (r # rs) st = run_bind (apply_replacement env i r st) (apply_replacements env i rs)"

definition replacements_for :: "seq_env \<Rightarrow> nat \<Rightarrow> sequentialBackendReplacement list" where
  "replacements_for env i = (if 0 < i \<and> i < length (seReplacements env) then seReplacements env ! i else [])"

subsection \<open>Merging into the store\<close>

text \<open>A response arrives: its map and its reader get the addresses of its backend.\<close>

definition store_response :: "nat \<Rightarrow> response \<Rightarrow> seq_state \<Rightarrow> seq_state" where
  "store_response i r st =
     st\<lparr>sqMaps := (sqMaps st)(i := entries (Data r)),
        sqReaders := (sqReaders st)(i := (case Io r of None \<Rightarrow> [] | Some s \<Rightarrow> s))\<rparr>"

definition part_at :: "nat \<Rightarrow> response \<Rightarrow> seq_part" where
  "part_at i r = \<lparr>pt_data = map_option (\<lambda>_. i) (Data r), pt_io = map_option (\<lambda>_. i) (Io r)\<rparr>"

definition acc_at :: "nat \<Rightarrow> response \<Rightarrow> seq_acc" where
  "acc_at i r = \<lparr>sa_data = map_option (\<lambda>_. i) (Data r), sa_complete = IsComplete r, sa_meta = Metadata r,
     sa_io = map_option (\<lambda>_. i) (Io r)\<rparr>"

text \<open>\<open>combineData(2, {acc, res})\<close>: the first map that is not nil receives the entries of the other.\<close>

definition combine_store :: "nat \<Rightarrow> seq_acc \<Rightarrow> seq_acc \<Rightarrow> seq_state \<Rightarrow> seq_state" where
  "combine_store new a b st =
     (let done = (\<lambda>addr complete. Some \<lparr>sa_data = Some addr, sa_complete = complete,
                    sa_meta = empty_metadata, sa_io = None\<rparr>) in
      case (sa_data a, sa_data b) of
        (Some x, Some y) \<Rightarrow> st\<lparr>sqMaps := (sqMaps st)(x := put_all (sqMaps st y) (sqMaps st x)),
                                sqAcc := done x (sa_complete a \<and> sa_complete b)\<rparr>
      | (Some x, None) \<Rightarrow> st\<lparr>sqAcc := done x False\<rparr>
      | (None, Some y) \<Rightarrow> st\<lparr>sqAcc := done y False\<rparr>
      | (None, None) \<Rightarrow> st\<lparr>sqMaps := (sqMaps st)(new := []), sqAcc := done new False\<rparr>)"

definition merge_response :: "nat \<Rightarrow> nat \<Rightarrow> response \<Rightarrow> seq_state \<Rightarrow> seq_state" where
  "merge_response n i r st =
     (let st = store_response i r (st\<lparr>sqPending := sqPending st - 1\<rparr>) in
      case sqAcc st of
        None \<Rightarrow> st\<lparr>sqAcc := Some (acc_at i r)\<rparr>
      | Some a \<Rightarrow> combine_store (n + i) a (acc_at i r) st)"

definition merge_error :: "gerror \<Rightarrow> seq_state \<Rightarrow> seq_state" where
  "merge_error e st =
     st\<lparr>sqPending := sqPending st - 1, sqErrs := sqErrs st @ [e],
        sqAcc := map_option (\<lambda>a. a\<lparr>sa_complete := False\<rparr>) (sqAcc st)\<rparr>"

subsection \<open>The loop\<close>

datatype seq_end = SeqFailed gerror seq_state | SeqDone seq_state | SeqPanic string

definition skip_backend :: "nat \<Rightarrow> seq_state \<Rightarrow> seq_state" where
  "skip_backend i st =
     st\<lparr>sqMaps := (sqMaps st)(i := []), sqParts := (sqParts st)(i := Some \<lparr>pt_data = Some i, pt_io = None\<rparr>),
        sqPending := sqPending st - 1\<rparr>"

definition sequentialRequestPart :: "seq_env \<Rightarrow> nat \<Rightarrow> pres \<Rightarrow> outcome" where
  "sequentialRequestPart env i p =
     (case part_of p of
        (Some r, e) \<Rightarrow> if seLate env i then (None, Some (seCtxErr env)) else (Some r, e)
      | oc \<Rightarrow> oc)"

fun seq_loop :: "seq_env \<Rightarrow> nat \<Rightarrow> proxy list \<Rightarrow> seq_state \<Rightarrow> seq_end" where
  "seq_loop env i [] st = SeqDone st"
| "seq_loop env i (n # next) st =
     (case apply_replacements env i (replacements_for env i) st of
        Panic e \<Rightarrow> SeqPanic e
      | Ret st \<Rightarrow>
          if \<not> selected (seFilters env) i (sqRequest st) then seq_loop env (Suc i) next (skip_backend i st)
          else
            (case seCloner env (sqRequest st) of (copy, request) \<Rightarrow>
              (let st = st\<lparr>sqRequest := request\<rparr>; p = n copy in
               case first_panic [p] of
                 Some e \<Rightarrow> SeqPanic e
               | None \<Rightarrow>
                   (case sequentialRequestPart env i p of
                      (_, Some err) \<Rightarrow> if i = 0 then SeqFailed err st else SeqDone (merge_error err st)
                    | (None, None) \<Rightarrow> SeqDone st
                    | (Some r, None) \<Rightarrow>
                        (let st = merge_response (seTotal env) i r st in
                         if \<not> IsComplete r then SeqDone st
                         else seq_loop env (Suc i) next (st\<lparr>sqParts := (sqParts st)(i := Some (part_at i r))\<rparr>))))))"

definition acc_value :: "seq_state \<Rightarrow> seq_acc \<Rightarrow> response" where
  "acc_value st a = \<lparr>Data = map_option (sqMaps st) (sa_data a), IsComplete = sa_complete a,
     Metadata = sa_meta a, Io = map_option (sqReaders st) (sa_io a)\<rparr>"

definition seq_accumulator :: "seq_state \<Rightarrow> accumulator" where
  "seq_accumulator st = \<lparr>pending = sqPending st, accData = map_option (acc_value st) (sqAcc st), accErrs = sqErrs st\<rparr>"

definition seq_result :: "seq_end \<Rightarrow> pres" where
  "seq_result e =
     (case e of
        SeqPanic p \<Rightarrow> PPanic p
      | SeqFailed err st \<Rightarrow> PRet None (Some err) (sqRequest st)
      | SeqDone st \<Rightarrow> (case Result (seq_accumulator st) of (resp, err) \<Rightarrow> PRet resp err (sqRequest st)))"

text \<open>The merger, for the default combiner; the context's expiry and the formatting of values are arguments.\<close>

definition sequentialMerge ::
  "(nat \<Rightarrow> bool) \<Rightarrow> gerror \<Rightarrow> (json \<Rightarrow> string) \<Rightarrow> (nat \<Rightarrow> string) \<Rightarrow> sequentialBackendReplacement list list \<Rightarrow>
   cloner \<Rightarrow> int \<Rightarrow> backend_filter list \<Rightarrow> proxy list \<Rightarrow> proxy" where
  "sequentialMerge late ctxErr show_v show_f repls reqCloner timeout filters next request =
     (let env = \<lparr>seTotal = length next, seCloner = reqCloner, seFilters = filters, seReplacements = repls,
                 seLate = late, seCtxErr = ctxErr, seShow = show_v, seFloat = show_f\<rparr>
      in seq_result (seq_loop env 0 next (seq_start (length next) request)))"

text \<open>
  The two factories the package registers.  With the default combiner \<open>seqm repls\<close> is the merger
  above (\<open>default_sequential\<close>); with another one it depends on what that does to the responses it is given.
\<close>

definition default_sequential ::
  "(nat \<Rightarrow> bool) \<Rightarrow> gerror \<Rightarrow> (json \<Rightarrow> string) \<Rightarrow> (nat \<Rightarrow> string) \<Rightarrow> sequentialBackendReplacement list list \<Rightarrow> merger" where
  "default_sequential late ctxErr show_v show_f repls reqClone serviceTimeout rc =
     sequentialMerge late ctxErr show_v show_f repls reqClone serviceTimeout"

definition mergers :: "(sequentialBackendReplacement list list \<Rightarrow> merger) \<Rightarrow> merger \<Rightarrow> (string, EndpointConfig \<Rightarrow> merger run) gomap" where
  "mergers seqm parm =
     [(isSequentialKey, \<lambda>ec. run_bind (sequentialMergerConfig ec) (\<lambda>sequentialReplacements. Ret (seqm sequentialReplacements))),
      (parallelMerger, \<lambda>_. Ret parm)]"

subsection \<open>The store implements the accumulator\<close>

text \<open>Values are compared without the raw body, which a propagated parameter may drain.\<close>

definition strip_io :: "accumulator \<Rightarrow> accumulator" where
  "strip_io a = a\<lparr>accData := map_option (\<lambda>r. r\<lparr>Io := None\<rparr>) (accData a)\<rparr>"

definition seq_abs :: "seq_state \<Rightarrow> accumulator" where
  "seq_abs st = strip_io (seq_accumulator st)"

lemmas seq_abs_defs = seq_abs_def strip_io_def seq_accumulator_def acc_value_def

text \<open>The accumulator's map is never the map of a backend yet to answer.\<close>

definition seq_fresh :: "nat \<Rightarrow> nat \<Rightarrow> seq_state \<Rightarrow> bool" where
  "seq_fresh n i st \<longleftrightarrow> (\<forall>a x. sqAcc st = Some a \<longrightarrow> sa_data a = Some x \<longrightarrow> x < i \<or> n \<le> x \<and> x < n + i)"

lemma merge_response_abs:
  assumes "seq_fresh n i st" and "i < n"
  shows "seq_abs (merge_response n i r st) = strip_io (Merge combineData (seq_abs st) (Some r, None)) \<and>
    seq_fresh n (Suc i) (merge_response n i r st)"
proof (cases "sqAcc st")
  case None
  then show ?thesis using assms(2)
    by (cases "Data r"; cases "Io r")
      (simp_all add: merge_response_def store_response_def acc_at_def seq_abs_defs Merge_def seq_fresh_def Let_def)
next
  case (Some a)
  have ne: "x \<noteq> i" "x \<noteq> n + i" if "sa_data a = Some x" for x
    using assms that Some by (auto simp: seq_fresh_def)
  show ?thesis using assms ne Some
    by (cases "sa_data a"; cases "Data r")
      (auto simp: merge_response_def store_response_def acc_at_def seq_abs_defs Merge_def combine_store_def
        combineData_two seq_fresh_def Let_def new_response_def)
qed

lemma merge_error_abs:
  "seq_abs (merge_error e st) = strip_io (Merge combineData (seq_abs st) (None, Some e)) \<and>
   sqAcc (merge_error e st) = map_option (\<lambda>a. a\<lparr>sa_complete := False\<rparr>) (sqAcc st)"
  by (cases "sqAcc st") (simp_all add: merge_error_def seq_abs_defs Merge_def Let_def)

lemma strip_io_Merge: "strip_io (Merge combineData (strip_io a) oc) = strip_io (Merge combineData a oc)"
  by (cases "snd oc"; cases "fst oc"; cases "accData a")
    (simp_all add: strip_io_def Merge_def combineData_two Let_def)

definition same_merge :: "seq_state \<Rightarrow> seq_state \<Rightarrow> bool" where
  "same_merge st st' \<longleftrightarrow> sqMaps st' = sqMaps st \<and> sqAcc st' = sqAcc st \<and> sqPending st' = sqPending st \<and>
     sqErrs st' = sqErrs st \<and> sqParts st' = sqParts st"

lemma same_merge_trans: "same_merge a b \<Longrightarrow> same_merge b c \<Longrightarrow> same_merge a c"
  by (simp add: same_merge_def)

lemma same_merge_abs: "same_merge st st' \<Longrightarrow> seq_abs st' = seq_abs st \<and> seq_fresh n i st' = seq_fresh n i st"
  by (cases "sqAcc st") (auto simp: same_merge_def seq_abs_defs seq_fresh_def)

lemma apply_replacement_merge: "apply_replacement env i r st = Ret st' \<Longrightarrow> same_merge st st'"
  unfolding apply_replacement_def Let_def
  by (auto simp: run_bind_Ret_iff set_param_def same_merge_def remember_def split: if_splits option.splits)

lemma apply_replacements_merge: "apply_replacements env i rs st = Ret st' \<Longrightarrow> same_merge st st'"
proof (induction env i rs st rule: apply_replacements.induct)
  case (1 env i st)
  then show ?case by (simp add: same_merge_def)
next
  case (2 env i r rs st)
  then show ?case using apply_replacement_merge same_merge_trans by (fastforce simp: run_bind_Ret_iff)
qed

definition acc_from :: "nat \<Rightarrow> nat \<Rightarrow> accumulator" where
  "acc_from n k = \<lparr>pending = int n - int k, accData = None, accErrs = []\<rparr>"

definition merged_as :: "nat \<Rightarrow> nat \<Rightarrow> outcome list \<Rightarrow> seq_state \<Rightarrow> bool" where
  "merged_as n k ocs st \<longleftrightarrow> seq_abs st = strip_io (foldl (Merge combineData) (acc_from n k) ocs)"

lemma merged_as_step:
  "merged_as n k ocs st \<Longrightarrow> seq_abs st' = strip_io (Merge combineData (seq_abs st) oc) \<Longrightarrow>
   merged_as n k (ocs @ [oc]) st'"
  by (simp add: merged_as_def strip_io_Merge)

definition complete_part :: "outcome \<Rightarrow> bool" where
  "complete_part oc \<longleftrightarrow> (\<exists>r. oc = (Some r, None) \<and> IsComplete r)"

subsection \<open>Properties\<close>

definition no_io :: "outcome \<Rightarrow> outcome" where
  "no_io oc = (map_option (\<lambda>r. r\<lparr>Io := None\<rparr>) (fst oc), snd oc)"

lemma Result_strip: "Result (strip_io a) = no_io (Result a)"
  by (cases "accData a") (simp_all add: Result_def strip_io_def no_io_def)

lemma merged_as_start: "merged_as n 0 [] (seq_start n request)"
  by (simp add: merged_as_def seq_abs_defs seq_start_def acc_from_def)

lemma acc_from_new: "k \<le> n \<Longrightarrow> acc_from n k = newIncrementalMergeAccumulator (n - k)"
  by (simp add: acc_from_def newIncrementalMergeAccumulator_def of_nat_diff)

lemma seq_start_fresh: "seq_fresh n 0 (seq_start n request)"
  by (simp add: seq_fresh_def seq_start_def)

definition sample_seq :: seq_env where
  "sample_seq = \<lparr>seTotal = 2, seCloner = (\<lambda>r. (r, r)), seFilters = [], seReplacements = [[], []],
     seLate = (\<lambda>_. False), seCtxErr = ENullResult, seShow = (\<lambda>_. []), seFloat = (\<lambda>_. [])\<rparr>"

text \<open>
  when the first backend fails, the call returns its error alone, whatever the others are: none
  of them runs.
\<close>

theorem sequential_first_failure:
  assumes "selected filters 0 request" and "cl request = (copy, request')" and "p copy = PRet resp (Some e) r"
  shows "sequentialMerge late ctxErr show_v show_f repls cl timeout filters (p # next) request = PRet None (Some e) request'"
  using assms
  by (simp add: sequentialMerge_def replacements_for_def sequentialRequestPart_def part_of_def seq_start_def
      seq_result_def Let_def)

lemma sequential_first_failure_witness:
  "sequentialMerge (\<lambda>_. False) ENullResult (\<lambda>_. []) (\<lambda>_. []) [] (\<lambda>r. (r, r)) 1 []
     [\<lambda>r. PRet None (Some ENoHosts) r, sample_backend ''b''] sample_request = PRet None (Some ENoHosts) sample_request"
  by (rule sequential_first_failure) (simp_all add: selected_def)

lemma descend_at_path:
  "at_path data source = Some v \<Longrightarrow> source \<noteq> [] \<Longrightarrow> map_of (descend data (butlast source)) (last source) = Some v"
proof (induction data source rule: at_path.induct)
  case (2 m k ks)
  then show ?case by (auto split: option.splits if_splits)
qed simp

text \<open>
  a value an earlier response shows at the configured path becomes the parameter of the later
  backend, as text, and is remembered for the backends after it.
\<close>

theorem sequential_parameter_propagates:
  assumes "sr_backendIndex r < i" and "sqParts st (sr_backendIndex r) = Some part" and "\<not> sr_fullResponse r"
    and "map_of (sqRegistry st) (sr_destination r) = None" and "sr_source r \<noteq> []"
    and "at_path (part_fields st part) (sr_source r) = Some v" and "rParams (sqRequest st) = Some ps"
  shows "\<exists>st'. apply_replacement env i r st = Ret st' \<and>
    rParams (sqRequest st') = Some (go_put (sr_destination r) (param_text (seShow env) (seFloat env) v) ps) \<and>
    map_of (sqRegistry st') (sr_destination r) = Some (param_text (seShow env) (seFloat env) v)"
  using assms descend_at_path [OF assms(6,5)]
  by (auto simp: apply_replacement_def set_param_def remember_def Let_def go_map_simps)

lemma sequential_parameter_propagates_witness:
  "\<exists>st'. apply_replacement sample_seq 1
     \<lparr>sr_backendIndex = 0, sr_destination = ''Resp0_id'', sr_source = [''id''], sr_fullResponse = False\<rparr>
     ((seq_start 2 (sample_request\<lparr>rParams := Some []\<rparr>))\<lparr>sqMaps := (\<lambda>_. [(''id'', JStr ''42'')]),
        sqParts := (\<lambda>_. Some \<lparr>pt_data = Some 0, pt_io = None\<rparr>)\<rparr>) = Ret st' \<and>
     rParams (sqRequest st') = Some [(''Resp0_id'', ''42'')]"
  using sequential_parameter_propagates
    [of "\<lparr>sr_backendIndex = 0, sr_destination = ''Resp0_id'', sr_source = [''id''], sr_fullResponse = False\<rparr>" 1
      "(seq_start 2 (sample_request\<lparr>rParams := Some []\<rparr>))\<lparr>sqMaps := (\<lambda>_. [(''id'', JStr ''42'')]),
        sqParts := (\<lambda>_. Some \<lparr>pt_data = Some 0, pt_io = None\<rparr>)\<rparr>" "\<lparr>pt_data = Some 0, pt_io = None\<rparr>" "JStr ''42''" "[]" sample_seq]
  by (auto simp: seq_start_def part_fields_def param_text_def)

text \<open>
  the map of the first response is the accumulator's: a third backend that asks for
  a key of the first response is given the value the second response wrote over it.
\<close>

definition answer :: "string \<Rightarrow> json \<Rightarrow> proxy" where
  "answer k v r = PRet (Some (new_response (Some [(k, v)]) True)) None r"

definition echo_param :: "string \<Rightarrow> proxy" where
  "echo_param k r = PRet (Some (new_response (Some [(''seen'',
     JStr (case map_of (entries (rParams r)) k of Some v \<Rightarrow> v | None \<Rightarrow> []))]) True)) None r"

theorem sequential_parts_alias:
  "(case sequentialMerge (\<lambda>_. False) ENullResult (\<lambda>_. []) (\<lambda>_. [])
       [[], [], [\<lparr>sr_backendIndex = 0, sr_destination = ''Resp0_x'', sr_source = [''x''], sr_fullResponse = False\<rparr>]]
       (\<lambda>r. (r, r)) 1 [] [answer ''x'' (JStr ''first''), answer ''x'' (JStr ''second''), echo_param ''Resp0_x'']
       (sample_request\<lparr>rParams := Some []\<rparr>) of
     PRet (Some d) err r \<Rightarrow> map_of (entries (Data d)) ''seen''
   | _ \<Rightarrow> None) = Some (JStr ''second'')"
  by code_simp

end
