(* ===== verification/Factory.thy ===== *)
theory Factory
  imports Concurrent Graphql Plugins Dns_Srv Sequential_Merge
begin

section \<open>The proxy factory and the shadow factory (\<open>proxy/factory.go\<close>, \<open>proxy/shadow.go\<close>)\<close>

text \<open>
  The stack of middlewares a backend and an endpoint get.  What the parts take as arguments (registers, the
  HTTP client, the third-party functions, the answers of the balancer and of the scheduler to the request
  at hand) is collected in \<open>factory_env\<close>.
\<close>

subsection \<open>Building\<close>

text \<open>A factory returns a proxy and an error, ends the process, or panics.\<close>

datatype made = Made "proxy option" "gerror option" | MadeFatal string | MadePanic string

type_synonym factory = "EndpointConfig \<Rightarrow> made"

record 't factory_env =
  fe_backendFactory :: "Backend \<Rightarrow> proxy"
  fe_modifiers :: modifierRegister
  fe_graphql :: gql_env
  fe_parse_url :: "string \<Rightarrow> gerror + url"
  fe_host :: "Backend \<Rightarrow> (gerror + string) run"
  fe_reparse :: "url \<Rightarrow> url option"
  fe_ctxErr :: gerror
  fe_late :: "nat \<Rightarrow> bool"
  fe_sched :: "nat \<Rightarrow> nat option list"
  fe_merge :: merge_env
  fe_flatmap :: "'t flatmap_lib"

text \<open>One middleware put on a proxy.\<close>

fun stack :: "build \<Rightarrow> middleware \<Rightarrow> build" where
  "stack (Built p) mw = mw [p]"
| "stack (FatalNil e) mw = FatalNil e"
| "stack (BuildPanic e) mw = BuildPanic e"

definition stack_run :: "build \<Rightarrow> middleware run \<Rightarrow> build" where
  "stack_run b mw = (case b of Built p \<Rightarrow> (case mw of Ret m \<Rightarrow> stack b m | Panic e \<Rightarrow> BuildPanic e) | _ \<Rightarrow> b)"

definition newStack :: "'t factory_env \<Rightarrow> Backend \<Rightarrow> build" where
  "newStack env backend =
     (let p = Built (fe_backendFactory env backend);
          p = stack p (NewBackendPluginMiddleware (fe_modifiers env) backend);
          p = stack_run p (NewGraphQLMiddleware (fe_graphql env) backend);
          p = stack p (NewFilterHeadersMiddleware backend);
          p = stack p (newLoadBalancedMiddleware (fe_parse_url env) (fe_host env backend));
          p = (if be_ConcurrentCalls backend > 1 then
                 (case NewConcurrentMiddlewareWithLogger (fe_reparse env) (fe_ctxErr env) (fe_late env) (fe_sched env) backend of
                    Some m \<Rightarrow> stack p m
                  | None \<Rightarrow> BuildPanic ''invalid memory address or nil pointer dereference'')
               else p);
          p = stack p (newRequestBuilderMiddleware backend)
      in stack p (NewFilterQueryStringsMiddleware backend))"

definition newSingle :: "'t factory_env \<Rightarrow> EndpointConfig \<Rightarrow> build" where
  "newSingle env cfg = newStack env (hd (ep_Backend cfg))"

fun build_all :: "build list \<Rightarrow> proxy list + build" where
  "build_all [] = Inl []"
| "build_all (Built p # bs) = (case build_all bs of Inl ps \<Rightarrow> Inl (p # ps) | Inr e \<Rightarrow> Inr e)"
| "build_all (b # bs) = Inr b"

definition newMulti :: "'t factory_env \<Rightarrow> EndpointConfig \<Rightarrow> build" where
  "newMulti env cfg =
     (case build_all (map (newStack env) (ep_Backend cfg)) of
        Inr b \<Rightarrow> b
      | Inl backendProxy \<Rightarrow>
          (case NewMergeDataMiddleware (fe_merge env) cfg of
             Panic e \<Rightarrow> BuildPanic e
           | Ret None \<Rightarrow> BuildPanic ''invalid memory address or nil pointer dereference''
           | Ret (Some m) \<Rightarrow> stack (m backendProxy) (NewFlatmapMiddleware (fe_flatmap env) cfg)))"

definition made_of :: "build \<Rightarrow> made" where
  "made_of b = (case b of Built p \<Rightarrow> Made (Some p) None | FatalNil e \<Rightarrow> MadeFatal e | BuildPanic e \<Rightarrow> MadePanic e)"

definition defaultFactory_New :: "'t factory_env \<Rightarrow> factory" where
  "defaultFactory_New env cfg =
     (case ep_Backend cfg of
        [] \<Rightarrow> Made None (Some ENoBackends)
      | [b] \<Rightarrow> made_of (stack (stack (newSingle env cfg) (NewPluginMiddleware (fe_modifiers env) cfg)) (NewStaticMiddleware cfg))
      | _ \<Rightarrow> made_of (stack (stack (newMulti env cfg) (NewPluginMiddleware (fe_modifiers env) cfg)) (NewStaticMiddleware cfg)))"

text \<open>The subscriber a backend is balanced over: the one its \<open>sd\<close> names in the register.\<close>

definition NewDefaultFactory_subscriber :: "sd_register \<Rightarrow> Backend \<Rightarrow> subscriber" where
  "NewDefaultFactory_subscriber reg remote = sd_Get reg (be_SD remote) remote"

subsection \<open>The shadow factory\<close>

definition shadow_split :: "(string \<Rightarrow> int option) \<Rightarrow> Backend list \<Rightarrow> Backend list \<times> Backend list \<times> int" where
  "shadow_split parse bs =
     (let sh = filter (\<lambda>b. snd (isShadowBackend parse b)) bs in
      (sh, filter (\<lambda>b. \<not> snd (isShadowBackend parse b)) bs,
       foldl (\<lambda>mx b. if mx < fst (isShadowBackend parse b) then fst (isShadowBackend parse b) else mx) 0 sh))"

text \<open>A nil proxy that is called panics.\<close>

definition proxy_or_nil :: "proxy option \<Rightarrow> proxy" where
  "proxy_or_nil p = (case p of Some q \<Rightarrow> q | None \<Rightarrow> (\<lambda>_. PPanic ''invalid memory address or nil pointer dereference''))"

definition shadowFactory_New :: "(string \<Rightarrow> int option) \<Rightarrow> (url \<Rightarrow> url option) \<Rightarrow> factory \<Rightarrow> factory" where
  "shadowFactory_New parse reparse f cfg =
     (if ep_Backend cfg = [] then Made None (Some ENoBackends)
      else (case shadow_split parse (ep_Backend cfg) of
        (sh, regular, maxTimeout) \<Rightarrow>
          (case f (cfg\<lparr>ep_Backend := regular\<rparr>) of
             MadeFatal e \<Rightarrow> MadeFatal e
           | MadePanic e \<Rightarrow> MadePanic e
           | Made p err \<Rightarrow>
               (if sh = [] then Made p err
                else (case f (cfg\<lparr>ep_Backend := sh\<rparr>) of
                        MadeFatal e \<Rightarrow> MadeFatal e
                      | MadePanic e \<Rightarrow> MadePanic e
                      | Made pShadow _ \<Rightarrow>
                          (case ShadowMiddlewareWithTimeoutAndLogger reparse maxTimeout [proxy_or_nil p, proxy_or_nil pShadow] of
                             Built q \<Rightarrow> Made (Some q) err
                           | FatalNil e \<Rightarrow> MadeFatal e
                           | BuildPanic e \<Rightarrow> MadePanic e))))))"

subsection \<open>The parts of a stack\<close>

text \<open>A middleware that accepts a single proxy.\<close>

definition accepts_one :: "middleware \<Rightarrow> bool" where
  "accepts_one mw \<longleftrightarrow> (\<forall>p. \<exists>q. mw [p] = Built q)"

lemma accepts_fallback [simp]: "accepts_one emptyMiddlewareFallback"
  by (simp add: accepts_one_def)

lemma accepts_wrap [simp]: "accepts_one (wrap_single msg f)" "accepts_one (wrap_first msg f)"
  by (simp_all add: accepts_one_def wrap_first_def)

lemma accepts_plugins [simp]: "accepts_one (NewPluginMiddleware reg cfg)" "accepts_one (NewBackendPluginMiddleware reg b)"
  by (auto simp: NewPluginMiddleware_def NewBackendPluginMiddleware_def newPluginMiddleware_def split: option.split prod.split)

lemma accepts_static [simp]: "accepts_one (NewStaticMiddleware cfg)"
  by (simp add: NewStaticMiddleware_def split: option.split)

lemma accepts_filters [simp]:
  "accepts_one (NewFilterHeadersMiddleware b)" "accepts_one (NewFilterQueryStringsMiddleware b)"
  by (simp_all add: NewFilterHeadersMiddleware_def NewFilterQueryStringsMiddleware_def)

lemma accepts_balancer [simp]: "accepts_one (newLoadBalancedMiddleware parse host)" "accepts_one (newRequestBuilderMiddleware b)"
  by (simp_all add: newLoadBalancedMiddleware_def newRequestBuilderMiddleware_def)

lemma accepts_graphql: "NewGraphQLMiddleware env b = Ret m \<Longrightarrow> accepts_one m"
  by (auto simp: NewGraphQLMiddleware_def run_bind_Ret_iff split: sum.splits if_splits)

subsection \<open>Properties\<close>

lemma newStack_plain:
  assumes "get_as as_obj (be_ExtraConfig b) plugin_Namespace = None" and "map_of (be_ExtraConfig b) gql_Namespace = None"
    and "be_ConcurrentCalls b \<le> 1" and "be_HeadersToPass b \<noteq> []" and "be_QueryStringsToPass b \<noteq> []"
  shows "newStack env b = Built (filter_query (be_QueryStringsToPass b)
    (build_request b (balanced (fe_parse_url env) (fe_host env b) (filter_headers (be_HeadersToPass b) (fe_backendFactory env b)))))"
  using assms
  by (simp add: newStack_def stack_run_def NewBackendPluginMiddleware_def NewGraphQLMiddleware_def GetOptions_def
      NewFilterHeadersMiddleware_def newLoadBalancedMiddleware_def newRequestBuilderMiddleware_def
      NewFilterQueryStringsMiddleware_def wrap_first_def Let_def)

lemma GeneratePath_keeps:
  "rQuery (GeneratePath p r) = rQuery r" "rHeaders (GeneratePath p r) = rHeaders r"
  "GeneratePath p (r\<lparr>rQuery := q\<rparr>) = (GeneratePath p r)\<lparr>rQuery := q\<rparr>"
  by (simp_all add: GeneratePath_def)

text \<open>The request a backend's own proxy is called with.\<close>

definition backend_request :: "Backend \<Rightarrow> request \<Rightarrow> url \<Rightarrow> (string, string list) gomap \<Rightarrow> (string, string list) gomap \<Rightarrow> request" where
  "backend_request b r u qs hs =
     (GeneratePath (be_URLPattern b) r)\<lparr>rMethod := be_Method b, rURL := Some u, rQuery := Some qs, rHeaders := Some hs\<rparr>"

lemma stack_call:
  assumes plain: "get_as as_obj (be_ExtraConfig b) plugin_Namespace = None" "map_of (be_ExtraConfig b) gql_Namespace = None"
      "be_ConcurrentCalls b \<le> 1"
    and heads: "be_HeadersToPass b \<noteq> []" "distinct (be_HeadersToPass b)" "rHeaders r = Some hs" "wf_map hs"
    and query: "be_QueryStringsToPass b \<noteq> []" "distinct (be_QueryStringsToPass b)" "rQuery r = Some qs" "wf_map qs"
    and host: "fe_host env b = Ret (Inr h)" "fe_parse_url env (h @ rPath (GeneratePath (be_URLPattern b) r)) = Inr u"
  shows "\<exists>p u' qs' hs'. newStack env b = Built p \<and>
    (\<forall>r0. for_caller r0 (p r) = for_caller r0 (fe_backendFactory env b (backend_request b r u' qs' hs'))) \<and>
    map_of hs' = map_of hs |` set (be_HeadersToPass b) \<and> uBase u' = uBase u \<and>
    (\<forall>k. values_of (ParseQuery (uRawQuery u')) k = values_of (ParseQuery (uRawQuery u)) k @
       (if k \<in> set (be_QueryStringsToPass b) then values_of qs k else []))"
proof -
  let ?inner = "filter_headers (be_HeadersToPass b) (fe_backendFactory env b)"
  let ?mid = "build_request b (balanced (fe_parse_url env) (fe_host env b) ?inner)"
  obtain qs' where q: "map_of qs' = map_of qs |` set (be_QueryStringsToPass b)" "wf_map qs'"
    "\<forall>r0. for_caller r0 (filter_query (be_QueryStringsToPass b) ?mid r) = for_caller r0 (?mid (r\<lparr>rQuery := Some qs'\<rparr>))"
    using filter_query_call [OF query(2,4,3)] by blast
  let ?r1 = "(GeneratePath (be_URLPattern b) r)\<lparr>rQuery := Some qs', rMethod := be_Method b\<rparr>"
  let ?u = "add_query ?r1 u"
  let ?r2 = "?r1\<lparr>rURL := Some ?u\<rparr>"
  have mid: "?mid (r\<lparr>rQuery := Some qs'\<rparr>) = ?inner ?r2"
    using host by (simp add: build_request_def balanced_def GeneratePath_keeps)
  have "rHeaders ?r2 = Some hs" using heads(3) by (simp add: GeneratePath_keeps)
  from filter_headers_call [OF heads(2,4) this, of "fe_backendFactory env b"]
  obtain hs' where h: "map_of hs' = map_of hs |` set (be_HeadersToPass b)"
    "\<forall>r0. for_caller r0 (?inner ?r2) = for_caller r0 (fe_backendFactory env b (?r2\<lparr>rHeaders := Some hs'\<rparr>))"
    by blast
  have r2: "?r2\<lparr>rHeaders := Some hs'\<rparr> = backend_request b r ?u qs' hs'"
    by (simp add: backend_request_def)
  have vals: "values_of (ParseQuery (uRawQuery ?u)) k = values_of (ParseQuery (uRawQuery u)) k @
      (if k \<in> set (be_QueryStringsToPass b) then values_of qs k else [])" for k
    using values_of_add_query [of ?r1 u k] q(1,2) by (simp add: values_of_def restrict_map_def)
  have base: "uBase ?u = uBase u" by (simp add: add_query_def)
  show ?thesis
    using newStack_plain [OF plain heads(1) query(1), of env] q(3) h mid r2 vals base
    by (intro exI [of _ "filter_query (be_QueryStringsToPass b) ?mid"] exI [of _ ?u] exI [of _ qs'] exI [of _ hs']) simp
qed

text \<open>
  C12: the whole stack of a backend with filters: its proxy is called with the backend's method, the generated
  path, the headers restricted to the configured ones, and the URL of the chosen host whose query holds what the
  pattern fixes and, of the client's query, exactly the configured parameters.
\<close>

theorem stack_request:
  assumes plain: "get_as as_obj (be_ExtraConfig b) plugin_Namespace = None" "map_of (be_ExtraConfig b) gql_Namespace = None"
      "be_ConcurrentCalls b \<le> 1"
    and heads: "be_HeadersToPass b \<noteq> []" "distinct (be_HeadersToPass b)" "rHeaders r = Some hs" "wf_map hs"
    and query: "be_QueryStringsToPass b \<noteq> []" "distinct (be_QueryStringsToPass b)" "rQuery r = Some qs" "wf_map qs"
    and host: "fe_host env b = Ret (Inr h)" "fe_parse_url env (h @ rPath (GeneratePath (be_URLPattern b) r)) = Inr u"
  shows "\<exists>p u' qs' hs'. newStack env b = Built p \<and>
    pres_response (p r) = pres_response (fe_backendFactory env b (backend_request b r u' qs' hs')) \<and>
    pres_error (p r) = pres_error (fe_backendFactory env b (backend_request b r u' qs' hs')) \<and>
    map_of hs' = map_of hs |` set (be_HeadersToPass b) \<and> uBase u' = uBase u \<and>
    (\<forall>k. values_of (ParseQuery (uRawQuery u')) k = values_of (ParseQuery (uRawQuery u)) k @
       (if k \<in> set (be_QueryStringsToPass b) then values_of qs k else []))"
  using stack_call [OF assms] for_caller_answer by blast

definition sample_fenv :: "unit factory_env" where
  "sample_fenv = \<lparr>fe_backendFactory = (\<lambda>b r. PRet (Some (new_response (Some [(''url'', JStr (case rURL r of Some u \<Rightarrow> uRawQuery u | None \<Rightarrow> []))]) True)) None r),
     fe_modifiers = Namespaced_New, fe_graphql = sample_gql, fe_parse_url = (\<lambda>s. Inr \<lparr>uBase = s, uRawQuery = []\<rparr>),
     fe_host = (\<lambda>_. Ret (Inr ''http://h'')), fe_reparse = Some, fe_ctxErr = ECtx [], fe_late = (\<lambda>_. False),
     fe_sched = (\<lambda>n. map Some [0..<n]),
     fe_merge = \<lparr>me_mergers = [], me_combiners = initResponseCombiners,
       me_filters = \<lparr>bf_logPrefix = [], bf_filtererFactory = defaultBackendFiltererFactory\<rparr>, me_reparse = Some\<rparr>,
     fe_flatmap = sample_lib\<rparr>"

definition sample_filtered :: Backend where
  "sample_filtered = zero_backend\<lparr>be_URLPattern := ''/u'', be_Method := ''GET'', be_HeadersToPass := [''A''], be_QueryStringsToPass := [''q'']\<rparr>"

lemma stack_request_witness:
  "\<exists>p u'. newStack sample_fenv sample_filtered = Built p \<and> uBase u' = ''http://h/u'' \<and>
     (\<forall>k. values_of (ParseQuery (uRawQuery (u' :: url))) k = values_of (ParseQuery []) k @
        (if k \<in> {''q''} then values_of [(''q'', [''1'']), (''x'', [''2''])] k else []))"
proof -
  let ?r = "sample_call\<lparr>rHeaders := Some [(''A'', [''1'']), (''B'', [''2''])], rQuery := Some [(''q'', [''1'']), (''x'', [''2''])]\<rparr>"
  have "\<exists>p u' qs' hs'. newStack sample_fenv sample_filtered = Built p \<and>
    pres_response (p ?r) = pres_response (fe_backendFactory sample_fenv sample_filtered (backend_request sample_filtered ?r u' qs' hs')) \<and>
    pres_error (p ?r) = pres_error (fe_backendFactory sample_fenv sample_filtered (backend_request sample_filtered ?r u' qs' hs')) \<and>
    map_of hs' = map_of [(''A'', [''1'']), (''B'', [''2''])] |` set (be_HeadersToPass sample_filtered) \<and>
    uBase u' = uBase \<lparr>uBase = ''http://h/u'', uRawQuery = []\<rparr> \<and>
    (\<forall>k. values_of (ParseQuery (uRawQuery u')) k = values_of (ParseQuery (uRawQuery \<lparr>uBase = ''http://h/u'', uRawQuery = []\<rparr>)) k @
       (if k \<in> set (be_QueryStringsToPass sample_filtered) then values_of [(''q'', [''1'']), (''x'', [''2''])] k else []))"
    by (rule stack_request [where h = "''http://h''"])
      (simp_all add: sample_filtered_def zero_backend_def sample_fenv_def sample_call_def GeneratePath_def get_as_def)
  then show ?thesis by (auto simp: sample_filtered_def)
qed

text \<open>
  an endpoint with one backend always gets a proxy without error, unless building its GraphQL middleware panics;
  an endpoint without backends gets \<open>ErrNoBackends\<close>.
\<close>

theorem single_backend_built:
  assumes "NewGraphQLMiddleware (fe_graphql env) b = Ret m"
  shows "(\<exists>p. defaultFactory_New env (cfg\<lparr>ep_Backend := [b]\<rparr>) = Made (Some p) None) \<and>
    defaultFactory_New env (cfg\<lparr>ep_Backend := []\<rparr>) = Made None (Some ENoBackends)"
proof -
  have step: "\<exists>q. stack x mw = Built q" if "\<exists>p. x = Built p" "accepts_one mw" for x mw
    using that by (auto simp: accepts_one_def)
  have gql: "\<exists>q. stack_run x (NewGraphQLMiddleware (fe_graphql env) b) = Built q" if "\<exists>p. x = Built p" for x
    using that step [of x m] accepts_graphql [OF assms] assms by (auto simp: stack_run_def)
  have conc: "\<exists>q. (if be_ConcurrentCalls b > 1 then
        (case NewConcurrentMiddlewareWithLogger (fe_reparse env) (fe_ctxErr env) (fe_late env) (fe_sched env) b of
           Some m \<Rightarrow> stack x m | None \<Rightarrow> BuildPanic e) else x) = Built q" if "\<exists>p. x = Built p" for x e
    using that by (auto simp: NewConcurrentMiddlewareWithLogger_def)
  have "\<exists>q. newStack env b = Built q"
    unfolding newStack_def Let_def by (intro step gql conc exI) simp_all
  then have "\<exists>q. stack (stack (newSingle env (cfg\<lparr>ep_Backend := [b]\<rparr>)) (NewPluginMiddleware (fe_modifiers env) (cfg\<lparr>ep_Backend := [b]\<rparr>)))
      (NewStaticMiddleware (cfg\<lparr>ep_Backend := [b]\<rparr>)) = Built q"
    by (intro step) (simp_all add: newSingle_def)
  then show ?thesis by (auto simp: defaultFactory_New_def made_of_def)
qed

lemma single_backend_built_witness:
  "\<exists>p. defaultFactory_New sample_fenv (zero_endpoint\<lparr>ep_Backend := [zero_backend]\<rparr>) = Made (Some p) None"
  using single_backend_built [of sample_fenv zero_backend emptyMiddlewareFallback zero_endpoint]
  by (simp add: NewGraphQLMiddleware_def GetOptions_def zero_backend_def)

end
