(* ===== verification/Backoff.thy ===== *)
theory Backoff
  imports Go_Strings
begin

section \<open>Retry backoff strategies (\<open>backoff/backoff.go\<close>)\<close>

text \<open>
  Durations are \<open>int64\<close> nanoseconds, written as \<open>int\<close> with the wrap-around of
  \<open>i64\<close> at every operation.  \<open>random.Intn\<close> is the argument \<open>intn\<close>; where a
  property needs it, its documented contract is a hypothesis: a value in \<open>[0,n)\<close> for \<open>n > 0\<close>.
  \<open>Intn\<close> panics for \<open>n \<le> 0\<close>, and so does the model.
\<close>

definition Second :: int where "Second = 1000000000"
definition Millisecond :: int where "Millisecond = 1000000"

text \<open>\<open>1 << uint(i)\<close> at type \<open>int64\<close>: a negative \<open>i\<close> converts to a huge shift count.\<close>

definition shift1 :: "int \<Rightarrow> int" where
  "shift1 i = (if 0 \<le> i \<and> i < 64 then i64 (2 ^ nat i) else 0)"

definition DefaultBackoffDuration :: int where
  "DefaultBackoffDuration = Second"

definition DefaultBackoff :: "int \<Rightarrow> int run" where
  "DefaultBackoff i = Ret DefaultBackoffDuration"

definition ExponentialBackoff :: "int \<Rightarrow> int run" where
  "ExponentialBackoff i = Ret (i64 (shift1 i * Second))"

definition LinearBackoff :: "int \<Rightarrow> int run" where
  "LinearBackoff i = Ret (i64 (i * Second))"

definition jitter :: "(int \<Rightarrow> int) \<Rightarrow> int \<Rightarrow> int run" where
  "jitter intn i =
     (let ms = i64 (i * 1000);
          maxJitter = i64 (go_div ms 3 + 1);
          n = i64 (2 * maxJitter)
      in if n \<le> 0 then Panic ''invalid argument to Intn''
         else let ms' = i64 (ms + i64 (intn n - maxJitter));
                  ms'' = (if ms' \<le> 0 then 1 else ms')
              in Ret (i64 (ms'' * Millisecond)))"

definition ExponentialJitterBackoff :: "(int \<Rightarrow> int) \<Rightarrow> int \<Rightarrow> int run" where
  "ExponentialJitterBackoff intn i = jitter intn (shift1 i)"

definition LinearJitterBackoff :: "(int \<Rightarrow> int) \<Rightarrow> int \<Rightarrow> int run" where
  "LinearJitterBackoff intn i = jitter intn i"

definition GetByName :: "(int \<Rightarrow> int) \<Rightarrow> string \<Rightarrow> int \<Rightarrow> int run" where
  "GetByName intn strategy =
     (let s = to_lower strategy in
      if s = ''linear'' then LinearBackoff
      else if s = ''linear-jitter'' then LinearJitterBackoff intn
      else if s = ''exponential'' then ExponentialBackoff
      else if s = ''exponential-jitter'' then ExponentialJitterBackoff intn
      else DefaultBackoff)"

subsection \<open>Exponential backoff: exact below the overflow\<close>





subsection \<open>Jitter: bounds\<close>

lemma go_div_pos: "0 \<le> a \<Longrightarrow> 0 < b \<Longrightarrow> go_div a b = a div b"
  by (cases "a = 0") (simp_all add: go_div_def sgn_if)

lemma jitter_exact:
  assumes "0 \<le> i" and "i < 2 ^ 31"
    and intn: "\<forall>n>0. 0 \<le> intn n \<and> intn n < n"
  defines "ms \<equiv> i * 1000"
  shows "jitter intn i =
    Ret (max 1 (ms + (intn (2 * (ms div 3 + 1)) - (ms div 3 + 1))) * Millisecond)"
proof -
  define j where "j = ms div 3 + 1"
  define k where "k = intn (2 * j) - j"
  have ms: "0 \<le> ms" "ms < 2 ^ 41" using assms(1,2) by (auto simp: ms_def)
  then have j: "0 < j" "j \<le> 2 ^ 40" by (auto simp: j_def)
  then have "0 \<le> intn (2 * j)" "intn (2 * j) < 2 * j" using intn by auto
  then have "- j \<le> k" "k \<le> j" unfolding k_def by linarith+
  then have k: "- (2 ^ 40) \<le> k" "k \<le> 2 ^ 40" using j(2) by linarith+
  have "i64 ms = ms" "i64 j = j" "i64 (2 * j) = 2 * j" "i64 k = k" "i64 (ms + k) = ms + k"
    "i64 (max 1 (ms + k) * Millisecond) = max 1 (ms + k) * Millisecond"
    using ms j k by (intro i64_id; simp add: is_i64_def Millisecond_def max_def)+
  moreover have "go_div ms 3 = ms div 3" using ms by (simp add: go_div_pos)
  ultimately show ?thesis using j(1)
    unfolding jitter_def Let_def ms_def [symmetric] j_def [symmetric]
    by (cases "1 \<le> ms + k") (auto simp: j_def [symmetric] k_def [symmetric] max_def)
qed

subsection \<open>Ranges\<close>









text \<open>
  the linear strategy with jitter never panics for sensible retry numbers and waits at least a
  millisecond, and no further from as many seconds as retries than a third of them and a millisecond.
\<close>

theorem linear_jitter_bounds:
  assumes "0 \<le> i" and "i < 2 ^ 31" and "\<forall>n>0. 0 \<le> intn n \<and> intn n < n"
  shows "\<exists>d. LinearJitterBackoff intn i = Ret d \<and> Millisecond \<le> d \<and>
    (1 \<le> i \<longrightarrow> \<bar>d - i * Second\<bar> \<le> (i * 1000 div 3 + 1) * Millisecond)"
proof -
  define ms where "ms = i * 1000"
  define j where "j = ms div 3 + 1"
  define k where "k = intn (2 * j) - j"
  have ms: "0 \<le> ms" using assms(1) by (simp add: ms_def)
  then have "0 < j" by (simp add: j_def)
  then have "0 \<le> intn (2 * j)" "intn (2 * j) < 2 * j" using assms(3) by auto
  then have k: "- j \<le> k" "k \<le> j" unfolding k_def by linarith+
  have run: "LinearJitterBackoff intn i = Ret (max 1 (ms + k) * Millisecond)"
    using jitter_exact [OF assms] by (simp add: LinearJitterBackoff_def ms_def j_def k_def)
  moreover have "\<bar>max 1 (ms + k) * Millisecond - i * Second\<bar> \<le> j * Millisecond" if "1 \<le> i"
  proof -
    have "j \<le> ms - 1" using that by (simp add: j_def ms_def) 
    then have "max 1 (ms + k) = ms + k" using k by simp
    then show ?thesis using k by (simp add: ms_def Second_def Millisecond_def)
  qed
  ultimately show ?thesis by (auto simp: Millisecond_def j_def ms_def)
qed

lemma linear_jitter_bounds_witness:
  "\<exists>d. LinearJitterBackoff (\<lambda>n. n - 1) 3 = Ret d \<and> Millisecond \<le> d \<and> \<bar>d - 3 * Second\<bar> \<le> 1001 * Millisecond"
  using linear_jitter_bounds [of 3 "\<lambda>n. n - 1"] by auto

end
