(* ===== verification/Async.thy ===== *)
theory Async
  imports Factory Backoff
begin

text \<open>
  Starting the asynchronous agents (\<open>async/asyncagent.go\<close>): the pipe of each agent is built by the
  proxy factory and offered to the agent factories in order until one accepts.  The drivers behind
  the factories are third-party code: a factory is a function of its options.  Starting returns the
  trace of the calls of factories, as triples of the agent's position, the factory's position and
  the options.
\<close>

record async_opts =
  ao_Agent :: AsyncAgent
  ao_Endpoint :: EndpointConfig
  ao_Proxy :: "proxy option"
  ao_BackoffF :: "int \<Rightarrow> int run"

type_synonym async_factory = "async_opts \<Rightarrow> bool"

definition ShouldContinue :: "async_opts \<Rightarrow> int \<Rightarrow> bool" where
  "ShouldContinue opts i \<longleftrightarrow> i \<le> cn_MaxRetries (ag_Connection (ao_Agent opts))"

definition MaxInt :: int where "MaxInt = 2 ^ 63 - 1"

definition ErrNoAgents :: gerror where "ErrNoAgents = EText ''no agent factories defined''"

definition default_name :: "nat \<Rightarrow> string" where
  "default_name i = ''AsyncAgent-'' @ (if i < 10 then ''0'' else []) @ show_nat i"

text \<open>The agent as the loop leaves it before its pipe is built.\<close>

definition prepared :: "nat \<Rightarrow> AsyncAgent \<Rightarrow> AsyncAgent" where
  "prepared i agent =
     agent\<lparr>ag_Name := (if ag_Name agent = [] then default_name i else ag_Name agent),
           ag_Backend := map (\<lambda>b. b\<lparr>be_Timeout := cs_Timeout (ag_Consumer agent)\<rparr>) (ag_Backend agent)\<rparr>"

definition pipe_endpoint :: "AsyncAgent \<Rightarrow> EndpointConfig" where
  "pipe_endpoint agent =
     zero_endpoint\<lparr>ep_Endpoint := ag_Name agent, ep_Timeout := cs_Timeout (ag_Consumer agent),
       ep_Backend := ag_Backend agent, ep_ExtraConfig := ag_ExtraConfig agent\<rparr>"

definition with_retries :: "AsyncAgent \<Rightarrow> AsyncAgent" where
  "with_retries agent =
     (if cn_MaxRetries (ag_Connection agent) \<le> 0
      then agent\<lparr>ag_Connection := (ag_Connection agent)\<lparr>cn_MaxRetries := MaxInt\<rparr>\<rparr> else agent)"

definition options_for :: "(int \<Rightarrow> int) \<Rightarrow> AsyncAgent \<Rightarrow> proxy option \<Rightarrow> async_opts" where
  "options_for intn agent p =
     \<lparr>ao_Agent = with_retries agent, ao_Endpoint = pipe_endpoint agent, ao_Proxy = p,
      ao_BackoffF = GetByName intn (cn_BackoffStrategy (ag_Connection agent))\<rparr>"

text \<open>The inner loop: the positions of the factories that are called.\<close>

fun offer :: "async_factory list \<Rightarrow> nat \<Rightarrow> async_opts \<Rightarrow> nat list" where
  "offer [] k opts = []"
| "offer (f # fs) k opts = (if f opts then [k] else k # offer fs (Suc k) opts)"

type_synonym async_trace = "(nat \<times> nat \<times> async_opts) list"

fun start_agents :: "factory \<Rightarrow> (int \<Rightarrow> int) \<Rightarrow> async_factory list \<Rightarrow> nat \<Rightarrow> AsyncAgent list \<Rightarrow>
    (async_trace \<times> AsyncAgent list) run" where
  "start_agents pf intn fs i [] = Ret ([], [])"
| "start_agents pf intn fs i (a # as) =
     (let agent = prepared i a in
      case pf (pipe_endpoint agent) of
        MadeFatal m \<Rightarrow> Panic m
      | MadePanic m \<Rightarrow> Panic m
      | Made p (Some err) \<Rightarrow>
          run_bind (start_agents pf intn fs (Suc i) as) (\<lambda>(tr, as'). Ret (tr, agent # as'))
      | Made p None \<Rightarrow>
          (let opts = options_for intn agent p in
           run_bind (start_agents pf intn fs (Suc i) as) (\<lambda>(tr, as').
             Ret (map (\<lambda>k. (i, k, opts)) (offer fs 0 opts) @ tr, with_retries agent # as'))))"

definition AgentStarter_Start :: "factory \<Rightarrow> (int \<Rightarrow> int) \<Rightarrow> async_factory list \<Rightarrow> AsyncAgent list \<Rightarrow>
    (gerror + async_trace \<times> AsyncAgent list) run" where
  "AgentStarter_Start pf intn fs agents =
     (if fs = [] then Ret (Inl ErrNoAgents)
      else run_bind (start_agents pf intn fs 0 agents) (\<lambda>r. Ret (Inr r)))"

subsection \<open>Who is offered what\<close>

lemma set_offer: "j \<in> set (offer fs k opts) \<longleftrightarrow> (\<exists>n < length fs. j = k + n \<and> (\<forall>m < n. \<not> (fs ! m) opts))"
proof (induction fs k opts rule: offer.induct)
  case (2 f fs k opts)
  have "(\<exists>n < length (f # fs). j = k + n \<and> (\<forall>m < n. \<not> ((f # fs) ! m) opts)) \<longleftrightarrow>
      j = k \<or> (\<not> f opts \<and> (\<exists>n < length fs. j = Suc k + n \<and> (\<forall>m < n. \<not> (fs ! m) opts)))"
    unfolding Ex_less_Suc2 length_Cons All_less_Suc2 by auto
  with 2 show ?case by auto
qed simp

lemma start_agents_trace:
  "start_agents pf intn fs i as = Ret (tr, as') \<Longrightarrow>
   (j, k, opts) \<in> set tr \<longleftrightarrow>
     (\<exists>n < length as. j = i + n \<and>
        (\<exists>p. pf (pipe_endpoint (prepared j (as ! n))) = Made p None \<and> opts = options_for intn (prepared j (as ! n)) p) \<and>
        k \<in> set (offer fs 0 opts))"
proof (induction pf intn fs i as arbitrary: tr as' rule: start_agents.induct)
  case (2 pf intn fs i a as)
  let ?mk = "pf (pipe_endpoint (prepared i a))"
  obtain p err tr0 as0 where mk: "?mk = Made p err"
    and rest: "start_agents pf intn fs (Suc i) as = Ret (tr0, as0)"
    and tr: "tr = (case err of None \<Rightarrow> map (\<lambda>k. (i, k, options_for intn (prepared i a) p))
        (offer fs 0 (options_for intn (prepared i a) p)) | Some _ \<Rightarrow> []) @ tr0"
    using 2(3) by (auto simp: Let_def run_bind_Ret_iff split: made.splits option.splits)
  have IH: "(j, k, opts) \<in> set tr0 \<longleftrightarrow>
     (\<exists>n < length as. j = Suc i + n \<and>
        (\<exists>p. pf (pipe_endpoint (prepared j (as ! n))) = Made p None \<and> opts = options_for intn (prepared j (as ! n)) p) \<and>
        k \<in> set (offer fs 0 opts))"
    using 2(1,2) [OF refl mk] rest by (cases err) auto
  show ?case
    unfolding length_Cons Ex_less_Suc2 tr using mk IH by (cases err) auto
qed simp

lemma start_agents_returns:
  "(\<And>c. \<exists>p e. pf c = Made p e) \<Longrightarrow> \<exists>tr as'. start_agents pf intn fs i as = Ret (tr, as')"
proof (induction as arbitrary: i)
  case (Cons a as)
  obtain tr as' where rest: "start_agents pf intn fs (Suc i) as = Ret (tr, as')" using Cons by blast
  obtain p e where "pf (pipe_endpoint (prepared i a)) = Made p e" using Cons.prems by blast
  with rest show ?case by (cases e) (simp_all add: Let_def)
qed simp

lemma unlimited_retries:
  "cn_MaxRetries (ag_Connection a) \<le> 0 \<Longrightarrow> is_i64 i \<Longrightarrow> ShouldContinue (options_for intn a p) i"
  by (simp add: ShouldContinue_def options_for_def with_retries_def MaxInt_def is_i64_def)

text \<open>
  C34: starting the agents always returns when building a pipe does, and an agent whose pipe fails
  does not keep the others from starting: agent \<open>j\<close> is offered to factory \<open>k\<close> with the options of
  its own pipe exactly when its pipe was built and no factory before \<open>k\<close> accepted it; an agent
  without a limit of retries may retry for ever.
\<close>

theorem agents_offered:
  assumes "\<And>c. \<exists>p e. pf c = Made p e" and "fs \<noteq> []"
  shows "\<exists>tr as'. AgentStarter_Start pf intn fs agents = Ret (Inr (tr, as')) \<and>
    (\<forall>j k opts. (j, k, opts) \<in> set tr \<longleftrightarrow>
       j < length agents \<and> k < length fs \<and>
       (\<exists>p. pf (pipe_endpoint (prepared j (agents ! j))) = Made p None \<and> opts = options_for intn (prepared j (agents ! j)) p) \<and>
       (\<forall>m < k. \<not> (fs ! m) opts)) \<and>
    (\<forall>(j, k, opts) \<in> set tr. cn_MaxRetries (ag_Connection (agents ! j)) \<le> 0 \<longrightarrow> (\<forall>i. is_i64 i \<longrightarrow> ShouldContinue opts i))"
proof -
  obtain tr as' where s: "start_agents pf intn fs 0 agents = Ret (tr, as')"
    using start_agents_returns [of pf, OF assms(1)] by blast
  have trace: "(j, k, opts) \<in> set tr \<longleftrightarrow> j < length agents \<and> k < length fs \<and>
       (\<exists>p. pf (pipe_endpoint (prepared j (agents ! j))) = Made p None \<and> opts = options_for intn (prepared j (agents ! j)) p) \<and>
       (\<forall>m < k. \<not> (fs ! m) opts)" for j k opts
    by (auto simp: start_agents_trace [OF s] set_offer)
  have "ShouldContinue opts i"
    if "(j, k, opts) \<in> set tr" "cn_MaxRetries (ag_Connection (agents ! j)) \<le> 0" "is_i64 i" for j k opts i
    using that trace by (auto simp: prepared_def intro!: unlimited_retries)
  with s trace show ?thesis using assms(2) by (fastforce simp: AgentStarter_Start_def)
qed

definition sample_agent :: AsyncAgent where
  "sample_agent = \<lparr>ag_Name = [], ag_Connection = \<lparr>cn_MaxRetries = 0, cn_BackoffStrategy = [], cn_HealthInterval = 0\<rparr>,
     ag_Consumer = \<lparr>cs_Timeout = 7, cs_Workers = 1, cs_Topic = ''t'', cs_MaxRate = 0\<rparr>, ag_Encoding = [],
     ag_Backend = [zero_backend], ag_ExtraConfig = []\<rparr>"

lemma agents_offered_witness:
  "\<exists>tr as'. AgentStarter_Start (\<lambda>_. Made None None) id [\<lambda>_. False, \<lambda>_. True, \<lambda>_. True] [sample_agent] = Ret (Inr (tr, as')) \<and>
     map (\<lambda>(j, k, opts). (j, k)) tr = [(0, 0), (0, 1)] \<and> (\<forall>k opts. (0, k, opts) \<in> set tr \<longrightarrow> k < 2)"
proof -
  let ?run = "AgentStarter_Start (\<lambda>_. Made None None) id [\<lambda>_. False, \<lambda>_. True, \<lambda>_. True] [sample_agent]"
  obtain tr as' where run: "?run = Ret (Inr (tr, as'))"
    and spec: "\<forall>j k opts. (j, k, opts) \<in> set tr \<longrightarrow> (\<forall>m < k. \<not> ([\<lambda>_. False, \<lambda>_. True, \<lambda>_. True] ! m) opts)"
    using agents_offered [of "\<lambda>_. Made None None" "[\<lambda>_. False, \<lambda>_. True, \<lambda>_. True]" id "[sample_agent]"] by auto
  have "k < 2" if "(0, k, opts) \<in> set tr" for k opts
  proof (rule ccontr)
    assume "\<not> k < 2"
    then have "\<not> ([\<lambda>_. False, \<lambda>_. True, \<lambda>_. True] ! 1) opts" using spec that by (metis not_less Suc_1 Suc_le_lessD One_nat_def)
    then show False by simp
  qed
  moreover have "map (\<lambda>(j, k, opts). (j, k)) tr = [(0, 0), (0, 1)]"
    using run by (auto simp: AgentStarter_Start_def Let_def)
  ultimately show ?thesis using run by (intro exI conjI) auto
qed

end
