(* ===== verification/Plugin_Loaders.thy ===== *)
theory Plugin_Loaders
  imports Plugins
begin

section \<open>The plugin loaders of the three packages\<close>

text \<open>
  \<open>Load\<close> and its helpers in \<open>proxy/plugin/modifier.go\<close>, \<open>transport/http/client/plugin/plugin.go\<close> and
  \<open>transport/http/server/plugin/plugin.go\<close>: each scans a folder and opens every plugin it finds, with
  its own text for a symbol of the wrong type and its own register function.  The file system
  (\<open>read_dir\<close>, \<open>path_join\<close>) and the linker (\<open>opener\<close>) are arguments; the register function works on a
  state of any type, here mostly the register of the package.
\<close>

subsection \<open>Modifiers\<close>

type_synonym modifier_registration = "string \<times> ModifierFactory \<times> bool \<times> bool"
type_synonym 's RegisterModifierFunc = "string \<Rightarrow> ModifierFactory \<Rightarrow> bool \<Rightarrow> bool \<Rightarrow> 's \<Rightarrow> 's"

definition modifier_load ::
  "(string \<Rightarrow> modifier_registration shared_object) \<Rightarrow> string list \<Rightarrow> 's RegisterModifierFunc \<Rightarrow> 's \<Rightarrow>
   (nat \<times> gerror option) \<times> 's" where
  "modifier_load opener plugins rmf =
     plugin_load ''modifier plugin loader: unknown type'' (\<lambda>(name, mf, req, resp). rmf name mf req resp) opener plugins"

definition modifier_Load ::
  "(string \<Rightarrow> gerror + (string \<times> bool) list) \<Rightarrow> (string \<Rightarrow> string \<Rightarrow> string) \<Rightarrow>
   (string \<Rightarrow> modifier_registration shared_object) \<Rightarrow> string \<Rightarrow> string \<Rightarrow> 's RegisterModifierFunc \<Rightarrow> 's \<Rightarrow>
   (nat \<times> gerror option) \<times> 's" where
  "modifier_Load read_dir path_join opener path pattern rmf s =
     (case Scan read_dir path_join path pattern of
        Inl err \<Rightarrow> ((0, Some err), s)
      | Inr plugins \<Rightarrow> modifier_load opener plugins rmf s)"

subsection \<open>Client handlers\<close>

type_synonym client_registration = "string \<times> client_handler"
type_synonym 's RegisterClientFunc = "string \<Rightarrow> client_handler \<Rightarrow> 's \<Rightarrow> 's"

definition client_load ::
  "(string \<Rightarrow> client_registration shared_object) \<Rightarrow> string list \<Rightarrow> 's RegisterClientFunc \<Rightarrow> 's \<Rightarrow>
   (nat \<times> gerror option) \<times> 's" where
  "client_load opener plugins rcf =
     plugin_load ''http-request-executor plugin loader: unknown type'' (\<lambda>(name, handler). rcf name handler) opener plugins"

definition client_Load ::
  "(string \<Rightarrow> gerror + (string \<times> bool) list) \<Rightarrow> (string \<Rightarrow> string \<Rightarrow> string) \<Rightarrow>
   (string \<Rightarrow> client_registration shared_object) \<Rightarrow> string \<Rightarrow> string \<Rightarrow> 's RegisterClientFunc \<Rightarrow> 's \<Rightarrow>
   (nat \<times> gerror option) \<times> 's" where
  "client_Load read_dir path_join opener path pattern rcf s =
     (case Scan read_dir path_join path pattern of
        Inl err \<Rightarrow> ((0, Some err), s)
      | Inr plugins \<Rightarrow> client_load opener plugins rcf s)"

subsection \<open>Server handlers\<close>

type_synonym 'h server_registration = "string \<times> 'h server_handler"
type_synonym ('h, 's) RegisterHandlerFunc = "string \<Rightarrow> 'h server_handler \<Rightarrow> 's \<Rightarrow> 's"

definition server_load ::
  "(string \<Rightarrow> 'h server_registration shared_object) \<Rightarrow> string list \<Rightarrow> ('h, 's) RegisterHandlerFunc \<Rightarrow> 's \<Rightarrow>
   (nat \<times> gerror option) \<times> 's" where
  "server_load opener plugins rcf =
     plugin_load ''http-server-handler plugin loader: unknown type'' (\<lambda>(name, handler). rcf name handler) opener plugins"

definition server_Load ::
  "(string \<Rightarrow> gerror + (string \<times> bool) list) \<Rightarrow> (string \<Rightarrow> string \<Rightarrow> string) \<Rightarrow>
   (string \<Rightarrow> 'h server_registration shared_object) \<Rightarrow> string \<Rightarrow> string \<Rightarrow> ('h, 's) RegisterHandlerFunc \<Rightarrow> 's \<Rightarrow>
   (nat \<times> gerror option) \<times> 's" where
  "server_Load read_dir path_join opener path pattern rcf s =
     (case Scan read_dir path_join path pattern of
        Inl err \<Rightarrow> ((0, Some err), s)
      | Inr plugins \<Rightarrow> server_load opener plugins rcf s)"

subsection \<open>What a folder of plugins leaves in the registers\<close>

text \<open>The plugins of a folder: the files, not folders, whose names contain the pattern.\<close>

definition plugin_paths :: "(string \<Rightarrow> string \<Rightarrow> string) \<Rightarrow> string \<Rightarrow> string \<Rightarrow> (string \<times> bool) list \<Rightarrow> string list" where
  "plugin_paths path_join path pattern files =
     [path_join path name. (name, isDir) \<leftarrow> files, \<not> isDir, sublist pattern name]"

text \<open>The last registration a predicate accepts.\<close>

definition last_where :: "('a \<Rightarrow> bool) \<Rightarrow> 'a list \<Rightarrow> 'a option" where
  "last_where P xs = (if filter P xs = [] then None else Some (last (filter P xs)))"

lemma last_where_snoc: "last_where P (xs @ [x]) = (if P x then Some x else last_where P xs)"
  by (simp add: last_where_def)

lemma last_where_Nil [simp]: "last_where P [] = None"
  by (simp add: last_where_def)

text \<open>A fold of updates, seen through a lookup, is the last update that lookup sees.\<close>

lemma fold_lookup_last:
  assumes "\<And>r s. look (upd r s) = (if P r then f r else look s)"
  shows "look (fold upd rs s) = (case last_where P rs of None \<Rightarrow> look s | Some r \<Rightarrow> f r)"
  by (induction rs rule: rev_induct) (simp_all add: last_where_snoc assms)

lemma Scan_paths:
  assumes "read_dir path = Inr files"
  shows "Scan read_dir path_join path pattern = Inr (plugin_paths path_join path pattern files)"
proof -
  have "map (\<lambda>(name, isDir). path_join path name) (filter (\<lambda>(name, isDir). \<not> isDir \<and> sublist pattern name) files) =
      plugin_paths path_join path pattern files"
    by (induction files) (auto simp: plugin_paths_def split: if_splits)
  with assms show ?thesis by (simp add: Scan_def)
qed

lemma plugin_load_state:
  "snd (plugin_load unknown register opener plugins s) =
     fold register (concat (map (\<lambda>p. components (opener p)) plugins)) s"
proof -
  obtain n errs s' where run: "load_loop unknown register opener 0 plugins s = (n, errs, s')"
    using prod_cases3 by blast
  show ?thesis using load_loop_spec [OF run] run by (simp add: plugin_load_def)
qed

lemma RegisterModifier_seen:
  "GetRequestModifier (case r of (nm, mf, rq, rs) \<Rightarrow> RegisterModifier nm mf rq rs reg) name =
     (if (case r of (nm, mf, rq, rs) \<Rightarrow> rq \<and> nm = name) then Some (fst (snd r)) else GetRequestModifier reg name)"
  "GetResponseModifier (case r of (nm, mf, rq, rs) \<Rightarrow> RegisterModifier nm mf rq rs reg) name =
     (if (case r of (nm, mf, rq, rs) \<Rightarrow> rs \<and> nm = name) then Some (fst (snd r)) else GetResponseModifier reg name)"
  by (auto simp: GetRequestModifier_def GetResponseModifier_def RegisterModifier_def getModifier_lookup
      Namespaced_Register_store namespaced_reg.lookup_store Let_def split: prod.splits)

text \<open>
  a folder of modifier plugins, whatever some of them do: afterwards a name gives, for each side, the
  factory that the last registration for that side has under the name, also one of a plugin that panicked
  later, and what was registered before where there is none.
\<close>

theorem loaded_modifiers:
  assumes "read_dir path = Inr files"
    and "rs = concat (map (\<lambda>p. components (opener p)) (plugin_paths path_join path pattern files))"
    and "modifier_Load read_dir path_join opener path pattern RegisterModifier reg = (res, reg')"
  shows "GetRequestModifier reg' name =
      (case last_where (\<lambda>(nm, mf, rq, rsp). rq \<and> nm = name) rs of
         None \<Rightarrow> GetRequestModifier reg name | Some r \<Rightarrow> Some (fst (snd r))) \<and>
    GetResponseModifier reg' name =
      (case last_where (\<lambda>(nm, mf, rq, rsp). rsp \<and> nm = name) rs of
         None \<Rightarrow> GetResponseModifier reg name | Some r \<Rightarrow> Some (fst (snd r)))"
proof -
  let ?upd = "\<lambda>(nm, mf, rq, rsp). RegisterModifier nm mf rq rsp"
  have reg': "reg' = fold ?upd rs reg"
    using assms(3) plugin_load_state [of _ ?upd opener] assms(2)
    by (simp add: modifier_Load_def modifier_load_def Scan_paths [of read_dir, OF assms(1)]) (metis snd_conv)
  have "GetRequestModifier (fold ?upd rs reg) name =
      (case last_where (\<lambda>(nm, mf, rq, rsp). rq \<and> nm = name) rs of
         None \<Rightarrow> GetRequestModifier reg name | Some r \<Rightarrow> Some (fst (snd r)))"
    by (rule fold_lookup_last) (use RegisterModifier_seen(1) in \<open>simp add: split_beta\<close>)
  moreover have "GetResponseModifier (fold ?upd rs reg) name =
      (case last_where (\<lambda>(nm, mf, rq, rsp). rsp \<and> nm = name) rs of
         None \<Rightarrow> GetResponseModifier reg name | Some r \<Rightarrow> Some (fst (snd r)))"
    by (rule fold_lookup_last) (use RegisterModifier_seen(2) in \<open>simp add: split_beta\<close>)
  ultimately show ?thesis by (simp add: reg')
qed

definition sample_folder :: "string \<Rightarrow> gerror + (string \<times> bool) list" where
  "sample_folder folder = Inr [(''a.so'', False), (''b.so'', False), (''c.so'', True)]"

definition sample_opener :: "string \<Rightarrow> modifier_registration shared_object" where
  "sample_opener p =
     (if p = ''p/a.so'' then Registers [(''m'', \<lambda>cfg. None, True, False)]
      else RegistersAndPanics [(''m'', \<lambda>cfg. Some (\<lambda>w. Ret (Inr w)), True, False)] ''boom'')"

lemma loaded_modifiers_witness:
  "GetRequestModifier (snd (modifier_Load sample_folder (\<lambda>d f. d @ ''/'' @ f) sample_opener ''p'' ''.so'' RegisterModifier
     Namespaced_New)) ''m'' = Some (\<lambda>cfg. Some (\<lambda>w. Ret (Inr w)))"
proof -
  let ?fs = "[(''a.so'', False), (''b.so'', False), (''c.so'', True)]"
  let ?rs = "concat (map (\<lambda>p. components (sample_opener p)) (plugin_paths (\<lambda>d f. d @ ''/'' @ f) ''p'' ''.so'' ?fs))"
  have rs: "?rs = [(''m'', \<lambda>cfg. None, True, False), (''m'', \<lambda>cfg. Some (\<lambda>w. Ret (Inr w)), True, False)]"
    by (simp add: plugin_paths_def sample_opener_def sublist_code)
  obtain res reg' where run: "modifier_Load sample_folder (\<lambda>d f. d @ ''/'' @ f) sample_opener ''p'' ''.so'' RegisterModifier
     Namespaced_New = (res, reg')" by fastforce
  have "sample_folder ''p'' = Inr ?fs" by (simp add: sample_folder_def)
  from loaded_modifiers [OF this refl run, THEN conjunct1, of "''m''"]
  have "GetRequestModifier reg' ''m'' = Some (\<lambda>cfg. Some (\<lambda>w. Ret (Inr w)))"
    unfolding rs by (simp add: last_where_def)
  with run show ?thesis by simp
qed

end
