(* ===== verification/Router_Common.thy ===== *)
theory Router_Common
  imports Http_Proxy
begin

section \<open>What the router adapters share\<close>

text \<open>
  The request a client sends, the request the adapters build from it (\<open>NewRequestBuilder\<close> of
  \<open>router/mux/endpoint.go\<close> and \<open>NewRequest\<close> of \<open>router/gin/endpoint.go\<close> fill headers and query
  alike), the header values of \<open>transport/http/server\<close> and \<open>core\<close>, and the status an error has.
\<close>

subsection \<open>Client requests\<close>

record http_in =
  hiMethod :: string
  hiPath :: string
  hiRawQuery :: string
  hiHeader :: "(string, string list) gomap"
  hiHost :: string
  hiRemoteAddr :: string
  hiBody :: "string option"

definition KrakendHeaderName :: string where "KrakendHeaderName = ''X-KRAKEND''"
definition KrakendVersion :: string where "KrakendVersion = ''undefined''"
definition KrakendHeaderValue :: string where "KrakendHeaderValue = ''Version '' @ KrakendVersion"
definition KrakendUserAgent :: string where "KrakendUserAgent = ''KrakenD Version '' @ KrakendVersion"

definition CompleteResponseHeaderName :: string where "CompleteResponseHeaderName = ''X-Krakend-Completed''"
definition HeaderCompleteResponseValue :: string where "HeaderCompleteResponseValue = ''true''"
definition HeaderIncompleteResponseValue :: string where "HeaderIncompleteResponseValue = ''false''"
definition HeadersToSend :: "string list" where "HeadersToSend = [''Content-Type'']"
definition UserAgentHeaderValue :: "string list" where "UserAgentHeaderValue = [KrakendUserAgent]"
definition requestParamsAsterisk :: string where "requestParamsAsterisk = ''*''"

definition DefaultToHTTPError :: "gerror \<Rightarrow> int" where "DefaultToHTTPError e = 500"

subsection \<open>Headers and query of the request built\<close>

fun send_headers ::
  "(string, string list) gomap \<Rightarrow> string list \<Rightarrow> (string, string list) gomap \<Rightarrow> (string, string list) gomap" where
  "send_headers hs [] acc = acc"
| "send_headers hs (k # ks) acc =
     (if k = requestParamsAsterisk then hs
      else send_headers hs ks
        (case map_of hs (CanonicalMIMEHeaderKey k) of Some h \<Rightarrow> go_put k h acc | None \<Rightarrow> acc))"

definition forwarded_headers ::
  "string \<Rightarrow> string \<Rightarrow> (string, string list) gomap \<Rightarrow> (string, string list) gomap" where
  "forwarded_headers ip host hs =
     (let hs = go_put ''X-Forwarded-Host'' [host] (go_put ''X-Forwarded-For'' [ip] hs)
      in if map_of hs ''User-Agent'' = None then go_put ''User-Agent'' UserAgentHeaderValue hs
         else go_put ''X-Forwarded-Via'' UserAgentHeaderValue hs)"

fun send_query :: "url_values \<Rightarrow> string list \<Rightarrow> url_values \<Rightarrow> url_values" where
  "send_query qv [] acc = acc"
| "send_query qv (k # ks) acc =
     (if k = requestParamsAsterisk then qv
      else send_query qv ks
        (case map_of qv k of Some v \<Rightarrow> (if v \<noteq> [] then go_put k v acc else acc) | None \<Rightarrow> acc))"

definition request_from :: "string \<Rightarrow> (string, string) gomap \<Rightarrow> http_in \<Rightarrow> string list \<Rightarrow> string list \<Rightarrow> request" where
  "request_from ip params r queryString headersToSend =
     \<lparr>rMethod = hiMethod r, rURL = None, rQuery = Some (send_query (ParseQuery (hiRawQuery r)) queryString []),
      rPath = hiPath r, rBody = hiBody r, rParams = Some params,
      rHeaders = Some (forwarded_headers ip (hiHost r) (send_headers (hiHeader r) headersToSend []))\<rparr>"

subsection \<open>Errors\<close>

text \<open>The errors with a \<open>StatusCode\<close> method, and their encoding.\<close>

fun error_status :: "gerror \<Rightarrow> int option" where
  "error_status (EHTTPResponse code msg enc) = Some code"
| "error_status (ENamedHTTPResponse code msg enc name) = Some code"
| "error_status (EStatus code msg) = Some code"
| "error_status _ = None"

fun error_encoding :: "gerror \<Rightarrow> string option" where
  "error_encoding (EHTTPResponse code msg enc) = Some enc"
| "error_encoding (ENamedHTTPResponse code msg enc name) = Some enc"
| "error_encoding _ = None"

definition status_for :: "(gerror \<Rightarrow> int) \<Rightarrow> gerror \<Rightarrow> int" where
  "status_for errF err = (case error_status err of Some c \<Rightarrow> c | None \<Rightarrow> errF err)"

text \<open>A context that is done turns a missing error into the internal one.\<close>

definition ctx_error :: "bool \<Rightarrow> gerror option \<Rightarrow> gerror option" where
  "ctx_error don err = (if don \<and> err = None then Some EInternal else err)"

subsection \<open>Facts\<close>

lemma map_of_send_headers:
  "requestParamsAsterisk \<notin> set ks \<Longrightarrow>
   map_of (send_headers hs ks acc) k =
     (if k \<in> set ks \<and> map_of hs (CanonicalMIMEHeaderKey k) \<noteq> None then map_of hs (CanonicalMIMEHeaderKey k) else map_of acc k)"
  by (induction hs ks acc rule: send_headers.induct) (auto simp: go_map_simps split: option.splits)

lemma map_of_send_query:
  "requestParamsAsterisk \<notin> set ks \<Longrightarrow>
   map_of (send_query qv ks acc) k =
     (if k \<in> set ks \<and> values_of qv k \<noteq> [] then map_of qv k else map_of acc k)"
  by (induction qv ks acc rule: send_query.induct) (auto simp: go_map_simps values_of_def split: option.splits)

definition router_header :: "string \<Rightarrow> bool" where
  "router_header k \<longleftrightarrow> k \<in> {''X-Forwarded-For'', ''X-Forwarded-Host'', ''X-Forwarded-Via'', ''User-Agent''}"

lemma map_of_forwarded:
  "\<not> router_header k \<Longrightarrow> map_of (forwarded_headers ip host hs) k = map_of hs k"
  by (auto simp: forwarded_headers_def router_header_def go_map_simps Let_def)

lemma request_from_spec:
  assumes "requestParamsAsterisk \<notin> set headersToSend" and "requestParamsAsterisk \<notin> set queryString"
    and "\<forall>k \<in> set headersToSend. CanonicalMIMEHeaderKey k = k"
  shows "let req = request_from ip params r queryString headersToSend;
      hs = map_of (entries (rHeaders req)) in
    (\<forall>k. \<not> router_header k \<longrightarrow> hs k = (map_of (hiHeader r) |` set headersToSend) k) \<and>
    hs ''X-Forwarded-For'' = Some [ip] \<and> hs ''X-Forwarded-Host'' = Some [hiHost r] \<and>
    hs ''User-Agent'' =
      (case (map_of (hiHeader r) |` set headersToSend) ''User-Agent'' of
         Some ua \<Rightarrow> Some ua | None \<Rightarrow> Some UserAgentHeaderValue) \<and>
    (\<forall>k. values_of (entries (rQuery req)) k = (if k \<in> set queryString then values_of (ParseQuery (hiRawQuery r)) k else []))"
proof -
  let ?hs = "send_headers (hiHeader r) headersToSend []"
  have sent: "map_of ?hs = map_of (hiHeader r) |` set headersToSend"
    using assms(1,3) by (intro ext) (auto simp: map_of_send_headers restrict_map_def)
  have q: "values_of (send_query (ParseQuery (hiRawQuery r)) queryString []) k =
      (if k \<in> set queryString then values_of (ParseQuery (hiRawQuery r)) k else [])" for k
    using assms(2) by (auto simp: values_of_def map_of_send_query)
  have ua: "map_of (forwarded_headers ip (hiHost r) ?hs) ''User-Agent'' =
      (case map_of ?hs ''User-Agent'' of Some ua \<Rightarrow> Some ua | None \<Rightarrow> Some UserAgentHeaderValue)"
    by (auto simp: forwarded_headers_def go_map_simps Let_def split: option.split)
  have fw: "map_of (forwarded_headers ip (hiHost r) ?hs) ''X-Forwarded-For'' = Some [ip]"
      "map_of (forwarded_headers ip (hiHost r) ?hs) ''X-Forwarded-Host'' = Some [hiHost r]"
    by (auto simp: forwarded_headers_def go_map_simps Let_def)
  show ?thesis
    unfolding Let_def request_from_def using map_of_forwarded sent q ua fw by simp
qed

text \<open>
  the request an adapter builds passes on exactly the configured headers and query parameters the client sent, adds
  its forwarding headers and always names a user agent: the client's when it is forwarded, the gateway's otherwise.
\<close>

theorem request_built:
  assumes "requestParamsAsterisk \<notin> set headersToSend" and "requestParamsAsterisk \<notin> set queryString"
    and "\<forall>k \<in> set headersToSend. CanonicalMIMEHeaderKey k = k"
  shows "let req = request_from ip params r queryString headersToSend;
      hs = map_of (entries (rHeaders req)) in
    (\<forall>k. \<not> router_header k \<longrightarrow> hs k = (map_of (hiHeader r) |` set headersToSend) k) \<and>
    hs ''X-Forwarded-For'' = Some [ip] \<and> hs ''X-Forwarded-Host'' = Some [hiHost r] \<and>
    hs ''User-Agent'' =
      (case (map_of (hiHeader r) |` set headersToSend) ''User-Agent'' of
         Some ua \<Rightarrow> Some ua | None \<Rightarrow> Some UserAgentHeaderValue) \<and>
    (\<forall>k. values_of (entries (rQuery req)) k = (if k \<in> set queryString then values_of (ParseQuery (hiRawQuery r)) k else []))"
  by (rule request_from_spec [OF assms])

definition sample_in :: http_in where
  "sample_in = \<lparr>hiMethod = ''GET'', hiPath = ''/u/1'', hiRawQuery = ''a=1&b=2'', hiHeader = [(''Accept'', [''x'']), (''Cookie'', [''s''])],
     hiHost = ''gw'', hiRemoteAddr = ''10.0.0.1:5'', hiBody = None\<rparr>"

lemma request_built_witness:
  "map_of (entries (rHeaders (request_from ''10.0.0.1'' [] sample_in [''b''] [''Accept'']))) ''Cookie'' = None \<and>
   values_of (entries (rQuery (request_from ''10.0.0.1'' [] sample_in [''b''] [''Accept'']))) ''a'' = []"
proof -
  have "\<forall>k \<in> set [''Accept'']. CanonicalMIMEHeaderKey k = k" by code_simp
  moreover have "\<not> router_header ''Cookie''" by (simp add: router_header_def)
  ultimately show ?thesis
    using request_built [of "[''Accept'']" "[''b'']" "''10.0.0.1''" "[]" sample_in]
    by (simp add: Let_def requestParamsAsterisk_def restrict_map_def)
qed

end
