(* ===== verification/Router_Mux.thy ===== *)
theory Router_Mux
  imports Router_Common Factory
begin

section \<open>The net/http adapter (\<open>router/mux/\<close>)\<close>

text \<open>
  The response writer, the renders and their register, the endpoint handler, the engine, and the
  registration of a configuration's endpoints.  The adapters for chi, gorilla and httptreemux are this
  one with another parameter extractor and engine.  \<open>json.Marshal\<close>, \<open>net.SplitHostPort\<close> and the
  pattern matching of the multiplexers are arguments.
\<close>

subsection \<open>The response writer\<close>

text \<open>
  Headers may be changed until the status is written; the first status counts, and an informational one is
  sent at once and does not count.  With the interceptor of the engine
  on top, the first explicit status other than 200 marks the response as incomplete.
\<close>

record writer =
  wHeader :: "(string, string list) gomap"
  wSent :: "(int \<times> (string, string list) gomap) option"
  wBody :: string
  wIntercept :: bool

definition new_writer :: "bool \<Rightarrow> writer" where
  "new_writer intercept = \<lparr>wHeader = [], wSent = None, wBody = [], wIntercept = intercept\<rparr>"

definition Header_Set :: "string \<Rightarrow> string \<Rightarrow> writer \<Rightarrow> writer" where
  "Header_Set k v w = w\<lparr>wHeader := go_put (CanonicalMIMEHeaderKey k) [v] (wHeader w)\<rparr>"

definition Header_Add :: "string \<Rightarrow> string \<Rightarrow> writer \<Rightarrow> writer" where
  "Header_Add k v w = w\<lparr>wHeader := Values_Add (CanonicalMIMEHeaderKey k) v (wHeader w)\<rparr>"

fun add_all :: "(string, string list) gomap \<Rightarrow> writer \<Rightarrow> writer" where
  "add_all [] w = w"
| "add_all ((k, vs) # hs) w = add_all hs (fold (Header_Add k) vs w)"

definition intercept_status :: "int \<Rightarrow> writer \<Rightarrow> writer" where
  "intercept_status code w =
     (if wIntercept w then
        (let w' = w\<lparr>wIntercept := False\<rparr>
         in if code \<noteq> 200 then Header_Set CompleteResponseHeaderName HeaderIncompleteResponseValue w' else w')
      else w)"

definition WriteHeader :: "int \<Rightarrow> writer \<Rightarrow> writer run" where
  "WriteHeader code w =
     (let w' = intercept_status code w in
      if wSent w' \<noteq> None then Ret w'
      else if code < 100 \<or> code > 999 then Panic ''invalid WriteHeader code''
      else if code < 200 \<and> code \<noteq> 101 then Ret w'
      else Ret (w'\<lparr>wSent := Some (code, wHeader w')\<rparr>))"

definition Write :: "string \<Rightarrow> writer \<Rightarrow> writer" where
  "Write bytes w =
     (let w' = (if wSent w = None then w\<lparr>wSent := Some (200, wHeader w)\<rparr> else w) in w'\<lparr>wBody := wBody w' @ bytes\<rparr>)"

text \<open>\<open>http.Error\<close> drops the content length, names the type and writes status and message.\<close>

definition Header_Del :: "string \<Rightarrow> writer \<Rightarrow> writer" where
  "Header_Del k w = w\<lparr>wHeader := go_del (CanonicalMIMEHeaderKey k) (wHeader w)\<rparr>"

definition http_Error :: "string \<Rightarrow> int \<Rightarrow> writer \<Rightarrow> writer run" where
  "http_Error msg code w =
     run_bind (WriteHeader code (Header_Set ''X-Content-Type-Options'' ''nosniff''
                 (Header_Set ''Content-Type'' ''text/plain; charset=utf-8''
                   (Header_Del ''Content-Length'' w))))
       (\<lambda>w'. Ret (Write (msg @ [CHR 0x0A]) w'))"

text \<open>What the client gets: status, headers and body.\<close>

definition sent :: "writer \<Rightarrow> int \<times> (string, string list) gomap \<times> string" where
  "sent w = (case wSent w of Some (code, hs) \<Rightarrow> (code, hs, wBody w) | None \<Rightarrow> (200, wHeader w, wBody w))"

subsection \<open>Renders\<close>

type_synonym render = "response option \<Rightarrow> writer \<Rightarrow> writer run"
type_synonym marshal = "json \<Rightarrow> gerror + string"

definition data_value :: "response \<Rightarrow> json" where
  "data_value r = (case Data r of None \<Rightarrow> JNull | Some m \<Rightarrow> JObj m)"

definition write_json :: "marshal \<Rightarrow> json \<Rightarrow> writer \<Rightarrow> writer run" where
  "write_json marshal v w =
     (case marshal v of
        Inl err \<Rightarrow> http_Error (error_msg err) 500 w
      | Inr js \<Rightarrow> Ret (Write js w))"

definition jsonRender :: "marshal \<Rightarrow> render" where
  "jsonRender marshal response w =
     (let w = Header_Set ''Content-Type'' ''application/json'' w in
      case response of None \<Rightarrow> Ret (Write ''{}'' w) | Some r \<Rightarrow> write_json marshal (data_value r) w)"

definition jsonCollectionRender :: "marshal \<Rightarrow> render" where
  "jsonCollectionRender marshal response w =
     (let w = Header_Set ''Content-Type'' ''application/json'' w in
      case response of
        None \<Rightarrow> Ret (Write ''[]'' w)
      | Some r \<Rightarrow> (case map_of (entries (Data r)) ''collection'' of
                     None \<Rightarrow> Ret (Write ''[]'' w)
                   | Some col \<Rightarrow> write_json marshal col w))"

definition stringRender :: render where
  "stringRender response w =
     (let w = Header_Set ''Content-Type'' ''text/plain'' w in
      case response of
        None \<Rightarrow> Ret (Write [] w)
      | Some r \<Rightarrow> (case get_as as_str (entries (Data r)) ''content'' of
                     None \<Rightarrow> Ret (Write [] w)
                   | Some msg \<Rightarrow> Ret (Write msg w)))"

definition noopRender :: render where
  "noopRender response w =
     (case response of
        None \<Rightarrow> http_Error [] 500 w
      | Some r \<Rightarrow>
          (let w = add_all (Headers (Metadata r)) w in
           run_bind (if StatusCode (Metadata r) \<noteq> 0 then WriteHeader (StatusCode (Metadata r)) w else Ret w)
             (\<lambda>w. Ret (case Io r of None \<Rightarrow> w | Some bytes \<Rightarrow> Write bytes w))))"

type_synonym renderRegister = "(string, render) gomap"

definition initRenderRegister :: "marshal \<Rightarrow> renderRegister" where
  "initRenderRegister marshal =
     [(STRING, stringRender), (JSON, jsonRender marshal), (NOOP, noopRender),
      (''json-collection'', jsonCollectionRender marshal)]"

definition RegisterRender :: "string \<Rightarrow> render \<Rightarrow> renderRegister \<Rightarrow> renderRegister" where
  "RegisterRender name r reg = go_put name r reg"

definition getWithFallback :: "renderRegister \<Rightarrow> string \<Rightarrow> render \<Rightarrow> render" where
  "getWithFallback reg key fallback = (case map_of reg key of None \<Rightarrow> fallback | Some r \<Rightarrow> r)"

definition getRender :: "marshal \<Rightarrow> renderRegister \<Rightarrow> EndpointConfig \<Rightarrow> render" where
  "getRender marshal reg cfg =
     (let fallback = (case ep_Backend cfg of
            [b] \<Rightarrow> getWithFallback reg (be_Encoding b) (jsonRender marshal) | _ \<Rightarrow> jsonRender marshal)
      in if ep_OutputEncoding cfg = [] then fallback else getWithFallback reg (ep_OutputEncoding cfg) fallback)"

subsection \<open>The request builder\<close>

definition is_blank :: "char \<Rightarrow> bool" where
  "is_blank c \<longleftrightarrow> c \<in> {CHR '' '', CHR 0x09, CHR 0x0A, CHR 0x0B, CHR 0x0C, CHR 0x0D}"

text \<open>\<open>strings.TrimSpace\<close> on ASCII text.\<close>

definition trim_space :: "string \<Rightarrow> string" where
  "trim_space s = rev (dropWhile is_blank (rev (dropWhile is_blank s)))"

definition clientIP :: "(string \<Rightarrow> string option) \<Rightarrow> http_in \<Rightarrow> string" where
  "clientIP split_host_port r =
     (let h = header_get (hiHeader r);
          ip = trim_space (hd (split_on CHR '','' (h ''X-Forwarded-For'')));
          ip = (if ip = [] then trim_space (h ''X-Real-Ip'') else ip)
      in if ip \<noteq> [] then ip
         else if h ''X-Appengine-Remote-Addr'' \<noteq> [] then h ''X-Appengine-Remote-Addr''
         else (case split_host_port (trim_space (hiRemoteAddr r)) of Some host \<Rightarrow> host | None \<Rightarrow> []))"

type_synonym param_extractor = "http_in \<Rightarrow> (string, string) gomap"
type_synonym request_builder = "http_in \<Rightarrow> string list \<Rightarrow> string list \<Rightarrow> request"

definition NoopParamExtractor :: param_extractor where
  "NoopParamExtractor r = []"

definition NewRequestBuilder :: "(string \<Rightarrow> string option) \<Rightarrow> param_extractor \<Rightarrow> request_builder" where
  "NewRequestBuilder split_host_port extract r queryString headersToSend =
     request_from (clientIP split_host_port r) (extract r) r queryString headersToSend"

text \<open>The extractors of the adapters: \<open>vars\<close> is what the router library found in the path.\<close>

definition chi_params :: "(string \<Rightarrow> string) \<Rightarrow> (http_in \<Rightarrow> (string \<times> string) list) \<Rightarrow> param_extractor" where
  "chi_params title vars r = put_all (map (\<lambda>(k, v). (title (take 1 k) @ drop 1 k, v)) (vars r)) []"

definition titled_params :: "(string \<Rightarrow> string) \<Rightarrow> (http_in \<Rightarrow> (string \<times> string) list) \<Rightarrow> param_extractor" where
  "titled_params title vars r = put_all (map (\<lambda>(k, v). (title k, v)) (vars r)) []"

subsection \<open>The endpoint handler\<close>

type_synonym handler = "http_in \<Rightarrow> writer \<Rightarrow> writer run"

text \<open>\<open>CacheTTL.Seconds()\<close>, truncated.\<close>

definition cache_seconds :: "int \<Rightarrow> int" where
  "cache_seconds ttl = go_div ttl 1000000000"

definition has_data :: "response option \<Rightarrow> bool" where
  "has_data response = (case response of None \<Rightarrow> False | Some r \<Rightarrow> entries (Data r) \<noteq> [])"

definition mark_complete :: "EndpointConfig \<Rightarrow> response \<Rightarrow> writer \<Rightarrow> writer" where
  "mark_complete cfg r w =
     (if IsComplete r then
        (let w = Header_Set CompleteResponseHeaderName HeaderCompleteResponseValue w in
         if ep_CacheTTL cfg \<noteq> 0
         then Header_Set ''Cache-Control'' (''public, max-age='' @ show_int (cache_seconds (ep_CacheTTL cfg))) w else w)
      else Header_Set CompleteResponseHeaderName HeaderIncompleteResponseValue w)"

text \<open>\<open>don\<close>: whether the request's context is done when the proxy has returned.\<close>

definition respond ::
  "(gerror \<Rightarrow> int) \<Rightarrow> render \<Rightarrow> EndpointConfig \<Rightarrow> response option \<Rightarrow> gerror option \<Rightarrow> writer \<Rightarrow> writer run" where
  "respond errF rnd cfg response err w =
     (case response of
        Some r \<Rightarrow>
          (if entries (Data r) \<noteq> [] then rnd response (add_all (Headers (Metadata r)) (mark_complete cfg r w))
           else (let w = Header_Set CompleteResponseHeaderName HeaderIncompleteResponseValue w in
                 case err of
                   Some e \<Rightarrow> http_Error (error_msg e) (status_for errF e) w
                 | None \<Rightarrow> rnd response w))
      | None \<Rightarrow>
          (let w = Header_Set CompleteResponseHeaderName HeaderIncompleteResponseValue w in
           case err of
             Some e \<Rightarrow> http_Error (error_msg e) (status_for errF e) w
           | None \<Rightarrow> rnd response w))"

definition endpoint_headers :: "EndpointConfig \<Rightarrow> string list" where
  "endpoint_headers cfg = (if ep_HeadersToPass cfg = [] then HeadersToSend else ep_HeadersToPass cfg)"

definition CustomEndpointHandlerWithHTTPError ::
  "request_builder \<Rightarrow> (gerror \<Rightarrow> int) \<Rightarrow> render \<Rightarrow> bool \<Rightarrow> EndpointConfig \<Rightarrow> proxy \<Rightarrow> handler" where
  "CustomEndpointHandlerWithHTTPError rb errF rnd don cfg prxy r w =
     (let w = Header_Set KrakendHeaderName KrakendHeaderValue w in
      if hiMethod r \<noteq> to_upper (ep_Method cfg)
      then http_Error [] 405 (Header_Set CompleteResponseHeaderName HeaderIncompleteResponseValue w)
      else (case prxy (rb r (ep_QueryString cfg) (endpoint_headers cfg)) of
              PPanic e \<Rightarrow> Panic e
            | PRet response err _ \<Rightarrow> respond errF rnd cfg response (ctx_error don err) w))"

subsection \<open>The engine\<close>

type_synonym engine = "handler namespaced"

definition DefaultEngine :: engine where
  "DefaultEngine = Namespaced_New"

definition engine_Handle :: "engine \<Rightarrow> string \<Rightarrow> string \<Rightarrow> handler \<Rightarrow> engine" where
  "engine_Handle e pattern method h =
     (let e = (if map_of e pattern = None then go_put pattern [] e else e)
      in go_put pattern (go_put method h (case map_of e pattern of Some d \<Rightarrow> d | None \<Rightarrow> [])) e)"

definition engine_lookup :: "engine \<Rightarrow> string \<times> string \<Rightarrow> handler option" where
  "engine_lookup e pm = Option.bind (map_of e (fst pm)) (\<lambda>d. map_of d (snd pm))"

definition registrableHandler :: "engine \<Rightarrow> string \<Rightarrow> handler" where
  "registrableHandler e pattern req rw =
     (case engine_lookup e (pattern, hiMethod req) of
        Some h \<Rightarrow> h req rw
      | None \<Rightarrow> http_Error [] 405 (Header_Set CompleteResponseHeaderName HeaderIncompleteResponseValue rw))"

text \<open>\<open>match\<close>: the pattern of the registered ones the multiplexer chooses, or its own not found answer.\<close>

definition ServeHTTP :: "(string list \<Rightarrow> http_in \<Rightarrow> string option) \<Rightarrow> engine \<Rightarrow> http_in \<Rightarrow> writer run" where
  "ServeHTTP match e r =
     (case match (map fst e) r of
        Some pattern \<Rightarrow> registrableHandler e pattern r (new_writer True)
      | None \<Rightarrow> http_Error ''404 page not found'' 404 (new_writer True))"

subsection \<open>Registration\<close>

definition router_methods :: "string list" where
  "router_methods = [''GET'', ''POST'', ''PUT'', ''PATCH'', ''DELETE'']"

definition all_methods :: "string list" where
  "all_methods = [''GET'', ''POST'', ''PUT'', ''PATCH'', ''DELETE'', ''HEAD'', ''OPTIONS'', ''CONNECT'', ''TRACE'']"

definition IsValidSequentialEndpoint :: "EndpointConfig \<Rightarrow> bool" where
  "IsValidSequentialEndpoint e = True"

definition registerKrakendEndpoint :: "string \<Rightarrow> EndpointConfig \<Rightarrow> handler \<Rightarrow> nat \<Rightarrow> engine \<Rightarrow> engine" where
  "registerKrakendEndpoint method endpoint h totBackends e =
     (let method = to_upper method in
      if method \<noteq> ''GET'' \<and> totBackends > 1 \<and> \<not> IsValidSequentialEndpoint endpoint then e
      else if method \<in> set router_methods then engine_Handle e (ep_Endpoint endpoint) method h
      else e)"

text \<open>The proxy factory may end the process or panic; an endpoint it cannot build is skipped.\<close>

fun registerKrakendEndpoints ::
  "factory \<Rightarrow> (EndpointConfig \<Rightarrow> proxy \<Rightarrow> handler) \<Rightarrow> EndpointConfig list \<Rightarrow> engine \<Rightarrow> engine run" where
  "registerKrakendEndpoints pf hf [] e = Ret e"
| "registerKrakendEndpoints pf hf (c # cs) e =
     (case pf c of
        MadeFatal m \<Rightarrow> Panic m
      | MadePanic m \<Rightarrow> Panic m
      | Made p (Some err) \<Rightarrow> registerKrakendEndpoints pf hf cs e
      | Made p None \<Rightarrow>
          registerKrakendEndpoints pf hf cs
            (registerKrakendEndpoint (ep_Method c) c (hf c (proxy_or_nil p)) (length (ep_Backend c)) e))"

definition HealthHandler :: handler where
  "HealthHandler r w = Ret (Write ''{\"status\":\"ok\"}'' (Header_Set ''Content-Type'' ''application/json'' w))"

definition DebugHandler :: "marshal \<Rightarrow> handler" where
  "DebugHandler marshal r w =
     Ret (Write (case marshal (JObj [(''message'', JStr ''pong'')]) of Inr js \<Rightarrow> js | Inl _ \<Rightarrow> [])
       (Header_Set ''Content-Type'' ''application/json'' w))"

definition handle_all :: "string \<Rightarrow> handler \<Rightarrow> engine \<Rightarrow> engine" where
  "handle_all pattern h e = fold (\<lambda>m e. engine_Handle e pattern m h) all_methods e"

text \<open>The engine \<open>Run\<close> hands to the server.\<close>

definition router_Run ::
  "factory \<Rightarrow> (EndpointConfig \<Rightarrow> proxy \<Rightarrow> handler) \<Rightarrow> string \<Rightarrow> string \<Rightarrow> handler \<Rightarrow> handler \<Rightarrow> ServiceConfig \<Rightarrow> engine \<Rightarrow> engine run" where
  "router_Run pf hf DebugPattern EchoPattern debugH echoH cfg e =
     (let e = (if sc_Debug cfg then handle_all DebugPattern debugH e else e);
          e = (if sc_Echo cfg then handle_all EchoPattern echoH e else e)
      in registerKrakendEndpoints pf hf (sc_Endpoints cfg) (engine_Handle e ''/__health'' ''GET'' HealthHandler))"

definition apply_middlewares :: "(handler \<Rightarrow> handler) list \<Rightarrow> handler \<Rightarrow> handler" where
  "apply_middlewares ms h = foldl (\<lambda>h m. m h) h ms"

subsection \<open>The engine is a register of handlers\<close>

lemma engine_Handle_alt:
  "map_of (engine_Handle e pattern method h) p =
     (if p = pattern then Some (go_put method h (case map_of e pattern of Some d \<Rightarrow> d | None \<Rightarrow> [])) else map_of e p)"
  by (auto simp: engine_Handle_def go_map_simps Let_def split: option.split)

interpretation mux_engine: registry DefaultEngine engine_lookup "\<lambda>e pm h. engine_Handle e (fst pm) (snd pm) h"
proof unfold_locales
  fix e :: engine and k k' :: "string \<times> string" and h :: handler
  show "engine_lookup (engine_Handle e (fst k) (snd k) h) k' = (if k' = k then Some h else engine_lookup e k')"
    by (cases k; cases k') (auto simp: engine_lookup_def engine_Handle_alt go_map_simps split: option.split)
qed (simp add: DefaultEngine_def Namespaced_New_def NewUntyped_def engine_lookup_def)

lemma engine_lookup_Handle:
  "engine_lookup (engine_Handle e p m h) k = (if k = (p, m) then Some h else engine_lookup e k)"
  using mux_engine.lookup_store [of e "(p, m)" h k] by (simp only: fst_conv snd_conv)

text \<open>
  dispatch: a request for a registered pattern runs the handler last registered for that pattern and the request's method;
  with another method it is answered with 405 and marked incomplete.
\<close>

theorem engine_dispatch:
  assumes "match (map fst (engine_Handle e pattern method h)) r = Some pattern" and "rw = new_writer True"
  shows "ServeHTTP match (engine_Handle e pattern method h) r =
    (if hiMethod r = method then h r rw
     else (case engine_lookup e (pattern, hiMethod r) of
             Some h' \<Rightarrow> h' r rw
           | None \<Rightarrow> http_Error [] 405 (Header_Set CompleteResponseHeaderName HeaderIncompleteResponseValue rw)))"
  using assms by (simp add: ServeHTTP_def registrableHandler_def engine_lookup_Handle split: option.split)

lemma engine_dispatch_witness:
  "ServeHTTP (\<lambda>ps r. List.find (\<lambda>p. p = hiPath r) ps) (engine_Handle DefaultEngine ''/u/1'' ''GET'' HealthHandler) sample_in =
   HealthHandler sample_in (new_writer True)"
  using engine_dispatch [of "\<lambda>ps r. List.find (\<lambda>p. p = hiPath r) ps" DefaultEngine "''/u/1''" "''GET''" HealthHandler sample_in "new_writer True"]
  by (simp add: engine_Handle_def DefaultEngine_def Namespaced_New_def NewUntyped_def sample_in_def)

text \<open>Only the five methods are registered, and the last endpoint with a path and method wins.\<close>

definition endpoint_key :: "EndpointConfig \<Rightarrow> string \<times> string" where
  "endpoint_key c = (ep_Endpoint c, to_upper (ep_Method c))"

lemma registerKrakendEndpoint_lookup:
  "engine_lookup (registerKrakendEndpoint (ep_Method c) c h n e) k =
     (if k = endpoint_key c \<and> to_upper (ep_Method c) \<in> set router_methods then Some h else engine_lookup e k)"
  by (simp add: registerKrakendEndpoint_def IsValidSequentialEndpoint_def endpoint_key_def engine_lookup_Handle Let_def)

definition servable :: "factory \<Rightarrow> EndpointConfig \<Rightarrow> bool" where
  "servable pf c \<longleftrightarrow> (\<exists>p. pf c = Made (Some p) None) \<and> to_upper (ep_Method c) \<in> set router_methods"

lemma registerKrakendEndpoints_other:
  "registerKrakendEndpoints pf hf cs e = Ret e' \<Longrightarrow> k \<notin> endpoint_key ` set cs \<Longrightarrow> engine_lookup e' k = engine_lookup e k"
proof (induction cs arbitrary: e)
  case (Cons c cs)
  show ?case
  proof (cases "pf c")
    case (Made p err)
    then show ?thesis
      using Cons.prems Cons.IH
      by (cases err) (auto simp: registerKrakendEndpoint_lookup)
  qed (use Cons.prems in auto)
qed simp

text \<open>
  every endpoint of a configuration whose proxy could be built and whose method is served is reachable under its
  path and method, by the handler built for it, when no later endpoint has the same path and method.
\<close>

theorem endpoints_reachable:
  assumes "registerKrakendEndpoints pf hf (pre @ c # post) e = Ret e'" and "pf c = Made (Some p) None"
    and "to_upper (ep_Method c) \<in> set router_methods" and "endpoint_key c \<notin> endpoint_key ` set post"
  shows "engine_lookup e' (endpoint_key c) = Some (hf c p)"
proof -
  have "\<exists>e1. registerKrakendEndpoints pf hf (c # post) e1 = Ret e'"
    if "registerKrakendEndpoints pf hf (xs @ c # post) e = Ret e'" for xs e
    using that
  proof (induction xs arbitrary: e)
    case (Cons x xs)
    then show ?case by (cases "pf x") (auto split: option.splits simp del: registerKrakendEndpoints.simps(2) simp: registerKrakendEndpoints.simps(2) [of pf hf x])
  qed auto
  then obtain e1 where "registerKrakendEndpoints pf hf (c # post) e1 = Ret e'" using assms(1) by blast
  then have "registerKrakendEndpoints pf hf post (registerKrakendEndpoint (ep_Method c) c (hf c p) (length (ep_Backend c)) e1) = Ret e'"
    using assms(2) by (simp add: proxy_or_nil_def)
  from registerKrakendEndpoints_other [OF this assms(4)] show ?thesis
    using assms(3) by (simp add: registerKrakendEndpoint_lookup)
qed

definition plain_handler :: "EndpointConfig \<Rightarrow> proxy \<Rightarrow> handler" where
  "plain_handler cfg p r w = Ret w"

lemma endpoints_reachable_witness:
  "\<exists>e'. registerKrakendEndpoints (\<lambda>c. Made (Some NoopProxy) None) plain_handler
      ([] @ zero_endpoint\<lparr>ep_Endpoint := ''/a'', ep_Method := ''get''\<rparr> # []) DefaultEngine = Ret e' \<and>
     engine_lookup e' (''/a'', ''GET'') = Some (plain_handler (zero_endpoint\<lparr>ep_Endpoint := ''/a'', ep_Method := ''get''\<rparr>) NoopProxy)"
proof -
  let ?c = "zero_endpoint\<lparr>ep_Endpoint := ''/a'', ep_Method := ''get''\<rparr>"
  let ?pf = "\<lambda>c. Made (Some NoopProxy) None"
  obtain e' where e': "registerKrakendEndpoints ?pf plain_handler ([] @ ?c # []) DefaultEngine = Ret e'" by simp
  have m: "to_upper ''get'' = ''GET''" by code_simp
  have "engine_lookup e' (endpoint_key ?c) = Some (plain_handler ?c NoopProxy)"
    by (rule endpoints_reachable [OF e']) (simp_all add: m router_methods_def)
  with e' m show ?thesis by (simp add: endpoint_key_def)
qed

subsection \<open>What the client is told\<close>

text \<open>The headers that have been sent, or would be.\<close>

definition out_headers :: "writer \<Rightarrow> (string, string list) gomap" where
  "out_headers w = fst (snd (sent w))"

definition completed :: "writer \<Rightarrow> string" where
  "completed w = header_get (out_headers w) CompleteResponseHeaderName"

lemma canon_complete [simp]: "CanonicalMIMEHeaderKey CompleteResponseHeaderName = CompleteResponseHeaderName"
  by code_simp

lemma canon_others [simp]:
  "CanonicalMIMEHeaderKey ''Content-Type'' = ''Content-Type''" "CanonicalMIMEHeaderKey ''Content-Length'' = ''Content-Length''"
  "CanonicalMIMEHeaderKey ''X-Content-Type-Options'' = ''X-Content-Type-Options''"
  "CanonicalMIMEHeaderKey ''Cache-Control'' = ''Cache-Control''"
  by code_simp+

text \<open>A writer on which nothing has been sent and whose completeness header has the given values; what has been, or would be, sent.\<close>

definition marked :: "string list \<Rightarrow> writer \<Rightarrow> bool" where
  "marked vs w \<longleftrightarrow> wSent w = None \<and> map_of (wHeader w) CompleteResponseHeaderName = Some vs"

definition told :: "string list \<Rightarrow> writer \<Rightarrow> bool" where
  "told vs w \<longleftrightarrow> map_of (out_headers w) CompleteResponseHeaderName = Some vs"

text \<open>The interceptor leaves the one value false when the status is not 200.\<close>

definition after_status :: "bool \<Rightarrow> int option \<Rightarrow> string list \<Rightarrow> string list" where
  "after_status b st vs = (if b \<and> st \<noteq> None \<and> st \<noteq> Some 200 then [HeaderIncompleteResponseValue] else vs)"

lemma after_status_None [simp]: "after_status b None vs = vs"
  by (simp add: after_status_def)

lemma after_status_false [simp]: "after_status b st [HeaderIncompleteResponseValue] = [HeaderIncompleteResponseValue]"
  by (simp add: after_status_def)

lemma marked_told: "marked vs w \<Longrightarrow> told vs w"
  by (auto simp: marked_def told_def out_headers_def sent_def)

lemma told_completed: "told (v # vs) w \<Longrightarrow> completed w = v"
  by (auto simp: told_def completed_def header_get_def)

lemma marked_Set: "marked vs w \<Longrightarrow> CanonicalMIMEHeaderKey k \<noteq> CompleteResponseHeaderName \<Longrightarrow> marked vs (Header_Set k x w)"
  by (auto simp: marked_def Header_Set_def go_map_simps)

lemma marked_Set_same: "wSent w = None \<Longrightarrow> marked [v] (Header_Set CompleteResponseHeaderName v w)"
  by (auto simp: marked_def Header_Set_def go_map_simps)

lemma marked_Del: "marked vs w \<Longrightarrow> CanonicalMIMEHeaderKey k \<noteq> CompleteResponseHeaderName \<Longrightarrow> marked vs (Header_Del k w)"
  by (auto simp: marked_def Header_Del_def go_map_simps)

lemma intercept_kept [simp]:
  "wIntercept (Header_Set k x w) = wIntercept w" "wIntercept (Header_Add k x w) = wIntercept w" "wIntercept (Header_Del k w) = wIntercept w"
  by (simp_all add: Header_Set_def Header_Add_def Header_Del_def)

lemma intercept_fold_Add [simp]: "wIntercept (fold (Header_Add k) vs w) = wIntercept w"
  by (induction vs arbitrary: w) simp_all

lemma intercept_add_all [simp]: "wIntercept (add_all hs w) = wIntercept w"
  by (induction hs w rule: add_all.induct) simp_all

lemma marked_fold_Add:
  "marked vs w \<Longrightarrow> marked (if CanonicalMIMEHeaderKey k = CompleteResponseHeaderName then vs @ xs else vs) (fold (Header_Add k) xs w)"
proof (induction xs arbitrary: vs w)
  case (Cons x xs)
  have "marked (if CanonicalMIMEHeaderKey k = CompleteResponseHeaderName then vs @ [x] else vs) (Header_Add k x w)"
    using Cons.prems by (auto simp: marked_def Header_Add_def Values_Add_def values_of_def go_map_simps split: option.splits)
  from Cons.IH [OF this] show ?case by (simp split: if_splits)
qed simp

text \<open>The values that headers of a backend have for the completeness header.\<close>

definition own_values :: "(string, string list) gomap \<Rightarrow> string list" where
  "own_values hs = concat (map snd (filter (\<lambda>(k, vs). CanonicalMIMEHeaderKey k = CompleteResponseHeaderName) hs))"

lemma marked_add_all: "marked vs w \<Longrightarrow> marked (vs @ own_values hs) (add_all hs w)"
proof (induction hs w arbitrary: vs rule: add_all.induct)
  case (2 k xs hs w)
  from 2(1) [OF marked_fold_Add [OF 2(2), of k xs]] show ?case by (simp add: own_values_def split: if_splits)
qed (simp add: own_values_def)

lemma told_WriteHeader:
  "marked vs w \<Longrightarrow> WriteHeader code w = Ret w' \<Longrightarrow> told (after_status (wIntercept w) (Some code) vs) w'"
  by (auto simp: WriteHeader_def intercept_status_def marked_def told_def after_status_def out_headers_def sent_def Header_Set_def
      go_map_simps Let_def split: if_splits)

lemma told_Write: "told vs (Write bytes w) = told vs w"
  by (auto simp: Write_def told_def out_headers_def sent_def Let_def split: option.splits)

lemma not_complete [simp]:
  "''Content-Type'' \<noteq> CompleteResponseHeaderName" "''Content-Length'' \<noteq> CompleteResponseHeaderName"
  "''X-Content-Type-Options'' \<noteq> CompleteResponseHeaderName" "''Cache-Control'' \<noteq> CompleteResponseHeaderName"
  by (simp_all add: CompleteResponseHeaderName_def)

lemma told_http_Error:
  assumes "marked vs w" and "http_Error msg code w = Ret w'"
  shows "told (after_status (wIntercept w) (Some code) vs) w'"
proof -
  let ?w = "Header_Set ''X-Content-Type-Options'' ''nosniff''
      (Header_Set ''Content-Type'' ''text/plain; charset=utf-8'' (Header_Del ''Content-Length'' w))"
  obtain x where x: "WriteHeader code ?w = Ret x" and w': "w' = Write (msg @ [CHR 0x0A]) x"
    using assms(2) by (auto simp: http_Error_def run_bind_Ret_iff)
  have "marked vs ?w" using assms(1) by (simp add: marked_Set marked_Del)
  from told_WriteHeader [OF this x] show ?thesis unfolding w' told_Write by simp
qed

text \<open>
  Which of the built-in renders an endpoint gets: the one its output encoding names, else that of the encoding of its
  only backend, else the JSON one; and the status a render sets itself.
\<close>

definition builtin_renders :: "string set" where
  "builtin_renders = {STRING, JSON, NOOP, ''json-collection''}"

definition render_name :: "EndpointConfig \<Rightarrow> string" where
  "render_name cfg =
     (if ep_OutputEncoding cfg \<in> builtin_renders then ep_OutputEncoding cfg
      else (case ep_Backend cfg of
              [b] \<Rightarrow> if be_Encoding b \<in> builtin_renders then be_Encoding b else JSON
            | _ \<Rightarrow> JSON))"

definition marshal_status :: "marshal \<Rightarrow> json option \<Rightarrow> int option" where
  "marshal_status m v = (if \<exists>x e. v = Some x \<and> m x = Inl e then Some 500 else None)"

definition render_status :: "marshal \<Rightarrow> string \<Rightarrow> response option \<Rightarrow> int option" where
  "render_status m name response =
     (if name = NOOP then
        (case response of
           None \<Rightarrow> Some 500
         | Some x \<Rightarrow> if StatusCode (Metadata x) = 0 then None else Some (StatusCode (Metadata x)))
      else if name = STRING then None
      else if name = JSON then marshal_status m (map_option data_value response)
      else marshal_status m (Option.bind response (\<lambda>x. map_of (entries (Data x)) ''collection'')))"

definition builtin_render :: "marshal \<Rightarrow> string \<Rightarrow> render" where
  "builtin_render m name =
     (if name = NOOP then noopRender else if name = STRING then stringRender
      else if name = JSON then jsonRender m else jsonCollectionRender m)"

lemma marshal_status_None [simp]: "marshal_status m None = None"
  by (simp add: marshal_status_def)

lemma getRender_named: "getRender m (initRenderRegister m) cfg = builtin_render m (render_name cfg)"
  using encoding_names_distinct
  by (auto simp: getRender_def getWithFallback_def initRenderRegister_def builtin_render_def render_name_def builtin_renders_def
      JSON_def STRING_def NOOP_def split: list.split)

lemma told_write_json:
  assumes "marked vs w" and "write_json m x w = Ret w'"
  shows "told (after_status (wIntercept w) (marshal_status m (Some x)) vs) w'"
  using assms told_http_Error [OF assms(1)] marked_told [OF assms(1)]
  by (auto simp: write_json_def marshal_status_def told_Write split: sum.splits)

text \<open>What a render leaves of the completeness header.\<close>

lemma told_render:
  assumes "marked vs w" and "builtin_render m name response w = Ret w'"
  shows "told (after_status (wIntercept w) (render_status m name response)
    (vs @ (if name = NOOP then (case response of None \<Rightarrow> [] | Some x \<Rightarrow> own_values (Headers (Metadata x))) else []))) w'"
proof -
  note typed = marked_Set [OF assms(1), of "''Content-Type''", simplified]
  have json: "told (after_status (wIntercept w) (marshal_status m (Some v)) vs) w'"
    if "write_json m v (Header_Set ''Content-Type'' ''application/json'' w) = Ret w'" for v
    using told_write_json [OF typed that] by simp
  consider (noop) "name = NOOP" | (string) "name = STRING" "name \<noteq> NOOP" | (object) "name = JSON" "name \<noteq> NOOP" "name \<noteq> STRING"
    | (collection) "name \<noteq> NOOP" "name \<noteq> STRING" "name \<noteq> JSON" by blast
  then show ?thesis
  proof cases
    case noop
    show ?thesis
    proof (cases response)
      case None
      then show ?thesis using assms noop told_http_Error [OF assms(1)]
        by (auto simp: builtin_render_def noopRender_def render_status_def)
    next
      case (Some r)
      let ?w = "add_all (Headers (Metadata r)) w"
      obtain x where x: "(if StatusCode (Metadata r) \<noteq> 0 then WriteHeader (StatusCode (Metadata r)) ?w else Ret ?w) = Ret x"
        and w': "w' = (case Io r of None \<Rightarrow> x | Some bytes \<Rightarrow> Write bytes x)"
        using assms(2) Some noop by (auto simp: builtin_render_def noopRender_def Let_def run_bind_Ret_iff)
      note m = marked_add_all [OF assms(1), of "Headers (Metadata r)"]
      have "told (after_status (wIntercept w) (render_status m name response) (vs @ own_values (Headers (Metadata r)))) x"
        using x told_WriteHeader [OF m] marked_told [OF m] noop Some by (auto simp: render_status_def split: if_splits)
      then show ?thesis unfolding w' using noop Some by (simp add: told_Write split: option.split)
    qed
  next
    case string
    then show ?thesis using assms(2) marked_told [OF typed]
      by (auto simp: builtin_render_def stringRender_def render_status_def told_Write Let_def split: option.splits)
  next
    case object
    then show ?thesis using assms(2) marked_told [OF typed] json
      by (cases response) (auto simp: builtin_render_def jsonRender_def render_status_def told_Write Let_def)
  next
    case collection
    then show ?thesis using assms(2) marked_told [OF typed] json
      by (auto simp: builtin_render_def jsonCollectionRender_def render_status_def told_Write Let_def split: option.splits)
  qed
qed

text \<open>A response of the proxy that is complete and has data.\<close>

definition complete_data :: "response option \<Rightarrow> bool" where
  "complete_data response \<longleftrightarrow> (\<exists>x. response = Some x \<and> entries (Data x) \<noteq> [] \<and> IsComplete x)"

text \<open>
  The values of the completeness header: the mark of the handler, the backend's own values when there are data, and
  again when the response is passed through; only false once the interceptor sees another status than 200.
\<close>

definition told_values :: "bool \<Rightarrow> marshal \<Rightarrow> EndpointConfig \<Rightarrow> response option \<Rightarrow> string list" where
  "told_values b m cfg response =
     (let own = (case response of None \<Rightarrow> [] | Some x \<Rightarrow> own_values (Headers (Metadata x)))
      in after_status b (render_status m (render_name cfg) response)
           ((if complete_data response then HeaderCompleteResponseValue else HeaderIncompleteResponseValue) #
            (if has_data response then own else []) @ (if render_name cfg = NOOP then own else [])))"

text \<open>What the handler makes of an answer of the proxy.\<close>

lemma marked_complete:
  assumes "wSent w = None"
  shows "marked [if IsComplete x then HeaderCompleteResponseValue else HeaderIncompleteResponseValue] (mark_complete cfg x w)"
    and "wIntercept (mark_complete cfg x w) = wIntercept w"
  using marked_Set_same [OF assms] marked_Set [of "[HeaderCompleteResponseValue]" "Header_Set CompleteResponseHeaderName HeaderCompleteResponseValue w" "''Cache-Control''"]
  by (auto simp: mark_complete_def Let_def)

lemma respond_told:
  assumes "respond errF (getRender m (initRenderRegister m) cfg) cfg response err w0 = Ret w" and "wSent w0 = None"
  shows "told (if has_data response \<or> err = None then told_values (wIntercept w0) m cfg response else [HeaderIncompleteResponseValue]) w"
proof (cases "has_data response")
  case True
  then obtain x where x: "response = Some x" "entries (Data x) \<noteq> []" by (auto simp: has_data_def split: option.splits)
  have "builtin_render m (render_name cfg) response (add_all (Headers (Metadata x)) (mark_complete cfg x w0)) = Ret w"
    using assms(1) x by (simp add: respond_def getRender_named)
  from told_render [OF marked_add_all [OF marked_complete(1) [OF assms(2)]] this] show ?thesis
    using x True
    by (cases "render_name cfg = NOOP"; cases "IsComplete x")
      (simp_all add: told_values_def complete_data_def marked_complete(2) [OF assms(2)] Let_def)
next
  case False
  then have no: "\<not> complete_data response" and data: "\<forall>x. response = Some x \<longrightarrow> entries (Data x) = []"
    by (auto simp: has_data_def complete_data_def)
  note inc = marked_Set_same [OF assms(2), of HeaderIncompleteResponseValue]
  show ?thesis
  proof (cases err)
    case (Some e)
    then show ?thesis using assms(1) False data told_http_Error [OF inc] by (auto simp: respond_def Let_def split: option.splits)
  next
    case None
    then have "builtin_render m (render_name cfg) response (Header_Set CompleteResponseHeaderName HeaderIncompleteResponseValue w0) = Ret w"
      using assms(1) data by (auto simp: respond_def getRender_named Let_def split: option.splits)
    from told_render [OF inc this] None False no show ?thesis by (simp add: told_values_def)
  qed
qed

text \<open>The status a render that is not the pass-through one sends.\<close>

definition ends :: "int \<Rightarrow> writer run \<Rightarrow> bool" where
  "ends st x \<longleftrightarrow> (\<exists>w. x = Ret w \<and> fst (sent w) = st)"

lemma ends_Write: "wSent w = None \<Longrightarrow> ends 200 (Ret (Write bytes w))"
  by (simp add: ends_def Write_def sent_def Let_def)

lemma ends_Error: "wSent w = None \<Longrightarrow> ends 500 (http_Error msg 500 w)"
  by (simp add: ends_def http_Error_def WriteHeader_def intercept_status_def Header_Set_def Header_Del_def Write_def sent_def Let_def)

lemma sent_kept [simp]:
  "wSent (new_writer b) = None" "wSent (Header_Set k v w) = wSent w" "wSent (Header_Del k w) = wSent w" "wSent (Header_Add k v w) = wSent w"
  by (simp_all add: new_writer_def Header_Set_def Header_Del_def Header_Add_def)

lemma sent_fold_Add [simp]: "wSent (fold (Header_Add k) vs w) = wSent w"
  by (induction vs arbitrary: w) simp_all

lemma sent_add_all [simp]: "wSent (add_all hs w) = wSent w"
  by (induction hs w rule: add_all.induct) simp_all

definition status_sent :: "marshal \<Rightarrow> string \<Rightarrow> response option \<Rightarrow> int" where
  "status_sent m name response = (case render_status m name response of None \<Rightarrow> 200 | Some st \<Rightarrow> st)"

lemma render_ends:
  assumes "name \<noteq> NOOP" and "wSent w = None"
  shows "ends (status_sent m name response) (builtin_render m name response w)" and "status_sent m name response \<in> {200, 500}"
proof -
  have w: "wSent (Header_Set ''Content-Type'' x w) = None" for x using assms(2) by simp
  show "ends (status_sent m name response) (builtin_render m name response w)"
    using assms(1) ends_Write [OF w] ends_Error [OF w]
    by (auto simp: builtin_render_def jsonRender_def stringRender_def jsonCollectionRender_def write_json_def status_sent_def
        render_status_def marshal_status_def Let_def split: option.split sum.split)
  show "status_sent m name response \<in> {200, 500}"
    using assms(1) by (simp add: status_sent_def render_status_def marshal_status_def)
qed

text \<open>
  Without a pass-through, whose status may be none, a handler always answers; the mark says whether the answer is
  complete, but a rendering that fails is never called complete under the interceptor.
\<close>

definition answers :: "writer run \<Rightarrow> bool" where
  "answers x \<longleftrightarrow> (\<exists>w. x = Ret w \<and> fst (sent w) \<in> {200, 500})"

lemma sent_mark [simp]: "wSent (mark_complete cfg r w) = wSent w"
  by (simp add: mark_complete_def Let_def)

lemma answers_respond:
  assumes "render_name cfg \<noteq> NOOP" and "wSent w = None" and "err = newMergeError es \<or> err = Some EInternal"
  shows "answers (respond DefaultToHTTPError (getRender m (initRenderRegister m) cfg) cfg response err w)"
proof -
  have "err = Some e \<Longrightarrow> status_for DefaultToHTTPError e = 500" for e
    using assms(3) by (auto simp: newMergeError_def status_for_def DefaultToHTTPError_def split: if_splits)
  moreover have "wSent x = None \<Longrightarrow> answers (builtin_render m (render_name cfg) response x)" for x response
    using render_ends [OF assms(1), of x m response] by (auto simp: answers_def ends_def)
  moreover have "wSent x = None \<Longrightarrow> answers (http_Error msg 500 x)" for x msg
    using ends_Error [of x msg] by (auto simp: answers_def ends_def)
  ultimately show ?thesis
    using assms(2) by (simp add: respond_def getRender_named Let_def split: option.split)
qed

lemma respond_sends:
  assumes "respond errF (getRender m (initRenderRegister m) cfg) cfg response err w0 = Ret w" and "render_name cfg \<noteq> NOOP" and "wSent w0 = None"
    and "has_data response"
  shows "fst (sent w) = status_sent m (render_name cfg) response"
proof -
  obtain x where x: "response = Some x" "entries (Data x) \<noteq> []" using assms(4) by (auto simp: has_data_def split: option.splits)
  then have "builtin_render m (render_name cfg) response (add_all (Headers (Metadata x)) (mark_complete cfg x w0)) = Ret w"
    using assms(1) by (simp add: respond_def getRender_named)
  then show ?thesis
    using render_ends(1) [OF assms(2), of "add_all (Headers (Metadata x)) (mark_complete cfg x w0)" m response] assms(3)
    by (simp add: ends_def)
qed

text \<open>Values that can all be marshalled.\<close>

definition marshals :: "marshal \<Rightarrow> bool" where
  "marshals m \<longleftrightarrow> (\<forall>v. \<exists>js. m v = Inr js)"

lemma marshals_status: "marshals m \<Longrightarrow> name \<noteq> NOOP \<Longrightarrow> status_sent m name response = 200"
  by (auto simp: status_sent_def render_status_def marshal_status_def marshals_def) (metis Inl_Inr_False)+

lemma respond_completed:
  assumes "respond errF (getRender m (initRenderRegister m) cfg) cfg response err w0 = Ret w" and "render_name cfg \<noteq> NOOP" and "wSent w0 = None"
  shows "completed w = (if complete_data response \<and> (wIntercept w0 \<longrightarrow> fst (sent w) = 200)
      then HeaderCompleteResponseValue else HeaderIncompleteResponseValue)"
    and "complete_data response \<Longrightarrow> marshals m \<Longrightarrow> fst (sent w) = 200"
proof -
  show "completed w = (if complete_data response \<and> (wIntercept w0 \<longrightarrow> fst (sent w) = 200)
      then HeaderCompleteResponseValue else HeaderIncompleteResponseValue)"
  proof (cases "complete_data response")
    case False
    then have "\<exists>vs. told (HeaderIncompleteResponseValue # vs) w"
      using respond_told [OF assms(1,3)] by (auto simp: told_values_def after_status_def Let_def split: if_splits)
    then show ?thesis using told_completed False by auto
  next
    case True
    then have data: "has_data response" by (auto simp: complete_data_def has_data_def)
    note status = respond_sends [OF assms data]
    obtain vs where "told (after_status (wIntercept w0) (render_status m (render_name cfg) response) (HeaderCompleteResponseValue # vs)) w"
      using respond_told [OF assms(1,3)] True data by (auto simp: told_values_def Let_def)
    then show ?thesis using True status told_completed
      by (cases "render_status m (render_name cfg) response") (auto simp: after_status_def status_sent_def split: if_splits)
  qed
  assume "complete_data response" "marshals m"
  then show "fst (sent w) = 200"
    using respond_sends [OF assms] marshals_status [OF _ assms(2)] by (auto simp: complete_data_def has_data_def)
qed

lemma merged_render:
  assumes "ep_OutputEncoding c \<noteq> NOOP" and "length (ep_Backend c) \<noteq> 1"
  shows "render_name c \<noteq> NOOP"
  using assms encoding_names_distinct by (auto simp: render_name_def split: list.split)

text \<open>
  C23: the completeness header, for a writer with the interceptor of the engines (mux, gorilla, httptreemux, negroni) or without it (chi):
  whatever the proxy answers, a response the handler finishes says false and nothing else for a wrong method and for an error
  without data; otherwise its first value is true exactly when the proxy returned a complete response with data, and the
  backend's own values follow, once when there are data and once more when the response is passed through; but with the
  interceptor the only value is false when the render sets a status other than 200 (the backend's one for a
  pass-through, 500 when the data cannot be marshalled).
\<close>

theorem completeness_header:
  assumes "CustomEndpointHandlerWithHTTPError rb errF (getRender m (initRenderRegister m) cfg) don cfg prxy r (new_writer b) = Ret w"
  shows "map_of (out_headers w) CompleteResponseHeaderName = Some
    (if hiMethod r \<noteq> to_upper (ep_Method cfg) then [HeaderIncompleteResponseValue]
     else (case prxy (rb r (ep_QueryString cfg) (endpoint_headers cfg)) of
             PPanic e \<Rightarrow> []
           | PRet response err r' \<Rightarrow>
               if has_data response \<or> ctx_error don err = None then told_values b m cfg response
               else [HeaderIncompleteResponseValue]))"
proof (cases "hiMethod r = to_upper (ep_Method cfg)")
  case False
  with assms told_http_Error [OF marked_Set_same [of "Header_Set KrakendHeaderName KrakendHeaderValue (new_writer b)"]]
  show ?thesis by (auto simp: CustomEndpointHandlerWithHTTPError_def told_def)
next
  case True
  then obtain response err r' where p: "prxy (rb r (ep_QueryString cfg) (endpoint_headers cfg)) = PRet response err r'"
    using assms by (cases "prxy (rb r (ep_QueryString cfg) (endpoint_headers cfg))")
      (auto simp: CustomEndpointHandlerWithHTTPError_def)
  then have "respond errF (getRender m (initRenderRegister m) cfg) cfg response (ctx_error don err)
      (Header_Set KrakendHeaderName KrakendHeaderValue (new_writer b)) = Ret w"
    using assms True by (simp add: CustomEndpointHandlerWithHTTPError_def)
  from respond_told [OF this] show ?thesis using p True by (simp add: told_def new_writer_def)
qed

text \<open>A pass-through of static data with the status 201: the client is told false under the interceptor, true without it.\<close>

definition created :: "request \<Rightarrow> pres" where
  "created r = PRet (Some \<lparr>Data = Some [(''a'', JNull)], IsComplete = True,
     Metadata = \<lparr>Headers = [(''X-Krakend-Completed'', [''yes''])], StatusCode = 201\<rparr>, Io = None\<rparr>) None r"

lemma completeness_header_witness:
  "\<exists>w w'. CustomEndpointHandlerWithHTTPError (NewRequestBuilder (\<lambda>_. None) NoopParamExtractor) DefaultToHTTPError
      (getRender (\<lambda>v. Inr ''js'') (initRenderRegister (\<lambda>v. Inr ''js'')) (zero_endpoint\<lparr>ep_Method := ''get'', ep_OutputEncoding := NOOP\<rparr>))
      False (zero_endpoint\<lparr>ep_Method := ''get'', ep_OutputEncoding := NOOP\<rparr>) created sample_in (new_writer True) = Ret w \<and>
    map_of (out_headers w) CompleteResponseHeaderName = Some [''false''] \<and>
    CustomEndpointHandlerWithHTTPError (NewRequestBuilder (\<lambda>_. None) NoopParamExtractor) DefaultToHTTPError
      (getRender (\<lambda>v. Inr ''js'') (initRenderRegister (\<lambda>v. Inr ''js'')) (zero_endpoint\<lparr>ep_Method := ''get'', ep_OutputEncoding := NOOP\<rparr>))
      False (zero_endpoint\<lparr>ep_Method := ''get'', ep_OutputEncoding := NOOP\<rparr>) created sample_in (new_writer False) = Ret w' \<and>
    map_of (out_headers w') CompleteResponseHeaderName = Some [''true'', ''yes'', ''yes'']"
proof -
  let ?c = "zero_endpoint\<lparr>ep_Method := ''get'', ep_OutputEncoding := NOOP\<rparr>"
  let ?m = "\<lambda>v. Inr ''js'' :: gerror + string"
  let ?h = "\<lambda>b. CustomEndpointHandlerWithHTTPError (NewRequestBuilder (\<lambda>_. None) NoopParamExtractor) DefaultToHTTPError
      (getRender ?m (initRenderRegister ?m) ?c) False ?c created sample_in (new_writer b)"
  have up: "to_upper ''get'' = ''GET''" by code_simp
  have name: "render_name ?c = NOOP" by (simp add: render_name_def builtin_renders_def)
  have key: "CompleteResponseHeaderName = ''X-Krakend-Completed''" by (simp add: CompleteResponseHeaderName_def)
  have canon: "CanonicalMIMEHeaderKey ''X-Krakend-Completed'' = CompleteResponseHeaderName" using canon_complete unfolding key .
  have "\<exists>w. ?h b = Ret w" for b
    by (simp add: CustomEndpointHandlerWithHTTPError_def sample_in_def zero_endpoint_def up respond_def created_def getRender_named
        name [unfolded zero_endpoint_def, simplified] builtin_render_def noopRender_def WriteHeader_def run_bind_Ret_iff Let_def)
  then obtain w w' where w: "?h True = Ret w" "?h False = Ret w'" by blast
  have listed: "told_values True ?m ?c (Some x) = [''false'']" "told_values False ?m ?c (Some x) = [''true'', ''yes'', ''yes'']"
    if "created q = PRet (Some x) None q" for x q
    using that
    by (auto simp: created_def told_values_def name render_status_def after_status_def complete_data_def has_data_def own_values_def canon
        HeaderCompleteResponseValue_def HeaderIncompleteResponseValue_def)
  show ?thesis
    using w completeness_header [OF w(1)] completeness_header [OF w(2)] listed up
    by (auto simp: sample_in_def created_def ctx_error_def)
qed

text \<open>
  an error without data: the client gets the status of the error, or the one the error translator chooses (a final status, of three digits), and the
  error's message; the renders are not used.
\<close>

theorem error_reported:
  assumes "hiMethod r = to_upper (ep_Method cfg)"
    and "prxy (rb r (ep_QueryString cfg) (endpoint_headers cfg)) = PRet response err r'"
    and "\<not> has_data response" and "ctx_error don err = Some e"
    and "200 \<le> status_for errF e" and "status_for errF e \<le> 999"
  shows "\<exists>w. CustomEndpointHandlerWithHTTPError rb errF rnd don cfg prxy r (new_writer False) = Ret w \<and>
    fst (sent w) = status_for errF e \<and> snd (snd (sent w)) = error_msg e @ [CHR 0x0A]"
proof -
  have "CustomEndpointHandlerWithHTTPError rb errF rnd don cfg prxy r (new_writer False) =
    http_Error (error_msg e) (status_for errF e)
      (Header_Set CompleteResponseHeaderName HeaderIncompleteResponseValue (Header_Set KrakendHeaderName KrakendHeaderValue (new_writer False)))"
    using assms(1-4) by (auto simp: CustomEndpointHandlerWithHTTPError_def respond_def has_data_def split: option.splits)
  then show ?thesis using assms(5,6)
    by (simp add: http_Error_def WriteHeader_def intercept_status_def Header_Set_def Header_Del_def new_writer_def Write_def sent_def Let_def)
qed

lemma error_reported_witness:
  "\<exists>w. CustomEndpointHandlerWithHTTPError (NewRequestBuilder (\<lambda>_. None) NoopParamExtractor) DefaultToHTTPError
      stringRender True (zero_endpoint\<lparr>ep_Method := ''get''\<rparr>) NoopProxy sample_in (new_writer False) = Ret w \<and>
    fst (sent w) = 500 \<and> snd (snd (sent w)) = ''internal server error'' @ [CHR 0x0A]"
proof -
  have m: "hiMethod sample_in = to_upper (ep_Method (zero_endpoint\<lparr>ep_Method := ''get''\<rparr>))" by code_simp
  have "\<exists>w. CustomEndpointHandlerWithHTTPError (NewRequestBuilder (\<lambda>_. None) NoopParamExtractor) DefaultToHTTPError
      stringRender True (zero_endpoint\<lparr>ep_Method := ''get''\<rparr>) NoopProxy sample_in (new_writer False) = Ret w \<and>
    fst (sent w) = status_for DefaultToHTTPError EInternal \<and> snd (snd (sent w)) = error_msg EInternal @ [CHR 0x0A]"
    by (rule error_reported [OF m, where response = None and err = None])
      (simp_all add: NoopProxy_def has_data_def ctx_error_def status_for_def DefaultToHTTPError_def)
  then show ?thesis by (simp add: status_for_def DefaultToHTTPError_def)
qed

end
