(* ===== verification/Sample_Plugins.thy ===== *)
theory Sample_Plugins
  imports Plugin_Loaders Router_Mux
begin

section \<open>The plugins that come with the packages\<close>

text \<open>
  The example plugins under \<open>proxy/plugin/tests\<close>, \<open>transport/http/client/plugin/tests\<close> and
  \<open>transport/http/server/plugin/tests\<close>, what the loaders make of them, and what they do in a chain.  A plugin's
  package state is whether it has been given a logger; calling the nil logger panics.  The contexts of the
  wrappers are left out as everywhere.
\<close>

subsection \<open>\<open>path.Join\<close>\<close>

fun clean_segments :: "bool \<Rightarrow> string list \<Rightarrow> string list \<Rightarrow> string list" where
  "clean_segments rooted [] out = rev out"
| "clean_segments rooted (s # ss) out =
     (if s = [] \<or> s = ''.'' then clean_segments rooted ss out
      else if s = ''..'' then
        (if out \<noteq> [] \<and> hd out \<noteq> ''..'' then clean_segments rooted ss (tl out)
         else if rooted then clean_segments rooted ss out
         else clean_segments rooted ss (s # out))
      else clean_segments rooted ss (s # out))"

definition path_Clean :: "string \<Rightarrow> string" where
  "path_Clean p =
     (let rooted = prefix ''/'' p;
          r = (if rooted then ''/'' else []) @ join_with ''/'' (clean_segments rooted (split_on CHR ''/'' p) [])
      in if r = [] then ''.'' else r)"

definition path_Join :: "string \<Rightarrow> string \<Rightarrow> string" where
  "path_Join a b = (if a = [] \<and> b = [] then [] else path_Clean (join_with ''/'' (filter (\<lambda>e. e \<noteq> []) [a, b])))"

subsection \<open>The plugin that logs\<close>

definition logger_registerer :: string where "logger_registerer = ''lura-request-modifier-example''"

text \<open>\<open>RegisterLogger\<close> takes what has the methods of a logger; \<open>RegisterContext\<close> logs.\<close>

definition RegisterLogger :: "bool \<Rightarrow> bool \<Rightarrow> bool" where
  "RegisterLogger is_logger logger = (is_logger \<or> logger)"

definition logger_Debug :: "bool \<Rightarrow> unit run" where
  "logger_Debug logger = (if logger then Ret () else Panic ''invalid memory address or nil pointer dereference'')"

definition RegisterContext :: "bool \<Rightarrow> unit run" where
  "RegisterContext logger = logger_Debug logger"

definition unkownTypeErr :: gerror where "unkownTypeErr = EText ''unknown request type''"

definition logger_modifier :: "request \<Rightarrow> request" where
  "logger_modifier req = req\<lparr>rPath := path_Join (rPath req) ''/fooo''\<rparr>"

definition logger_requestModifierFactory :: ModifierFactory where
  "logger_requestModifierFactory cfg =
     Some (\<lambda>input. case input of RequestWrapper req \<Rightarrow> Ret (Inr (RequestWrapper (logger_modifier req))) | _ \<Rightarrow> Ret (Inl unkownTypeErr))"

text \<open>With a logger the response modifier logs the first value of every header of the request.\<close>

definition logger_reqsponseModifierFactory :: "bool \<Rightarrow> ModifierFactory" where
  "logger_reqsponseModifierFactory logger cfg =
     Some (\<lambda>input. case input of
       ResponseWrapper req resp \<Rightarrow>
         (if logger \<and> list_ex (\<lambda>(k, v). v = []) (entries (rHeaders req)) then Panic ''index out of range''
          else Ret (Inr input))
     | _ \<Rightarrow> Ret (Inl unkownTypeErr))"

definition logger_RegisterModifiers :: "bool \<Rightarrow> modifier_registration list" where
  "logger_RegisterModifiers logger =
     [(logger_registerer @ ''-request'', logger_requestModifierFactory, True, False),
      (logger_registerer @ ''-response'', logger_reqsponseModifierFactory logger, False, True)]"

text \<open>What \<open>open\<close> sees of it: the loader hands on its logger if it has one, then the context.\<close>

definition logger_plugin :: "bool \<Rightarrow> modifier_registration shared_object" where
  "logger_plugin loader_logger =
     (let logger = (if loader_logger then RegisterLogger True False else False) in
      case RegisterContext logger of
        Panic e \<Rightarrow> RegistersAndPanics [] e
      | Ret _ \<Rightarrow> Registers (logger_RegisterModifiers logger))"

subsection \<open>The plugin that refuses\<close>

definition error_registerer :: string where "error_registerer = ''lura-error-example''"

definition requestErr :: gerror where "requestErr = EStatus 418 ''request rejected just because''"
definition responseErr :: gerror where "responseErr = EStatus 418 ''response replaced because reasons''"

definition error_requestModifierFactory :: "bool \<Rightarrow> fields \<Rightarrow> modifier run" where
  "error_requestModifierFactory logger cfg = run_bind (logger_Debug logger) (\<lambda>_. Ret (\<lambda>input. Ret (Inl requestErr)))"

definition error_reqsponseModifierFactory :: "bool \<Rightarrow> fields \<Rightarrow> modifier run" where
  "error_reqsponseModifierFactory logger cfg = run_bind (logger_Debug logger) (\<lambda>_. Ret (\<lambda>input. Ret (Inl responseErr)))"

text \<open>Loaded with a logger the factories return.\<close>

definition with_logger :: "(fields \<Rightarrow> modifier run) \<Rightarrow> ModifierFactory" where
  "with_logger mf cfg = (case mf cfg of Ret m \<Rightarrow> Some m | Panic e \<Rightarrow> None)"

definition error_RegisterModifiers :: "modifier_registration list" where
  "error_RegisterModifiers =
     [(error_registerer @ ''-request'', with_logger (error_requestModifierFactory True), True, False),
      (error_registerer @ ''-response'', with_logger (error_reqsponseModifierFactory True), False, True)]"

subsection \<open>The client and the server plugin\<close>

text \<open>\<open>html.EscapeString\<close>; \<open>%q\<close> is the argument \<open>quote\<close>, the path of a request's URL \<open>url_path\<close>.\<close>

fun html_EscapeString :: "string \<Rightarrow> string" where
  "html_EscapeString [] = []"
| "html_EscapeString (c # cs) =
     (if c = CHR ''<'' then ''&lt;'' else if c = CHR ''>'' then ''&gt;'' else if c = CHR ''&'' then ''&amp;''
      else if c = CHR 0x27 then ''&#39;'' else if c = CHR 0x22 then ''&#34;'' else [c]) @ html_EscapeString cs"

definition hello :: "(string \<Rightarrow> string) \<Rightarrow> string \<Rightarrow> string" where
  "hello quote path = ''Hello, '' @ quote (html_EscapeString path)"

definition client_registerer :: string where "client_registerer = ''krakend-client-example''"

text \<open>The recorder answers 200 with the content type it finds in the text.\<close>

definition registerClients :: "(string \<Rightarrow> string) \<Rightarrow> (string \<Rightarrow> string) \<Rightarrow> client_handler" where
  "registerClients quote url_path extra =
     (case get_as as_str extra ''name'' of
        None \<Rightarrow> Inl (EText ''wrong config'')
      | Some name \<Rightarrow>
          (if name \<noteq> client_registerer then Inl (EText (''unknown register '' @ name))
           else Inr (\<lambda>req. \<lparr>hrStatusCode = 200, hrHeader = [(''Content-Type'', [''text/plain; charset=utf-8''])],
             hrBody = hello quote (url_path (hqURL req)), hrBroken = None, hrURL = None\<rparr>)))"

definition RegisterClients :: "(string \<Rightarrow> string) \<Rightarrow> (string \<Rightarrow> string) \<Rightarrow> client_registration list" where
  "RegisterClients quote url_path = [(client_registerer, registerClients quote url_path)]"

definition server_registerer :: string where "server_registerer = ''krakend-server-example''"

definition registerHandlers :: "(string \<Rightarrow> string) \<Rightarrow> handler server_handler" where
  "registerHandlers quote extra h = Inr (\<lambda>req w. Ret (Write (hello quote (hiPath req)) w))"

definition RegisterHandlers :: "(string \<Rightarrow> string) \<Rightarrow> handler server_registration list" where
  "RegisterHandlers quote = [(server_registerer, registerHandlers quote)]"

subsection \<open>What they do\<close>

text \<open>
  The logging plugin can only be loaded by a loader with a logger: without one its \<open>RegisterContext\<close> panics on the
  nil logger, the loader counts it as failed, and nothing is registered.
\<close>

lemma logger_plugin_needs_logger:
  assumes "opener name = logger_plugin logger"
  shows "modifier_load opener [name] RegisterModifier reg =
    (if logger then ((1, None), fold (\<lambda>(name, mf, req, resp). RegisterModifier name mf req resp) (logger_RegisterModifiers True) reg)
     else ((0, Some (EText (loaderError_Error [load_error 0 name ''invalid memory address or nil pointer dereference'']))), reg))"
  using assms
  by (simp add: modifier_load_def plugin_load_def logger_plugin_def RegisterContext_def logger_Debug_def RegisterLogger_def)

text \<open>A chain with the refusing plugin: the request side answers without calling the next proxy, as a teapot.\<close>

lemma error_plugin_refuses:
  assumes "GetRequestModifier reg (error_registerer @ ''-request'') = Some (with_logger (error_requestModifierFactory True))"
    and "get_as as_arr cfg ''name'' = Some [JStr (error_registerer @ ''-request'')]"
  shows "\<exists>p. newPluginMiddleware reg cfg [next] = Built p \<and> p r = PRet None (Some requestErr) r \<and> status_for errF requestErr = 418"
  using assms
  by (simp add: newPluginMiddleware_def with_logger_def error_requestModifierFactory_def logger_Debug_def plugin_proxy_def
      before_request_def status_for_def requestErr_def)

text \<open>The response side drops what the backend returned, and leaves errors and missing responses alone.\<close>

lemma error_plugin_replaces:
  assumes "GetRequestModifier reg (error_registerer @ ''-response'') = None"
    and "GetResponseModifier reg (error_registerer @ ''-response'') = Some (with_logger (error_reqsponseModifierFactory True))"
    and "get_as as_arr cfg ''name'' = Some [JStr (error_registerer @ ''-response'')]"
    and "next r = PRet (Some resp) err r'"
  shows "\<exists>p. newPluginMiddleware reg cfg [next] = Built p \<and>
    p r = (case err of None \<Rightarrow> PRet None (Some responseErr) r' | Some e \<Rightarrow> PRet (Some resp) (Some e) r')"
  using assms
  by (simp add: newPluginMiddleware_def with_logger_def error_reqsponseModifierFactory_def logger_Debug_def plugin_proxy_def
      after_response_def executeResponseModifiers_def split: option.split)

text \<open>What the request modifier does to paths.\<close>

lemma modifier_paths:
  "map (\<lambda>p. rPath (logger_modifier (zero\<lparr>rPath := p\<rparr>))) [''/users/'', ''/a/../b'', ''/..//c/.'', ''users'', []] =
     [''/users/fooo'', ''/b/fooo'', ''/c/fooo'', ''users/fooo'', ''/fooo'']"
proof -
  have "map (\<lambda>p. path_Join p ''/fooo'') [''/users/'', ''/a/../b'', ''/..//c/.'', ''users'', []] =
     [''/users/fooo'', ''/b/fooo'', ''/c/fooo'', ''users/fooo'', ''/fooo'']" by code_simp
  then show ?thesis by (simp add: logger_modifier_def)
qed

text \<open>The client plugin stands in for the HTTP client of the backends that name it.\<close>

lemma client_plugin_used:
  assumes "get_as as_obj (be_ExtraConfig b) client_plugin_Namespace = Some extra" and "get_as as_str extra ''name'' = Some client_registerer"
  shows "HTTPRequestExecutorWithContext (RegisterClient client_registerer (registerClients quote url_path) Namespaced_New) next b req =
    Inr \<lparr>hrStatusCode = 200, hrHeader = [(''Content-Type'', [''text/plain; charset=utf-8''])],
      hrBody = ''Hello, '' @ quote (html_EscapeString (url_path (hqURL req))), hrBroken = None, hrURL = None\<rparr>"
  using assms
  by (simp add: HTTPRequestExecutorWithContext_def registerClients_def hello_def RegisterClient_def register_defs)

end
