(* ===== verification/Logging.thy ===== *)
theory Logging
  imports Go_Strings
begin

section \<open>Leveled logging (\<open>logging/log.go\<close>)\<close>

text \<open>
  The basic logger: the level decides which calls write a line, a fatal call writes one and ends the
  process.  A line is the list of the arguments of \<open>Println\<close>; the output is the list of the lines
  written so far, and whether the process has ended.
\<close>

definition LEVEL_DEBUG :: int where "LEVEL_DEBUG = 0"
definition LEVEL_INFO :: int where "LEVEL_INFO = 1"
definition LEVEL_WARNING :: int where "LEVEL_WARNING = 2"
definition LEVEL_ERROR :: int where "LEVEL_ERROR = 3"
definition LEVEL_CRITICAL :: int where "LEVEL_CRITICAL = 4"

definition logLevels :: "(string, int) gomap" where
  "logLevels = [(''DEBUG'', LEVEL_DEBUG), (''INFO'', LEVEL_INFO), (''WARNING'', LEVEL_WARNING),
     (''ERROR'', LEVEL_ERROR), (''CRITICAL'', LEVEL_CRITICAL)]"

record BasicLogger =
  lg_Level :: int
  lg_Prefix :: string

definition defaultLogger :: BasicLogger where
  "defaultLogger = \<lparr>lg_Level = LEVEL_CRITICAL, lg_Prefix = []\<rparr>"

text \<open>The logger and whether the level was valid.\<close>

definition NewLogger :: "string \<Rightarrow> string \<Rightarrow> BasicLogger \<times> bool" where
  "NewLogger level pre =
     (case map_of logLevels (to_upper level) of
        None \<Rightarrow> (defaultLogger, False)
      | Some l \<Rightarrow> (\<lparr>lg_Level = l, lg_Prefix = pre\<rparr>, True))"

record log_output =
  lo_lines :: "string list list"
  lo_exited :: bool

definition prependLog :: "BasicLogger \<Rightarrow> string \<Rightarrow> string list \<Rightarrow> log_output \<Rightarrow> log_output" where
  "prependLog l level v st = st\<lparr>lo_lines := lo_lines st @ [lg_Prefix l # level # v]\<rparr>"

definition log_Debug :: "BasicLogger \<Rightarrow> string list \<Rightarrow> log_output \<Rightarrow> log_output" where
  "log_Debug l v st = (if lg_Level l > LEVEL_DEBUG then st else prependLog l ''DEBUG:'' v st)"

definition log_Info :: "BasicLogger \<Rightarrow> string list \<Rightarrow> log_output \<Rightarrow> log_output" where
  "log_Info l v st = (if lg_Level l > LEVEL_INFO then st else prependLog l ''INFO:'' v st)"

definition log_Warning :: "BasicLogger \<Rightarrow> string list \<Rightarrow> log_output \<Rightarrow> log_output" where
  "log_Warning l v st = (if lg_Level l > LEVEL_WARNING then st else prependLog l ''WARNING:'' v st)"

definition log_Error :: "BasicLogger \<Rightarrow> string list \<Rightarrow> log_output \<Rightarrow> log_output" where
  "log_Error l v st = (if lg_Level l > LEVEL_ERROR then st else prependLog l ''ERROR:'' v st)"

definition log_Critical :: "BasicLogger \<Rightarrow> string list \<Rightarrow> log_output \<Rightarrow> log_output" where
  "log_Critical l v st = prependLog l ''CRITICAL:'' v st"

definition log_Fatal :: "BasicLogger \<Rightarrow> string list \<Rightarrow> log_output \<Rightarrow> log_output" where
  "log_Fatal l v st = (prependLog l ''FATAL:'' v st)\<lparr>lo_exited := True\<rparr>"

text \<open>A series of calls; nothing runs once the process has ended.\<close>

datatype log_entry = Debug "string list" | Info "string list" | Warning "string list" | Error "string list"
  | Critical "string list" | Fatal "string list"

fun log_call :: "BasicLogger \<Rightarrow> log_entry \<Rightarrow> log_output \<Rightarrow> log_output" where
  "log_call l (Debug v) = log_Debug l v"
| "log_call l (Info v) = log_Info l v"
| "log_call l (Warning v) = log_Warning l v"
| "log_call l (Error v) = log_Error l v"
| "log_call l (Critical v) = log_Critical l v"
| "log_call l (Fatal v) = log_Fatal l v"

fun log_run :: "BasicLogger \<Rightarrow> log_entry list \<Rightarrow> log_output \<Rightarrow> log_output" where
  "log_run l [] st = st"
| "log_run l (c # cs) st = (if lo_exited st then st else log_run l cs (log_call l c st))"

subsection \<open>What is written\<close>

fun severity :: "log_entry \<Rightarrow> int" where
  "severity (Debug v) = 0"
| "severity (Info v) = 1"
| "severity (Warning v) = 2"
| "severity (Error v) = 3"
| "severity (Critical v) = 4"
| "severity (Fatal v) = 5"

fun line_of :: "string \<Rightarrow> log_entry \<Rightarrow> string list" where
  "line_of p (Debug v) = p # ''DEBUG:'' # v"
| "line_of p (Info v) = p # ''INFO:'' # v"
| "line_of p (Warning v) = p # ''WARNING:'' # v"
| "line_of p (Error v) = p # ''ERROR:'' # v"
| "line_of p (Critical v) = p # ''CRITICAL:'' # v"
| "line_of p (Fatal v) = p # ''FATAL:'' # v"

fun until_fatal :: "log_entry list \<Rightarrow> log_entry list" where
  "until_fatal [] = []"
| "until_fatal (Fatal v # cs) = [Fatal v]"
| "until_fatal (c # cs) = c # until_fatal cs"

lemmas level_defs = LEVEL_DEBUG_def LEVEL_INFO_def LEVEL_WARNING_def LEVEL_ERROR_def LEVEL_CRITICAL_def

lemmas log_defs = log_Debug_def log_Info_def log_Warning_def log_Error_def log_Critical_def log_Fatal_def
  prependLog_def level_defs

lemma NewLogger_level: "NewLogger level pre = (l, ok) \<Longrightarrow> 0 \<le> lg_Level l \<and> lg_Level l \<le> 4"
  by (auto simp: NewLogger_def logLevels_def defaultLogger_def level_defs split: option.splits if_splits)

lemma log_run_exited: "lo_exited st \<Longrightarrow> log_run l cs st = st"
  by (cases cs) simp_all

lemma log_run_lines:
  assumes "0 \<le> lg_Level l" "lg_Level l \<le> 4"
  shows "\<not> lo_exited st \<Longrightarrow> lo_lines (log_run l cs st) =
    lo_lines st @ map (line_of (lg_Prefix l)) (filter (\<lambda>c. lg_Level l \<le> severity c) (until_fatal cs))"
proof (induction cs arbitrary: st)
  case (Cons c cs)
  then show ?case using assms by (cases c) (auto simp: log_defs log_run_exited)
qed simp

text \<open>
  a logger writes the calls of at least its level, one line each, in order, up to the first fatal
  one, which ends the process; an invalid level gives a logger for critical lines only.
\<close>

theorem logger_writes:
  assumes "NewLogger level pre = (l, ok)"
  shows "lo_lines (log_run l cs \<lparr>lo_lines = [], lo_exited = False\<rparr>) =
      map (line_of (lg_Prefix l)) (filter (\<lambda>c. lg_Level l \<le> severity c) (until_fatal cs)) \<and>
    (\<not> ok \<longrightarrow> lg_Level l = 4)"
  using assms NewLogger_level [OF assms] log_run_lines [of l "\<lparr>lo_lines = [], lo_exited = False\<rparr>" cs]
  by (auto simp: NewLogger_def defaultLogger_def LEVEL_CRITICAL_def split: option.splits)

lemma logger_writes_witness:
  "lo_lines (log_run \<lparr>lg_Level = 1, lg_Prefix = ''p''\<rparr> [Debug [''a''], Info [''b''], Fatal [''c''], Error [''d'']]
     \<lparr>lo_lines = [], lo_exited = False\<rparr>) = [[''p'', ''INFO:'', ''b''], [''p'', ''FATAL:'', ''c'']]"
proof -
  have "NewLogger ''info'' ''p'' = (\<lparr>lg_Level = 1, lg_Prefix = ''p''\<rparr>, True)" by code_simp
  from logger_writes [OF this, THEN conjunct1, of "[Debug [''a''], Info [''b''], Fatal [''c''], Error [''d'']]"]
  show ?thesis by (simp del: log_run.simps)
qed

end
