(* ===== verification/Server.thy ===== *)
theory Server
  imports Config_Init Dns_Srv Proxy_Types
begin

text \<open>
  The HTTP server and the client transport (\<open>transport/http/server/server.go\<close>): the TLS
  configuration, the checks before listening, the shutdown, and the default transport that is
  configured once.  Certificates, key pairs, PEM parsing and the file system are parameters, and a
  certificate pool is the list of its certificates.
\<close>

subsection \<open>TLS parameters\<close>

text \<open>The protocol numbers of \<open>crypto/tls\<close>.\<close>

definition VersionTLS13 :: nat where "VersionTLS13 = 0x304"

definition versions :: "(string, nat) gomap" where
  "versions = [(''SSL3.0'', 0x300), (''TLS10'', 0x301), (''TLS11'', 0x302), (''TLS12'', 0x303), (''TLS13'', VersionTLS13)]"

definition defaultCurves :: "nat list" where
  "defaultCurves = [25, 24, 23]"

definition defaultCipherSuites :: "nat list" where
  "defaultCipherSuites = [0xc02f, 0xc02b, 0xc030, 0xc02c, 0xcca8, 0xcca9]"

definition parseTLSVersion :: "string \<Rightarrow> nat" where
  "parseTLSVersion key = (case map_of versions key of Some v \<Rightarrow> v | None \<Rightarrow> VersionTLS13)"

definition parseCurveIDs :: "nat list \<Rightarrow> nat list" where
  "parseCurveIDs curvePreferences = (if curvePreferences = [] then defaultCurves else curvePreferences)"

definition parseCipherSuites :: "nat list \<Rightarrow> nat list" where
  "parseCipherSuites cipherSuites = (if cipherSuites = [] then defaultCipherSuites else cipherSuites)"

subsection \<open>Certificates\<close>

record ('c, 'k) server_env =
  sv_readFile :: "string \<Rightarrow> string option"
  sv_systemPool :: "'c list option"
  sv_certs :: "string \<Rightarrow> 'c list"
  sv_LoadX509KeyPair :: "string \<Rightarrow> string \<Rightarrow> gerror + 'k"

definition AppendCertsFromPEM :: "('c, 'k) server_env \<Rightarrow> string \<Rightarrow> 'c list \<Rightarrow> 'c list" where
  "AppendCertsFromPEM env pem pool = pool @ sv_certs env pem"

fun append_files :: "('c, 'k) server_env \<Rightarrow> string list \<Rightarrow> 'c list \<Rightarrow> 'c list" where
  "append_files env [] pool = pool"
| "append_files env (path # paths) pool =
     append_files env paths
       (case sv_readFile env path of Some ca \<Rightarrow> AppendCertsFromPEM env ca pool | None \<Rightarrow> pool)"

definition loadCertPool :: "('c, 'k) server_env \<Rightarrow> bool \<Rightarrow> string list \<Rightarrow> 'c list" where
  "loadCertPool env disableSystemCaPool caCerts =
     append_files env caCerts
       (if disableSystemCaPool then [] else (case sv_systemPool env of Some p \<Rightarrow> p | None \<Rightarrow> []))"

fun loadClientCerts :: "('c, 'k) server_env \<Rightarrow> ClientTLSCert list \<Rightarrow> 'k list" where
  "loadClientCerts env [] = []"
| "loadClientCerts env (c # cs) =
     (case sv_LoadX509KeyPair env (cc_Certificate c) (cc_PrivateKey c) of
        Inl err \<Rightarrow> loadClientCerts env cs
      | Inr cert \<Rightarrow> cert # loadClientCerts env cs)"

record ('c, 'k) tls_config =
  tc_MinVersion :: nat
  tc_MaxVersion :: nat
  tc_CurvePreferences :: "nat list"
  tc_CipherSuites :: "nat list"
  tc_ClientCAs :: "'c list option"
  tc_RequireClientCert :: bool
  tc_InsecureSkipVerify :: bool
  tc_RootCAs :: "'c list option"
  tc_Certificates :: "'k list"

definition ParseTLSConfigWithLogger :: "('c, 'k) server_env \<Rightarrow> TLS option \<Rightarrow> ('c, 'k) tls_config option" where
  "ParseTLSConfigWithLogger env cfg =
     (case cfg of
        None \<Rightarrow> None
      | Some cfg \<Rightarrow>
          if tls_IsDisabled cfg then None
          else (let tlsConfig = \<lparr>tc_MinVersion = parseTLSVersion (tls_MinVersion cfg),
                      tc_MaxVersion = parseTLSVersion (tls_MaxVersion cfg),
                      tc_CurvePreferences = parseCurveIDs (tls_CurvePreferences cfg),
                      tc_CipherSuites = parseCipherSuites (tls_CipherSuites cfg), tc_ClientCAs = None,
                      tc_RequireClientCert = False, tc_InsecureSkipVerify = False, tc_RootCAs = None,
                      tc_Certificates = []\<rparr>
                in if \<not> tls_EnableMTLS cfg then Some tlsConfig
                   else (let certPool = loadCertPool env (tls_DisableSystemCaPool cfg) (tls_CaCerts cfg);
                             certPool = append_files env (map kp_PublicKey (tls_Keys cfg)) certPool
                         in Some (tlsConfig\<lparr>tc_ClientCAs := Some certPool, tc_RequireClientCert := True\<rparr>))))"

definition ParseClientTLSConfigWithLogger :: "('c, 'k) server_env \<Rightarrow> ClientTLS option \<Rightarrow> ('c, 'k) tls_config option" where
  "ParseClientTLSConfigWithLogger env cfg =
     map_option (\<lambda>cfg. \<lparr>tc_MinVersion = parseTLSVersion (ct_MinVersion cfg),
        tc_MaxVersion = parseTLSVersion (ct_MaxVersion cfg),
        tc_CurvePreferences = parseCurveIDs (ct_CurvePreferences cfg),
        tc_CipherSuites = parseCipherSuites (ct_CipherSuites cfg), tc_ClientCAs = None,
        tc_RequireClientCert = False, tc_InsecureSkipVerify = ct_AllowInsecureConnections cfg,
        tc_RootCAs = Some (loadCertPool env (ct_DisableSystemCaPool cfg) (ct_CaCerts cfg)),
        tc_Certificates = loadClientCerts env (ct_ClientCerts cfg)\<rparr>) cfg"

subsection \<open>The server\<close>

record ('c, 'k, 'h) http_server =
  hs_Addr :: string
  hs_Handler :: 'h
  hs_ReadTimeout :: int
  hs_WriteTimeout :: int
  hs_ReadHeaderTimeout :: int
  hs_IdleTimeout :: int
  hs_TLSConfig :: "('c, 'k) tls_config option"
  hs_MaxHeaderBytes :: int

definition NewServerWithLogger :: "('c, 'k) server_env \<Rightarrow> ('h \<Rightarrow> 'h) \<Rightarrow> ServiceConfig \<Rightarrow> 'h \<Rightarrow> ('c, 'k, 'h) http_server" where
  "NewServerWithLogger env h2c cfg handler =
     \<lparr>hs_Addr = JoinHostPort (sc_Address cfg) (show_int (sc_Port cfg)),
      hs_Handler = (if sc_UseH2C cfg then h2c handler else handler),
      hs_ReadTimeout = sc_ReadTimeout cfg, hs_WriteTimeout = sc_WriteTimeout cfg,
      hs_ReadHeaderTimeout = sc_ReadHeaderTimeout cfg, hs_IdleTimeout = sc_IdleTimeout cfg,
      hs_TLSConfig = ParseTLSConfigWithLogger env (sc_TLS cfg), hs_MaxHeaderBytes = sc_MaxHeaderBytes cfg\<rparr>"

definition ErrPublicKey :: gerror where "ErrPublicKey = EText ''public key not defined''"
definition ErrPrivateKey :: gerror where "ErrPrivateKey = EText ''private key not defined''"

text \<open>The keys of the configuration: the pair of the section itself comes last.\<close>

definition tls_all_keys :: "TLS \<Rightarrow> TLSKeyPair list" where
  "tls_all_keys t =
     (if tls_PublicKey t \<noteq> [] \<or> tls_PrivateKey t \<noteq> []
      then tls_Keys t @ [\<lparr>kp_PublicKey = tls_PublicKey t, kp_PrivateKey = tls_PrivateKey t\<rparr>] else tls_Keys t)"

fun load_keys :: "('c, 'k) server_env \<Rightarrow> TLSKeyPair list \<Rightarrow> gerror + 'k list" where
  "load_keys env [] = Inr []"
| "load_keys env (k # ks) =
     (if kp_PublicKey k = [] then Inl ErrPublicKey
      else if kp_PrivateKey k = [] then Inl ErrPrivateKey
      else case sv_LoadX509KeyPair env (kp_PublicKey k) (kp_PrivateKey k) of
        Inl err \<Rightarrow> Inl err
      | Inr cert \<Rightarrow> (case load_keys env ks of Inl err \<Rightarrow> Inl err | Inr certs \<Rightarrow> Inr (cert # certs)))"

text \<open>What \<open>RunServer\<close> does before it waits: refuse, or listen, with or without TLS.\<close>

datatype ('c, 'k, 'h) listening = Refused gerror | Listens bool "('c, 'k, 'h) http_server"

definition listen :: "('c, 'k) server_env \<Rightarrow> ('h \<Rightarrow> 'h) \<Rightarrow> ServiceConfig \<Rightarrow> 'h \<Rightarrow> ('c, 'k, 'h) listening" where
  "listen env h2c cfg handler =
     (let s = NewServerWithLogger env h2c cfg handler in
      case (hs_TLSConfig s, sc_TLS cfg) of
        (Some tc, Some t) \<Rightarrow>
          (if tls_all_keys t = [] then Refused ErrPublicKey
           else case load_keys env (tls_all_keys t) of
             Inl err \<Rightarrow> Refused err
           | Inr certs \<Rightarrow>
               Listens True (s\<lparr>hs_TLSConfig := Some (tc\<lparr>tc_Certificates := tc_Certificates tc @ certs\<rparr>)\<rparr>))
      | _ \<Rightarrow> Listens False s)"

text \<open>
  How the wait ends: the server stops by itself with its error, or the context does.  \<open>shutdown\<close> is
  given the time it may take, \<open>None\<close> for no limit.
\<close>

datatype ending = ServerStops gerror | ContextEnds

definition RunServer :: "('c, 'k) server_env \<Rightarrow> ('h \<Rightarrow> 'h) \<Rightarrow> (('c, 'k, 'h) http_server \<Rightarrow> int option \<Rightarrow> gerror option) \<Rightarrow> ending \<Rightarrow>
    ServiceConfig \<Rightarrow> 'h \<Rightarrow> gerror option" where
  "RunServer env h2c shutdown e cfg handler =
     (case listen env h2c cfg handler of
        Refused err \<Rightarrow> Some err
      | Listens _ s \<Rightarrow>
          (case e of
             ServerStops err \<Rightarrow> Some err
           | ContextEnds \<Rightarrow> shutdown s (if sc_MaxShutdownDuration cfg \<le> 0 then None else Some (sc_MaxShutdownDuration cfg))))"

subsection \<open>The client transport\<close>

record ('c, 'k) transport =
  tp_DialTimeout :: int
  tp_KeepAlive :: int
  tp_FallbackDelay :: int
  tp_DisableCompression :: bool
  tp_DisableKeepAlives :: bool
  tp_MaxIdleConns :: int
  tp_MaxIdleConnsPerHost :: int
  tp_IdleConnTimeout :: int
  tp_ResponseHeaderTimeout :: int
  tp_ExpectContinueTimeout :: int
  tp_TLSHandshakeTimeout :: int
  tp_TLSClientConfig :: "('c, 'k) tls_config option"

definition NewTransport :: "('c, 'k) server_env \<Rightarrow> ServiceConfig \<Rightarrow> ('c, 'k) transport" where
  "NewTransport env cfg =
     \<lparr>tp_DialTimeout = sc_DialerTimeout cfg, tp_KeepAlive = sc_DialerKeepAlive cfg,
      tp_FallbackDelay = sc_DialerFallbackDelay cfg, tp_DisableCompression = sc_DisableCompression cfg,
      tp_DisableKeepAlives = sc_DisableKeepAlives cfg, tp_MaxIdleConns = sc_MaxIdleConns cfg,
      tp_MaxIdleConnsPerHost = sc_MaxIdleConnsPerHost cfg, tp_IdleConnTimeout = sc_IdleConnTimeout cfg,
      tp_ResponseHeaderTimeout = sc_ResponseHeaderTimeout cfg,
      tp_ExpectContinueTimeout = sc_ExpectContinueTimeout cfg, tp_TLSHandshakeTimeout = 10 * cfg_Second,
      tp_TLSClientConfig = ParseClientTLSConfigWithLogger env (sc_ClientTLS cfg)\<rparr>"

definition zero_client_tls :: ClientTLS where
  "zero_client_tls = \<lparr>ct_AllowInsecureConnections = False, ct_CaCerts = [], ct_DisableSystemCaPool = False,
     ct_MinVersion = [], ct_MaxVersion = [], ct_CurvePreferences = [], ct_CipherSuites = [], ct_ClientCerts = []\<rparr>"

definition insecure_client :: "ServiceConfig \<Rightarrow> ServiceConfig" where
  "insecure_client cfg =
     (if sc_AllowInsecureConnections cfg
      then cfg\<lparr>sc_ClientTLS := Some ((case sc_ClientTLS cfg of None \<Rightarrow> zero_client_tls | Some c \<Rightarrow> c)
                 \<lparr>ct_AllowInsecureConnections := True\<rparr>)\<rparr>
      else cfg)"

text \<open>The state is the once and the default transport it has set.\<close>

definition InitHTTPDefaultTransportWithLogger :: "('c, 'k) server_env \<Rightarrow> ServiceConfig \<Rightarrow> ('c, 'k) transport option \<Rightarrow> ('c, 'k) transport option" where
  "InitHTTPDefaultTransportWithLogger env cfg st =
     (case st of None \<Rightarrow> Some (NewTransport env (insecure_client cfg)) | Some t \<Rightarrow> Some t)"

subsection \<open>Facts\<close>

lemma set_append_files:
  "set (append_files env paths pool) =
     set pool \<union> {c. \<exists>path \<in> set paths. \<exists>pem. sv_readFile env path = Some pem \<and> c \<in> set (sv_certs env pem)}"
  by (induction env paths pool rule: append_files.induct)
    (auto simp: AppendCertsFromPEM_def split: option.splits)

lemma load_keys_Inr:
  "load_keys env ks = Inr certs \<longleftrightarrow>
     list_all2 (\<lambda>k c. kp_PublicKey k \<noteq> [] \<and> kp_PrivateKey k \<noteq> [] \<and>
       sv_LoadX509KeyPair env (kp_PublicKey k) (kp_PrivateKey k) = Inr c) ks certs"
  by (induction env ks arbitrary: certs rule: load_keys.induct)
    (auto simp: list_all2_Cons1 split: sum.splits)

lemma tls_all_keys_pairs:
  "tls_all_keys t = tls_Keys t @
     (if tls_PublicKey t = [] \<and> tls_PrivateKey t = [] then []
      else [\<lparr>kp_PublicKey = tls_PublicKey t, kp_PrivateKey = tls_PrivateKey t\<rparr>])"
  by (simp add: tls_all_keys_def)

text \<open>
  C27: a server with TLS enabled never listens in the clear: it listens with TLS, and with one
  certificate for each configured key pair, those listed and then the section's own one when either of its names is
  there, at least one in all, or it refuses to start; it listens without TLS exactly when the section is missing or disabled.
\<close>

theorem tls_never_clear:
  "(\<forall>tl s. listen env h2c cfg handler = Listens tl s \<longrightarrow>
      tl = (case sc_TLS cfg of None \<Rightarrow> False | Some t \<Rightarrow> \<not> tls_IsDisabled t)) \<and>
   (\<forall>s t. listen env h2c cfg handler = Listens True s \<longrightarrow> sc_TLS cfg = Some t \<longrightarrow>
      (let pairs = tls_Keys t @
             (if tls_PublicKey t = [] \<and> tls_PrivateKey t = [] then []
              else [\<lparr>kp_PublicKey = tls_PublicKey t, kp_PrivateKey = tls_PrivateKey t\<rparr>])
       in pairs \<noteq> [] \<and>
          (\<exists>tc. hs_TLSConfig s = Some tc \<and>
            list_all2 (\<lambda>k c. kp_PublicKey k \<noteq> [] \<and> kp_PrivateKey k \<noteq> [] \<and>
              sv_LoadX509KeyPair env (kp_PublicKey k) (kp_PrivateKey k) = Inr c) pairs (tc_Certificates tc))))"
  unfolding tls_all_keys_pairs [symmetric]
  by (auto simp: listen_def Let_def NewServerWithLogger_def ParseTLSConfigWithLogger_def load_keys_Inr [symmetric]
      split: option.splits if_splits sum.splits)

text \<open>
  mutual TLS: the server asks every client for a certificate and accepts the authorities of the
  system's pool unless it is switched off, those of the readable CA files, and the certificates of
  the listed key pairs, nothing else.
\<close>

theorem mtls_authorities:
  assumes "tls_EnableMTLS t" and "\<not> tls_IsDisabled t"
  shows "\<exists>tc cas. ParseTLSConfigWithLogger env (Some t) = Some tc \<and> tc_RequireClientCert tc \<and> tc_ClientCAs tc = Some cas \<and>
    set cas = (if tls_DisableSystemCaPool t then {} else (case sv_systemPool env of None \<Rightarrow> {} | Some p \<Rightarrow> set p)) \<union>
      {c. \<exists>path \<in> set (tls_CaCerts t) \<union> kp_PublicKey ` set (tls_Keys t).
            \<exists>pem. sv_readFile env path = Some pem \<and> c \<in> set (sv_certs env pem)}"
  using assms
  by (auto simp: ParseTLSConfigWithLogger_def Let_def loadCertPool_def set_append_files split: option.split)

lemma transport_once:
  "fold (InitHTTPDefaultTransportWithLogger env) cfgs (Some t) = Some t"
  by (induction cfgs) (simp_all add: InitHTTPDefaultTransportWithLogger_def)

text \<open>
  the default transport is configured by the first configuration that reaches it: whatever
  sequence of configurations is run, the transport is the first one's, and it skips the verification
  of certificates exactly when that configuration allows it, for the service or for the client.
\<close>

theorem default_transport_first:
  "\<exists>t. fold (InitHTTPDefaultTransportWithLogger env) (cfg # cfgs) None = Some t \<and>
     tp_MaxIdleConnsPerHost t = sc_MaxIdleConnsPerHost cfg \<and>
     ((\<exists>tc. tp_TLSClientConfig t = Some tc \<and> tc_InsecureSkipVerify tc) \<longleftrightarrow>
        sc_AllowInsecureConnections cfg \<or> (\<exists>c. sc_ClientTLS cfg = Some c \<and> ct_AllowInsecureConnections c))"
  by (auto simp: InitHTTPDefaultTransportWithLogger_def transport_once NewTransport_def insecure_client_def
      ParseClientTLSConfigWithLogger_def split: option.splits)

definition sample_tls :: TLS where
  "sample_tls = \<lparr>tls_IsDisabled = False, tls_PublicKey = ''cert.pem'', tls_PrivateKey = ''key.pem'', tls_CaCerts = [''ca.pem''],
     tls_MinVersion = [], tls_MaxVersion = [], tls_CurvePreferences = [], tls_PreferServerCipherSuites = False,
     tls_CipherSuites = [], tls_EnableMTLS = True, tls_DisableSystemCaPool = True, tls_Keys = []\<rparr>"

definition sample_server :: "(string, nat) server_env" where
  "sample_server = \<lparr>sv_readFile = Some, sv_systemPool = None, sv_certs = (\<lambda>pem. [pem]),
     sv_LoadX509KeyPair = (\<lambda>pub priv. Inr (length pub))\<rparr>"

lemma tls_never_clear_witness:
  "\<exists>s tc. listen sample_server id (zero_service\<lparr>sc_TLS := Some sample_tls\<rparr>) () = Listens True s \<and>
     hs_TLSConfig s = Some tc \<and> length (tc_Certificates tc) = 1"
proof -
  let ?cfg = "zero_service\<lparr>sc_TLS := Some sample_tls\<rparr>"
  obtain s where s: "listen sample_server id ?cfg () = Listens True s"
    by (simp add: listen_def NewServerWithLogger_def ParseTLSConfigWithLogger_def sample_tls_def sample_server_def
        tls_all_keys_def Let_def)
  have keys: "length (tls_all_keys sample_tls) = 1" by (simp add: tls_all_keys_def sample_tls_def)
  have tls: "sc_TLS ?cfg = Some sample_tls" by simp
  obtain tc where tc: "hs_TLSConfig s = Some tc" and certs: "list_all2 (\<lambda>k c. kp_PublicKey k \<noteq> [] \<and> kp_PrivateKey k \<noteq> [] \<and>
      sv_LoadX509KeyPair sample_server (kp_PublicKey k) (kp_PrivateKey k) = Inr c) (tls_all_keys sample_tls) (tc_Certificates tc)"
    using tls_never_clear [THEN conjunct2, rule_format, OF s tls] unfolding tls_all_keys_pairs [symmetric] Let_def by (elim conjE exE)
  show ?thesis
    using s tc list_all2_lengthD [OF certs] keys by (intro exI conjI) auto
qed

lemma mtls_authorities_witness:
  "\<exists>tc cas. ParseTLSConfigWithLogger sample_server (Some sample_tls) = Some tc \<and> tc_ClientCAs tc = Some cas \<and> set cas = {''ca.pem''}"
proof -
  have "tls_EnableMTLS sample_tls" "\<not> tls_IsDisabled sample_tls" by (simp_all add: sample_tls_def)
  from mtls_authorities [OF this, of sample_server] show ?thesis
    by (auto simp: sample_tls_def sample_server_def)
qed

end
