(* ===== verification/Router_Gin.thy ===== *)
theory Router_Gin
  imports Router_Mux
begin

section \<open>The gin adapter (\<open>router/gin/\<close>)\<close>

text \<open>
  Renders, request construction, endpoint handler, engine configuration, parameter check and the
  registration with its catalogue of paths.  The gin library is a parameter: \<open>gin\<close> collects the
  methods of its context the code calls, over an abstract type of contexts, and the engine is reached
  through the registration function.  What the theorems need of the context is its documented effect
  on the response headers (\<open>gin_headers\<close>).
\<close>

subsection \<open>The context\<close>

record 'c gin =
  g_Header :: "string \<Rightarrow> string \<Rightarrow> 'c \<Rightarrow> 'c"
  g_HeaderAdd :: "string \<Rightarrow> string \<Rightarrow> 'c \<Rightarrow> 'c"
  g_Status :: "int \<Rightarrow> 'c \<Rightarrow> 'c"
  g_WriterStatus :: "'c \<Rightarrow> int"
  g_Error :: "gerror \<Rightarrow> 'c \<Rightarrow> 'c"
  g_String :: "int \<Rightarrow> string \<Rightarrow> 'c \<Rightarrow> 'c"
  g_JSON :: "int \<Rightarrow> json \<Rightarrow> 'c \<Rightarrow> 'c"
  g_XML :: "int \<Rightarrow> json \<Rightarrow> 'c \<Rightarrow> 'c"
  g_YAML :: "int \<Rightarrow> json \<Rightarrow> 'c \<Rightarrow> 'c"
  g_Write :: "string \<Rightarrow> 'c \<Rightarrow> 'c"
  g_Abort :: "'c \<Rightarrow> 'c"
  g_AbortWithStatus :: "int \<Rightarrow> 'c \<Rightarrow> 'c"
  g_NegotiateFormat :: "string list \<Rightarrow> 'c \<Rightarrow> string"
  g_ClientIP :: "'c \<Rightarrow> string"
  g_Params :: "'c \<Rightarrow> (string \<times> string) list"
  g_Request :: "'c \<Rightarrow> http_in"

definition gin_headers :: "'c gin \<Rightarrow> ('c \<Rightarrow> string \<Rightarrow> string list) \<Rightarrow> bool" where
  "gin_headers g H \<longleftrightarrow>
     (\<forall>k v c. v \<noteq> [] \<longrightarrow> H (g_Header g k v c) = (H c)(CanonicalMIMEHeaderKey k := [v])) \<and>
     (\<forall>k v c. H (g_HeaderAdd g k v c) =
        (H c)(CanonicalMIMEHeaderKey k := H c (CanonicalMIMEHeaderKey k) @ [v])) \<and>
     (\<forall>e c. H (g_Error g e c) = H c) \<and> (\<forall>n c. H (g_Status g n c) = H c) \<and> (\<forall>s c. H (g_Write g s c) = H c)"

fun gin_add_headers :: "'c gin \<Rightarrow> (string, string list) gomap \<Rightarrow> 'c \<Rightarrow> 'c" where
  "gin_add_headers g [] c = c"
| "gin_add_headers g ((k, vs) # hs) c = gin_add_headers g hs (fold (g_HeaderAdd g k) vs c)"

subsection \<open>Renders\<close>

type_synonym 'c gin_render = "response option \<Rightarrow> 'c \<Rightarrow> 'c"

definition gin_stringRender :: "'c gin \<Rightarrow> 'c gin_render" where
  "gin_stringRender g response c =
     (let status = g_WriterStatus g c in
      case response of
        None \<Rightarrow> g_String g status [] c
      | Some r \<Rightarrow> (case get_as as_str (entries (Data r)) ''content'' of
                     None \<Rightarrow> g_String g status [] c
                   | Some msg \<Rightarrow> g_String g status msg c))"

definition gin_jsonRender :: "'c gin \<Rightarrow> 'c gin_render" where
  "gin_jsonRender g response c =
     g_JSON g (g_WriterStatus g c) (case response of None \<Rightarrow> JObj [] | Some r \<Rightarrow> data_value r) c"

definition gin_jsonCollectionRender :: "'c gin \<Rightarrow> 'c gin_render" where
  "gin_jsonCollectionRender g response c =
     g_JSON g (g_WriterStatus g c)
       (case response of
          None \<Rightarrow> JArr []
        | Some r \<Rightarrow> (case map_of (entries (Data r)) ''collection'' of None \<Rightarrow> JArr [] | Some col \<Rightarrow> col)) c"

definition gin_xmlRender :: "'c gin \<Rightarrow> 'c gin_render" where
  "gin_xmlRender g response c =
     g_XML g (g_WriterStatus g c)
       (case response of
          None \<Rightarrow> JNull
        | Some r \<Rightarrow> (case map_of (entries (Data r)) ''content'' of None \<Rightarrow> JNull | Some d \<Rightarrow> d)) c"

definition gin_yamlRender :: "'c gin \<Rightarrow> 'c gin_render" where
  "gin_yamlRender g response c =
     g_YAML g (g_WriterStatus g c) (case response of None \<Rightarrow> JObj [] | Some r \<Rightarrow> data_value r) c"

definition gin_noopRender :: "'c gin \<Rightarrow> 'c gin_render" where
  "gin_noopRender g response c =
     (case response of
        None \<Rightarrow> g_Status g 500 c
      | Some r \<Rightarrow>
          (let c = g_Status g (StatusCode (Metadata r)) (gin_add_headers g (Headers (Metadata r)) c)
           in case Io r of None \<Rightarrow> c | Some bytes \<Rightarrow> g_Write g bytes c))"

text \<open>
  The register.  The negotiated render looks the others up when it runs, so its entry is kept apart;
  clients cannot register it under another name.
\<close>

datatype 'c gin_entry = Fixed "'c gin_render" | Negotiated

type_synonym 'c gin_renders = "(string, 'c gin_entry) gomap"

definition NEGOTIATE :: string where "NEGOTIATE = ''negotiate''"
definition XML :: string where "XML = ''xml''"
definition YAML :: string where "YAML = ''yaml''"

definition gin_initRenders :: "'c gin \<Rightarrow> 'c gin_renders" where
  "gin_initRenders g =
     [(STRING, Fixed (gin_stringRender g)), (JSON, Fixed (gin_jsonRender g)), (NOOP, Fixed (gin_noopRender g)),
      (''json-collection'', Fixed (gin_jsonCollectionRender g)), (XML, Fixed (gin_xmlRender g)),
      (YAML, Fixed (gin_yamlRender g)), (NEGOTIATE, Negotiated)]"

definition gin_RegisterRender :: "string \<Rightarrow> 'c gin_render \<Rightarrow> 'c gin_renders \<Rightarrow> 'c gin_renders" where
  "gin_RegisterRender name r reg = go_put name (Fixed r) reg"

definition fixed_render :: "'c gin \<Rightarrow> 'c gin_renders \<Rightarrow> string \<Rightarrow> 'c gin_render" where
  "fixed_render g reg key = (case map_of reg key of Some (Fixed r) \<Rightarrow> r | _ \<Rightarrow> gin_jsonRender g)"

definition negotiatedRender :: "'c gin \<Rightarrow> 'c gin_renders \<Rightarrow> 'c gin_render" where
  "negotiatedRender g reg response c =
     (let format = g_NegotiateFormat g [''application/json'', ''text/plain'', ''application/xml'', ''application/x-yaml''] c in
      if format = ''application/xml'' then fixed_render g reg XML response c
      else if format \<in> {''text/plain'', ''application/x-yaml''} then fixed_render g reg YAML response c
      else fixed_render g reg JSON response c)"

definition gin_getWithFallback :: "'c gin \<Rightarrow> 'c gin_renders \<Rightarrow> string \<Rightarrow> 'c gin_render \<Rightarrow> 'c gin_render" where
  "gin_getWithFallback g reg key fallback =
     (case map_of reg key of None \<Rightarrow> fallback | Some (Fixed r) \<Rightarrow> r | Some Negotiated \<Rightarrow> negotiatedRender g reg)"

definition gin_getRender :: "'c gin \<Rightarrow> 'c gin_renders \<Rightarrow> EndpointConfig \<Rightarrow> 'c gin_render" where
  "gin_getRender g reg cfg =
     (let fallback = (case ep_Backend cfg of
            [b] \<Rightarrow> gin_getWithFallback g reg (be_Encoding b) (gin_jsonRender g) | _ \<Rightarrow> gin_jsonRender g)
      in if ep_OutputEncoding cfg = [] then fallback else gin_getWithFallback g reg (ep_OutputEncoding cfg) fallback)"

subsection \<open>The request\<close>

fun gin_params :: "(string \<times> string) list \<Rightarrow> (string, string) gomap \<Rightarrow> (string, string) gomap run" where
  "gin_params [] acc = Ret acc"
| "gin_params ((k, v) # ps) acc =
     (if k = [] then Panic ''slice bounds out of range [:1] with length 0''
      else gin_params ps (go_put (CanonicalMIMEHeaderKey (take 1 k) @ drop 1 k) v acc))"

definition gin_NewRequest :: "'c gin \<Rightarrow> string list \<Rightarrow> 'c \<Rightarrow> string list \<Rightarrow> request run" where
  "gin_NewRequest g headersToSend c queryString =
     (let headersToSend = (if headersToSend = [] then HeadersToSend else headersToSend) in
      run_bind (gin_params (g_Params g c) []) (\<lambda>params.
        Ret (request_from (g_ClientIP g c) params (g_Request g c) queryString headersToSend)))"

subsection \<open>The endpoint handler\<close>

definition ErrorResponseWriter :: "'c gin \<Rightarrow> gerror \<Rightarrow> 'c \<Rightarrow> 'c" where
  "ErrorResponseWriter g err c =
     (let c = (case error_encoding err of
                 Some enc \<Rightarrow> (if enc \<noteq> [] then g_Header g ''Content-Type'' enc c else c) | None \<Rightarrow> c)
      in g_Write g (error_msg err) c)"

definition gin_response_headers :: "'c gin \<Rightarrow> EndpointConfig \<Rightarrow> response option \<Rightarrow> 'c \<Rightarrow> 'c" where
  "gin_response_headers g cfg response c =
     (case response of
        None \<Rightarrow> c
      | Some r \<Rightarrow>
          if entries (Data r) = [] then c
          else gin_add_headers g (Headers (Metadata r))
            (if IsComplete r \<and> ep_CacheTTL cfg \<noteq> 0
             then g_Header g ''Cache-Control'' (''public, max-age='' @ show_int (cache_seconds (ep_CacheTTL cfg))) c else c))"

definition gin_complete :: "response option \<Rightarrow> string" where
  "gin_complete response =
     (case response of
        Some r \<Rightarrow> (if entries (Data r) \<noteq> [] \<and> IsComplete r then HeaderCompleteResponseValue else HeaderIncompleteResponseValue)
      | None \<Rightarrow> HeaderIncompleteResponseValue)"

text \<open>\<open>multiError\<close>: the merged errors are reported one by one.\<close>

definition gin_errors :: "'c gin \<Rightarrow> gerror \<Rightarrow> 'c \<Rightarrow> 'c" where
  "gin_errors g err c = (case err of EMerge es \<Rightarrow> fold (g_Error g) es c | _ \<Rightarrow> g_Error g err c)"

text \<open>No error of the library has a \<open>Headers\<close> method; \<open>eh\<close> is what those of others give.\<close>

definition gin_fail ::
  "'c gin \<Rightarrow> (gerror \<Rightarrow> int) \<Rightarrow> (gerror \<Rightarrow> (string, string list) gomap) \<Rightarrow> bool \<Rightarrow> gerror \<Rightarrow> 'c \<Rightarrow> 'c" where
  "gin_fail g errF eh returnErrorMsg err c =
     (let c = g_Status g (status_for errF err) (gin_add_headers g (eh err) c)
      in if returnErrorMsg then ErrorResponseWriter g err c else c)"

definition CustomErrorEndpointHandler ::
  "'c gin \<Rightarrow> (gerror \<Rightarrow> int) \<Rightarrow> (gerror \<Rightarrow> (string, string list) gomap) \<Rightarrow> bool \<Rightarrow> 'c gin_render \<Rightarrow> bool \<Rightarrow>
    EndpointConfig \<Rightarrow> proxy \<Rightarrow> 'c \<Rightarrow> 'c run" where
  "CustomErrorEndpointHandler g errF eh returnErrorMsg rnd don cfg prxy c =
     (let c = g_Header g KrakendHeaderName KrakendHeaderValue c in
      run_bind (gin_NewRequest g (ep_HeadersToPass cfg) c (ep_QueryString cfg)) (\<lambda>req.
        case prxy req of
          PPanic e \<Rightarrow> Panic e
        | PRet response err _ \<Rightarrow>
            (let c = g_Header g CompleteResponseHeaderName (gin_complete response) (gin_response_headers g cfg response c) in
             case ctx_error don err of
               None \<Rightarrow> Ret (rnd response c)
             | Some err \<Rightarrow>
                 (let c = gin_errors g err c in
                  if response = None then Ret (gin_fail g errF eh returnErrorMsg err c) else Ret (rnd response c)))))"

subsection \<open>The check of path parameters\<close>

text \<open>\<open>url.PathUnescape\<close>.\<close>

fun PathUnescape :: "string \<Rightarrow> string option" where
  "PathUnescape [] = Some []"
| "PathUnescape (c # cs) =
     (if c = CHR ''%'' then
        (case cs of
           a # b # rest \<Rightarrow>
             (case (unhex a, unhex b) of
                (Some x, Some y) \<Rightarrow> map_option (\<lambda>r. char_of (16 * x + y) # r) (PathUnescape rest)
              | _ \<Rightarrow> None)
         | _ \<Rightarrow> None)
      else map_option (\<lambda>r. c # r) (PathUnescape cs))"

datatype param_check = Accepted | BadEscape string | EncodedParams

fun check_params :: "(string \<times> string) list \<Rightarrow> param_check" where
  "check_params [] = Accepted"
| "check_params ((k, v) # ps) =
     (case PathUnescape v of
        None \<Rightarrow> BadEscape v
      | Some s \<Rightarrow>
          if s \<noteq> v \<or> CHR ''?'' \<in> set s \<or> CHR ''#'' \<in> set s then EncodedParams else check_params ps)"

definition reject :: "'c gin \<Rightarrow> string \<Rightarrow> 'c \<Rightarrow> 'c" where
  "reject g msg c = g_Abort g (ErrorResponseWriter g (EText msg) (g_Status g 400 c))"

definition paramChecker :: "'c gin \<Rightarrow> (string \<Rightarrow> string) \<Rightarrow> 'c \<Rightarrow> 'c" where
  "paramChecker g unescape_error c =
     (case check_params (g_Params g c) of
        Accepted \<Rightarrow> c
      | BadEscape v \<Rightarrow> reject g (''error: '' @ unescape_error v) c
      | EncodedParams \<Rightarrow> reject g ''error: encoded url params'' c)"

subsection \<open>Registration\<close>

type_synonym 'c gin_handler = "'c \<Rightarrow> 'c run"

text \<open>
  The router keeps the engine and the catalogue of the methods registered for each path.  \<open>handle\<close>
  is the engine's registration of a chain of handlers; gin panics on routes that conflict.
\<close>

record 'e gin_router =
  gr_engine :: 'e
  gr_catalog :: "(string, string list) gomap"

type_synonym ('c, 'e) gin_register = "string \<Rightarrow> string \<Rightarrow> 'c gin_handler list \<Rightarrow> 'e \<Rightarrow> 'e run"

definition catalog_add :: "string \<Rightarrow> string \<Rightarrow> (string, string list) gomap \<Rightarrow> (string, string list) gomap" where
  "catalog_add path method m =
     go_put path (case map_of m path of None \<Rightarrow> [method] | Some methods \<Rightarrow> methods @ [method]) m"

definition gin_registerKrakendEndpoint ::
  "('c, 'e) gin_register \<Rightarrow> 'c gin_handler list \<Rightarrow> string \<Rightarrow> EndpointConfig \<Rightarrow> 'c gin_handler \<Rightarrow> nat \<Rightarrow>
    'e gin_router \<Rightarrow> 'e gin_router run" where
  "gin_registerKrakendEndpoint handle mws method e h totBackends r =
     (let method = to_upper method; path = ep_Endpoint e in
      if method \<noteq> ''GET'' \<and> totBackends > 1 \<and> \<not> IsValidSequentialEndpoint e then Ret r
      else if method \<in> set router_methods then
        run_bind (handle method path (mws @ [h]) (gr_engine r)) (\<lambda>engine.
          Ret (r\<lparr>gr_engine := engine, gr_catalog := catalog_add path method (gr_catalog r)\<rparr>))
      else Ret r)"

definition proxyBuildFailedHandler :: "'c gin \<Rightarrow> 'c gin_handler" where
  "proxyBuildFailedHandler g c = Ret (g_AbortWithStatus g 500 c)"

fun gin_registerKrakendEndpoints ::
  "'c gin \<Rightarrow> ('c, 'e) gin_register \<Rightarrow> 'c gin_handler list \<Rightarrow> factory \<Rightarrow> (EndpointConfig \<Rightarrow> proxy \<Rightarrow> 'c gin_handler) \<Rightarrow>
    EndpointConfig list \<Rightarrow> 'e gin_router \<Rightarrow> 'e gin_router run" where
  "gin_registerKrakendEndpoints g handle mws pf hf [] r = Ret r"
| "gin_registerKrakendEndpoints g handle mws pf hf (c # cs) r =
     (case pf c of
        MadeFatal m \<Rightarrow> Panic m
      | MadePanic m \<Rightarrow> Panic m
      | Made p err \<Rightarrow>
          run_bind
            (case err of
               Some _ \<Rightarrow> gin_registerKrakendEndpoint handle mws (ep_Method c) c (proxyBuildFailedHandler g) 1 r
             | None \<Rightarrow> gin_registerKrakendEndpoint handle mws (ep_Method c) c (hf c (proxy_or_nil p)) (length (ep_Backend c)) r)
            (gin_registerKrakendEndpoints g handle mws pf hf cs))"

definition options_handler :: "'c gin \<Rightarrow> string list \<Rightarrow> 'c gin_handler" where
  "options_handler g methods c =
     Ret (g_Header g KrakendHeaderName KrakendHeaderValue (g_Header g ''Allow'' (join_with '', '' methods) c))"

text \<open>The loop over the catalogue; sorting is in place, so the catalogue is left sorted.\<close>

fun register_options ::
  "'c gin \<Rightarrow> ('c, 'e) gin_register \<Rightarrow> 'c gin_handler list \<Rightarrow> (string, string list) gomap \<Rightarrow> 'e \<Rightarrow> 'e run" where
  "register_options g handle mws [] e = Ret e"
| "register_options g handle mws ((path, methods) # cat) e =
     run_bind (handle ''OPTIONS'' path (mws @ [options_handler g (sort methods)]) e) (register_options g handle mws cat)"

definition gin_registerOptionEndpoints ::
  "'c gin \<Rightarrow> ('c, 'e) gin_register \<Rightarrow> 'c gin_handler list \<Rightarrow> 'e gin_router \<Rightarrow> 'e gin_router run" where
  "gin_registerOptionEndpoints g handle mws r =
     run_bind (register_options g handle mws (gr_catalog r) (gr_engine r)) (\<lambda>e.
       Ret (r\<lparr>gr_engine := e, gr_catalog := map (\<lambda>(p, ms). (p, sort ms)) (gr_catalog r)\<rparr>))"

definition gin_Namespace :: string where "gin_Namespace = ''github_com/luraproject/lura/router/gin''"

definition auto_options :: "ServiceConfig \<Rightarrow> bool" where
  "auto_options cfg =
     (case get_as as_obj (sc_ExtraConfig cfg) gin_Namespace of
        None \<Rightarrow> False
      | Some opts \<Rightarrow> get_as as_bool opts ''auto_options'' = Some True)"

text \<open>\<open>Any\<close>: one registration for each method, outside the group of the middlewares.\<close>

fun gin_Any :: "('c, 'e) gin_register \<Rightarrow> string list \<Rightarrow> string \<Rightarrow> 'c gin_handler \<Rightarrow> 'e \<Rightarrow> 'e run" where
  "gin_Any handle [] path h e = Ret e"
| "gin_Any handle (m # ms) path h e = run_bind (handle m path [h] e) (gin_Any handle ms path h)"

definition gin_DebugHandler :: "'c gin \<Rightarrow> 'c gin_handler" where
  "gin_DebugHandler g c = Ret (g_JSON g 200 (JObj [(''message'', JStr ''pong'')]) c)"

definition registerEndpointsAndMiddlewares ::
  "'c gin \<Rightarrow> ('c, 'e) gin_register \<Rightarrow> string list \<Rightarrow> 'c gin_handler \<Rightarrow> 'c gin_handler list \<Rightarrow> factory \<Rightarrow>
    (EndpointConfig \<Rightarrow> proxy \<Rightarrow> 'c gin_handler) \<Rightarrow> ServiceConfig \<Rightarrow> 'e gin_router \<Rightarrow> 'e gin_router run" where
  "registerEndpointsAndMiddlewares g handle any echo mws pf hf cfg r =
     run_bind (if sc_Debug cfg then gin_Any handle any ''/__debug/*param'' (gin_DebugHandler g) (gr_engine r) else Ret (gr_engine r)) (\<lambda>e.
     run_bind (if sc_Echo cfg then gin_Any handle any ''/__echo/*param'' echo e else Ret e) (\<lambda>e.
     run_bind (gin_registerKrakendEndpoints g handle mws pf hf (sc_Endpoints cfg) (r\<lparr>gr_engine := e\<rparr>)) (\<lambda>r.
       if auto_options cfg then gin_registerOptionEndpoints g handle mws r else Ret r)))"

subsection \<open>The engine\<close>

text \<open>The fields of the engine \<open>NewEngine\<close> sets; \<open>gin.New\<close> gives the others their defaults.\<close>

record gin_engine =
  ge_RedirectTrailingSlash :: bool
  ge_RedirectFixedPath :: bool
  ge_HandleMethodNotAllowed :: bool
  ge_ContextWithFallback :: bool
  ge_ForwardedByClientIP :: bool
  ge_RemoteIPHeaders :: "string list"
  ge_TrustedProxies :: "string list"
  ge_AppEngine :: bool
  ge_MaxMultipartMemory :: int
  ge_RemoveExtraSlash :: bool
  ge_UseH2C :: bool

record engineConfiguration =
  ec_DisableRedirectTrailingSlash :: "bool option"
  ec_DisableRedirectFixedPath :: "bool option"
  ec_DisableHandleMethodNotAllowed :: "bool option"
  ec_ForwardedByClientIP :: "bool option"
  ec_RemoteIPHeaders :: "string list"
  ec_TrustedProxies :: "string list"
  ec_AppEngine :: bool
  ec_MaxMultipartMemory :: int
  ec_RemoveExtraSlash :: bool
  ec_LoggerSkipPaths :: "string list"
  ec_AutoOptions :: bool
  ec_ReturnErrorMsg :: bool
  ec_DisableHealthEndpoint :: bool
  ec_HealthPath :: string
  ec_DisableAccessLog :: bool
  ec_DisablePathDecoding :: bool
  ec_ObfuscateVersionHeader :: bool
  ec_UseH2C :: bool

definition zero_engineConfiguration :: engineConfiguration where
  "zero_engineConfiguration = \<lparr>ec_DisableRedirectTrailingSlash = None, ec_DisableRedirectFixedPath = None,
     ec_DisableHandleMethodNotAllowed = None, ec_ForwardedByClientIP = None, ec_RemoteIPHeaders = [],
     ec_TrustedProxies = [], ec_AppEngine = False, ec_MaxMultipartMemory = 0, ec_RemoveExtraSlash = False,
     ec_LoggerSkipPaths = [], ec_AutoOptions = False, ec_ReturnErrorMsg = False, ec_DisableHealthEndpoint = False,
     ec_HealthPath = [], ec_DisableAccessLog = False, ec_DisablePathDecoding = False,
     ec_ObfuscateVersionHeader = False, ec_UseH2C = False\<rparr>"

datatype engine_middleware = AccessLog "string list" | Recovery | ParamChecker

text \<open>What \<open>NewEngine\<close> leaves: the engine, its middlewares in order, the health path and the two globals.\<close>

record new_engine =
  ne_engine :: gin_engine
  ne_middlewares :: "engine_middleware list"
  ne_health :: "string option"
  ne_returnErrorMsg :: bool
  ne_headerValue :: string

definition engine_with :: "engineConfiguration \<Rightarrow> gin_engine \<Rightarrow> gin_engine" where
  "engine_with o' e =
     (let e = (case ec_DisableRedirectTrailingSlash o' of Some b \<Rightarrow> e\<lparr>ge_RedirectTrailingSlash := \<not> b\<rparr> | None \<Rightarrow> e);
          e = (case ec_DisableRedirectFixedPath o' of Some b \<Rightarrow> e\<lparr>ge_RedirectFixedPath := \<not> b\<rparr> | None \<Rightarrow> e);
          e = (case ec_DisableHandleMethodNotAllowed o' of Some b \<Rightarrow> e\<lparr>ge_HandleMethodNotAllowed := \<not> b\<rparr> | None \<Rightarrow> e);
          e = (case ec_ForwardedByClientIP o' of Some b \<Rightarrow> e\<lparr>ge_ForwardedByClientIP := b\<rparr> | None \<Rightarrow> e);
          e = (if ec_RemoteIPHeaders o' \<noteq> []
               then e\<lparr>ge_RemoteIPHeaders := map CanonicalMIMEHeaderKey (ec_RemoteIPHeaders o')\<rparr> else e);
          e = (if ec_TrustedProxies o' \<noteq> [] then e\<lparr>ge_TrustedProxies := ec_TrustedProxies o'\<rparr> else e)
      in e\<lparr>ge_AppEngine := ec_AppEngine o', ge_MaxMultipartMemory := ec_MaxMultipartMemory o',
           ge_RemoveExtraSlash := ec_RemoveExtraSlash o', ge_UseH2C := ec_UseH2C o'\<rparr>)"

text \<open>
  \<open>decode\<close> is the trip of the section through JSON: the fields it could fill, and whether it
  succeeded.  \<open>retMsg\<close> and \<open>value\<close> are the globals before the call.
\<close>

definition NewEngine :: "gin_engine \<Rightarrow> (json \<Rightarrow> engineConfiguration \<times> bool) \<Rightarrow> bool \<Rightarrow> string \<Rightarrow> ServiceConfig \<Rightarrow> new_engine" where
  "NewEngine gin_new decode retMsg value cfg =
     (let e = gin_new\<lparr>ge_RedirectTrailingSlash := True, ge_RedirectFixedPath := True,
            ge_HandleMethodNotAllowed := True, ge_ContextWithFallback := True\<rparr>;
          (o', ok) = (case map_of (sc_ExtraConfig cfg) gin_Namespace of
             Some v \<Rightarrow> decode v | None \<Rightarrow> (zero_engineConfiguration, False))
      in \<lparr>ne_engine = (if ok then engine_with o' e else e),
          ne_middlewares =
            (if ec_DisableAccessLog o' then [] else [AccessLog (if ok then ec_LoggerSkipPaths o' else [])]) @ [Recovery] @
            (if ec_DisablePathDecoding o' then [] else [ParamChecker]),
          ne_health = (if ec_DisableHealthEndpoint o' then None
                       else Some (if ec_HealthPath o' \<noteq> [] then ec_HealthPath o' else ''/__health'')),
          ne_returnErrorMsg = (if ok then ec_ReturnErrorMsg o' else retMsg),
          ne_headerValue = (if ok \<and> ec_ObfuscateVersionHeader o' then ''Version undefined'' else value)\<rparr>)"

text \<open>The health endpoint shows the time each agent last reported.\<close>

definition health_reports :: "(string \<times> string) list \<Rightarrow> (string, string) gomap" where
  "health_reports received = put_all received []"

definition healthEndpoint :: "'c gin \<Rightarrow> (string \<times> string) list \<Rightarrow> string \<Rightarrow> 'c gin_handler" where
  "healthEndpoint g received now c =
     Ret (g_JSON g 200 (JObj [(''status'', JStr ''ok''),
       (''agents'', JObj (map (\<lambda>(k, t). (k, JStr t)) (health_reports received))), (''now'', JStr now)]) c)"

subsection \<open>Path parameters\<close>

lemma PathUnescape_shrinks:
  "PathUnescape v = Some s \<Longrightarrow> length s \<le> length v \<and> (CHR ''%'' \<in> set v \<longrightarrow> length s < length v)"
proof (induction v arbitrary: s rule: PathUnescape.induct)
  case (2 c cs)
  show ?case
  proof (cases "c = CHR ''%''")
    case True
    then obtain a b rest x y r where cs: "cs = a # b # rest" and xy: "unhex a = Some x" "unhex b = Some y"
      and r: "PathUnescape rest = Some r" "s = char_of (16 * x + y) # r"
      using 2(3) by (auto split: list.splits option.splits)
    have "length r \<le> length rest" using 2(1) [OF True cs refl refl xy] r by blast
    then show ?thesis using cs r by simp
  next
    case False
    then obtain r where "PathUnescape cs = Some r" "s = c # r" using 2(3) by auto
    then show ?thesis using 2(2) [OF False] False by auto
  qed
qed simp

lemma PathUnescape_plain: "CHR ''%'' \<notin> set v \<Longrightarrow> PathUnescape v = Some v"
  by (induction v) auto

lemma PathUnescape_id_iff: "PathUnescape v = Some v \<longleftrightarrow> CHR ''%'' \<notin> set v"
  using PathUnescape_shrinks [of v v] PathUnescape_plain [of v] by auto

text \<open>
  C26: the check of the path parameters lets a request through, untouched, exactly when no parameter
  holds a percent sign, a question mark or a hash; any other request is answered with 400 and stops.
\<close>

theorem params_checked:
  "(check_params (g_Params g c) = Accepted \<longleftrightarrow>
     (\<forall>(k, v) \<in> set (g_Params g c). set v \<inter> {CHR ''%'', CHR ''?'', CHR ''#''} = {})) \<and>
   (if check_params (g_Params g c) = Accepted then paramChecker g ue c = c
    else \<exists>msg. paramChecker g ue c = g_Abort g (g_Write g msg (g_Status g 400 c)))"
proof -
  have accepted: "check_params ps = Accepted \<longleftrightarrow> (\<forall>(k, v) \<in> set ps. set v \<inter> {CHR ''%'', CHR ''?'', CHR ''#''} = {})" for ps
  proof (induction ps rule: check_params.induct)
    case (2 k v ps)
    then show ?case using PathUnescape_id_iff [of v] by (cases "PathUnescape v") auto
  qed simp
  have "if check_params (g_Params g c) = Accepted then paramChecker g ue c = c
    else \<exists>msg. paramChecker g ue c = g_Abort g (g_Write g msg (g_Status g 400 c))"
    by (cases "check_params (g_Params g c)") (auto simp: paramChecker_def reject_def ErrorResponseWriter_def)
  with accepted show ?thesis by blast
qed

subsection \<open>The completeness header\<close>

lemma gin_errors_headers: "gin_headers g H \<Longrightarrow> H (gin_errors g err c) = H c"
proof -
  assume laws: "gin_headers g H"
  have "H (fold (g_Error g) es c) = H c" for es
    using laws by (induction es arbitrary: c) (simp_all add: gin_headers_def)
  with laws show ?thesis by (simp add: gin_errors_def gin_headers_def split: gerror.split)
qed

lemma gin_complete_nonempty: "gin_complete response \<noteq> []"
  by (simp add: gin_complete_def HeaderCompleteResponseValue_def HeaderIncompleteResponseValue_def split: option.split)

text \<open>
  C24: the completeness header on gin: when the handler gives its context to the render, or to the
  error writer, the header has a single value, which is true exactly when the proxy answered with a
  complete response that has data; the headers of the backend cannot add to it.
\<close>

theorem gin_completeness:
  assumes "gin_headers g H"
    and "CustomErrorEndpointHandler g errF eh ret rnd don cfg prxy c = Ret c'"
  shows "\<exists>req response err q c2. prxy req = PRet response err q \<and>
    H c2 CompleteResponseHeaderName =
      [if \<exists>r. response = Some r \<and> entries (Data r) \<noteq> [] \<and> IsComplete r then ''true'' else ''false''] \<and>
    c' = (case (response, ctx_error don err) of
            (None, Some e) \<Rightarrow> gin_fail g errF eh ret e c2
          | _ \<Rightarrow> rnd response c2)"
proof -
  let ?c1 = "g_Header g KrakendHeaderName KrakendHeaderValue c"
  obtain req where req: "gin_NewRequest g (ep_HeadersToPass cfg) ?c1 (ep_QueryString cfg) = Ret req"
    using assms(2) by (auto simp: CustomErrorEndpointHandler_def Let_def run_bind_Ret_iff)
  obtain response err q where p: "prxy req = PRet response err q"
    using assms(2) req by (cases "prxy req") (auto simp: CustomErrorEndpointHandler_def Let_def)
  define c2 where "c2 = g_Header g CompleteResponseHeaderName (gin_complete response) (gin_response_headers g cfg response ?c1)"
  define c3 where "c3 = (case ctx_error don err of None \<Rightarrow> c2 | Some e \<Rightarrow> gin_errors g e c2)"
  have "H c2 CompleteResponseHeaderName = [gin_complete response]"
    using assms(1) gin_complete_nonempty by (simp add: gin_headers_def c2_def)
  then have "H c3 CompleteResponseHeaderName = [gin_complete response]"
    using gin_errors_headers [OF assms(1)] by (simp add: c3_def split: option.split)
  moreover have "gin_complete response =
      (if \<exists>r. response = Some r \<and> entries (Data r) \<noteq> [] \<and> IsComplete r then ''true'' else ''false'')"
    by (simp add: gin_complete_def HeaderCompleteResponseValue_def HeaderIncompleteResponseValue_def split: option.split)
  moreover have "c' = (case (response, ctx_error don err) of (None, Some e) \<Rightarrow> gin_fail g errF eh ret e c3 | _ \<Rightarrow> rnd response c3)"
    using assms(2) req p
    by (auto simp: CustomErrorEndpointHandler_def Let_def c3_def c2_def split: option.splits if_splits)
  ultimately show ?thesis using p by (intro exI [of _ req] exI [of _ response] exI [of _ err] exI [of _ q] exI [of _ c3]) simp
qed

definition sample_gin :: "(http_in \<times> writer) gin" where
  "sample_gin = \<lparr>g_Header = (\<lambda>k v (r, w). (r, Header_Set k v w)), g_HeaderAdd = (\<lambda>k v (r, w). (r, Header_Add k v w)),
     g_Status = (\<lambda>n c. c), g_WriterStatus = (\<lambda>c. 200), g_Error = (\<lambda>e c. c),
     g_String = (\<lambda>n s (r, w). (r, Write s w)), g_JSON = (\<lambda>n v (r, w). (r, Write ''js'' w)),
     g_XML = (\<lambda>n v (r, w). (r, Write ''xml'' w)), g_YAML = (\<lambda>n v (r, w). (r, Write ''yaml'' w)),
     g_Write = (\<lambda>s (r, w). (r, w\<lparr>wBody := wBody w @ s\<rparr>)), g_Abort = (\<lambda>c. c), g_AbortWithStatus = (\<lambda>n c. c),
     g_NegotiateFormat = (\<lambda>fs c. hd fs), g_ClientIP = (\<lambda>c. ''1.2.3.4''), g_Params = (\<lambda>c. [(''id'', ''7'')]),
     g_Request = fst\<rparr>"

lemma sample_gin_headers: "gin_headers sample_gin (\<lambda>(r, w). values_of (wHeader w))"
  by (auto simp: gin_headers_def sample_gin_def Header_Set_def Header_Add_def Values_Add_def values_of_def go_map_simps fun_eq_iff)

lemma gin_completeness_witness:
  "\<exists>c2. values_of (wHeader (snd c2)) CompleteResponseHeaderName = [''true''] \<and>
     CustomErrorEndpointHandler sample_gin DefaultToHTTPError (\<lambda>_. []) False (gin_jsonRender sample_gin) False zero_endpoint
       (PRet (Some (new_response (Some [(''a'', JNull)]) True)) None) (sample_in, new_writer False) =
       Ret (gin_jsonRender sample_gin (Some (new_response (Some [(''a'', JNull)]) True)) c2)"
proof -
  let ?r = "new_response (Some [(''a'', JNull)]) True"
  let ?run = "CustomErrorEndpointHandler sample_gin DefaultToHTTPError (\<lambda>_. []) False (gin_jsonRender sample_gin) False zero_endpoint
       (PRet (Some ?r) None) (sample_in, new_writer False)"
  obtain c' where run: "?run = Ret c'"
    by (simp add: CustomErrorEndpointHandler_def gin_NewRequest_def sample_gin_def Let_def ctx_error_def)
  obtain c2 where "values_of (wHeader (snd c2)) CompleteResponseHeaderName = [''true'']" "c' = gin_jsonRender sample_gin (Some ?r) c2"
    using gin_completeness [OF sample_gin_headers run] by (auto simp: new_response_def)
  with run show ?thesis by blast
qed

subsection \<open>Routes\<close>

text \<open>The engine that records its registrations; it never refuses one.\<close>

definition trace_handle :: "('c, (string \<times> string \<times> 'c gin_handler list) list) gin_register" where
  "trace_handle method path hs e = Ret (e @ [(method, path, hs)])"

definition gin_served :: "EndpointConfig \<Rightarrow> bool" where
  "gin_served c \<longleftrightarrow> to_upper (ep_Method c) \<in> set router_methods"

definition pipe_handler :: "'c gin \<Rightarrow> factory \<Rightarrow> (EndpointConfig \<Rightarrow> proxy \<Rightarrow> 'c gin_handler) \<Rightarrow> EndpointConfig \<Rightarrow> 'c gin_handler" where
  "pipe_handler g pf hf c =
     (case pf c of Made p None \<Rightarrow> hf c (proxy_or_nil p) | _ \<Rightarrow> proxyBuildFailedHandler g)"

definition served_methods :: "EndpointConfig list \<Rightarrow> string \<Rightarrow> string list" where
  "served_methods cs path = map (\<lambda>c. to_upper (ep_Method c)) (filter (\<lambda>c. gin_served c \<and> ep_Endpoint c = path) cs)"

definition catalog_of :: "EndpointConfig list \<Rightarrow> (string, string list) gomap \<Rightarrow> (string, string list) gomap" where
  "catalog_of cs = fold (\<lambda>c. catalog_add (ep_Endpoint c) (to_upper (ep_Method c))) (filter gin_served cs)"

lemma gin_registerKrakendEndpoints_trace:
  assumes "\<And>c. \<exists>p e. pf c = Made p e"
  shows "gin_registerKrakendEndpoints g trace_handle mws pf hf cs r =
    Ret (r\<lparr>gr_engine := gr_engine r @
             map (\<lambda>c. (to_upper (ep_Method c), ep_Endpoint c, mws @ [pipe_handler g pf hf c])) (filter gin_served cs),
           gr_catalog := catalog_of cs (gr_catalog r)\<rparr>)"
proof (induction cs arbitrary: r)
  case (Cons c cs)
  obtain p e where "pf c = Made p e" using assms by blast
  with Cons show ?case
    by (cases e) (auto simp: gin_registerKrakendEndpoint_def Let_def IsValidSequentialEndpoint_def trace_handle_def
        gin_served_def pipe_handler_def catalog_of_def)
qed (simp add: catalog_of_def)

lemma catalog_of_get:
  "map_of (catalog_of cs m) path =
     (if served_methods cs path = [] then map_of m path
      else Some ((case map_of m path of None \<Rightarrow> [] | Some ms \<Rightarrow> ms) @ served_methods cs path))"
proof (induction cs arbitrary: m)
  case (Cons c cs)
  then show ?case
    by (auto simp: catalog_of_def served_methods_def catalog_add_def go_map_simps split: option.split)
qed (simp add: catalog_of_def served_methods_def)

lemma catalog_of_wf: "wf_map m \<Longrightarrow> wf_map (catalog_of cs m)"
  by (induction cs arbitrary: m) (auto simp: catalog_of_def catalog_add_def)

lemma register_options_trace:
  "register_options g trace_handle mws cat e =
     Ret (e @ map (\<lambda>(path, ms). (''OPTIONS'', path, mws @ [options_handler g (sort ms)])) cat)"
  by (induction cat arbitrary: e) (auto simp: trace_handle_def)

text \<open>
  C25: the routes of a configuration on gin, when no route conflicts: every endpoint with a served
  method gets one, behind the middlewares, and one that answers 500 when its proxy could not be built;
  with automatic options, every path has exactly one OPTIONS route more, whose Allow header lists the
  methods of the endpoints with that path.
\<close>

theorem gin_routes:
  assumes "\<And>c. \<exists>p e. pf c = Made p e" and "\<not> sc_Debug cfg" and "\<not> sc_Echo cfg"
  shows "\<exists>r opts. registerEndpointsAndMiddlewares g trace_handle any echo mws pf hf cfg \<lparr>gr_engine = [], gr_catalog = []\<rparr> = Ret r \<and>
    gr_engine r = map (\<lambda>c. (to_upper (ep_Method c), ep_Endpoint c, mws @ [pipe_handler g pf hf c]))
        (filter gin_served (sc_Endpoints cfg)) @ opts \<and>
    distinct (map (\<lambda>(method, path, hs). path) opts) \<and>
    set opts = {(''OPTIONS'', path, mws @ [options_handler g (sort (served_methods (sc_Endpoints cfg) path))]) |path.
        auto_options cfg \<and> served_methods (sc_Endpoints cfg) path \<noteq> []}"
proof -
  let ?cat = "catalog_of (sc_Endpoints cfg) []"
  let ?opt = "\<lambda>(path, ms). (''OPTIONS'', path, mws @ [options_handler g (sort ms)])"
  define opts where "opts = (if auto_options cfg then map ?opt ?cat else [])"
  have wf: "wf_map ?cat" by (rule catalog_of_wf) simp
  then have mem: "(path, ms) \<in> set ?cat \<longleftrightarrow> ms = served_methods (sc_Endpoints cfg) path \<and> ms \<noteq> []" for path ms
    using map_of_eq_Some_iff [of ?cat path ms] by (auto simp: wf_map_def catalog_of_get split: if_splits)
  have "distinct (map (\<lambda>(method, path, hs). path) opts)"
    using wf by (simp add: opts_def wf_map_def comp_def case_prod_beta)
  moreover have "set opts = {(''OPTIONS'', path, mws @ [options_handler g (sort (served_methods (sc_Endpoints cfg) path))]) |path.
        auto_options cfg \<and> served_methods (sc_Endpoints cfg) path \<noteq> []}"
    by (auto simp: opts_def mem image_iff intro!: bexI [of _ "(_, _)"])
  moreover have "\<exists>r. registerEndpointsAndMiddlewares g trace_handle any echo mws pf hf cfg \<lparr>gr_engine = [], gr_catalog = []\<rparr> = Ret r \<and>
    gr_engine r = map (\<lambda>c. (to_upper (ep_Method c), ep_Endpoint c, mws @ [pipe_handler g pf hf c]))
        (filter gin_served (sc_Endpoints cfg)) @ opts"
    using assms(2,3)
    by (simp add: registerEndpointsAndMiddlewares_def gin_registerKrakendEndpoints_trace [of pf, OF assms(1)]
        gin_registerOptionEndpoints_def register_options_trace opts_def)
  ultimately show ?thesis by blast
qed

lemma gin_routes_witness:
  "\<exists>r opts. registerEndpointsAndMiddlewares sample_gin trace_handle all_methods Ret [] (\<lambda>c. Made None (Some ENoBackends)) (\<lambda>c p. Ret)
      (zero_service\<lparr>sc_Endpoints := [zero_endpoint\<lparr>ep_Endpoint := ''/a'', ep_Method := ''get''\<rparr>]\<rparr>) \<lparr>gr_engine = [], gr_catalog = []\<rparr> = Ret r \<and>
     gr_engine r = [(''GET'', ''/a'', [proxyBuildFailedHandler sample_gin])] @ opts \<and> opts = []"
proof -
  let ?cfg = "zero_service\<lparr>sc_Endpoints := [zero_endpoint\<lparr>ep_Endpoint := ''/a'', ep_Method := ''get''\<rparr>]\<rparr>"
  have "\<exists>p e. (\<lambda>c :: EndpointConfig. Made None (Some ENoBackends)) c = Made p e" for c by blast
  moreover have "\<not> sc_Debug ?cfg" "\<not> sc_Echo ?cfg" by (simp_all add: zero_service_def)
  ultimately have all: "\<exists>r opts. registerEndpointsAndMiddlewares sample_gin trace_handle all_methods Ret [] (\<lambda>c. Made None (Some ENoBackends)) (\<lambda>c p. Ret)
      ?cfg \<lparr>gr_engine = [], gr_catalog = []\<rparr> = Ret r \<and>
    gr_engine r = map (\<lambda>c. (to_upper (ep_Method c), ep_Endpoint c, [] @ [pipe_handler sample_gin (\<lambda>c. Made None (Some ENoBackends)) (\<lambda>c p. Ret) c]))
        (filter gin_served (sc_Endpoints ?cfg)) @ opts \<and>
    distinct (map (\<lambda>(method, path, hs). path) opts) \<and>
    set opts = {(''OPTIONS'', path, [] @ [options_handler sample_gin (sort (served_methods (sc_Endpoints ?cfg) path))]) |path.
        auto_options ?cfg \<and> served_methods (sc_Endpoints ?cfg) path \<noteq> []}"
    by (rule gin_routes)
  have "gin_served (zero_endpoint\<lparr>ep_Endpoint := ''/a'', ep_Method := ''get''\<rparr>)" "\<not> auto_options ?cfg" by code_simp+
  moreover have "to_upper ''get'' = ''GET''" by code_simp
  ultimately show ?thesis using all by (auto simp: pipe_handler_def)
qed

lemma params_checked_witness:
  "check_params (g_Params sample_gin (sample_in, new_writer False)) = Accepted \<and>
   paramChecker sample_gin id (sample_in, new_writer False) = (sample_in, new_writer False)"
  using params_checked [of sample_gin "(sample_in, new_writer False)" id] by (simp add: sample_gin_def)

subsection \<open>What the configuration section resets\<close>

text \<open>
  An engine section that does not mention the memory for multipart forms sets it to zero instead of
  leaving gin's default, and switches the extra slash removal of the engine off.
\<close>

lemma gin_section_resets:
  "map_of (sc_ExtraConfig cfg) gin_Namespace = Some v \<Longrightarrow> decode v = (zero_engineConfiguration, True) \<Longrightarrow>
   ge_MaxMultipartMemory (ne_engine (NewEngine gin_new decode retMsg value cfg)) = 0 \<and>
   \<not> ge_RemoveExtraSlash (ne_engine (NewEngine gin_new decode retMsg value cfg))"
  by (simp add: NewEngine_def engine_with_def zero_engineConfiguration_def Let_def)

subsection \<open>The writer handed to gin (\<open>safecast.go\<close>)\<close>

text \<open>
  A response writer of the standard library and the optional interfaces it may implement; \<open>'w\<close> is its
  state.  gin asserts the three optional ones without a check, and the wrapper has them all.
\<close>

record ('w, 'conn, 'chan) response_writer =
  rw_Header :: "'w \<Rightarrow> (string, string list) gomap"
  rw_Write :: "string \<Rightarrow> 'w \<Rightarrow> (int \<times> gerror option) \<times> 'w"
  rw_WriteHeader :: "int \<Rightarrow> 'w \<Rightarrow> 'w"
  rw_Flusher :: "('w \<Rightarrow> 'w) option"
  rw_Hijacker :: "('w \<Rightarrow> (gerror + 'conn) \<times> 'w) option"
  rw_CloseNotifier :: "('w \<Rightarrow> 'chan) option"

definition safe_Flush :: "('w, 'conn, 'chan) response_writer \<Rightarrow> 'w \<Rightarrow> 'w" where
  "safe_Flush w s = (case rw_Flusher w of Some f \<Rightarrow> f s | None \<Rightarrow> s)"

definition safe_Hijack :: "('w, 'conn, 'chan) response_writer \<Rightarrow> 'w \<Rightarrow> (gerror + 'conn) \<times> 'w" where
  "safe_Hijack w s = (case rw_Hijacker w of Some h \<Rightarrow> h s | None \<Rightarrow> (Inl (EText ''not supported''), s))"

definition safe_CloseNotify :: "'chan \<Rightarrow> ('w, 'conn, 'chan) response_writer \<Rightarrow> 'w \<Rightarrow> 'chan" where
  "safe_CloseNotify silent w s = (case rw_CloseNotifier w of Some n \<Rightarrow> n s | None \<Rightarrow> silent)"

definition safeCast :: "'chan \<Rightarrow> ('w, 'conn, 'chan) response_writer \<Rightarrow> ('w, 'conn, 'chan) response_writer" where
  "safeCast silent w =
     \<lparr>rw_Header = rw_Header w, rw_Write = rw_Write w, rw_WriteHeader = rw_WriteHeader w,
      rw_Flusher = Some (safe_Flush w), rw_Hijacker = Some (safe_Hijack w),
      rw_CloseNotifier = Some (safe_CloseNotify silent w)\<rparr>"

definition safeCaster_ServeHTTP ::
  "'chan \<Rightarrow> (('w, 'conn, 'chan) response_writer \<Rightarrow> 'w \<Rightarrow> http_in \<Rightarrow> 'w) \<Rightarrow> ('w, 'conn, 'chan) response_writer \<Rightarrow> 'w \<Rightarrow> http_in \<Rightarrow> 'w" where
  "safeCaster_ServeHTTP silent h w s r = h (safeCast silent w) s r"

text \<open>The casts succeed on the wrapper, and wrapping what has the interfaces changes nothing.\<close>

lemma safeCast_casts:
  "rw_Flusher (safeCast silent w) \<noteq> None" "rw_Hijacker (safeCast silent w) \<noteq> None"
  "rw_CloseNotifier (safeCast silent w) \<noteq> None"
  by (simp_all add: safeCast_def)

lemma safeCast_transparent:
  assumes "rw_Flusher w \<noteq> None" "rw_Hijacker w \<noteq> None" "rw_CloseNotifier w \<noteq> None"
  shows "safeCast silent w = w"
  using assms by (cases w) (auto simp: safeCast_def safe_Flush_def [abs_def] safe_Hijack_def [abs_def] safe_CloseNotify_def [abs_def])

lemma safeCast_idempotent: "safeCast silent (safeCast silent' w) = safeCast silent' w"
  by (rule safeCast_transparent) (rule safeCast_casts)+

end
