(* ===== verification/Router_Adapters.thy ===== *)
theory Router_Adapters
  imports Router_Gin
begin

section \<open>The other adapters (\<open>router/chi\<close>, \<open>router/gorilla\<close>, \<open>router/httptreemux\<close>, \<open>router/negroni\<close>)\<close>

text \<open>
  The configurations of the routers on gorilla, httptreemux and negroni, the run of the net/http
  router over any engine, and the chi router.  An engine of a library is a state of a type of its own,
  reached through its registration function, which may panic.
\<close>

subsection \<open>Router configurations\<close>

text \<open>The handler factory of the routers on net/http (\<open>CustomEndpointHandler\<close> with a request builder).\<close>

definition CustomEndpointHandler ::
  "marshal \<Rightarrow> renderRegister \<Rightarrow> (string \<Rightarrow> string option) \<Rightarrow> bool \<Rightarrow> param_extractor \<Rightarrow> EndpointConfig \<Rightarrow> proxy \<Rightarrow> handler" where
  "CustomEndpointHandler marshal reg split_host_port don extract cfg prxy =
     CustomEndpointHandlerWithHTTPError (NewRequestBuilder split_host_port extract) DefaultToHTTPError
       (getRender marshal reg cfg) don cfg prxy"

record mux_config =
  mc_extract :: param_extractor
  mc_DebugPattern :: string
  mc_EchoPattern :: string

definition DefaultDebugPattern :: string where "DefaultDebugPattern = ''/__debug/''"
definition DefaultEchoPattern :: string where "DefaultEchoPattern = ''/__echo/''"
definition ChiDefaultDebugPattern :: string where "ChiDefaultDebugPattern = ''/__debug/''"

definition mux_DefaultFactory :: mux_config where
  "mux_DefaultFactory =
     \<lparr>mc_extract = NoopParamExtractor, mc_DebugPattern = DefaultDebugPattern, mc_EchoPattern = DefaultEchoPattern\<rparr>"

definition mux_NewFactory :: "'a mux_config_scheme \<Rightarrow> 'a mux_config_scheme" where
  "mux_NewFactory cfg = (if mc_DebugPattern cfg = [] then cfg\<lparr>mc_DebugPattern := DefaultDebugPattern\<rparr> else cfg)"

definition gorilla_DefaultConfig :: "(string \<Rightarrow> string) \<Rightarrow> (http_in \<Rightarrow> (string \<times> string) list) \<Rightarrow> mux_config" where
  "gorilla_DefaultConfig title vars =
     \<lparr>mc_extract = titled_params title vars, mc_DebugPattern = ''/__debug/{params}'', mc_EchoPattern = ''/__echo/{params}''\<rparr>"

definition ParamsExtractor :: "(string \<Rightarrow> string) \<Rightarrow> (http_in \<Rightarrow> (string \<times> string) list) \<Rightarrow> param_extractor" where
  "ParamsExtractor title contextParams r = put_all (map (\<lambda>(key, value). (title key, value)) (contextParams r)) []"

definition httptreemux_DefaultConfig :: "(string \<Rightarrow> string) \<Rightarrow> (http_in \<Rightarrow> (string \<times> string) list) \<Rightarrow> mux_config" where
  "httptreemux_DefaultConfig title vars =
     \<lparr>mc_extract = ParamsExtractor title vars, mc_DebugPattern = ''/__debug/{params}'', mc_EchoPattern = []\<rparr>"

text \<open>
  negroni is gorilla behind a chain of handlers, which runs before the router; the classic chain starts with
  handlers of negroni's own.
\<close>

definition negroni_DefaultConfig :: "(string \<Rightarrow> string) \<Rightarrow> (http_in \<Rightarrow> (string \<times> string) list) \<Rightarrow> mux_config" where
  "negroni_DefaultConfig title vars = gorilla_DefaultConfig title vars"

definition negroni_ServeHTTP ::
  "(handler \<Rightarrow> handler) list \<Rightarrow> handler \<Rightarrow> handler" where
  "negroni_ServeHTTP middlewares router = foldr (\<lambda>m h. m h) middlewares router"

subsection \<open>The net/http router over any engine\<close>

type_synonym 'e engine_register = "string \<Rightarrow> string \<Rightarrow> handler \<Rightarrow> 'e \<Rightarrow> 'e run"

definition adapter_endpoint :: "'e engine_register \<Rightarrow> string \<Rightarrow> EndpointConfig \<Rightarrow> handler \<Rightarrow> nat \<Rightarrow> 'e \<Rightarrow> 'e run" where
  "adapter_endpoint handle method endpoint h totBackends e =
     (let method = to_upper method in
      if method \<noteq> ''GET'' \<and> totBackends > 1 \<and> \<not> IsValidSequentialEndpoint endpoint then Ret e
      else if method \<in> set router_methods then handle (ep_Endpoint endpoint) method h e
      else Ret e)"

fun adapter_endpoints ::
  "'e engine_register \<Rightarrow> factory \<Rightarrow> (EndpointConfig \<Rightarrow> proxy \<Rightarrow> handler) \<Rightarrow> EndpointConfig list \<Rightarrow> 'e \<Rightarrow> 'e run" where
  "adapter_endpoints handle pf hf [] e = Ret e"
| "adapter_endpoints handle pf hf (c # cs) e =
     (case pf c of
        MadeFatal m \<Rightarrow> Panic m
      | MadePanic m \<Rightarrow> Panic m
      | Made p (Some err) \<Rightarrow> adapter_endpoints handle pf hf cs e
      | Made p None \<Rightarrow>
          run_bind (adapter_endpoint handle (ep_Method c) c (hf c (proxy_or_nil p)) (length (ep_Backend c)) e)
            (adapter_endpoints handle pf hf cs))"

fun adapter_all :: "'e engine_register \<Rightarrow> string list \<Rightarrow> string \<Rightarrow> handler \<Rightarrow> 'e \<Rightarrow> 'e run" where
  "adapter_all handle [] pattern h e = Ret e"
| "adapter_all handle (m # ms) pattern h e = run_bind (handle pattern m h e) (adapter_all handle ms pattern h)"

definition adapter_Run ::
  "'e engine_register \<Rightarrow> factory \<Rightarrow> (EndpointConfig \<Rightarrow> proxy \<Rightarrow> handler) \<Rightarrow> mux_config \<Rightarrow> handler \<Rightarrow> handler \<Rightarrow>
    ServiceConfig \<Rightarrow> 'e \<Rightarrow> 'e run" where
  "adapter_Run handle pf hf mc debugH echoH cfg e =
     run_bind (if sc_Debug cfg then adapter_all handle all_methods (mc_DebugPattern mc) debugH e else Ret e) (\<lambda>e.
     run_bind (if sc_Echo cfg then adapter_all handle all_methods (mc_EchoPattern mc) echoH e else Ret e) (\<lambda>e.
     run_bind (handle ''/__health'' ''GET'' HealthHandler e) (\<lambda>e.
       adapter_endpoints handle pf hf (sc_Endpoints cfg) e)))"

subsection \<open>The echo handler\<close>

text \<open>\<open>uri\<close>, \<open>user\<close> and \<open>fragment\<close> of the request are not part of \<open>http_in\<close>.\<close>

definition header_value :: "(string, string list) gomap \<Rightarrow> json" where
  "header_value m = JObj (map (\<lambda>(k, vs). (k, JArr (map JStr vs))) m)"

definition echo_value :: "string \<Rightarrow> string \<Rightarrow> string \<Rightarrow> http_in \<Rightarrow> json" where
  "echo_value uri user fragment r =
     JObj [(''req_uri'', JStr uri),
       (''req_uri_details'', JObj [(''user'', JStr user), (''host'', JStr (hiHost r)), (''path'', JStr (hiPath r)),
          (''query'', JStr (Values_Encode (ParseQuery (hiRawQuery r)))), (''fragment'', JStr fragment)]),
       (''req_method'', JStr (hiMethod r)), (''req_querystring'', header_value (ParseQuery (hiRawQuery r))),
       (''req_body'', JStr (case hiBody r of None \<Rightarrow> [] | Some b \<Rightarrow> b)), (''req_headers'', header_value (hiHeader r))]"

definition EchoHandler :: "marshal \<Rightarrow> (http_in \<Rightarrow> string \<times> string \<times> string) \<Rightarrow> handler" where
  "EchoHandler marshal parts r w =
     (case parts r of (uri, user, fragment) \<Rightarrow>
        case marshal (echo_value uri user fragment r) of
          Inl err \<Rightarrow> WriteHeader 500 w
        | Inr js \<Rightarrow> Ret (Write js (Header_Set ''Content-Type'' ''application/json'' w)))"

definition gin_EchoHandler :: "'c gin \<Rightarrow> (http_in \<Rightarrow> string \<times> string \<times> string) \<Rightarrow> 'c gin_handler" where
  "gin_EchoHandler g parts c =
     (case parts (g_Request g c) of (uri, user, fragment) \<Rightarrow>
        Ret (g_JSON g 200 (echo_value uri user fragment (g_Request g c)) c))"

subsection \<open>chi\<close>

definition chi_methods :: "string list" where
  "chi_methods = [''GET'', ''POST'', ''PUT'', ''PATCH'', ''DELETE'']"

definition chi_registerDebugEndpoints :: "'e engine_register \<Rightarrow> string \<Rightarrow> handler \<Rightarrow> 'e \<Rightarrow> 'e run" where
  "chi_registerDebugEndpoints handle pattern h e = adapter_all handle chi_methods pattern h e"

definition chi_registerKrakendEndpoint :: "'e engine_register \<Rightarrow> string \<Rightarrow> EndpointConfig \<Rightarrow> handler \<Rightarrow> nat \<Rightarrow> 'e \<Rightarrow> 'e run" where
  "chi_registerKrakendEndpoint handle method endpoint h totBackends e =
     (let method = to_upper method; path = ep_Endpoint endpoint in
      if method \<noteq> ''GET'' \<and> totBackends > 1 \<and> \<not> IsValidSequentialEndpoint endpoint then Ret e
      else if method \<in> set chi_methods then handle path method h e
      else Ret e)"

fun chi_registerKrakendEndpoints ::
  "'e engine_register \<Rightarrow> factory \<Rightarrow> (EndpointConfig \<Rightarrow> proxy \<Rightarrow> handler) \<Rightarrow> EndpointConfig list \<Rightarrow> 'e \<Rightarrow> 'e run" where
  "chi_registerKrakendEndpoints handle pf hf [] e = Ret e"
| "chi_registerKrakendEndpoints handle pf hf (c # cs) e =
     (case pf c of
        MadeFatal m \<Rightarrow> Panic m
      | MadePanic m \<Rightarrow> Panic m
      | Made p (Some err) \<Rightarrow> chi_registerKrakendEndpoints handle pf hf cs e
      | Made p None \<Rightarrow>
          run_bind (chi_registerKrakendEndpoint handle (ep_Method c) c (hf c (proxy_or_nil p)) (length (ep_Backend c)) e)
            (chi_registerKrakendEndpoints handle pf hf cs))"

definition chi_NotFound :: handler where
  "chi_NotFound r w =
     http_Error ''404 page not found'' 404 (Header_Set CompleteResponseHeaderName HeaderIncompleteResponseValue w)"

definition chi_Run ::
  "'e engine_register \<Rightarrow> (handler \<Rightarrow> 'e \<Rightarrow> 'e) \<Rightarrow> string \<Rightarrow> handler \<Rightarrow> factory \<Rightarrow>
    (EndpointConfig \<Rightarrow> proxy \<Rightarrow> handler) \<Rightarrow> ServiceConfig \<Rightarrow> 'e \<Rightarrow> 'e run" where
  "chi_Run handle notFound DebugPattern debugH pf hf cfg e =
     run_bind (if sc_Debug cfg then chi_registerDebugEndpoints handle DebugPattern debugH e else Ret e) (\<lambda>e.
     run_bind (handle ''/__health'' ''GET'' HealthHandler e) (\<lambda>e.
     run_bind (chi_registerKrakendEndpoints handle pf hf (sc_Endpoints cfg) e) (\<lambda>e.
       Ret (notFound chi_NotFound e))))"

definition chi_NewEndpointHandler ::
  "(string \<Rightarrow> string option) \<Rightarrow> (string \<Rightarrow> string) \<Rightarrow> (http_in \<Rightarrow> (string \<times> string) list) \<Rightarrow> render \<Rightarrow> bool \<Rightarrow>
    EndpointConfig \<Rightarrow> proxy \<Rightarrow> handler" where
  "chi_NewEndpointHandler shp title vars rnd don cfg prxy =
     CustomEndpointHandlerWithHTTPError (NewRequestBuilder shp (chi_params title vars)) DefaultToHTTPError rnd don cfg prxy"

subsection \<open>The adapters agree\<close>

lemma adapter_all_basic:
  "adapter_all (\<lambda>p m h e. Ret (engine_Handle e p m h)) ms pattern h e = Ret (fold (\<lambda>m e. engine_Handle e pattern m h) ms e)"
  by (induction ms arbitrary: e) simp_all

lemma adapter_endpoints_basic:
  "adapter_endpoints (\<lambda>p m h e. Ret (engine_Handle e p m h)) pf hf cs e = registerKrakendEndpoints pf hf cs e"
  by (induction cs arbitrary: e)
    (auto simp: adapter_endpoint_def registerKrakendEndpoint_def Let_def split: made.split option.split)

lemma chi_endpoints_adapter:
  "chi_registerKrakendEndpoints handle pf hf cs e = adapter_endpoints handle pf hf cs e"
proof (induction cs arbitrary: e)
  case (Cons c cs)
  then have "chi_registerKrakendEndpoints handle pf hf cs = adapter_endpoints handle pf hf cs" by blast
  then show ?case
    by (auto simp: adapter_endpoint_def chi_registerKrakendEndpoint_def chi_methods_def router_methods_def Let_def
        split: made.split option.split)
qed simp

text \<open>
  the routers agree: over the basic engine the run of the adapters is the run of the net/http
  router, and without debug and echo endpoints the chi router leaves any engine with the routes the
  net/http router leaves, and its own handler for paths it does not know.
\<close>

theorem adapters_agree:
  "adapter_Run (\<lambda>p m h e. Ret (engine_Handle e p m h)) pf hf mc debugH echoH cfg e0 =
     router_Run pf hf (mc_DebugPattern mc) (mc_EchoPattern mc) debugH echoH cfg e0 \<and>
   (\<not> sc_Debug cfg \<longrightarrow> \<not> sc_Echo cfg \<longrightarrow>
     chi_Run handle notFound (mc_DebugPattern mc) debugH pf hf cfg e =
       run_bind (adapter_Run handle pf hf mc debugH echoH cfg e) (\<lambda>e. Ret (notFound chi_NotFound e)))"
proof -
  have assoc: "run_bind (run_bind m f) k = run_bind m (\<lambda>x. run_bind (f x) k)"
    for m :: "'e run" and f :: "'e \<Rightarrow> 'e run" and k :: "'e \<Rightarrow> 'e run" by (cases m) auto
  show ?thesis
    by (simp add: adapter_Run_def router_Run_def handle_all_def adapter_all_basic adapter_endpoints_basic Let_def
        chi_Run_def chi_endpoints_adapter assoc)
qed

lemma adapters_agree_witness:
  "chi_Run (\<lambda>p m h e. Ret (engine_Handle e p m h)) (\<lambda>h e. e) ''/d/'' HealthHandler (\<lambda>c. Made None None) (\<lambda>c p. HealthHandler) zero_service DefaultEngine =
     run_bind (adapter_Run (\<lambda>p m h e. Ret (engine_Handle e p m h)) (\<lambda>c. Made None None) (\<lambda>c p. HealthHandler)
       \<lparr>mc_extract = NoopParamExtractor, mc_DebugPattern = ''/d/'', mc_EchoPattern = []\<rparr> HealthHandler HealthHandler zero_service DefaultEngine) Ret"
  using adapters_agree [THEN conjunct2, rule_format, of zero_service "\<lambda>p m h e. Ret (engine_Handle e p m h)" "\<lambda>h e. e"
      "\<lparr>mc_extract = NoopParamExtractor, mc_DebugPattern = ''/d/'', mc_EchoPattern = []\<rparr>"]
  by (simp add: zero_service_def)

text \<open>An echo endpoint on httptreemux is registered under the empty pattern.\<close>

lemma httptreemux_echo_unset:
  "mc_EchoPattern (mux_NewFactory (httptreemux_DefaultConfig title vars)) = []"
  by (simp add: mux_NewFactory_def httptreemux_DefaultConfig_def)

subsection \<open>Engines\<close>

text \<open>
  What a router relies on: the engine may refuse a route by panicking; when it does not, the handler
  is found under its path and method, and the other routes are as before.
\<close>

locale route_engine =
  fixes handle :: "'e engine_register" and lookup :: "'e \<Rightarrow> string \<times> string \<Rightarrow> handler option"
  assumes lookup_handle:
    "handle path method h e = Ret e' \<Longrightarrow> lookup e' k = (if k = (path, method) then Some h else lookup e k)"
begin

lemma adapter_endpoint_lookup:
  "adapter_endpoint handle (ep_Method c) c h n e = Ret e' \<Longrightarrow>
   lookup e' k = (if k = endpoint_key c \<and> snd k \<in> set router_methods then Some h else lookup e k)"
  by (auto simp: adapter_endpoint_def Let_def IsValidSequentialEndpoint_def endpoint_key_def lookup_handle split: if_splits)

lemma adapter_endpoints_other:
  "adapter_endpoints handle pf hf cs e = Ret e' \<Longrightarrow> k \<notin> endpoint_key ` set cs \<Longrightarrow> lookup e' k = lookup e k"
proof (induction cs arbitrary: e)
  case (Cons c cs)
  then show ?case
    by (auto simp: run_bind_Ret_iff adapter_endpoint_lookup split: made.splits option.splits)
qed simp

lemma adapter_endpoints_reachable:
  assumes "adapter_endpoints handle pf hf (cs @ c # ds) e = Ret e'" and "pf c = Made (Some p) None"
    and "to_upper (ep_Method c) \<in> set router_methods" and "endpoint_key c \<notin> endpoint_key ` set ds"
  shows "lookup e' (endpoint_key c) = Some (hf c p)"
  using assms(1)
proof (induction cs arbitrary: e)
  case Nil
  then obtain e1 where e1: "adapter_endpoint handle (ep_Method c) c (hf c p) (length (ep_Backend c)) e = Ret e1"
    and rest: "adapter_endpoints handle pf hf ds e1 = Ret e'"
    using assms(2) by (auto simp: run_bind_Ret_iff proxy_or_nil_def)
  have "lookup e1 (endpoint_key c) = Some (hf c p)"
    using adapter_endpoint_lookup [OF e1, of "endpoint_key c"] assms(3) by (simp add: endpoint_key_def)
  with adapter_endpoints_other [OF rest assms(4)] show ?case by simp
next
  case (Cons d cs)
  then show ?case by (auto simp: run_bind_Ret_iff split: made.splits option.splits)
qed

end

interpretation basic_engine: route_engine "\<lambda>p m h e. Ret (engine_Handle e p m h)" engine_lookup
  by unfold_locales (metis engine_lookup_Handle run.inject(1))

text \<open>
  The engine with the multiplexer of \<open>net/http\<close>: a pattern that is new to the engine goes to the multiplexer, which
  panics when it is malformed or conflicts with a registered one (\<open>refuse\<close>).
\<close>

definition BasicEngine_Handle :: "(string list \<Rightarrow> string \<Rightarrow> string option) \<Rightarrow> engine engine_register" where
  "BasicEngine_Handle refuse pattern method h e =
     (case (if map_of e pattern = None then refuse (map fst e) pattern else None) of
        Some msg \<Rightarrow> Panic msg
      | None \<Rightarrow> Ret (engine_Handle e pattern method h))"

lemma BasicEngine_Handle_Ret: "BasicEngine_Handle refuse path method h e = Ret e' \<Longrightarrow> e' = engine_Handle e path method h"
  by (simp add: BasicEngine_Handle_def split: option.splits)

interpretation serve_mux: route_engine "BasicEngine_Handle refuse" engine_lookup
  by unfold_locales (metis BasicEngine_Handle_Ret engine_lookup_Handle)

lemma BasicEngine_accepts: "BasicEngine_Handle (\<lambda>_ _. None) = (\<lambda>p m h e. Ret (engine_Handle e p m h))"
  by (intro ext) (simp add: BasicEngine_Handle_def)

lemma run_reaches:
  assumes "route_engine handle lookup" and "adapter_Run handle pf hf mc debugH echoH cfg e = Ret e1"
    and "sc_Endpoints cfg = cs @ c # ds" and "pf c = Made (Some p) None"
    and "to_upper (ep_Method c) \<in> set router_methods" and "endpoint_key c \<notin> endpoint_key ` set ds"
  shows "lookup e1 (endpoint_key c) = Some (hf c p)"
proof -
  obtain e0 where "adapter_endpoints handle pf hf (cs @ c # ds) e0 = Ret e1"
    using assms(2,3) by (auto simp: adapter_Run_def run_bind_Ret_iff)
  from route_engine.adapter_endpoints_reachable [OF assms(1) this assms(4-6)] show ?thesis .
qed

lemma chi_run_reaches:
  assumes "route_engine handle lookup" and "\<And>h e. lookup (notFound h e) = lookup e"
    and "chi_Run handle notFound pattern debugH pf hf cfg e = Ret e1"
    and "sc_Endpoints cfg = cs @ c # ds" and "pf c = Made (Some p) None"
    and "to_upper (ep_Method c) \<in> set router_methods" and "endpoint_key c \<notin> endpoint_key ` set ds"
  shows "lookup e1 (endpoint_key c) = Some (hf c p)"
proof -
  obtain e0 e2 where "adapter_endpoints handle pf hf (cs @ c # ds) e0 = Ret e2" "e1 = notFound chi_NotFound e2"
    using assms(3,4) by (auto simp: chi_Run_def chi_endpoints_adapter run_bind_Ret_iff)
  with route_engine.adapter_endpoints_reachable [OF assms(1) this(1) assms(5-7)] show ?thesis by (simp add: assms(2))
qed

text \<open>
  on any engine that keeps its routes, an endpoint whose proxy could be built and whose method is
  served is reachable under its path and method after the run, on the net/http adapters as on chi,
  unless a later endpoint has the same path and method.
\<close>

theorem routes_reachable:
  assumes "route_engine handle lookup" and "\<And>h e. lookup (notFound h e) = lookup e"
    and "sc_Endpoints cfg = cs @ c # ds" and "pf c = Made (Some p) None"
    and "to_upper (ep_Method c) \<in> set router_methods" and "endpoint_key c \<notin> endpoint_key ` set ds"
  shows "(adapter_Run handle pf hf mc debugH echoH cfg e = Ret e1 \<longrightarrow> lookup e1 (endpoint_key c) = Some (hf c p)) \<and>
    (chi_Run handle notFound pattern debugH pf hf cfg e = Ret e2 \<longrightarrow> lookup e2 (endpoint_key c) = Some (hf c p))"
proof (intro conjI impI)
  assume "adapter_Run handle pf hf mc debugH echoH cfg e = Ret e1"
  then show "lookup e1 (endpoint_key c) = Some (hf c p)"
    using run_reaches [where handle = handle and hf = hf and pf = pf] assms by blast
next
  assume "chi_Run handle notFound pattern debugH pf hf cfg e = Ret e2"
  then show "lookup e2 (endpoint_key c) = Some (hf c p)"
    using chi_run_reaches [where handle = handle and hf = hf and pf = pf] assms by blast
qed

lemma routes_reachable_witness:
  "\<exists>e2. chi_Run (\<lambda>p m h e. Ret (engine_Handle e p m h)) (\<lambda>h e. e) ''/d/'' HealthHandler (\<lambda>c. Made (Some NoopProxy) None) plain_handler
      (zero_service\<lparr>sc_Endpoints := [zero_endpoint\<lparr>ep_Endpoint := ''/a'', ep_Method := ''get''\<rparr>]\<rparr>) DefaultEngine = Ret e2 \<and>
     engine_lookup e2 (''/a'', ''GET'') =
       Some (plain_handler (zero_endpoint\<lparr>ep_Endpoint := ''/a'', ep_Method := ''get''\<rparr>) NoopProxy)"
proof -
  let ?c = "zero_endpoint\<lparr>ep_Endpoint := ''/a'', ep_Method := ''get''\<rparr>"
  let ?cfg = "zero_service\<lparr>sc_Endpoints := [?c]\<rparr>"
  let ?run = "chi_Run (\<lambda>p m h e. Ret (engine_Handle e p m h)) (\<lambda>h e. e) ''/d/'' HealthHandler (\<lambda>c. Made (Some NoopProxy) None)
      plain_handler ?cfg DefaultEngine"
  have "\<not> sc_Debug ?cfg" by (simp add: zero_service_def)
  moreover have "to_upper ''get'' = ''GET''" by code_simp
  ultimately obtain e2 where run: "?run = Ret e2"
    by (auto simp: chi_Run_def chi_registerKrakendEndpoint_def Let_def chi_methods_def)
  have key: "endpoint_key ?c = (''/a'', ''GET'')" and served: "to_upper (ep_Method ?c) \<in> set router_methods" by code_simp+
  have "sc_Endpoints ?cfg = [] @ ?c # []" by simp
  from routes_reachable [where notFound = "\<lambda>h e. e", OF basic_engine.route_engine_axioms refl this refl served,
      THEN conjunct2, rule_format, OF _ run]
  show ?thesis using run key by auto
qed

subsection \<open>Names of path parameters\<close>

text \<open>
  the names of the path parameters.  A pattern \<open>{k}\<close> of a backend asks for the parameter whose
  name is \<open>k\<close> with its first byte in title case.  The chi adapter offers it; the gorilla and
  httptreemux adapters offer the whole of \<open>k\<close> in title case instead, so a parameter with a capital
  letter behind its first is never found.
\<close>

theorem path_parameter_names:
  assumes "vars r = [(k, v)]" and "env_title env = title"
  shows "map_of (chi_params title vars r) (output_key env k) = Some v \<and>
    (map_of (titled_params title vars r) (output_key env k) = Some v \<longleftrightarrow> title k = title (take 1 k) @ drop 1 k)"
  using assms by (auto simp: chi_params_def titled_params_def output_key_def)

definition ascii_title :: "string \<Rightarrow> string" where
  "ascii_title s = (case s of [] \<Rightarrow> [] | c # cs \<Rightarrow> up_char c # map low_char cs)"

lemma path_parameter_names_witness:
  "map_of (chi_params ascii_title (\<lambda>_. [(''userId'', ''7'')]) sample_in) ''UserId'' = Some ''7'' \<and>
   map_of (titled_params ascii_title (\<lambda>_. [(''userId'', ''7'')]) sample_in) ''UserId'' \<noteq> Some ''7''"
proof -
  have "output_key (sample_env\<lparr>env_title := ascii_title\<rparr>) ''userId'' = ''UserId''"
    "\<not> ascii_title ''userId'' = ascii_title (take 1 ''userId'') @ drop 1 ''userId''" by code_simp+
  with path_parameter_names [of "\<lambda>_. [(''userId'', ''7'')]" sample_in "''userId''" "''7''" "sample_env\<lparr>env_title := ascii_title\<rparr>" ascii_title]
  show ?thesis by simp
qed

end
