(* ===== verification/Service_Run.thy ===== *)
theory Service_Run
  imports Server Router_Adapters
begin

section \<open>Routers and their runs\<close>

text \<open>
  The factories of the routers, the routers they make, and their \<open>Run\<close> methods with all they change: the
  default transport of the process, the engine, and the server, which is given the engine behind the
  middlewares.  A factory holds its engine by reference, so its routers share the engine: runs are given it and
  hand it on.  The result of a run is the transport, the engine as registered and the server's error,
  which the routers only log.  Contexts are of any type \<open>'x\<close>; \<open>background\<close> is \<open>context.Background()\<close>.
\<close>

type_synonym ('x, 'h) run_server = "'x \<Rightarrow> ServiceConfig \<Rightarrow> 'h \<Rightarrow> gerror option"

text \<open>The default \<open>RunServer\<close>: of a context the server needs to know what ends it.\<close>

record ('c, 'k, 'h) runner =
  rn_env :: "('c, 'k) server_env"
  rn_h2c :: "'h \<Rightarrow> 'h"
  rn_shutdown :: "('c, 'k, 'h) http_server \<Rightarrow> int option \<Rightarrow> gerror option"

definition serve_with :: "('c, 'k, 'h) runner \<Rightarrow> (ending, 'h) run_server" where
  "serve_with rn ctx cfg h = RunServer (rn_env rn) (rn_h2c rn) (rn_shutdown rn) ctx cfg h"

subsection \<open>Routers on net/http\<close>

record ('x, 'e) mux_Config = mux_config +
  mc_Engine :: 'e
  mc_Middlewares :: "(handler \<Rightarrow> handler) list"
  mc_HandlerFactory :: "EndpointConfig \<Rightarrow> proxy \<Rightarrow> handler"
  mc_ProxyFactory :: factory
  mc_RunServer :: "('x, handler) run_server"

text \<open>The handler factories are given the parameter extractor of the configuration.\<close>

type_synonym mux_handlers = "param_extractor \<Rightarrow> EndpointConfig \<Rightarrow> proxy \<Rightarrow> handler"

definition with_parts :: "'e \<Rightarrow> mux_handlers \<Rightarrow> factory \<Rightarrow> ('x, handler) run_server \<Rightarrow> mux_config \<Rightarrow> ('x, 'e) mux_Config" where
  "with_parts engine hf pf server mc = mux_config.extend mc (mux_Config.fields engine [] (hf (mc_extract mc)) pf server)"

definition factory_mux_DefaultFactory :: "mux_handlers \<Rightarrow> factory \<Rightarrow> ('x, handler) run_server \<Rightarrow> ('x, engine) mux_Config" where
  "factory_mux_DefaultFactory hf pf server = with_parts DefaultEngine hf pf server mux_DefaultFactory"

definition gorilla_DefaultFactory ::
  "(string \<Rightarrow> string) \<Rightarrow> (http_in \<Rightarrow> (string \<times> string) list) \<Rightarrow> 'e \<Rightarrow> mux_handlers \<Rightarrow> factory \<Rightarrow> ('x, handler) run_server \<Rightarrow>
    ('x, 'e) mux_Config" where
  "gorilla_DefaultFactory title vars engine hf pf server =
     mux_NewFactory (with_parts engine hf pf server (gorilla_DefaultConfig title vars))"

definition httptreemux_DefaultFactory ::
  "(string \<Rightarrow> string) \<Rightarrow> (http_in \<Rightarrow> (string \<times> string) list) \<Rightarrow> 'e \<Rightarrow> mux_handlers \<Rightarrow> factory \<Rightarrow> ('x, handler) run_server \<Rightarrow>
    ('x, 'e) mux_Config" where
  "httptreemux_DefaultFactory title vars engine hf pf server =
     mux_NewFactory (with_parts engine hf pf server (httptreemux_DefaultConfig title vars))"

definition negroni_DefaultFactory ::
  "(string \<Rightarrow> string) \<Rightarrow> (http_in \<Rightarrow> (string \<times> string) list) \<Rightarrow> 'e \<Rightarrow> mux_handlers \<Rightarrow> factory \<Rightarrow> ('x, handler) run_server \<Rightarrow>
    ('x, 'e) mux_Config" where
  "negroni_DefaultFactory title vars engine hf pf server =
     mux_NewFactory (with_parts engine hf pf server (negroni_DefaultConfig title vars))"

text \<open>
  The engines: they register with their library's function, whose arguments come in another order, and
  serve with the interceptor around the writer.
\<close>

definition gorilla_Handle :: "(string \<Rightarrow> handler \<Rightarrow> string \<Rightarrow> 'e \<Rightarrow> 'e run) \<Rightarrow> 'e engine_register" where
  "gorilla_Handle lib pattern method handler g = lib pattern handler method g"

definition httptreemux_Handle :: "(string \<Rightarrow> string \<Rightarrow> handler \<Rightarrow> 'e \<Rightarrow> 'e run) \<Rightarrow> 'e engine_register" where
  "httptreemux_Handle lib pattern method handler g = lib method pattern handler g"

definition NewHTTPErrorInterceptor :: "writer \<Rightarrow> writer" where
  "NewHTTPErrorInterceptor w = w\<lparr>wIntercept := True\<rparr>"

definition intercepted_ServeHTTP :: "('e \<Rightarrow> handler) \<Rightarrow> 'e \<Rightarrow> handler" where
  "intercepted_ServeHTTP lib g r w = lib g r (NewHTTPErrorInterceptor w)"

record ('x, 'e) httpRouter =
  hr_cfg :: "('x, 'e) mux_Config"
  hr_ctx :: 'x
  hr_RunServer :: "('x, handler) run_server"

definition mux_NewWithContext :: "('x, 'e) mux_Config \<Rightarrow> 'x \<Rightarrow> ('x, 'e) httpRouter" where
  "mux_NewWithContext rf ctx = \<lparr>hr_cfg = rf, hr_ctx = ctx, hr_RunServer = mc_RunServer rf\<rparr>"

definition mux_New :: "'x \<Rightarrow> ('x, 'e) mux_Config \<Rightarrow> ('x, 'e) httpRouter" where
  "mux_New background rf = mux_NewWithContext rf background"

text \<open>\<open>serve\<close> is the engine's \<open>ServeHTTP\<close>.\<close>

definition httpRouter_Run ::
  "('c, 'k) server_env \<Rightarrow> 'e engine_register \<Rightarrow> ('e \<Rightarrow> handler) \<Rightarrow> handler \<Rightarrow> handler \<Rightarrow> ('x, 'e) httpRouter \<Rightarrow> ServiceConfig \<Rightarrow>
    ('c, 'k) transport option \<Rightarrow> 'e \<Rightarrow> (('c, 'k) transport option \<times> 'e \<times> gerror option) run" where
  "httpRouter_Run env handle serve debugH echoH r cfg tr e =
     (let rc = hr_cfg r in
      run_bind (adapter_Run handle (mc_ProxyFactory rc) (mc_HandlerFactory rc) (mux_config.truncate rc) debugH echoH cfg e) (\<lambda>e.
        Ret (InitHTTPDefaultTransportWithLogger env cfg tr, e,
             hr_RunServer r (hr_ctx r) cfg (apply_middlewares (mc_Middlewares rc) (serve e)))))"

subsection \<open>The router on chi\<close>

record ('x, 'e) chi_Config =
  cc_Engine :: 'e
  cc_Middlewares :: "(handler \<Rightarrow> handler) list"
  cc_HandlerFactory :: "EndpointConfig \<Rightarrow> proxy \<Rightarrow> handler"
  cc_ProxyFactory :: factory
  cc_DebugPattern :: string
  cc_RunServer :: "('x, handler) run_server"

definition chi_NewFactory :: "('x, 'e) chi_Config \<Rightarrow> ('x, 'e) chi_Config" where
  "chi_NewFactory cfg = (if cc_DebugPattern cfg = [] then cfg\<lparr>cc_DebugPattern := ChiDefaultDebugPattern\<rparr> else cfg)"

text \<open>\<open>logger\<close> is chi's own middleware.\<close>

definition chi_DefaultFactory ::
  "'e \<Rightarrow> (handler \<Rightarrow> handler) \<Rightarrow> (EndpointConfig \<Rightarrow> proxy \<Rightarrow> handler) \<Rightarrow> factory \<Rightarrow> ('x, handler) run_server \<Rightarrow> ('x, 'e) chi_Config" where
  "chi_DefaultFactory engine logger hf pf server = chi_NewFactory
     \<lparr>cc_Engine = engine, cc_Middlewares = [logger], cc_HandlerFactory = hf, cc_ProxyFactory = pf,
      cc_DebugPattern = ChiDefaultDebugPattern, cc_RunServer = server\<rparr>"

record ('x, 'e) chiRouter =
  cr_cfg :: "('x, 'e) chi_Config"
  cr_ctx :: 'x
  cr_RunServer :: "('x, handler) run_server"

definition chi_NewWithContext :: "('x, 'e) chi_Config \<Rightarrow> 'x \<Rightarrow> ('x, 'e) chiRouter" where
  "chi_NewWithContext rf ctx = \<lparr>cr_cfg = rf, cr_ctx = ctx, cr_RunServer = cc_RunServer rf\<rparr>"

definition chi_New :: "'x \<Rightarrow> ('x, 'e) chi_Config \<Rightarrow> ('x, 'e) chiRouter" where
  "chi_New background rf = chi_NewWithContext rf background"

text \<open>The engine takes the middlewares itself.\<close>

definition chiRouter_Run ::
  "('c, 'k) server_env \<Rightarrow> 'e engine_register \<Rightarrow> ((handler \<Rightarrow> handler) list \<Rightarrow> 'e \<Rightarrow> 'e) \<Rightarrow> (handler \<Rightarrow> 'e \<Rightarrow> 'e) \<Rightarrow> ('e \<Rightarrow> handler) \<Rightarrow>
    handler \<Rightarrow> ('x, 'e) chiRouter \<Rightarrow> ServiceConfig \<Rightarrow>
    ('c, 'k) transport option \<Rightarrow> 'e \<Rightarrow> (('c, 'k) transport option \<times> 'e \<times> gerror option) run" where
  "chiRouter_Run env handle use notFound serve debugH r cfg tr e =
     (let rc = cr_cfg r in
      run_bind (chi_Run handle notFound (cc_DebugPattern rc) debugH (cc_ProxyFactory rc) (cc_HandlerFactory rc) cfg
          (use (cc_Middlewares rc) e)) (\<lambda>e.
        Ret (InitHTTPDefaultTransportWithLogger env cfg tr, e, cr_RunServer r (cr_ctx r) cfg (serve e))))"

subsection \<open>The router on gin\<close>

record ('g, 'h, 'x, 'e) gin_Config =
  gc_Engine :: 'e
  gc_Middlewares :: "'g gin_handler list"
  gc_HandlerFactory :: "EndpointConfig \<Rightarrow> proxy \<Rightarrow> 'g gin_handler"
  gc_ProxyFactory :: factory
  gc_RunServer :: "('x, 'h) run_server"

definition gin_NewFactory :: "('g, 'h, 'x, 'e) gin_Config \<Rightarrow> ('g, 'h, 'x, 'e) gin_Config" where
  "gin_NewFactory cfg = cfg"

definition gin_DefaultFactory ::
  "'e \<Rightarrow> (EndpointConfig \<Rightarrow> proxy \<Rightarrow> 'g gin_handler) \<Rightarrow> factory \<Rightarrow> ('x, 'h) run_server \<Rightarrow> ('g, 'h, 'x, 'e) gin_Config" where
  "gin_DefaultFactory engine hf pf server = gin_NewFactory
     \<lparr>gc_Engine = engine, gc_Middlewares = [], gc_HandlerFactory = hf, gc_ProxyFactory = pf, gc_RunServer = server\<rparr>"

record ('g, 'h, 'x, 'e) ginRouter =
  gi_cfg :: "('g, 'h, 'x, 'e) gin_Config"
  gi_ctx :: 'x
  gi_runServerF :: "('x, 'h) run_server"
  gi_urlCatalog :: "(string, string list) gomap"

definition gin_NewWithContext :: "('g, 'h, 'x, 'e) gin_Config \<Rightarrow> 'x \<Rightarrow> ('g, 'h, 'x, 'e) ginRouter" where
  "gin_NewWithContext rf ctx = \<lparr>gi_cfg = rf, gi_ctx = ctx, gi_runServerF = gc_RunServer rf, gi_urlCatalog = []\<rparr>"

definition gin_New :: "'x \<Rightarrow> ('g, 'h, 'x, 'e) gin_Config \<Rightarrow> ('g, 'h, 'x, 'e) ginRouter" where
  "gin_New background rf = gin_NewWithContext rf background"

text \<open>What the server runs is the engine's handler behind the safe casts; the router keeps its catalogue.\<close>

definition ginRouter_Run ::
  "('c, 'k) server_env \<Rightarrow> ('e \<Rightarrow> 'h) \<Rightarrow> ('h \<Rightarrow> 'h) \<Rightarrow> 'g gin \<Rightarrow> ('g, 'e) gin_register \<Rightarrow> string list \<Rightarrow> 'g gin_handler \<Rightarrow>
    ('g, 'h, 'x, 'e) ginRouter \<Rightarrow> ServiceConfig \<Rightarrow> ('c, 'k) transport option \<Rightarrow> 'e \<Rightarrow>
    (('c, 'k) transport option \<times> ('g, 'h, 'x, 'e) ginRouter \<times> 'e \<times> gerror option) run" where
  "ginRouter_Run env serve safe g handle any echo r cfg tr e =
     (let rc = gi_cfg r; tr = InitHTTPDefaultTransportWithLogger env cfg tr in
      run_bind (registerEndpointsAndMiddlewares g handle any echo (gc_Middlewares rc) (gc_ProxyFactory rc) (gc_HandlerFactory rc) cfg
          \<lparr>gr_engine = e, gr_catalog = gi_urlCatalog r\<rparr>) (\<lambda>s.
        Ret (tr, r\<lparr>gi_urlCatalog := gr_catalog s\<rparr>, gr_engine s, gi_runServerF r (gi_ctx r) cfg (safe (serve (gr_engine s))))))"

text \<open>The answer of gin's engine when no route matches.\<close>

definition gin_NoRoute :: "'c gin \<Rightarrow> 'c gin_handler" where
  "gin_NoRoute g c = Ret (g_Header g CompleteResponseHeaderName HeaderIncompleteResponseValue c)"

subsection \<open>What a run leaves\<close>

lemma mux_New_fields [simp]:
  "hr_cfg (mux_NewWithContext rf ctx) = rf" "hr_ctx (mux_NewWithContext rf ctx) = ctx"
  "hr_RunServer (mux_NewWithContext rf ctx) = mc_RunServer rf"
  by (simp_all add: mux_NewWithContext_def)

lemma with_parts_fields [simp]:
  "mc_ProxyFactory (with_parts engine hf pf server mc) = pf" "mc_HandlerFactory (with_parts engine hf pf server mc) = hf (mc_extract mc)"
  "mc_Engine (with_parts engine hf pf server mc) = engine" "mc_RunServer (with_parts engine hf pf server mc) = server"
  "mc_Middlewares (with_parts engine hf pf server mc) = []" "mux_config.truncate (with_parts engine hf pf server mc) = mc"
  by (simp_all add: with_parts_def mux_config.defs mux_Config.defs)

lemma httpRouter_Run_parts:
  assumes "httpRouter_Run env handle serve debugH echoH (mux_NewWithContext rf ctx) cfg tr e = Ret (tr', e', err)"
  shows "adapter_Run handle (mc_ProxyFactory rf) (mc_HandlerFactory rf) (mux_config.truncate rf) debugH echoH cfg e = Ret e'"
    and "tr' = InitHTTPDefaultTransportWithLogger env cfg tr"
    and "err = mc_RunServer rf ctx cfg (apply_middlewares (mc_Middlewares rf) (serve e'))"
  using assms by (auto simp: httpRouter_Run_def run_bind_Ret_iff Let_def)

text \<open>
  two services in one process, run by two routers of one factory: the transport of the first stays; the
  routes of the second join those of the first in the engine both share, whatever context it is given; and with TLS
  on and no key pair its routes are registered all the same but its server refuses to start.
\<close>

theorem second_service:
  assumes "route_engine handle lookup" and "mc_RunServer rf = serve_with rn"
    and "httpRouter_Run (rn_env rn) handle serve debugH echoH (mux_New background rf) cfg1 None (mc_Engine rf) = Ret (tr1, e1, err1)"
    and "httpRouter_Run (rn_env rn) handle serve debugH echoH (mux_NewWithContext rf ctx) cfg2 tr1 e1 = Ret (tr2, e2, err2)"
    and "sc_Endpoints cfg2 = cs @ c # ds" and "mc_ProxyFactory rf c = Made (Some p) None"
    and "to_upper (ep_Method c) \<in> set router_methods" and "endpoint_key c \<notin> endpoint_key ` set ds"
  shows "tr2 = Some (NewTransport (rn_env rn) (insecure_client cfg1)) \<and>
    lookup e2 (endpoint_key c) = Some (mc_HandlerFactory rf c p) \<and>
    (\<forall>t. sc_TLS cfg2 = Some t \<longrightarrow> \<not> tls_IsDisabled t \<longrightarrow> tls_all_keys t = [] \<longrightarrow> err2 = Some ErrPublicKey)"
proof -
  note first = httpRouter_Run_parts [OF assms(3) [unfolded mux_New_def]]
  note second = httpRouter_Run_parts [OF assms(4)]
  have "lookup e2 (endpoint_key c) = Some (mc_HandlerFactory rf c p)"
    by (rule run_reaches [OF assms(1) second(1) assms(5-8)])
  then show ?thesis using first(2) second(2,3) assms(2)
    by (auto simp: InitHTTPDefaultTransportWithLogger_def serve_with_def RunServer_def listen_def NewServerWithLogger_def
        ParseTLSConfigWithLogger_def Let_def)
qed

text \<open>The default configurations serve with the parameters their own router extracts.\<close>

lemma default_handlers:
  "mc_HandlerFactory (factory_mux_DefaultFactory hf pf server) = hf NoopParamExtractor"
  "mc_HandlerFactory (gorilla_DefaultFactory title vars engine hf pf server) = hf (titled_params title vars)"
  "mc_HandlerFactory (httptreemux_DefaultFactory title vars engine hf pf server) = hf (ParamsExtractor title vars)"
  "mc_HandlerFactory (negroni_DefaultFactory title vars engine hf pf server) = hf (titled_params title vars)"
  by (simp_all add: factory_mux_DefaultFactory_def gorilla_DefaultFactory_def httptreemux_DefaultFactory_def negroni_DefaultFactory_def
      mux_NewFactory_def mux_DefaultFactory_def gorilla_DefaultConfig_def httptreemux_DefaultConfig_def negroni_DefaultConfig_def)

end
