(* ===== verification/Config_Parser.thy ===== *)
theory Config_Parser
  imports Config_Init
begin

text \<open>
  The default configuration parser (\<open>config/parser.go\<close>): reading the file, decoding it into the
  parseable structs, turning those into the configuration, initialising it, and reporting errors with
  their row and column.  Reading files, decoding JSON and \<open>time.ParseDuration\<close> are parameters.
  A list of pointers is a list of options: the JSON value \<open>null\<close> as an element is a nil pointer.
\<close>

subsection \<open>The parseable structs\<close>

record parseableBackend =
  pb_Group :: string
  pb_Method :: string
  pb_Host :: "string list"
  pb_HostSanitizationDisabled :: bool
  pb_URLPattern :: string
  pb_AllowList :: "string list"
  pb_DenyList :: "string list"
  pb_Mapping :: "(string, string) gomap"
  pb_Encoding :: string
  pb_IsCollection :: bool
  pb_Target :: string
  pb_ExtraConfig :: "fields option"
  pb_SD :: string
  pb_HeadersToPass :: "string list"
  pb_SDScheme :: string
  pb_QueryStringsToPass :: "string list"

record parseableEndpointConfig =
  pp_Endpoint :: string
  pp_Method :: string
  pp_Backend :: "parseableBackend option list"
  pp_ConcurrentCalls :: int
  pp_Timeout :: string
  pp_CacheTTL :: string
  pp_QueryString :: "string list"
  pp_ExtraConfig :: "fields option"
  pp_HeadersToPass :: "string list"
  pp_OutputEncoding :: string

record parseableAsyncAgent =
  pa_Name :: string
  pa_MaxRetries :: int
  pa_BackoffStrategy :: string
  pa_HealthInterval :: string
  pa_Timeout :: string
  pa_Workers :: int
  pa_Topic :: string
  pa_MaxRate :: nat
  pa_Encoding :: string
  pa_Backend :: "parseableBackend option list"
  pa_ExtraConfig :: "fields option"

record parseableTLSKeyPair =
  pk_PublicKey :: string
  pk_PrivateKey :: string

record parseableTLS =
  pt_IsDisabled :: bool
  pt_PublicKey :: string
  pt_PrivateKey :: string
  pt_CaCerts :: "string list"
  pt_MinVersion :: string
  pt_MaxVersion :: string
  pt_CurvePreferences :: "nat list"
  pt_PreferServerCipherSuites :: bool
  pt_CipherSuites :: "nat list"
  pt_EnableMTLS :: bool
  pt_DisableSystemCaPool :: bool
  pt_Keys :: "parseableTLSKeyPair list"

record parseableClientTLSCert =
  px_Certificate :: string
  px_PrivateKey :: string

record parseableClientTLS =
  px_AllowInsecureConnections :: bool
  px_CaCerts :: "string list"
  px_DisableSystemCaPool :: bool
  px_MinVersion :: string
  px_MaxVersion :: string
  px_CurvePreferences :: "nat list"
  px_CipherSuites :: "nat list"
  px_ClientCerts :: "parseableClientTLSCert list"

record parseableServiceConfig =
  ps_Name :: string
  ps_Endpoints :: "parseableEndpointConfig option list"
  ps_AsyncAgents :: "parseableAsyncAgent option list"
  ps_Timeout :: string
  ps_CacheTTL :: string
  ps_Host :: "string list"
  ps_Port :: int
  ps_Address :: string
  ps_Version :: int
  ps_ExtraConfig :: "fields option"
  ps_ReadTimeout :: string
  ps_WriteTimeout :: string
  ps_IdleTimeout :: string
  ps_ReadHeaderTimeout :: string
  ps_MaxHeaderBytes :: int
  ps_DisableKeepAlives :: bool
  ps_DisableCompression :: bool
  ps_DisableStrictREST :: bool
  ps_MaxIdleConns :: int
  ps_MaxIdleConnsPerHost :: int
  ps_IdleConnTimeout :: string
  ps_ResponseHeaderTimeout :: string
  ps_ExpectContinueTimeout :: string
  ps_OutputEncoding :: string
  ps_DialerTimeout :: string
  ps_DialerFallbackDelay :: string
  ps_DialerKeepAlive :: string
  ps_Debug :: bool
  ps_Echo :: bool
  ps_Plugin :: "PluginConfig option"
  ps_TLS :: "parseableTLS option"
  ps_ClientTLS :: "parseableClientTLS option"
  ps_UseH2C :: bool
  ps_DNSCacheTTL :: string
  ps_MaxShutdownDuration :: string

subsection \<open>Normalisation\<close>

definition parseDuration :: "(string \<Rightarrow> int option) \<Rightarrow> string \<Rightarrow> int" where
  "parseDuration dur v = (case dur v of None \<Rightarrow> 0 | Some d \<Rightarrow> d)"

text \<open>The loops over lists of pointers: the method of a nil pointer dereferences it.\<close>

fun normalize_each :: "('p \<Rightarrow> 'c run) \<Rightarrow> 'p option list \<Rightarrow> 'c list run" where
  "normalize_each f [] = Ret []"
| "normalize_each f (None # ps) = Panic ''invalid memory address or nil pointer dereference''"
| "normalize_each f (Some p # ps) =
     run_bind (f p) (\<lambda>c. run_bind (normalize_each f ps) (\<lambda>cs. Ret (c # cs)))"

definition parseableBackend_normalize :: "parseableBackend \<Rightarrow> Backend" where
  "parseableBackend_normalize p =
     zero_backend\<lparr>be_Group := pb_Group p, be_Method := pb_Method p, be_Host := pb_Host p,
       be_HostSanitizationDisabled := pb_HostSanitizationDisabled p, be_URLPattern := pb_URLPattern p,
       be_Mapping := pb_Mapping p, be_Encoding := pb_Encoding p, be_IsCollection := pb_IsCollection p,
       be_Target := pb_Target p, be_SD := pb_SD p,
       be_SDScheme := (if pb_SDScheme p = [] then ''http'' else pb_SDScheme p),
       be_AllowList := pb_AllowList p, be_DenyList := pb_DenyList p, be_HeadersToPass := pb_HeadersToPass p,
       be_QueryStringsToPass := pb_QueryStringsToPass p, be_ExtraConfig := entries (pb_ExtraConfig p)\<rparr>"

definition normalize_backends :: "parseableBackend option list \<Rightarrow> Backend list run" where
  "normalize_backends = normalize_each (\<lambda>b. Ret (parseableBackend_normalize b))"

definition parseableEndpoint_normalize :: "(string \<Rightarrow> int option) \<Rightarrow> parseableEndpointConfig \<Rightarrow> EndpointConfig run" where
  "parseableEndpoint_normalize dur p =
     run_bind (normalize_backends (pp_Backend p)) (\<lambda>backends.
       Ret \<lparr>ep_Endpoint = pp_Endpoint p, ep_Method = pp_Method p, ep_Backend = backends,
            ep_ConcurrentCalls = pp_ConcurrentCalls p, ep_Timeout = parseDuration dur (pp_Timeout p),
            ep_CacheTTL = parseDuration dur (pp_CacheTTL p), ep_QueryString = pp_QueryString p,
            ep_ExtraConfig = entries (pp_ExtraConfig p), ep_HeadersToPass = pp_HeadersToPass p,
            ep_OutputEncoding = pp_OutputEncoding p\<rparr>)"

definition parseableAgent_normalize :: "(string \<Rightarrow> int option) \<Rightarrow> parseableAsyncAgent \<Rightarrow> AsyncAgent run" where
  "parseableAgent_normalize dur p =
     run_bind (normalize_backends (pa_Backend p)) (\<lambda>backends.
       Ret \<lparr>ag_Name = pa_Name p,
            ag_Connection = \<lparr>cn_MaxRetries = pa_MaxRetries p, cn_BackoffStrategy = pa_BackoffStrategy p,
              cn_HealthInterval = parseDuration dur (pa_HealthInterval p)\<rparr>,
            ag_Consumer = \<lparr>cs_Timeout = parseDuration dur (pa_Timeout p), cs_Workers = pa_Workers p,
              cs_Topic = pa_Topic p, cs_MaxRate = pa_MaxRate p\<rparr>,
            ag_Encoding = pa_Encoding p, ag_Backend = backends, ag_ExtraConfig = entries (pa_ExtraConfig p)\<rparr>)"

definition parseableTLS_normalize :: "parseableTLS \<Rightarrow> TLS" where
  "parseableTLS_normalize p =
     \<lparr>tls_IsDisabled = pt_IsDisabled p, tls_PublicKey = pt_PublicKey p, tls_PrivateKey = pt_PrivateKey p,
      tls_CaCerts = pt_CaCerts p, tls_MinVersion = pt_MinVersion p, tls_MaxVersion = pt_MaxVersion p,
      tls_CurvePreferences = pt_CurvePreferences p, tls_PreferServerCipherSuites = pt_PreferServerCipherSuites p,
      tls_CipherSuites = pt_CipherSuites p, tls_EnableMTLS = pt_EnableMTLS p,
      tls_DisableSystemCaPool = pt_DisableSystemCaPool p,
      tls_Keys = map (\<lambda>k. \<lparr>kp_PublicKey = pk_PublicKey k, kp_PrivateKey = pk_PrivateKey k\<rparr>) (pt_Keys p)\<rparr>"

definition parseableClientTLS_normalize :: "parseableClientTLS \<Rightarrow> ClientTLS" where
  "parseableClientTLS_normalize p =
     \<lparr>ct_AllowInsecureConnections = px_AllowInsecureConnections p, ct_CaCerts = px_CaCerts p,
      ct_DisableSystemCaPool = px_DisableSystemCaPool p, ct_MinVersion = px_MinVersion p,
      ct_MaxVersion = px_MaxVersion p, ct_CurvePreferences = px_CurvePreferences p,
      ct_CipherSuites = px_CipherSuites p,
      ct_ClientCerts = map (\<lambda>c. \<lparr>cc_Certificate = px_Certificate c, cc_PrivateKey = px_PrivateKey c\<rparr>) (px_ClientCerts p)\<rparr>"

definition parseableService_normalize :: "(string \<Rightarrow> int option) \<Rightarrow> parseableServiceConfig \<Rightarrow> ServiceConfig run" where
  "parseableService_normalize dur p =
     run_bind (normalize_each (parseableEndpoint_normalize dur) (ps_Endpoints p)) (\<lambda>endpoints.
     run_bind (normalize_each (parseableAgent_normalize dur) (ps_AsyncAgents p)) (\<lambda>agents.
       Ret (zero_service\<lparr>sc_Name := ps_Name p, sc_Timeout := parseDuration dur (ps_Timeout p),
         sc_CacheTTL := parseDuration dur (ps_CacheTTL p), sc_Host := ps_Host p, sc_Port := ps_Port p,
         sc_Address := ps_Address p, sc_Version := ps_Version p, sc_Debug := ps_Debug p, sc_Echo := ps_Echo p,
         sc_ReadTimeout := parseDuration dur (ps_ReadTimeout p),
         sc_WriteTimeout := parseDuration dur (ps_WriteTimeout p),
         sc_IdleTimeout := parseDuration dur (ps_IdleTimeout p),
         sc_ReadHeaderTimeout := parseDuration dur (ps_ReadHeaderTimeout p),
         sc_MaxHeaderBytes := ps_MaxHeaderBytes p, sc_DisableKeepAlives := ps_DisableKeepAlives p,
         sc_DisableCompression := ps_DisableCompression p, sc_DisableStrictREST := ps_DisableStrictREST p,
         sc_MaxIdleConns := ps_MaxIdleConns p, sc_MaxIdleConnsPerHost := ps_MaxIdleConnsPerHost p,
         sc_IdleConnTimeout := parseDuration dur (ps_IdleConnTimeout p),
         sc_ResponseHeaderTimeout := parseDuration dur (ps_ResponseHeaderTimeout p),
         sc_ExpectContinueTimeout := parseDuration dur (ps_ExpectContinueTimeout p),
         sc_DialerTimeout := parseDuration dur (ps_DialerTimeout p),
         sc_DialerFallbackDelay := parseDuration dur (ps_DialerFallbackDelay p),
         sc_DialerKeepAlive := parseDuration dur (ps_DialerKeepAlive p),
         sc_OutputEncoding := ps_OutputEncoding p, sc_Plugin := ps_Plugin p, sc_UseH2C := ps_UseH2C p,
         sc_DNSCacheTTL := parseDuration dur (ps_DNSCacheTTL p),
         sc_MaxShutdownDuration := parseDuration dur (ps_MaxShutdownDuration p),
         sc_TLS := map_option parseableTLS_normalize (ps_TLS p),
         sc_ClientTLS := map_option parseableClientTLS_normalize (ps_ClientTLS p), sc_ExtraConfig := entries (ps_ExtraConfig p),
         sc_Endpoints := endpoints, sc_AsyncAgents := agents\<rparr>)))"

subsection \<open>Errors\<close>

text \<open>The causes \<open>CheckErr\<close> tells apart; \<open>SyntaxError\<close> and \<open>UnmarshalTypeError\<close> come with their offset.\<close>

datatype cause =
    SyntaxError string int
  | UnmarshalTypeError string int
  | PathError string string
  | OtherCause string

text \<open>One step of the loop over the bytes before the offset: row and column.\<close>

fun rowcol_step :: "char \<Rightarrow> nat \<times> nat \<Rightarrow> nat \<times> nat" where
  "rowcol_step v (row, col) =
     (if v = CHR 0x0D then (row, col)
      else if v = CHR 0x0A then (Suc row, 0)
      else (row, Suc col))"

definition getErrorRowCol :: "string \<Rightarrow> int \<Rightarrow> nat \<times> nat" where
  "getErrorRowCol source offset =
     (let offset = (if int (length source) < offset then int (length source) - 1 else offset)
      in fold rowcol_step (take (nat offset) source) (0, 0))"

record ParseError =
  pr_ConfigFile :: string
  pr_Offset :: int
  pr_Row :: nat
  pr_Col :: nat
  pr_Err :: string

definition ParseError_Error :: "ParseError \<Rightarrow> string" where
  "ParseError_Error p =
     CHR 0x27 # pr_ConfigFile p @ CHR 0x27 # '': '' @ pr_Err p @ '', offset: '' @ show_int (pr_Offset p) @
     '', row: '' @ show_nat (pr_Row p) @ '', col: '' @ show_nat (pr_Col p)"

text \<open>\<open>os.ReadFile\<close> is called directly here; its content is empty when it fails.\<close>

definition NewParseError :: "(string \<Rightarrow> string) \<Rightarrow> string \<Rightarrow> string \<Rightarrow> int \<Rightarrow> ParseError" where
  "NewParseError readFile err configFile offset =
     (case getErrorRowCol (readFile configFile) offset of
        (row, col) \<Rightarrow> \<lparr>pr_ConfigFile = configFile, pr_Offset = offset, pr_Row = row, pr_Col = col, pr_Err = err\<rparr>)"

datatype checked = Located ParseError | Plain string

definition CheckErr :: "(string \<Rightarrow> string) \<Rightarrow> cause \<Rightarrow> string \<Rightarrow> checked" where
  "CheckErr readFile err configFile =
     (case err of
        SyntaxError msg offset \<Rightarrow> Located (NewParseError readFile msg configFile offset)
      | UnmarshalTypeError msg offset \<Rightarrow> Located (NewParseError readFile msg configFile offset)
      | PathError op msg \<Rightarrow> Plain (CHR 0x27 # configFile @ CHR 0x27 # '' ('' @ op @ ''): '' @ msg)
      | OtherCause msg \<Rightarrow> Plain (CHR 0x27 # configFile @ CHR 0x27 # '': '' @ msg))"

fun checked_Error :: "checked \<Rightarrow> string" where
  "checked_Error (Located p) = ParseError_Error p"
| "checked_Error (Plain s) = s"

subsection \<open>The parser\<close>

record parser_env =
  pe_fileReader :: "string \<Rightarrow> cause + string"
  pe_readFile :: "string \<Rightarrow> string"
  pe_unmarshal :: "string \<Rightarrow> cause + parseableServiceConfig"
  pe_duration :: "string \<Rightarrow> int option"
  pe_cfg :: cfg_env
  pe_pattern :: nat

definition Parse :: "parser_env \<Rightarrow> string \<Rightarrow> (checked + ServiceConfig) run" where
  "Parse env configFile =
     (case pe_fileReader env configFile of
        Inl err \<Rightarrow> Ret (Inl (CheckErr (pe_readFile env) err configFile))
      | Inr data \<Rightarrow>
          (case pe_unmarshal env data of
             Inl err \<Rightarrow> Ret (Inl (CheckErr (pe_readFile env) err configFile))
           | Inr cfg \<Rightarrow>
               run_bind (parseableService_normalize (pe_duration env) cfg) (\<lambda>result.
                 case Init (pe_cfg env) (pe_pattern env) result of
                   Inl err \<Rightarrow> Ret (Inl (CheckErr (pe_readFile env) (OtherCause (cfg_error_msg err)) configFile))
                 | Inr result \<Rightarrow> Ret (Inr result))))"

subsection \<open>What normalisation keeps\<close>

text \<open>
  The file that stands for a configuration.  Durations are written by \<open>sd\<close>; what a file cannot
  express are the fields initialisation fills in.
\<close>

definition unparse_backend :: "Backend \<Rightarrow> parseableBackend" where
  "unparse_backend b =
     \<lparr>pb_Group = be_Group b, pb_Method = be_Method b, pb_Host = be_Host b,
      pb_HostSanitizationDisabled = be_HostSanitizationDisabled b, pb_URLPattern = be_URLPattern b,
      pb_AllowList = be_AllowList b, pb_DenyList = be_DenyList b, pb_Mapping = be_Mapping b,
      pb_Encoding = be_Encoding b, pb_IsCollection = be_IsCollection b, pb_Target = be_Target b,
      pb_ExtraConfig = Some (be_ExtraConfig b), pb_SD = be_SD b, pb_HeadersToPass = be_HeadersToPass b,
      pb_SDScheme = be_SDScheme b, pb_QueryStringsToPass = be_QueryStringsToPass b\<rparr>"

definition unparse_endpoint :: "(int \<Rightarrow> string) \<Rightarrow> EndpointConfig \<Rightarrow> parseableEndpointConfig" where
  "unparse_endpoint sd e =
     \<lparr>pp_Endpoint = ep_Endpoint e, pp_Method = ep_Method e, pp_Backend = map (Some \<circ> unparse_backend) (ep_Backend e),
      pp_ConcurrentCalls = ep_ConcurrentCalls e, pp_Timeout = sd (ep_Timeout e), pp_CacheTTL = sd (ep_CacheTTL e),
      pp_QueryString = ep_QueryString e, pp_ExtraConfig = Some (ep_ExtraConfig e),
      pp_HeadersToPass = ep_HeadersToPass e, pp_OutputEncoding = ep_OutputEncoding e\<rparr>"

definition unparse_agent :: "(int \<Rightarrow> string) \<Rightarrow> AsyncAgent \<Rightarrow> parseableAsyncAgent" where
  "unparse_agent sd a =
     \<lparr>pa_Name = ag_Name a, pa_MaxRetries = cn_MaxRetries (ag_Connection a),
      pa_BackoffStrategy = cn_BackoffStrategy (ag_Connection a),
      pa_HealthInterval = sd (cn_HealthInterval (ag_Connection a)),
      pa_Timeout = sd (cs_Timeout (ag_Consumer a)), pa_Workers = cs_Workers (ag_Consumer a),
      pa_Topic = cs_Topic (ag_Consumer a), pa_MaxRate = cs_MaxRate (ag_Consumer a), pa_Encoding = ag_Encoding a,
      pa_Backend = map (Some \<circ> unparse_backend) (ag_Backend a), pa_ExtraConfig = Some (ag_ExtraConfig a)\<rparr>"

definition unparse_tls :: "TLS \<Rightarrow> parseableTLS" where
  "unparse_tls t =
     \<lparr>pt_IsDisabled = tls_IsDisabled t, pt_PublicKey = tls_PublicKey t, pt_PrivateKey = tls_PrivateKey t,
      pt_CaCerts = tls_CaCerts t, pt_MinVersion = tls_MinVersion t, pt_MaxVersion = tls_MaxVersion t,
      pt_CurvePreferences = tls_CurvePreferences t, pt_PreferServerCipherSuites = tls_PreferServerCipherSuites t,
      pt_CipherSuites = tls_CipherSuites t, pt_EnableMTLS = tls_EnableMTLS t,
      pt_DisableSystemCaPool = tls_DisableSystemCaPool t,
      pt_Keys = map (\<lambda>k. \<lparr>pk_PublicKey = kp_PublicKey k, pk_PrivateKey = kp_PrivateKey k\<rparr>) (tls_Keys t)\<rparr>"

definition unparse_client_tls :: "ClientTLS \<Rightarrow> parseableClientTLS" where
  "unparse_client_tls t =
     \<lparr>px_AllowInsecureConnections = ct_AllowInsecureConnections t, px_CaCerts = ct_CaCerts t,
      px_DisableSystemCaPool = ct_DisableSystemCaPool t, px_MinVersion = ct_MinVersion t,
      px_MaxVersion = ct_MaxVersion t, px_CurvePreferences = ct_CurvePreferences t,
      px_CipherSuites = ct_CipherSuites t,
      px_ClientCerts = map (\<lambda>c. \<lparr>px_Certificate = cc_Certificate c, px_PrivateKey = cc_PrivateKey c\<rparr>) (ct_ClientCerts t)\<rparr>"

definition unparse_service :: "(int \<Rightarrow> string) \<Rightarrow> ServiceConfig \<Rightarrow> parseableServiceConfig" where
  "unparse_service sd s =
     \<lparr>ps_Name = sc_Name s, ps_Endpoints = map (Some \<circ> unparse_endpoint sd) (sc_Endpoints s),
      ps_AsyncAgents = map (Some \<circ> unparse_agent sd) (sc_AsyncAgents s), ps_Timeout = sd (sc_Timeout s),
      ps_CacheTTL = sd (sc_CacheTTL s), ps_Host = sc_Host s, ps_Port = sc_Port s, ps_Address = sc_Address s,
      ps_Version = sc_Version s, ps_ExtraConfig = Some (sc_ExtraConfig s), ps_ReadTimeout = sd (sc_ReadTimeout s),
      ps_WriteTimeout = sd (sc_WriteTimeout s), ps_IdleTimeout = sd (sc_IdleTimeout s),
      ps_ReadHeaderTimeout = sd (sc_ReadHeaderTimeout s), ps_MaxHeaderBytes = sc_MaxHeaderBytes s,
      ps_DisableKeepAlives = sc_DisableKeepAlives s, ps_DisableCompression = sc_DisableCompression s,
      ps_DisableStrictREST = sc_DisableStrictREST s, ps_MaxIdleConns = sc_MaxIdleConns s,
      ps_MaxIdleConnsPerHost = sc_MaxIdleConnsPerHost s, ps_IdleConnTimeout = sd (sc_IdleConnTimeout s),
      ps_ResponseHeaderTimeout = sd (sc_ResponseHeaderTimeout s),
      ps_ExpectContinueTimeout = sd (sc_ExpectContinueTimeout s), ps_OutputEncoding = sc_OutputEncoding s,
      ps_DialerTimeout = sd (sc_DialerTimeout s), ps_DialerFallbackDelay = sd (sc_DialerFallbackDelay s),
      ps_DialerKeepAlive = sd (sc_DialerKeepAlive s), ps_Debug = sc_Debug s, ps_Echo = sc_Echo s,
      ps_Plugin = sc_Plugin s, ps_TLS = map_option unparse_tls (sc_TLS s),
      ps_ClientTLS = map_option unparse_client_tls (sc_ClientTLS s), ps_UseH2C = sc_UseH2C s,
      ps_DNSCacheTTL = sd (sc_DNSCacheTTL s), ps_MaxShutdownDuration = sd (sc_MaxShutdownDuration s)\<rparr>"

definition written_backend :: "Backend \<Rightarrow> bool" where
  "written_backend b \<longleftrightarrow>
     b = b\<lparr>be_URLKeys := [], be_ConcurrentCalls := 0, be_Timeout := 0, be_Decoder := (\<lambda>r v. Inr v),
           be_ParentEndpoint := [], be_ParentEndpointMethod := []\<rparr> \<and> be_SDScheme b \<noteq> []"

text \<open>A duration is an \<open>int64\<close> number of nanoseconds: all those of a configuration.\<close>

definition endpoint_durations :: "EndpointConfig \<Rightarrow> int list" where
  "endpoint_durations e = [ep_Timeout e, ep_CacheTTL e]"

definition agent_durations :: "AsyncAgent \<Rightarrow> int list" where
  "agent_durations a = [cn_HealthInterval (ag_Connection a), cs_Timeout (ag_Consumer a)]"

definition service_durations :: "ServiceConfig \<Rightarrow> int list" where
  "service_durations s =
     [sc_Timeout s, sc_CacheTTL s, sc_ReadTimeout s, sc_WriteTimeout s, sc_IdleTimeout s, sc_ReadHeaderTimeout s,
      sc_IdleConnTimeout s, sc_ResponseHeaderTimeout s, sc_ExpectContinueTimeout s, sc_DialerTimeout s,
      sc_DialerFallbackDelay s, sc_DialerKeepAlive s, sc_DNSCacheTTL s, sc_MaxShutdownDuration s]"

definition written_service :: "ServiceConfig \<Rightarrow> bool" where
  "written_service s \<longleftrightarrow>
     s = s\<lparr>sc_uriParser := 0\<rparr> \<and> list_all is_i64 (service_durations s) \<and>
     list_all (\<lambda>e. list_all is_i64 (endpoint_durations e)) (sc_Endpoints s) \<and>
     list_all (\<lambda>a. list_all is_i64 (agent_durations a)) (sc_AsyncAgents s) \<and>
     list_all (\<lambda>e. list_all written_backend (ep_Backend e)) (sc_Endpoints s) \<and>
     list_all (\<lambda>a. list_all written_backend (ag_Backend a)) (sc_AsyncAgents s)"

lemma normalize_each_map:
  "list_all (\<lambda>c. f (g c) = Ret c) cs \<Longrightarrow> normalize_each f (map (Some \<circ> g) cs) = Ret cs"
  by (induction cs) auto

lemma normalize_unparse_backend: "written_backend b \<Longrightarrow> parseableBackend_normalize (unparse_backend b) = b"
  by (cases b) (simp add: written_backend_def parseableBackend_normalize_def unparse_backend_def zero_backend_def)

lemma normalize_unparse_backends:
  "list_all written_backend bs \<Longrightarrow> normalize_backends (map (Some \<circ> unparse_backend) bs) = Ret bs"
  unfolding normalize_backends_def
  by (rule normalize_each_map) (auto simp: list_all_iff normalize_unparse_backend)

lemma normalize_unparse_tls: "parseableTLS_normalize (unparse_tls t) = t"
  by (cases t) (simp add: parseableTLS_normalize_def unparse_tls_def comp_def map_idI)

lemma normalize_unparse_client_tls: "parseableClientTLS_normalize (unparse_client_tls t) = t"
  by (cases t) (simp add: parseableClientTLS_normalize_def unparse_client_tls_def comp_def map_idI)

lemma normalize_unparse_endpoint:
  assumes "\<And>d. is_i64 d \<Longrightarrow> dur (sd d) = Some d" and "list_all is_i64 (endpoint_durations e)" and "list_all written_backend (ep_Backend e)"
  shows "parseableEndpoint_normalize dur (unparse_endpoint sd e) = Ret e"
  using assms
  by (cases e) (simp add: parseableEndpoint_normalize_def unparse_endpoint_def normalize_unparse_backends parseDuration_def
      endpoint_durations_def)

lemma normalize_unparse_agent:
  assumes "\<And>d. is_i64 d \<Longrightarrow> dur (sd d) = Some d" and "list_all is_i64 (agent_durations a)" and "list_all written_backend (ag_Backend a)"
  shows "parseableAgent_normalize dur (unparse_agent sd a) = Ret a"
  using assms
  by (cases a) (simp add: parseableAgent_normalize_def unparse_agent_def normalize_unparse_backends parseDuration_def
      agent_durations_def)

text \<open>
  C9: what the parseable structs keep of a configuration: the normal form of the file written for one that leaves the fields
  initialisation fills in at their zero values, names the scheme of every backend's hosts, and has durations of 64 bits, is the
  configuration itself but for two fields:
  \<open>SequentialStart\<close> and the service's \<open>AllowInsecureConnections\<close>, which the parser does not read and are always
  false; every other field of the service, its endpoints, agents and backends comes back.
\<close>

theorem normalize_unparse:
  assumes "\<And>d. is_i64 d \<Longrightarrow> dur (sd d) = Some d" and "written_service s"
  shows "parseableService_normalize dur (unparse_service sd s) =
    Ret (s\<lparr>sc_SequentialStart := False, sc_AllowInsecureConnections := False\<rparr>)"
proof -
  have "normalize_each (parseableEndpoint_normalize dur) (map (Some \<circ> unparse_endpoint sd) (sc_Endpoints s)) = Ret (sc_Endpoints s)"
    "normalize_each (parseableAgent_normalize dur) (map (Some \<circ> unparse_agent sd) (sc_AsyncAgents s)) = Ret (sc_AsyncAgents s)"
    using assms
    by (auto simp: written_service_def list_all_iff normalize_unparse_endpoint normalize_unparse_agent intro!: normalize_each_map)
  moreover have "(parseableTLS_normalize \<circ> unparse_tls) = id" "(parseableClientTLS_normalize \<circ> unparse_client_tls) = id"
    by (auto simp: normalize_unparse_tls normalize_unparse_client_tls)
  ultimately show ?thesis
    using assms
    by (cases s) (simp add: parseableService_normalize_def unparse_service_def zero_service_def written_service_def service_durations_def
        parseDuration_def option.map_comp option.map_id)
qed

definition unary_text :: "int \<Rightarrow> string" where
  "unary_text d = (if d < 0 then replicate (nat (- d)) (CHR ''-'') else replicate (nat d) (CHR ''1''))"

definition unary_value :: "string \<Rightarrow> int option" where
  "unary_value s = Some (if s \<noteq> [] \<and> hd s = CHR ''-'' then - int (length s) else int (length s))"

lemma unary_value_text: "unary_value (unary_text d) = Some d"
  by (cases "nat d"; cases "nat (- d)") (auto simp: unary_value_def unary_text_def)

definition written_sample :: ServiceConfig where
  "written_sample = zero_service\<lparr>sc_Version := 3, sc_Timeout := 5, sc_SequentialStart := True,
     sc_Endpoints := [zero_endpoint\<lparr>ep_Endpoint := ''/a'', ep_Backend := [zero_backend\<lparr>be_SDScheme := ''http''\<rparr>]\<rparr>]\<rparr>"

text \<open>Durations read back within 64 bits only, as those of the standard library.\<close>

definition bounded_value :: "string \<Rightarrow> int option" where
  "bounded_value s = (case unary_value s of Some d \<Rightarrow> if is_i64 d then Some d else None | None \<Rightarrow> None)"

lemma normalize_unparse_witness:
  "parseableService_normalize bounded_value (unparse_service unary_text written_sample) =
   Ret (written_sample\<lparr>sc_SequentialStart := False, sc_AllowInsecureConnections := False\<rparr>)"
proof (rule normalize_unparse)
  show "bounded_value (unary_text d) = Some d" if "is_i64 d" for d using that by (simp add: bounded_value_def unary_value_text)
  show "written_service written_sample"
    by (simp add: written_service_def written_sample_def zero_service_def zero_endpoint_def zero_backend_def written_backend_def
        service_durations_def endpoint_durations_def is_i64_def)
qed

text \<open>An operator's \<open>sequential_start\<close> does not reach the configuration.\<close>

lemma parser_drops_sequential_start:
  assumes "parseableService_normalize dur p = Ret s"
  shows "\<not> sc_SequentialStart s" and "\<not> sc_AllowInsecureConnections s"
  using assms by (auto simp: parseableService_normalize_def run_bind_Ret_iff zero_service_def)

subsection \<open>Null elements\<close>

definition no_null :: "parseableServiceConfig \<Rightarrow> bool" where
  "no_null p \<longleftrightarrow>
     list_all (\<lambda>e. case e of None \<Rightarrow> False | Some e \<Rightarrow> list_all (\<lambda>b. b \<noteq> None) (pp_Backend e)) (ps_Endpoints p) \<and>
     list_all (\<lambda>a. case a of None \<Rightarrow> False | Some a \<Rightarrow> list_all (\<lambda>b. b \<noteq> None) (pa_Backend a)) (ps_AsyncAgents p)"

lemma run_bind_returns: "(\<exists>y. run_bind m f = Ret y) \<longleftrightarrow> (\<exists>x y. m = Ret x \<and> f x = Ret y)"
  by (cases m) auto

lemma normalize_each_returns:
  "(\<exists>cs. normalize_each f ps = Ret cs) \<longleftrightarrow> list_all (\<lambda>p. case p of None \<Rightarrow> False | Some p \<Rightarrow> \<exists>c. f p = Ret c) ps"
  by (induction f ps rule: normalize_each.induct) (auto simp: run_bind_returns)

lemma normalize_backends_returns: "(\<exists>bs. normalize_backends ps = Ret bs) \<longleftrightarrow> list_all (\<lambda>b. b \<noteq> None) ps"
  unfolding normalize_backends_def normalize_each_returns by (auto simp: list_all_iff split: option.splits)

lemma parseableEndpoint_normalize_returns:
  "(\<exists>e. parseableEndpoint_normalize dur p = Ret e) \<longleftrightarrow> list_all (\<lambda>b. b \<noteq> None) (pp_Backend p)"
  unfolding parseableEndpoint_normalize_def run_bind_returns normalize_backends_returns [symmetric] by simp

lemma parseableAgent_normalize_returns:
  "(\<exists>a. parseableAgent_normalize dur p = Ret a) \<longleftrightarrow> list_all (\<lambda>b. b \<noteq> None) (pa_Backend p)"
  unfolding parseableAgent_normalize_def run_bind_returns normalize_backends_returns [symmetric] by simp

text \<open>
  C10: a configuration file whose lists of endpoints, agents and backends hold no JSON \<open>null\<close> is
  normalised; one with a \<open>null\<close> in them makes the parser panic.
\<close>

theorem normalize_returns_iff:
  "(\<exists>s. parseableService_normalize dur p = Ret s) \<longleftrightarrow> no_null p"
  unfolding parseableService_normalize_def run_bind_returns no_null_def
    parseableEndpoint_normalize_returns [of dur, symmetric] parseableAgent_normalize_returns [of dur, symmetric]
    normalize_each_returns [symmetric]
  by (simp add: run_bind_returns)

subsection \<open>Rows and columns\<close>

lemma rowcol_line:
  "CHR 0x0A \<notin> set l \<Longrightarrow> fold rowcol_step l (row, col) = (row, col + length (filter (\<lambda>c. c \<noteq> CHR 0x0D) l))"
  by (induction l arbitrary: col) auto

lemma rowcol_lines:
  "\<forall>l \<in> set ls. CHR 0x0A \<notin> set l \<Longrightarrow>
   fold rowcol_step (concat (map (\<lambda>l. l @ [CHR 0x0A]) ls)) (row, 0) = (row + length ls, 0)"
  by (induction ls arbitrary: row) (simp_all add: rowcol_line)

text \<open>
  C11: the row and the column of a parse error locate the byte it was found at.  The file is a number of whole lines, the
  beginning \<open>l\<close> of the line with the error, and the rest: an error at the offset where the rest begins is reported with the
  number of lines before it as its row, and with the bytes of \<open>l\<close> other than carriage returns as its column.  An
  offset past the end of the file is taken for that of its last byte, or for the start of an empty file.
\<close>

theorem error_position_located:
  assumes "readFile f = concat (map (\<lambda>l. l @ [CHR 0x0A]) ls) @ l @ rest" and "\<forall>x \<in> set (l # ls). CHR 0x0A \<notin> set x"
    and "offset = int (length (readFile f)) - int (length rest) \<or>
      int (length (readFile f)) < offset \<and> (length rest = 1 \<or> readFile f = [])"
  shows "NewParseError readFile err f offset =
    \<lparr>pr_ConfigFile = f, pr_Offset = offset, pr_Row = length ls, pr_Col = length (filter (\<lambda>c. c \<noteq> CHR 0x0D) l), pr_Err = err\<rparr>"
proof -
  let ?before = "concat (map (\<lambda>l. l @ [CHR 0x0A]) ls) @ l"
  let ?offset = "if int (length (readFile f)) < offset then int (length (readFile f)) - 1 else offset"
  have "take (nat ?offset) (readFile f) = ?before"
  proof (cases "readFile f = []")
    case True
    then show ?thesis using assms(1) by simp
  next
    case False
    then have "nat ?offset = length ?before" using assms(1,3) by (auto simp del: length_concat)
    then show ?thesis using assms(1) by simp
  qed
  moreover have "fold rowcol_step ?before (0, 0) = (length ls, length (filter (\<lambda>c. c \<noteq> CHR 0x0D) l))"
    using assms(2) by (simp add: rowcol_lines rowcol_line)
  ultimately show ?thesis by (simp only: NewParseError_def getErrorRowCol_def Let_def prod.case)
qed

lemma error_position_located_witness:
  "NewParseError (\<lambda>_. ''{'' @ [CHR 0x0D, CHR 0x0A] @ ''  x}'') ''bad'' ''k.json'' 6 =
     \<lparr>pr_ConfigFile = ''k.json'', pr_Offset = 6, pr_Row = 1, pr_Col = 3, pr_Err = ''bad''\<rparr> \<and>
   NewParseError (\<lambda>_. ''{'' @ [CHR 0x0D, CHR 0x0A] @ ''  x}'') ''bad'' ''k.json'' 90 =
     \<lparr>pr_ConfigFile = ''k.json'', pr_Offset = 90, pr_Row = 1, pr_Col = 3, pr_Err = ''bad''\<rparr>"
  using error_position_located [of "\<lambda>_. ''{'' @ [CHR 0x0D, CHR 0x0A] @ ''  x}''" "''k.json''" "[''{'' @ [CHR 0x0D]]" "''  x''" "''}''" 6 "''bad''"]
    error_position_located [of "\<lambda>_. ''{'' @ [CHR 0x0D, CHR 0x0A] @ ''  x}''" "''k.json''" "[''{'' @ [CHR 0x0D]]" "''  x''" "''}''" 90 "''bad''"]
  by simp

text \<open>A file the decoder rejects at an offset its file system does not show has no position.\<close>

lemma error_position_unread: "0 < offset \<Longrightarrow> getErrorRowCol [] offset = (0, 0)"
  by (simp add: getErrorRowCol_def)

subsection \<open>Parsing\<close>

lemma checked_names_file: "prefix (CHR 0x27 # f @ [CHR 0x27]) (checked_Error (CheckErr rf err f))"
  by (simp add: CheckErr_def NewParseError_def ParseError_Error_def prefix_def split: cause.split prod.split)

lemma initialised_iff:
  "(case Init c p r of Inl err \<Rightarrow> Ret (Inl (g err)) | Inr s \<Rightarrow> Ret (Inr s)) = Ret res \<longleftrightarrow>
   (\<exists>err. Init c p r = Inl err \<and> res = Inl (g err)) \<or> (\<exists>s. Init c p r = Inr s \<and> res = Inr s)"
  by (cases "Init c p r") auto

lemma parsed_valid: "Parse env f = Ret (Inr s) \<Longrightarrow> valid_service (pe_cfg env) s"
  by (cases "pe_fileReader env f"; cases "pe_unmarshal env (projr (pe_fileReader env f))")
    (auto simp: Parse_def run_bind_Ret_iff initialised_iff intro: Init_valid)

text \<open>
  C8: the parser returns a valid configuration or an error that names the file.
\<close>

theorem parse_valid_or_named:
  assumes "Parse env f = Ret res"
  shows "(\<forall>s. res = Inr s \<longrightarrow> valid_service (pe_cfg env) s) \<and>
    (\<forall>e. res = Inl e \<longrightarrow> prefix (CHR 0x27 # f @ [CHR 0x27]) (checked_Error e))"
  using assms
  by (cases "pe_fileReader env f"; cases "pe_unmarshal env (projr (pe_fileReader env f))")
    (auto simp: Parse_def run_bind_Ret_iff initialised_iff checked_names_file intro: Init_valid)

definition sample_parser :: parser_env where
  "sample_parser = \<lparr>pe_fileReader = (\<lambda>f. if f = ''k.json'' then Inr ''x'' else Inl (PathError ''open'' ''missing'')),
     pe_readFile = (\<lambda>_. []),
     pe_unmarshal = (\<lambda>s. Inr (unparse_service unary_text sample_service)), pe_duration = unary_value,
     pe_cfg = sample_env, pe_pattern = ColonRouterPatternBuilder\<rparr>"

lemma parse_valid_or_named_witness:
  "\<exists>s. Parse sample_parser ''k.json'' = Ret (Inr s) \<and> valid_service sample_env s"
proof -
  obtain res where res: "Parse sample_parser ''k.json'' = Ret res" "\<not> isl res"
  proof -
    have "(case Parse sample_parser ''k.json'' of Ret res \<Rightarrow> \<not> isl res | Panic _ \<Rightarrow> False)" by code_simp
    then show thesis using that by (auto split: run.splits)
  qed
  from parse_valid_or_named [OF res(1)] res show ?thesis
    by (cases res) (auto simp: sample_parser_def)
qed

end
