(* ===== verification/Gateway.thy ===== *)
theory Gateway
  imports Config_Parser Router_Adapters
begin

section \<open>The gateway as a whole\<close>

text \<open>
  From the configuration file to the call of a backend: the parser and the initialisation give the
  service, the router registers for each endpoint the handler of the proxy the factory builds, and
  the handler turns a client's request into the request the backend's own proxy is called with.  The
  properties that put the parts together are in the root theory.
\<close>

subsection \<open>Single backends\<close>

text \<open>An endpoint that puts nothing between its one backend and the router.\<close>

definition bare_endpoint :: "EndpointConfig \<Rightarrow> bool" where
  "bare_endpoint c \<longleftrightarrow>
     get_as as_obj (ep_ExtraConfig c) plugin_Namespace = None \<and> getStaticMiddlewareCfg (ep_ExtraConfig c) = None \<and>
     ep_ConcurrentCalls c \<le> 1"

text \<open>A backend without plugins and GraphQL, whose lists of headers and parameters are given without repetition.\<close>

definition filtered_backend :: "Backend \<Rightarrow> bool" where
  "filtered_backend b \<longleftrightarrow>
     get_as as_obj (be_ExtraConfig b) plugin_Namespace = None \<and> map_of (be_ExtraConfig b) gql_Namespace = None \<and>
     be_HeadersToPass b \<noteq> [] \<and> distinct (be_HeadersToPass b) \<and>
     be_QueryStringsToPass b \<noteq> [] \<and> distinct (be_QueryStringsToPass b)"

lemma default_factory_bare:
  assumes "bare_endpoint c" and "ep_Backend c = [b]" and "newStack env b = Built p"
  shows "defaultFactory_New env c = Made (Some p) None"
  using assms
  by (simp add: defaultFactory_New_def newSingle_def bare_endpoint_def NewPluginMiddleware_def NewStaticMiddleware_def made_of_def)

lemma wf_send_query: "wf_map acc \<Longrightarrow> requestParamsAsterisk \<notin> set ks \<Longrightarrow> wf_map (send_query qv ks acc)"
  by (induction qv ks acc rule: send_query.induct) (auto simp: wf_map_put split: option.splits)

lemma wf_send_headers: "wf_map acc \<Longrightarrow> requestParamsAsterisk \<notin> set ks \<Longrightarrow> wf_map (send_headers hs ks acc)"
  by (induction hs ks acc rule: send_headers.induct) (auto simp: wf_map_put split: option.splits)

lemma wf_forwarded: "wf_map hs \<Longrightarrow> wf_map (forwarded_headers ip host hs)"
  by (simp add: forwarded_headers_def Let_def wf_map_put)

lemma GeneratePath_body [simp]: "rBody (GeneratePath p r) = rBody r"
  by (simp add: GeneratePath_def)

lemma backend_request_fields [simp]:
  "rMethod (backend_request b r u qs hs) = be_Method b" "rBody (backend_request b r u qs hs) = rBody r"
  "rPath (backend_request b r u qs hs) = rPath (GeneratePath (be_URLPattern b) r)"
  "rURL (backend_request b r u qs hs) = Some u" "rHeaders (backend_request b r u qs hs) = Some hs"
  by (simp_all add: backend_request_def)

lemma valid_headers:
  assumes "valid_service env s" and "c \<in> set (sc_Endpoints s)"
  shows "\<forall>k \<in> set (endpoint_headers c). CanonicalMIMEHeaderKey k = k"
proof -
  have "CanonicalMIMEHeaderKey ''Content-Type'' = ''Content-Type''" by code_simp
  then show ?thesis using assms
    by (auto simp: valid_service_def valid_endpoint_def endpoint_headers_def HeadersToSend_def list_all_iff)
qed

lemma valid_concurrency:
  assumes "valid_service env s" and "c \<in> set (sc_Endpoints s)" and "b \<in> set (ep_Backend c)" and "ep_ConcurrentCalls c \<le> 1"
  shows "be_ConcurrentCalls b \<le> 1"
  using assms by (auto simp: valid_service_def valid_endpoint_def valid_backend_def list_all_iff)

text \<open>What the handler does with the answer \<open>a\<close> of the backend's own proxy.\<close>

fun answered :: "marshal \<Rightarrow> renderRegister \<Rightarrow> bool \<Rightarrow> EndpointConfig \<Rightarrow> pres \<Rightarrow> writer \<Rightarrow> writer run" where
  "answered marshal reg don c (PPanic e) w = Panic e"
| "answered marshal reg don c (PRet response err _) w =
     respond DefaultToHTTPError (getRender marshal reg c) c response (ctx_error don err)
       (Header_Set KrakendHeaderName KrakendHeaderValue w)"

lemma handler_answers:
  assumes "hiMethod r = to_upper (ep_Method c)"
    and "\<forall>r0. for_caller r0 (p (NewRequestBuilder shp extract r (ep_QueryString c) (endpoint_headers c))) = for_caller r0 a"
  shows "CustomEndpointHandler marshal reg shp don extract c p r w = answered marshal reg don c a w"
  using assms
  by (cases "p (NewRequestBuilder shp extract r (ep_QueryString c) (endpoint_headers c))"; cases a)
    (simp_all add: CustomEndpointHandler_def CustomEndpointHandlerWithHTTPError_def)

text \<open>The headers and parameters of a client that get through both lists.\<close>

definition header_passed :: "EndpointConfig \<Rightarrow> Backend \<Rightarrow> string \<Rightarrow> bool" where
  "header_passed c b k \<longleftrightarrow> k \<in> set (endpoint_headers c) \<and> k \<in> set (be_HeadersToPass b)"

definition query_passed :: "EndpointConfig \<Rightarrow> Backend \<Rightarrow> string \<Rightarrow> bool" where
  "query_passed c b k \<longleftrightarrow> k \<in> set (ep_QueryString c) \<and> k \<in> set (be_QueryStringsToPass b)"

text \<open>
  What the request \<open>q\<close> a backend's own proxy gets has to do with the client's request \<open>r\<close>; \<open>req\<close> is the request
  the router made of it and \<open>u\<close> the URL of the chosen host and the backend's path.
\<close>

definition client_call :: "EndpointConfig \<Rightarrow> Backend \<Rightarrow> http_in \<Rightarrow> request \<Rightarrow> url \<Rightarrow> request \<Rightarrow> bool" where
  "client_call c b r req u q \<longleftrightarrow>
     rMethod q = be_Method b \<and> rBody q = hiBody r \<and> rPath q = rPath (GeneratePath (be_URLPattern b) req) \<and>
     (\<forall>k. \<not> router_header k \<longrightarrow>
        map_of (entries (rHeaders q)) k = (if header_passed c b k then map_of (hiHeader r) k else None)) \<and>
     (\<forall>k. k \<notin> set (be_HeadersToPass b) \<longrightarrow> map_of (entries (rHeaders q)) k = None) \<and>
     (\<exists>u'. rURL q = Some u' \<and> uBase u' = uBase u \<and>
        (\<forall>k. values_of (ParseQuery (uRawQuery u')) k = values_of (ParseQuery (uRawQuery u)) k @
           (if query_passed c b k then values_of (ParseQuery (hiRawQuery r)) k else [])))"

text \<open>The request the router makes has maps of its own, without repeated keys.\<close>

lemma request_fields:
  assumes lists: "requestParamsAsterisk \<notin> set (endpoint_headers c)" "requestParamsAsterisk \<notin> set (ep_QueryString c)"
    and req: "req = request_from ip params r (ep_QueryString c) (endpoint_headers c)"
  obtains hs qs where "rHeaders req = Some hs" "rQuery req = Some qs" "wf_map hs" "wf_map qs" "rBody req = hiBody r"
    "rURL req = None" "rParams req = Some params"
    "hs = forwarded_headers ip (hiHost r) (send_headers (hiHeader r) (endpoint_headers c) [])"
    "qs = send_query (ParseQuery (hiRawQuery r)) (ep_QueryString c) []"
  by (rule that) (use lists in \<open>simp_all add: req request_from_def wf_forwarded wf_send_headers wf_send_query\<close>)

lemma stack_called:
  assumes b: "filtered_backend b" "be_ConcurrentCalls b \<le> 1"
    and lists: "requestParamsAsterisk \<notin> set (endpoint_headers c)" "requestParamsAsterisk \<notin> set (ep_QueryString c)"
      "\<forall>k \<in> set (endpoint_headers c). CanonicalMIMEHeaderKey k = k"
    and req: "req = request_from ip params r (ep_QueryString c) (endpoint_headers c)"
    and host: "fe_host env b = Ret (Inr h)" "fe_parse_url env (h @ rPath (GeneratePath (be_URLPattern b) req)) = Inr u"
  shows "\<exists>p q. newStack env b = Built p \<and>
    (\<forall>r0. for_caller r0 (p req) = for_caller r0 (fe_backendFactory env b q)) \<and> client_call c b r req u q"
proof -
  obtain hs qs where f: "rHeaders req = Some hs" "rQuery req = Some qs" "wf_map hs" "wf_map qs" "rBody req = hiBody r"
    and hs: "hs = forwarded_headers ip (hiHost r) (send_headers (hiHeader r) (endpoint_headers c) [])"
    and qs: "qs = send_query (ParseQuery (hiRawQuery r)) (ep_QueryString c) []"
    by (rule request_fields [OF lists(1,2) req]) blast
  note B = b(1) [unfolded filtered_backend_def]
  obtain p u' qs' hs' where p: "newStack env b = Built p"
    and call: "\<forall>r0. for_caller r0 (p req) = for_caller r0 (fe_backendFactory env b (backend_request b req u' qs' hs'))"
    and hs': "map_of hs' = map_of hs |` set (be_HeadersToPass b)"
    and u': "uBase u' = uBase u" "\<forall>k. values_of (ParseQuery (uRawQuery u')) k = values_of (ParseQuery (uRawQuery u)) k @
        (if k \<in> set (be_QueryStringsToPass b) then values_of qs k else [])"
    using stack_call [of b req hs qs env h u] B b(2) f host by auto
  from request_from_spec [OF lists, of ip params r] f req
  have head: "\<not> router_header k \<Longrightarrow> map_of hs k = (map_of (hiHeader r) |` set (endpoint_headers c)) k"
    and qry: "values_of qs k = (if k \<in> set (ep_QueryString c) then values_of (ParseQuery (hiRawQuery r)) k else [])" for k
    by (simp_all add: Let_def)
  show ?thesis
    using p call hs' u' head qry f(5)
    by (intro exI [of _ p] exI [of _ "backend_request b req u' qs' hs'"])
      (auto simp: client_call_def header_passed_def query_passed_def restrict_map_def)
qed

lemma backend_called:
  assumes c: "bare_endpoint c" "ep_Backend c = [b]" and b: "filtered_backend b" "be_ConcurrentCalls b \<le> 1"
    and lists: "requestParamsAsterisk \<notin> set (endpoint_headers c)" "requestParamsAsterisk \<notin> set (ep_QueryString c)"
      "\<forall>k \<in> set (endpoint_headers c). CanonicalMIMEHeaderKey k = k"
    and req: "req = request_from ip params r (ep_QueryString c) (endpoint_headers c)"
    and host: "fe_host env b = Ret (Inr h)" "fe_parse_url env (h @ rPath (GeneratePath (be_URLPattern b) req)) = Inr u"
  shows "\<exists>p q. defaultFactory_New env c = Made (Some p) None \<and>
    (\<forall>r0. for_caller r0 (p req) = for_caller r0 (fe_backendFactory env b q)) \<and> client_call c b r req u q"
  using stack_called [OF b lists req host] default_factory_bare [OF c] by blast

subsection \<open>Several backends\<close>

text \<open>An endpoint whose backends are called at the same time and combined by default, all of them.\<close>

definition merged_endpoint :: "'t factory_env \<Rightarrow> EndpointConfig \<Rightarrow> bool" where
  "merged_endpoint env c \<longleftrightarrow>
     bare_endpoint c \<and> 1 < length (ep_Backend c) \<and>
     getMergerFactory (map fst (me_mergers (fe_merge env))) (ep_ExtraConfig c) = parallelMerger \<and>
     getResponseCombiner (me_combiners (fe_merge env)) (ep_ExtraConfig c) = Ret combineData \<and>
     bf_filtererFactory (me_filters (fe_merge env)) c = Inr [] \<and> newFlatmapFormatter (ep_ExtraConfig c) [] [] = None"

lemma put_all_append: "wf_map (dst @ src) \<Longrightarrow> put_all src dst = dst @ src"
proof (induction src dst rule: put_all.induct)
  case (2 k v src dst)
  then have "k \<notin> fst ` set dst" by (auto simp: wf_map_def)
  then have "go_put k v dst = dst @ [(k, v)]" by (induction dst) auto
  with 2 show ?case by auto
qed simp

text \<open>Both copies of a request without a URL have its values, and leave it as it is.\<close>

lemma reqClone_value:
  assumes "rURL req = None" and "rHeaders req = Some hs" "wf_map hs" and "rParams req = Some ps" "wf_map ps"
  shows "reqClone_of menv c req = (req, req)"
  using assms
  by (cases req; cases "rBody req")
    (simp_all add: reqClone_of_def Clone_def CloneRequest_def CloneRequestHeaders_def CloneRequestParams_def put_all_append)

lemma build_all_Built: "list_all2 (\<lambda>b p. f b = Built p) bs ps \<Longrightarrow> build_all (map f bs) = Inl ps"
  by (induction rule: list_all2_induct) simp_all

text \<open>The proxy of an endpoint with several backends, for the merger \<open>m\<close> its configuration asks for.\<close>

lemma default_factory_multi:
  assumes c: "bare_endpoint c" "1 < length (ep_Backend c)"
    and ps: "list_all2 (\<lambda>b p. newStack env b = Built p) (ep_Backend c) ps"
    and merger: "map_of (me_mergers (fe_merge env)) (getMergerFactory (map fst (me_mergers (fe_merge env))) (ep_ExtraConfig c)) = Some mf"
      "mf c = Ret m"
    and plain: "getResponseCombiner (me_combiners (fe_merge env)) (ep_ExtraConfig c) = Ret combineData"
      "bf_filtererFactory (me_filters (fe_merge env)) c = Inr []" "newFlatmapFormatter (ep_ExtraConfig c) [] [] = None"
  shows "defaultFactory_New env c =
    Made (Some (m (reqClone_of (fe_merge env) c) (percent_of 85 (ep_Timeout c)) combineData [] ps)) None"
proof -
  obtain b1 b2 bs where bs: "ep_Backend c = b1 # b2 # bs"
    using c(2) by (cases "ep_Backend c" rule: remdups_adj.cases) auto
  have "newMulti env c = Built (m (reqClone_of (fe_merge env) c) (percent_of 85 (ep_Timeout c)) combineData [] ps)"
    using merger plain bs build_all_Built [OF ps] list_all2_lengthD [OF ps]
    by (simp add: newMulti_def NewMergeDataMiddleware_def merge_apply_def NewFlatmapMiddleware_def)
  with c bs show ?thesis
    by (simp add: defaultFactory_New_def bare_endpoint_def NewPluginMiddleware_def NewStaticMiddleware_def made_of_def)
qed

lemma default_factory_merged:
  assumes c: "merged_endpoint env c" and ps: "list_all2 (\<lambda>b p. newStack env b = Built p) (ep_Backend c) ps"
    and par: "map_of (me_mergers (fe_merge env)) parallelMerger = Some (\<lambda>_. Ret (parallelMerge ctxErr order late))"
  shows "defaultFactory_New env c = Made (Some (parallelMerge ctxErr order late (reqClone_of (fe_merge env) c)
    (percent_of 85 (ep_Timeout c)) combineData [] ps)) None"
  using c [unfolded merged_endpoint_def] default_factory_multi [OF _ _ ps, of "\<lambda>_. Ret (parallelMerge ctxErr order late)"] par by simp

text \<open>Each backend of the endpoint gets its own call.\<close>

lemma stacks_called:
  assumes b: "\<forall>b \<in> set (ep_Backend c). filtered_backend b \<and> be_ConcurrentCalls b \<le> 1"
    and lists: "requestParamsAsterisk \<notin> set (endpoint_headers c)" "requestParamsAsterisk \<notin> set (ep_QueryString c)"
      "\<forall>k \<in> set (endpoint_headers c). CanonicalMIMEHeaderKey k = k"
    and req: "req = request_from ip params r (ep_QueryString c) (endpoint_headers c)"
    and host: "\<forall>b \<in> set (ep_Backend c). fe_host env b = Ret (Inr (h b)) \<and>
      fe_parse_url env (h b @ rPath (GeneratePath (be_URLPattern b) req)) = Inr (u b)"
  shows "\<exists>P Q. \<forall>b \<in> set (ep_Backend c). newStack env b = Built (P b) \<and>
    (\<forall>r0. for_caller r0 (P b req) = for_caller r0 (fe_backendFactory env b (Q b))) \<and> client_call c b r req (u b) (Q b)"
proof -
  have "\<forall>b \<in> set (ep_Backend c). \<exists>pq. newStack env b = Built (fst pq) \<and>
      (\<forall>r0. for_caller r0 (fst pq req) = for_caller r0 (fe_backendFactory env b (snd pq))) \<and> client_call c b r req (u b) (snd pq)"
    using stack_called [OF _ _ lists req] b host by fastforce
  from bchoice [OF this] obtain f where f: "\<forall>b \<in> set (ep_Backend c). newStack env b = Built (fst (f b)) \<and>
      (\<forall>r0. for_caller r0 (fst (f b) req) = for_caller r0 (fe_backendFactory env b (snd (f b)))) \<and>
      client_call c b r req (u b) (snd (f b))" ..
  then show ?thesis by (intro exI [of _ "fst \<circ> f"] exI [of _ "snd \<circ> f"]) simp
qed

text \<open>A backend that answers: no panic, and data that is a map.\<close>

definition answering :: "pres \<Rightarrow> bool" where
  "answering p \<longleftrightarrow> (case p of PPanic e \<Rightarrow> False | PRet resp err r \<Rightarrow> (\<forall>d. resp = Some d \<longrightarrow> wf_map (entries (Data d))))"

lemma answering_panic: "\<forall>p \<in> set ps. answering p \<Longrightarrow> first_panic ps = None"
  by (induction ps rule: first_panic.induct) (simp_all add: answering_def)

lemma answering_ok: "answering p \<Longrightarrow> ok_of (part_of p) = Some d \<Longrightarrow> wf_map (entries (Data d))"
  by (cases p) (auto simp: answering_def part_of_def ok_of_def split: option.splits)

text \<open>The merged proxy: every backend heard once, in some order.\<close>

lemma merged_answers:
  assumes c: "merged_endpoint env c"
    and par: "map_of (me_mergers (fe_merge env)) parallelMerger = Some (\<lambda>_. Ret (parallelMerge ctxErr order (\<lambda>_. False)))"
    and perm: "\<And>n. mset (order n) = mset [0..<n]"
    and stacks: "\<forall>b \<in> set (ep_Backend c). newStack env b = Built (P b) \<and>
      (\<forall>r0. for_caller r0 (P b req) = for_caller r0 (fe_backendFactory env b (Q b)))"
    and copy: "reqClone_of (fe_merge env) c req = (req, req)"
    and calm: "\<forall>b \<in> set (ep_Backend c). answering (fe_backendFactory env b (Q b))"
  shows "\<exists>p ocs resp. defaultFactory_New env c = Made (Some p) None \<and> p req = PRet resp (newMergeError (errs ocs)) req \<and>
    mset ocs = mset (map (\<lambda>b. part_of (fe_backendFactory env b (Q b))) (ep_Backend c)) \<and> merges resp ocs"
proof -
  let ?cl = "reqClone_of (fe_merge env) c" and ?ps = "map P (ep_Backend c)"
  let ?p = "parallelMerge ctxErr order (\<lambda>_. False) ?cl (percent_of 85 (ep_Timeout c)) combineData [] ?ps"
  let ?rs = "map (\<lambda>n. n req) ?ps"
  have new: "defaultFactory_New env c = Made (Some ?p) None"
    by (rule default_factory_merged [OF c _ par]) (use stacks in \<open>simp add: list.rel_map list_all2_same\<close>)
  have same: "part_of x = part_of y \<and> (answering y \<longrightarrow> answering x)" if "\<forall>r0. for_caller r0 x = for_caller r0 y" for x y
    using that by (cases x; cases y) (simp_all add: part_of_def answering_def split: option.split)
  have parts: "map part_of ?rs = map (\<lambda>b. part_of (fe_backendFactory env b (Q b))) (ep_Backend c)"
    using stacks same by simp
  have ans: "\<forall>x \<in> set ?rs. answering x"
  proof
    fix x assume "x \<in> set ?rs"
    then obtain b where "b \<in> set (ep_Backend c)" "x = P b req" by auto
    then show "answering x" using stacks calm same [of x "fe_backendFactory env b (Q b)"] by blast
  qed
  have l: "launch ?cl [] 0 ?ps req = (?rs, req)" by (rule launch_same) (rule copy)
  note np = answering_panic [OF ans]
  have wf: "\<forall>d \<in> set (oks (map part_of ?rs)). wf_map (entries (Data d))"
    using ans answering_ok by (auto simp: oks_def List.map_filter_def)
  have "\<exists>resp err. ?p req = PRet resp err req"
    unfolding parallelMerge_def by (simp only: l np Let_def prod.case option.case split_beta fst_conv snd_conv) (intro exI, rule refl)
  then obtain resp err where res: "?p req = PRet resp err req" by blast
  obtain ocs where "mset ocs = mset (map part_of ?rs)" "err = newMergeError (errs ocs)" "merges resp ocs"
    using parallelMerge_merges [OF l np perm wf res] by blast
  with new res show ?thesis unfolding parts by blast
qed

text \<open>
  The request of a client at an endpoint with several backends: what its proxy answers.  A backend's own proxy is only
  called with a URL, which is all it may rely on.
\<close>

lemma merged_call:
  assumes valid: "valid_service venv s" "c \<in> set (sc_Endpoints s)"
    and merged: "merged_endpoint fenv c" "\<forall>b \<in> set (ep_Backend c). filtered_backend b"
        "me_mergers (fe_merge fenv) = mergers seq (parallelMerge ctxErr order (\<lambda>_. False))" "\<And>n. mset (order n) = mset [0..<n]"
    and lists: "requestParamsAsterisk \<notin> set (endpoint_headers c)" "requestParamsAsterisk \<notin> set (ep_QueryString c)"
    and client: "wf_map (extract r)" "req = NewRequestBuilder shp extract r (ep_QueryString c) (endpoint_headers c)"
    and host: "\<forall>b \<in> set (ep_Backend c). fe_host fenv b = Ret (Inr (h b)) \<and>
        fe_parse_url fenv (h b @ rPath (GeneratePath (be_URLPattern b) req)) = Inr (u b)"
    and calm: "\<forall>b \<in> set (ep_Backend c). \<forall>q. rURL q \<noteq> None \<longrightarrow> answering (fe_backendFactory fenv b q)"
  obtains p q ocs resp where "defaultFactory_New fenv c = Made (Some p) None" "p req = PRet resp (newMergeError (errs ocs)) req"
    "\<forall>b \<in> set (ep_Backend c). client_call c b r req (u b) (q b)"
    "mset ocs = mset (map (\<lambda>b. part_of (fe_backendFactory fenv b (q b))) (ep_Backend c))" "merges resp ocs"
proof -
  have "\<forall>b \<in> set (ep_Backend c). filtered_backend b \<and> be_ConcurrentCalls b \<le> 1"
    using valid_concurrency [OF valid] merged(1,2) by (simp add: merged_endpoint_def bare_endpoint_def)
  from stacks_called [OF this lists valid_headers [OF valid] client(2) [unfolded NewRequestBuilder_def] host]
  obtain P q where PQ: "\<forall>b \<in> set (ep_Backend c). newStack fenv b = Built (P b) \<and>
      (\<forall>r0. for_caller r0 (P b req) = for_caller r0 (fe_backendFactory fenv b (q b))) \<and> client_call c b r req (u b) (q b)"
    by blast
  have copy: "reqClone_of (fe_merge fenv) c req = (req, req)"
    by (rule request_fields [OF lists client(2) [unfolded NewRequestBuilder_def]]) (use client(1) in \<open>simp add: reqClone_value\<close>)
  have par: "map_of (me_mergers (fe_merge fenv)) parallelMerger = Some (\<lambda>_. Ret (parallelMerge ctxErr order (\<lambda>_. False)))"
    by (simp add: merged(3) mergers_def parallelMerger_def isSequentialKey_def)
  have "\<forall>b \<in> set (ep_Backend c). answering (fe_backendFactory fenv b (q b))"
    using PQ calm unfolding client_call_def by fastforce
  with merged_answers [OF merged(1) par merged(4) _ copy] PQ that show thesis by blast
qed

subsection \<open>A sample gateway\<close>

definition gateway_service :: ServiceConfig where
  "gateway_service = zero_service\<lparr>sc_Version := 3, sc_Host := [''api.example.com:8080''],
     sc_Endpoints := [zero_endpoint\<lparr>ep_Endpoint := ''/users'', ep_HeadersToPass := [''x-token'', ''cookie''],
       ep_QueryString := [''q'', ''page''],
       ep_Backend := [zero_backend\<lparr>be_URLPattern := ''/u'', be_HeadersToPass := [''X-Token''],
         be_QueryStringsToPass := [''q'']\<rparr>]\<rparr>]\<rparr>"

definition gateway_parser :: parser_env where
  "gateway_parser = sample_parser\<lparr>pe_unmarshal := (\<lambda>s. Inr (unparse_service unary_text gateway_service))\<rparr>"

text \<open>What the sample is parsed into, as far as the gateway theorem asks.\<close>

fun sample_ready :: "(checked + ServiceConfig) run \<Rightarrow> bool" where
  "sample_ready (Ret (Inr s)) =
     (\<not> sc_Debug s \<and> \<not> sc_Echo s \<and>
      (case sc_Endpoints s of
         [c] \<Rightarrow> bare_endpoint c \<and> ep_Endpoint c = ''/users'' \<and> to_upper (ep_Method c) = ''GET'' \<and>
           ep_QueryString c = [''q'', ''page''] \<and> ep_HeadersToPass c = [''X-Token'', ''Cookie''] \<and>
           (case ep_Backend c of
              [b] \<Rightarrow> filtered_backend b \<and> be_HeadersToPass b = [''X-Token''] \<and> be_QueryStringsToPass b = [''q''] \<and>
                be_URLPattern b = ''/u'' \<and> be_Method b = ''GET''
            | _ \<Rightarrow> False)
       | _ \<Rightarrow> False))"
| "sample_ready _ = False"

lemma gateway_parses:
  obtains s c b where "Parse gateway_parser ''k.json'' = Ret (Inr s)" "\<not> sc_Debug s" "\<not> sc_Echo s" "sc_Endpoints s = [c]"
    "ep_Backend c = [b]" "bare_endpoint c" "ep_Endpoint c = ''/users''" "to_upper (ep_Method c) = ''GET''"
    "ep_QueryString c = [''q'', ''page'']" "ep_HeadersToPass c = [''X-Token'', ''Cookie'']" "filtered_backend b"
    "be_HeadersToPass b = [''X-Token'']" "be_QueryStringsToPass b = [''q'']" "be_URLPattern b = ''/u''" "be_Method b = ''GET''"
proof -
  have ready: "sample_ready (Parse gateway_parser ''k.json'')" by code_simp
  then obtain s where s: "Parse gateway_parser ''k.json'' = Ret (Inr s)"
    by (cases "Parse gateway_parser ''k.json''" rule: sample_ready.cases) auto
  obtain c where c: "sc_Endpoints s = [c]" using ready s by (auto split: list.splits)
  obtain b where "ep_Backend c = [b]" using ready s c by (auto split: list.splits)
  with ready s c show thesis by (intro that [of s c b]) simp_all
qed

definition gateway_client :: http_in where
  "gateway_client = \<lparr>hiMethod = ''GET'', hiPath = ''/users'', hiRawQuery = ''q=1&page=2'',
     hiHeader = [(''X-Token'', [''t'']), (''Cookie'', [''s''])], hiHost = ''gw'', hiRemoteAddr = ''10.0.0.1:5'', hiBody = None\<rparr>"

lemma filtered_built:
  assumes "bare_endpoint c" "ep_Backend c = [b]" "filtered_backend b" "be_ConcurrentCalls b \<le> 1"
  shows "\<exists>p. defaultFactory_New env c = Made (Some p) None"
  using newStack_plain [of b env] default_factory_bare [OF assms(1,2)] assms(3,4) by (auto simp: filtered_backend_def)

lemma run_built:
  assumes "sc_Endpoints s = [c]" "pf c = Made (Some p) None" "\<not> sc_Debug s" "\<not> sc_Echo s"
  shows "\<exists>e. adapter_Run (\<lambda>p m h e. Ret (engine_Handle e p m h)) pf hf mc debugH echoH s e0 = Ret e"
  using assms by (simp add: adapter_Run_def adapter_endpoint_def proxy_or_nil_def Let_def)

subsection \<open>A sample with two backends\<close>

definition merged_service :: ServiceConfig where
  "merged_service = zero_service\<lparr>sc_Version := 3, sc_Host := [''api.example.com:8080''],
     sc_Endpoints := [zero_endpoint\<lparr>ep_Endpoint := ''/users'', ep_HeadersToPass := [''x-token''], ep_QueryString := [''q''],
       ep_Backend := [zero_backend\<lparr>be_URLPattern := ''/u'', be_HeadersToPass := [''X-Token''], be_QueryStringsToPass := [''q'']\<rparr>,
         zero_backend\<lparr>be_URLPattern := ''/v'', be_HeadersToPass := [''Cookie''], be_QueryStringsToPass := [''p'']\<rparr>]\<rparr>]\<rparr>"

definition merged_parser :: parser_env where
  "merged_parser = sample_parser\<lparr>pe_unmarshal := (\<lambda>s. Inr (unparse_service unary_text merged_service))\<rparr>"

text \<open>The first backend to answer is the last of the list; the sequential merger is not used.\<close>

definition merged_fenv :: "unit factory_env" where
  "merged_fenv = sample_fenv\<lparr>fe_merge := (fe_merge sample_fenv)\<lparr>me_mergers :=
     mergers (\<lambda>repls cl t rc fs ps r. PRet None None r) (parallelMerge (ECtx []) (\<lambda>n. rev [0..<n]) (\<lambda>_. False))\<rparr>\<rparr>"

fun merged_ready :: "(checked + ServiceConfig) run \<Rightarrow> bool" where
  "merged_ready (Ret (Inr s)) =
     (\<not> sc_Debug s \<and> \<not> sc_Echo s \<and>
      (case sc_Endpoints s of
         [c] \<Rightarrow> bare_endpoint c \<and> ep_ExtraConfig c = [] \<and> ep_Endpoint c = ''/users'' \<and> to_upper (ep_Method c) = ''GET'' \<and>
           ep_QueryString c = [''q''] \<and> ep_HeadersToPass c = [''X-Token''] \<and> list_all filtered_backend (ep_Backend c) \<and>
           map be_URLPattern (ep_Backend c) = [''/u'', ''/v''] \<and>
           map be_HeadersToPass (ep_Backend c) = [[''X-Token''], [''Cookie'']]
       | _ \<Rightarrow> False))"
| "merged_ready _ = False"

lemma merged_parsed:
  assumes ready: "merged_ready (Parse env f)"
  obtains s c b1 b2 where "Parse env f = Ret (Inr s)" "\<not> sc_Debug s" "\<not> sc_Echo s" "sc_Endpoints s = [c]"
    "ep_Backend c = [b1, b2]" "merged_endpoint merged_fenv c" "ep_Endpoint c = ''/users''" "to_upper (ep_Method c) = ''GET''"
    "ep_QueryString c = [''q'']" "ep_HeadersToPass c = [''X-Token'']" "filtered_backend b1" "filtered_backend b2"
    "be_URLPattern b1 = ''/u''" "be_URLPattern b2 = ''/v''" "be_HeadersToPass b1 = [''X-Token'']" "be_HeadersToPass b2 = [''Cookie'']"
proof -
  obtain s where s: "Parse env f = Ret (Inr s)"
    using ready by (cases "Parse env f" rule: merged_ready.cases) auto
  obtain c where c: "sc_Endpoints s = [c]" using ready s by (auto split: list.splits)
  have urls: "map be_URLPattern (ep_Backend c) = [''/u'', ''/v'']" and none: "ep_ExtraConfig c = []" "bare_endpoint c"
    using ready s c by simp_all
  then obtain b1 b2 where b: "ep_Backend c = [b1, b2]" by (auto simp: map_eq_Cons_conv)
  have "merged_endpoint merged_fenv c"
    using none b
    by (simp add: merged_endpoint_def merged_fenv_def sample_fenv_def getMergerFactory_def getResponseCombiner_def
        getResponseCombinerName_def proxy_section_def get_as_def initResponseCombiners_def newCombinerRegister_def
        GetResponseCombiner_def register_defs defaultBackendFiltererFactory_def newFlatmapFormatter_def run_bind_Ret_iff)
  with ready s c b show thesis by (intro that [of s c b1 b2]) simp_all
qed

lemma merged_sample_ready: "merged_ready (Parse merged_parser ''k.json'')"
  by code_simp

lemmas merged_parses = merged_parsed [OF merged_sample_ready]

lemma merged_built:
  assumes "merged_endpoint env c" "\<forall>b \<in> set (ep_Backend c). filtered_backend b \<and> be_ConcurrentCalls b \<le> 1"
    and "me_mergers (fe_merge env) = mergers seq (parallelMerge ctxErr order late)"
  shows "\<exists>p. defaultFactory_New env c = Made (Some p) None"
proof -
  have "\<exists>ps. list_all2 (\<lambda>b p. newStack env b = Built p) bs ps"
    if "\<forall>b \<in> set bs. filtered_backend b \<and> be_ConcurrentCalls b \<le> 1" for bs
    using that
  proof (induction bs)
    case (Cons b bs)
    then show ?case using newStack_plain [of b env] by (fastforce simp: filtered_backend_def)
  qed auto
  then obtain ps where "list_all2 (\<lambda>b p. newStack env b = Built p) (ep_Backend c) ps" using assms(2) by blast
  from default_factory_merged [OF assms(1) this] show ?thesis
    by (auto simp: assms(3) mergers_def parallelMerger_def isSequentialKey_def)
qed

end
