(* ===== verification/Gateway_Gin.thy ===== *)
theory Gateway_Gin
  imports Gateway Router_Gin
begin

section \<open>The gateway on gin\<close>

text \<open>
  What the gin adapter makes of a request, from the engine's routes to the call of the backend: the
  counterpart of \<open>Gateway\<close> for the router most gateways run on.
\<close>

subsection \<open>The engine's routes\<close>

text \<open>
  What the router needs of gin's engine: a registration it does not refuse is found under its method and path,
  and the others stay.
\<close>

locale gin_engine =
  fixes handle :: "('c, 'e) gin_register" and lookup :: "'e \<Rightarrow> string \<times> string \<Rightarrow> 'c gin_handler list option"
  assumes lookup_handle:
    "handle method path hs e = Ret e' \<Longrightarrow> lookup e' k = (if k = (method, path) then Some hs else lookup e k)"
begin

lemma gin_endpoint_lookup:
  "gin_registerKrakendEndpoint handle mws (ep_Method c) c h n r = Ret r' \<Longrightarrow>
   lookup (gr_engine r') k =
     (if k = (to_upper (ep_Method c), ep_Endpoint c) \<and> gin_served c then Some (mws @ [h]) else lookup (gr_engine r) k)"
  by (auto simp: gin_registerKrakendEndpoint_def Let_def IsValidSequentialEndpoint_def gin_served_def run_bind_Ret_iff
      lookup_handle split: if_splits)

lemma gin_endpoints_other:
  "gin_registerKrakendEndpoints g handle mws pf hf cs r = Ret r' \<Longrightarrow>
   k \<notin> (\<lambda>c. (to_upper (ep_Method c), ep_Endpoint c)) ` set cs \<Longrightarrow> lookup (gr_engine r') k = lookup (gr_engine r) k"
proof (induction cs arbitrary: r)
  case (Cons c cs)
  then show ?case by (auto simp: run_bind_Ret_iff gin_endpoint_lookup split: made.splits option.splits)
qed simp

lemma gin_endpoints_reachable:
  assumes "gin_registerKrakendEndpoints g handle mws pf hf (cs @ c # ds) r = Ret r'" and "pf c = Made (Some p) None"
    and "gin_served c" and "(to_upper (ep_Method c), ep_Endpoint c) \<notin> (\<lambda>c. (to_upper (ep_Method c), ep_Endpoint c)) ` set ds"
  shows "lookup (gr_engine r') (to_upper (ep_Method c), ep_Endpoint c) = Some (mws @ [hf c p])"
  using assms(1)
proof (induction cs arbitrary: r)
  case Nil
  then obtain r1 where r1: "gin_registerKrakendEndpoint handle mws (ep_Method c) c (hf c p) (length (ep_Backend c)) r = Ret r1"
    and rest: "gin_registerKrakendEndpoints g handle mws pf hf ds r1 = Ret r'"
    using assms(2) by (auto simp: run_bind_Ret_iff proxy_or_nil_def)
  show ?case using gin_endpoint_lookup [OF r1] gin_endpoints_other [OF rest assms(4)] assms(3) by simp
next
  case (Cons d cs)
  then show ?case by (auto simp: run_bind_Ret_iff split: made.splits option.splits)
qed

lemma gin_options_other:
  "register_options g handle mws cat e = Ret e' \<Longrightarrow> fst k \<noteq> ''OPTIONS'' \<Longrightarrow> lookup e' k = lookup e k"
  by (induction cat arbitrary: e) (auto simp: run_bind_Ret_iff lookup_handle)

lemma registered:
  assumes "registerEndpointsAndMiddlewares g handle any echo mws pf hf cfg r = Ret r'"
    and "sc_Endpoints cfg = cs @ c # ds" and "pf c = Made (Some p) None" and "gin_served c"
    and "(to_upper (ep_Method c), ep_Endpoint c) \<notin> (\<lambda>c. (to_upper (ep_Method c), ep_Endpoint c)) ` set ds"
  shows "lookup (gr_engine r') (to_upper (ep_Method c), ep_Endpoint c) = Some (mws @ [hf c p])"
proof -
  obtain e r1 where r1: "gin_registerKrakendEndpoints g handle mws pf hf (cs @ c # ds) (r\<lparr>gr_engine := e\<rparr>) = Ret r1"
    and rest: "(if auto_options cfg then gin_registerOptionEndpoints g handle mws r1 else Ret r1) = Ret r'"
    using assms(1,2) by (auto simp: registerEndpointsAndMiddlewares_def run_bind_Ret_iff)
  have "to_upper (ep_Method c) \<noteq> ''OPTIONS''" using assms(4) by (auto simp: gin_served_def router_methods_def)
  then have "lookup (gr_engine r') (to_upper (ep_Method c), ep_Endpoint c) = lookup (gr_engine r1) (to_upper (ep_Method c), ep_Endpoint c)"
    using rest gin_options_other by (auto simp: gin_registerOptionEndpoints_def run_bind_Ret_iff split: if_splits)
  with gin_endpoints_reachable [OF r1 assms(3-5)] show ?thesis by simp
qed

end

definition trace_lookup :: "(string \<times> string \<times> 'c gin_handler list) list \<Rightarrow> string \<times> string \<Rightarrow> 'c gin_handler list option" where
  "trace_lookup e k = map_option (\<lambda>(m, p, hs). hs) (List.find (\<lambda>(m, p, hs). (m, p) = k) (rev e))"

interpretation trace_engine: gin_engine trace_handle trace_lookup
  by unfold_locales (auto simp: trace_handle_def trace_lookup_def split: if_split_asm)

subsection \<open>The handler\<close>

text \<open>What the handler does with the answer of the backend's own proxy.\<close>

fun gin_answered ::
  "'c gin \<Rightarrow> (gerror \<Rightarrow> int) \<Rightarrow> (gerror \<Rightarrow> (string, string list) gomap) \<Rightarrow> bool \<Rightarrow> 'c gin_render \<Rightarrow> bool \<Rightarrow> EndpointConfig \<Rightarrow>
    pres \<Rightarrow> 'c \<Rightarrow> 'c run" where
  "gin_answered g errF eh returnErrorMsg rnd don cfg (PPanic e) c = Panic e"
| "gin_answered g errF eh returnErrorMsg rnd don cfg (PRet response err _) c =
     (let c = g_Header g CompleteResponseHeaderName (gin_complete response) (gin_response_headers g cfg response c) in
      case ctx_error don err of
        None \<Rightarrow> Ret (rnd response c)
      | Some err \<Rightarrow>
          (let c = gin_errors g err c in
           if response = None then Ret (gin_fail g errF eh returnErrorMsg err c) else Ret (rnd response c)))"

lemma gin_handler_answers:
  assumes "c1 = g_Header g KrakendHeaderName KrakendHeaderValue c"
    and "gin_NewRequest g (ep_HeadersToPass cfg) c1 (ep_QueryString cfg) = Ret req"
    and "\<forall>r0. for_caller r0 (p req) = for_caller r0 a"
  shows "CustomErrorEndpointHandler g errF eh ret rnd don cfg p c = gin_answered g errF eh ret rnd don cfg a c1"
  using assms by (cases "p req"; cases a) (simp_all add: CustomErrorEndpointHandler_def Let_def)

text \<open>
  C2: the gateway end to end on gin: an endpoint with one backend is routed under its method and path,
  behind the router's middlewares, to a handler that answers what the backend's own proxy answers; that
  proxy is called with the backend's method and generated path, the client's body, and exactly the headers
  and query parameters that both the endpoint and the backend list.
\<close>

theorem gateway_gin:
  assumes parsed: "Parse penv f = Ret (Inr s)"
    and run: "gin_engine handle lookup" "registerEndpointsAndMiddlewares g handle any echo mws (defaultFactory_New fenv)
        (\<lambda>c. CustomErrorEndpointHandler g errF eh ret (gin_getRender g reg c) don c) s r0 = Ret r1"
    and route: "sc_Endpoints s = cs @ c # ds" "gin_served c"
        "(to_upper (ep_Method c), ep_Endpoint c) \<notin> (\<lambda>c. (to_upper (ep_Method c), ep_Endpoint c)) ` set ds"
    and backend: "bare_endpoint c" "ep_Backend c = [b]" "filtered_backend b"
    and lists: "requestParamsAsterisk \<notin> set (endpoint_headers c)" "requestParamsAsterisk \<notin> set (ep_QueryString c)"
    and client: "x1 = g_Header g KrakendHeaderName KrakendHeaderValue x"
        "gin_NewRequest g (ep_HeadersToPass c) x1 (ep_QueryString c) = Ret req"
    and host: "fe_host fenv b = Ret (Inr h)" "fe_parse_url fenv (h @ rPath (GeneratePath (be_URLPattern b) req)) = Inr u"
  shows "\<exists>hdl q. lookup (gr_engine r1) (to_upper (ep_Method c), ep_Endpoint c) = Some (mws @ [hdl]) \<and>
    hdl x = gin_answered g errF eh ret (gin_getRender g reg c) don c (fe_backendFactory fenv b q) x1 \<and>
    client_call c b (g_Request g x1) req u q"
proof -
  have valid: "valid_service (pe_cfg penv) s" by (rule parsed_valid [OF parsed])
  have c: "c \<in> set (sc_Endpoints s)" by (simp add: route(1))
  have conc: "be_ConcurrentCalls b \<le> 1"
    using valid_concurrency [OF valid c] backend by (simp add: bare_endpoint_def)
  obtain ps where "req = request_from (g_ClientIP g x1) ps (g_Request g x1) (ep_QueryString c) (endpoint_headers c)"
    using client(2) by (auto simp: gin_NewRequest_def run_bind_Ret_iff endpoint_headers_def Let_def)
  from backend_called [OF backend(1-3) conc lists valid_headers [OF valid c] this host]
  obtain p q where p: "defaultFactory_New fenv c = Made (Some p) None"
    and call: "\<forall>r0. for_caller r0 (p req) = for_caller r0 (fe_backendFactory fenv b q)"
    and q: "client_call c b (g_Request g x1) req u q" by blast
  have "CustomErrorEndpointHandler g errF eh ret (gin_getRender g reg c) don c p x =
      gin_answered g errF eh ret (gin_getRender g reg c) don c (fe_backendFactory fenv b q) x1"
    by (rule gin_handler_answers) (rule client(1), rule client(2), rule call)
  then show ?thesis
    using gin_engine.registered [OF run route(1) p route(2,3)] q by blast
qed

lemma gin_traced:
  assumes "sc_Endpoints s = [c]" "pf c = Made (Some p) None" "\<not> sc_Debug s" "\<not> sc_Echo s"
  shows "\<exists>r. registerEndpointsAndMiddlewares g trace_handle any echo mws pf hf s r0 = Ret r"
  using assms
  by (auto simp: registerEndpointsAndMiddlewares_def gin_registerKrakendEndpoint_def Let_def trace_handle_def
      gin_registerOptionEndpoints_def register_options_trace)

lemma gateway_gin_witness:
  "\<exists>s r hdl q c b. Parse gateway_parser ''k.json'' = Ret (Inr s) \<and>
     registerEndpointsAndMiddlewares sample_gin trace_handle all_methods Ret [] (defaultFactory_New sample_fenv)
       (\<lambda>c. CustomErrorEndpointHandler sample_gin DefaultToHTTPError (\<lambda>_. []) False (gin_getRender sample_gin [] c) False c)
       s \<lparr>gr_engine = [], gr_catalog = []\<rparr> = Ret r \<and>
     trace_lookup (gr_engine r) (''GET'', ''/users'') = Some [hdl] \<and>
     hdl (gateway_client, new_writer False) = gin_answered sample_gin DefaultToHTTPError (\<lambda>_. []) False (gin_getRender sample_gin [] c)
       False c (fe_backendFactory sample_fenv b q) (g_Header sample_gin KrakendHeaderName KrakendHeaderValue (gateway_client, new_writer False)) \<and>
     rMethod q = ''GET'' \<and> map_of (entries (rHeaders q)) ''X-Token'' = Some [''t''] \<and> map_of (entries (rHeaders q)) ''Cookie'' = None"
proof -
  obtain s c b where s: "Parse gateway_parser ''k.json'' = Ret (Inr s)" "\<not> sc_Debug s" "\<not> sc_Echo s" "sc_Endpoints s = [c]"
    and c: "ep_Backend c = [b]" "bare_endpoint c" "ep_Endpoint c = ''/users''" "to_upper (ep_Method c) = ''GET''"
      "ep_QueryString c = [''q'', ''page'']" "ep_HeadersToPass c = [''X-Token'', ''Cookie'']"
    and b: "filtered_backend b" "be_HeadersToPass b = [''X-Token'']" "be_URLPattern b = ''/u''" "be_Method b = ''GET''"
    by (rule gateway_parses) blast
  let ?hf = "\<lambda>c. CustomErrorEndpointHandler sample_gin DefaultToHTTPError (\<lambda>_. []) False (gin_getRender sample_gin [] c) False c"
  let ?r0 = "\<lparr>gr_engine = [], gr_catalog = []\<rparr>" and ?x = "(gateway_client, new_writer False)"
  let ?x1 = "g_Header sample_gin KrakendHeaderName KrakendHeaderValue ?x"
  have conc: "be_ConcurrentCalls b \<le> 1"
    using valid_concurrency [OF parsed_valid [OF s(1)]] s(4) c(1,2) by (simp add: bare_endpoint_def)
  have route: "sc_Endpoints s = [] @ c # []" using s by simp
  have m: "gin_served c" by (simp add: gin_served_def c router_methods_def)
  have eh: "endpoint_headers c = [''X-Token'', ''Cookie'']" by (simp add: endpoint_headers_def c)
  obtain r where r: "registerEndpointsAndMiddlewares sample_gin trace_handle all_methods Ret [] (defaultFactory_New sample_fenv) ?hf s ?r0 = Ret r"
    using filtered_built [OF c(2,1) b(1) conc] gin_traced [OF s(4) _ s(2,3)] by blast
  obtain req where req: "gin_NewRequest sample_gin (ep_HeadersToPass c) ?x1 (ep_QueryString c) = Ret req"
    by (simp add: gin_NewRequest_def sample_gin_def Let_def)
  have x1: "g_Request sample_gin ?x1 = gateway_client" by (simp add: sample_gin_def)
  have "\<exists>hdl q. trace_lookup (gr_engine r) (to_upper (ep_Method c), ep_Endpoint c) = Some ([] @ [hdl]) \<and>
    hdl ?x = gin_answered sample_gin DefaultToHTTPError (\<lambda>_. []) False (gin_getRender sample_gin [] c) False c
      (fe_backendFactory sample_fenv b q) ?x1 \<and>
    client_call c b (g_Request sample_gin ?x1) req
      \<lparr>uBase = ''http://h'' @ rPath (GeneratePath (be_URLPattern b) req), uRawQuery = []\<rparr> q"
    by (rule gateway_gin [OF s(1) trace_engine.gin_engine_axioms r route m _ c(2,1) b(1) _ _ refl req, where h = "''http://h''"])
      (simp_all add: requestParamsAsterisk_def eh c sample_fenv_def)
  then obtain hdl q where "trace_lookup (gr_engine r) (''GET'', ''/users'') = Some [hdl]"
    and "hdl ?x = gin_answered sample_gin DefaultToHTTPError (\<lambda>_. []) False (gin_getRender sample_gin [] c) False c
      (fe_backendFactory sample_fenv b q) ?x1"
    and q: "client_call c b gateway_client req \<lparr>uBase = ''http://h'' @ rPath (GeneratePath (be_URLPattern b) req), uRawQuery = []\<rparr> q"
    unfolding x1 by (auto simp: c)
  moreover have "rMethod q = ''GET''" "map_of (entries (rHeaders q)) ''X-Token'' = Some [''t'']" "map_of (entries (rHeaders q)) ''Cookie'' = None"
    using q by (simp_all add: client_call_def b router_header_def header_passed_def eh gateway_client_def)
  ultimately show ?thesis using s(1) r by blast
qed

end
