(* ===== verification/Gateway_Http.thy ===== *)
theory Gateway_Http
  imports Gateway
begin

section \<open>The gateway over HTTP backends\<close>

text \<open>
  The gateway of \<open>Gateway\<close> with the factory of \<open>proxy/http.go\<close>: what the backends have to answer over HTTP
  for the client of the gateway to be told that its answer is complete.
\<close>

subsection \<open>An answer over HTTP\<close>

text \<open>The HTTP client and what else the HTTP proxy of a backend is given.\<close>

record 't http_env =
  heLib :: "'t flatmap_lib"
  heGunzip :: "body_reader \<Rightarrow> gerror + body_reader"
  heValid :: "string \<Rightarrow> string \<Rightarrow> gerror option"
  heUrlText :: "url \<Rightarrow> string"
  heCtxErr :: "gerror option"
  heClient :: "http_request \<Rightarrow> gerror + http_response"

definition http_factory :: "'t http_env \<Rightarrow> Backend \<Rightarrow> proxy" where
  "http_factory he = CustomHTTPProxyFactory (heLib he) (heGunzip he) (heValid he) (heUrlText he) (heCtxErr he) (heClient he)"

definition parsed_body :: "'t http_env \<Rightarrow> Backend \<Rightarrow> response_parser" where
  "parsed_body he b = DefaultHTTPResponseParserFactory (heGunzip he)
     \<lparr>pc_Decoder = be_Decoder b, pc_EntityFormatter = Format (heLib he) (NewEntityFormatter b)\<rparr>"

text \<open>The client answers with a status the proxy accepts and a body its parser accepts, before the context is done.\<close>

definition http_parsed :: "'t http_env \<Rightarrow> Backend \<Rightarrow> request \<Rightarrow> response \<Rightarrow> bool" where
  "http_parsed he b q d \<longleftrightarrow>
     (\<exists>u resp. rURL q = Some u \<and> heValid he (to_upper (rMethod q)) (heUrlText he u) = None \<and> heCtxErr he = None \<and>
        heClient he (requestToBackend (redirectPostReaderFactory b) (heUrlText he u) q) = Inr resp \<and>
        hrStatusCode resp \<in> {200, 201} \<and> parsed_body he b resp = Ret (Inr d))"

text \<open>
  What a body stands for in the encoding of the backend: text that is read to its end without error, or a JSON value
  that is read from it: an object (\<open>null\<close> is a nil map), in a collection an array, in the safe encoding anything.
  In the pass-through encoding nothing is read: there are no data.
\<close>

definition decodes :: "json_parser \<Rightarrow> string \<Rightarrow> bool \<Rightarrow> body_reader \<Rightarrow> fields option \<Rightarrow> bool" where
  "decodes jdec enc collection body data \<longleftrightarrow>
     (if enc = ''no-op'' then data = None
      else if enc = ''string'' then (\<exists>bytes. body = (bytes, None) \<and> data = Some [(''content'', JStr bytes)])
      else if enc = ''safejson'' then (\<exists>v. jdec body = Inr v \<and>
        data = Some (case v of JObj m \<Rightarrow> m | JArr a \<Rightarrow> [(''collection'', JArr a)] | _ \<Rightarrow> [(''content'', v)]))
      else (\<exists>v. jdec body = Inr v \<and>
        (if collection then
           (v = JNull \<and> data = Some [(''collection'', JArr [])] \<or> (\<exists>a. v = JArr a \<and> data = Some [(''collection'', JArr a)]))
         else (v = JNull \<and> data = None \<or> (\<exists>m. v = JObj m \<and> data = Some m)))))"

text \<open>
  The client of backend \<open>b\<close>, called with the request \<open>q\<close>, answers with the status 200 or 201 and a body that,
  uncompressed when it says so, stands for data which the backend's formatter turns into \<open>d\<close>, before the context is done.
\<close>

definition http_delivers :: "json_parser \<Rightarrow> 't http_env \<Rightarrow> Backend \<Rightarrow> request \<Rightarrow> response \<Rightarrow> bool" where
  "http_delivers jdec he b q d \<longleftrightarrow>
     (\<exists>u resp body data. rURL q = Some u \<and> heValid he (to_upper (rMethod q)) (heUrlText he u) = None \<and> heCtxErr he = None \<and>
        heClient he (requestToBackend (redirectPostReaderFactory b) (heUrlText he u) q) = Inr resp \<and>
        hrStatusCode resp \<in> {200, 201} \<and>
        (if header_get (hrHeader resp) ''Content-Encoding'' = ''gzip'' then heGunzip he (hrBody resp, hrBroken resp) = Inr body
         else body = (hrBody resp, hrBroken resp)) \<and>
        decodes jdec (to_lower (be_Encoding b)) (be_IsCollection b) body data \<and>
        Format (heLib he) (NewEntityFormatter b) (new_response data True) = Ret d)"

text \<open>The decoders of the register read bodies this way, when the JSON parser makes maps of objects.\<close>

lemma default_decodes:
  assumes "\<forall>s v. jdec s = Inr v \<longrightarrow> wf_json v"
  shows "DecoderRegister_Get jdec (initDecoderRegister jdec) enc coll body None = Inr data \<longleftrightarrow> decodes jdec enc coll body data"
proof -
  have maps: "put_all m [] = m" if "jdec body = Inr (JObj m)" for m
  proof -
    have "wf_fields m" using assms(1) that by fastforce
    then show ?thesis using put_all_append [of "[]" m] wf_fields_map by simp
  qed
  have safe: "SafeJSONDecoder jdec body None = Inr data \<longleftrightarrow> (\<exists>v. jdec body = Inr v \<and>
      data = Some (case v of JObj m \<Rightarrow> m | JArr a \<Rightarrow> [(''collection'', JArr a)] | _ \<Rightarrow> [(''content'', v)]))"
  proof (cases "jdec body")
    case (Inr v)
    then show ?thesis by (cases v) (auto simp: SafeJSONDecoder_def)
  qed (simp add: SafeJSONDecoder_def)
  have json: "NewJSONDecoder jdec coll body None = Inr data \<longleftrightarrow> (\<exists>v. jdec body = Inr v \<and>
      (if coll then (v = JNull \<and> data = Some [(''collection'', JArr [])] \<or> (\<exists>a. v = JArr a \<and> data = Some [(''collection'', JArr a)]))
       else (v = JNull \<and> data = None \<or> (\<exists>m. v = JObj m \<and> data = Some m))))"
  proof (cases "jdec body")
    case (Inr v)
    then show ?thesis using maps
      by (cases v) (auto simp: NewJSONDecoder_def JSONDecoder_def JSONCollectionDecoder_def)
  qed (simp add: NewJSONDecoder_def JSONDecoder_def JSONCollectionDecoder_def)
  have str: "StringDecoder body None = Inr data \<longleftrightarrow> (\<exists>bytes. body = (bytes, None) \<and> data = Some [(''content'', JStr bytes)])"
    by (cases body rule: ReadAll.cases) (auto simp: StringDecoder_def)
  have none: "NoOpDecoder body None = Inr data \<longleftrightarrow> data = None" by (auto simp: NoOpDecoder_def)
  have reg: "DecoderRegister_Get jdec (initDecoderRegister jdec) enc =
      (if enc = ''no-op'' then noOpDecoderFactory else if enc = ''string'' then NewStringDecoder
       else if enc = ''safejson'' then NewSafeJSONDecoder jdec else NewJSONDecoder jdec)"
    using decoder_register_total [of jdec enc] unfolding SAFE_JSON_def STRING_def NOOP_def by auto
  show ?thesis
    unfolding reg decodes_def if_distrib [of "\<lambda>f. f coll body None = Inr data"] noOpDecoderFactory_def none
      NewStringDecoder_def str NewSafeJSONDecoder_def safe json ..
qed

lemma http_delivers_parsed:
  assumes "be_Decoder b = DecoderRegister_Get jdec (initDecoderRegister jdec) (to_lower (be_Encoding b)) (be_IsCollection b)"
    and "\<forall>s v. jdec s = Inr v \<longrightarrow> wf_json v"
  shows "http_delivers jdec he b q d \<longleftrightarrow> http_parsed he b q d"
proof -
  have parsed: "parsed_body he b resp = Ret (Inr d) \<longleftrightarrow>
      (\<exists>body data. (if header_get (hrHeader resp) ''Content-Encoding'' = ''gzip'' then heGunzip he (hrBody resp, hrBroken resp) = Inr body
          else body = (hrBody resp, hrBroken resp)) \<and>
        decodes jdec (to_lower (be_Encoding b)) (be_IsCollection b) body data \<and>
        Format (heLib he) (NewEntityFormatter b) (new_response data True) = Ret d)" for resp
    unfolding default_decodes [OF assms(2), symmetric] assms(1) [symmetric]
    by (cases "heGunzip he (hrBody resp, hrBroken resp)")
      (auto simp: parsed_body_def DefaultHTTPResponseParserFactory_def run_bind_Ret_iff Let_def simp del: split_paired_Ex split: sum.split)
  show ?thesis unfolding http_delivers_def http_parsed_def parsed by blast
qed

text \<open>What the decoders of the package yield, when the JSON parser makes maps of objects.\<close>

lemma default_decoder_maps:
  assumes "\<forall>s v. jdec s = Inr v \<longrightarrow> wf_json v"
    and "DecoderRegister_Get jdec (initDecoderRegister jdec) name coll bytes None = Inr d"
  shows "wf_fields (entries d)"
proof -
  have maps: "wf_fields (put_all m [])" if "wf_fields m" for m
    using put_all_append [of "[]" m] wf_fields_map [OF that] that by simp
  have "DecoderRegister_Get jdec (initDecoderRegister jdec) name \<in>
      {NewJSONDecoder jdec, NewSafeJSONDecoder jdec, NewStringDecoder, noOpDecoderFactory}"
    using encoding_names_distinct
    by (auto simp: DecoderRegister_Get_chain typed_reg.get_or_def initDecoderRegister_lookup defaultDecoders_def)
  then consider "JSONDecoder jdec bytes None = Inr d" | "JSONCollectionDecoder jdec bytes None = Inr d"
    | "SafeJSONDecoder jdec bytes None = Inr d" | "StringDecoder bytes None = Inr d" | "NoOpDecoder bytes None = Inr d"
    using assms(2) by (auto simp: NewJSONDecoder_def NewSafeJSONDecoder_def NewStringDecoder_def noOpDecoderFactory_def split: if_splits)
  moreover have "\<forall>t. jdec bytes = Inr t \<longrightarrow> wf_json t" using assms(1) by blast
  ultimately show ?thesis
    using maps
    by cases (auto simp: JSONDecoder_def JSONCollectionDecoder_def SafeJSONDecoder_def StringDecoder_def NoOpDecoder_def wf_fields_Nil
        simp del: wf_json.simps(2) split: sum.splits if_splits option.splits, auto)
qed

text \<open>A backend without flatmap operations and not passed through; its decoder yields maps.\<close>

definition plain_backend :: "Backend \<Rightarrow> bool" where
  "plain_backend b \<longleftrightarrow> be_Encoding b \<noteq> NOOP \<and> newFlatmapFormatter (be_ExtraConfig b) (be_Target b) (be_Group b) = None"

definition http_backend :: "Backend \<Rightarrow> bool" where
  "http_backend b \<longleftrightarrow> plain_backend b \<and>
     (\<forall>bytes d. be_Decoder b bytes None = Inr d \<longrightarrow> wf_fields (entries d))"

lemma parsed_body_cases:
  assumes "http_backend b"
  obtains err where "parsed_body he b resp = Ret (Inl err)"
  | d where "parsed_body he b resp = Ret (Inr d)" "IsComplete d" "wf_data d"
proof (cases "if header_get (hrHeader resp) ''Content-Encoding'' = ''gzip'' then heGunzip he (hrBody resp, hrBroken resp) else Inr (hrBody resp, hrBroken resp)")
  case (Inl err)
  then show thesis using that(1) by (simp add: parsed_body_def DefaultHTTPResponseParserFactory_def)
next
  case bytes: (Inr bytes)
  show thesis
  proof (cases "be_Decoder b bytes None")
    case (Inl err)
    then show thesis using that(1) bytes by (simp add: parsed_body_def DefaultHTTPResponseParserFactory_def)
  next
    case (Inr data)
    have flat: "newFlatmapFormatter (be_ExtraConfig b) (be_Target b) (be_Group b) = None"
      and "wf_data (new_response data True)"
      using assms Inr by (auto simp: http_backend_def plain_backend_def new_response_def simp del: wf_json.simps(2) split_paired_All)
    moreover obtain d where d: "Format (heLib he) (NewEntityFormatter b) (new_response data True) = Ret d" "IsComplete d"
      using backend_format_total [OF flat, where lib = "heLib he" and r = "new_response data True"] by (auto simp: new_response_def)
    ultimately have "wf_data d" using backend_format_maps by blast
    then show thesis using that(2) [of d] d bytes Inr
      by (simp add: parsed_body_def DefaultHTTPResponseParserFactory_def del: wf_json.simps(2))
  qed
qed

text \<open>What the status handler passes on, and what it makes of any other status.\<close>

lemma handle_response_cases:
  assumes "http_backend b"
  shows "(hrStatusCode resp \<in> {200, 201} \<and> handle_response (GetHTTPStatusHandler b) rp r resp =
      (case rp resp of Panic e \<Rightarrow> PPanic e | Ret (Inl err) \<Rightarrow> PRet None (Some err) r | Ret (Inr d) \<Rightarrow> PRet (Some d) None r)) \<or>
    (hrStatusCode resp \<notin> {200, 201} \<and>
      ((\<exists>err. handle_response (GetHTTPStatusHandler b) rp r resp = PRet None (Some err) r) \<or>
       (\<exists>d. handle_response (GetHTTPStatusHandler b) rp r resp = PRet (Some d) None r \<and> \<not> IsComplete d \<and> wf_data d)))"
proof -
  have strict: "if hrStatusCode resp \<in> {200, 201} then GetHTTPStatusHandler b resp = (Some resp, None)
      else (\<exists>x e. GetHTTPStatusHandler b resp = (x, Some e))"
    using strict_GetHTTPStatusHandler [of b] unfolding strict_handler_def by (rule spec)
  show ?thesis
  proof (cases "hrStatusCode resp \<in> {200, 201}")
    case True
    then show ?thesis using strict by (simp add: handle_response_def split: run.split sum.split)
  next
    case False
    then obtain x e where "GetHTTPStatusHandler b resp = (x, Some e)" using strict by auto
    moreover have "wf_json t" if "error_entry e = Some (k, t, code)" for k t code
      using that by (cases e) auto
    ultimately show ?thesis using False by (auto simp: handle_response_def split: option.split)
  qed
qed

lemma http_factory_run:
  assumes "http_backend b" and "rURL q = Some u"
  obtains err r where "http_factory he b q = PRet None (Some err) r" "\<forall>d. \<not> http_parsed he b q d"
  | d r where "http_factory he b q = PRet (Some d) None r" "\<not> IsComplete d" "wf_data d" "\<forall>d. \<not> http_parsed he b q d"
  | d r where "http_factory he b q = PRet (Some d) None r" "IsComplete d" "wf_data d" "\<forall>d'. http_parsed he b q d' \<longleftrightarrow> d' = d"
proof -
  have enc: "be_Encoding b \<noteq> NOOP" using assms(1) by (simp add: http_backend_def plain_backend_def)
  note run = http_factory_def CustomHTTPProxyFactory_def NewHTTPProxyWithHTTPExecutor_def NewHTTPProxyDetailed_def enc assms(2) Let_def
  let ?sent = "requestToBackend (redirectPostReaderFactory b) (heUrlText he u) q"
  show thesis
  proof (cases "heValid he (to_upper (rMethod q)) (heUrlText he u) = None \<and> heCtxErr he = None \<and> (\<exists>resp. heClient he ?sent = Inr resp)")
    case False
    then have "\<exists>err r. http_factory he b q = PRet None (Some err) r"
      by (cases "heValid he (to_upper (rMethod q)) (heUrlText he u)"; cases "heCtxErr he"; cases "heClient he ?sent") (simp_all add: run)
    moreover have "\<forall>d. \<not> http_parsed he b q d" using False assms(2) by (auto simp: http_parsed_def)
    ultimately show thesis using that(1) by blast
  next
    case True
    then obtain resp where resp: "heClient he ?sent = Inr resp" by blast
    let ?r = "q\<lparr>rBody := map_option (\<lambda>_. []) (rBody q)\<rparr>"
    have answer: "http_factory he b q = handle_response (GetHTTPStatusHandler b) (parsed_body he b) ?r resp"
      using True resp by (simp add: run parsed_body_def)
    have delivers: "http_parsed he b q d \<longleftrightarrow> hrStatusCode resp \<in> {200, 201} \<and> parsed_body he b resp = Ret (Inr d)" for d
      using True resp by (simp add: http_parsed_def assms(2))
    from handle_response_cases [OF assms(1), of resp "parsed_body he b" ?r] show thesis
    proof (elim disjE conjE exE)
      assume ok: "hrStatusCode resp \<in> {200, 201}" and out: "handle_response (GetHTTPStatusHandler b) (parsed_body he b) ?r resp =
        (case parsed_body he b resp of Panic e \<Rightarrow> PPanic e | Ret (Inl err) \<Rightarrow> PRet None (Some err) ?r | Ret (Inr d) \<Rightarrow> PRet (Some d) None ?r)"
      show thesis
      proof (rule parsed_body_cases [OF assms(1), of he resp])
        fix err assume "parsed_body he b resp = Ret (Inl err)"
        then show thesis using that(1) answer out delivers by simp
      next
        fix d assume "parsed_body he b resp = Ret (Inr d)" "IsComplete d" "wf_data d"
        then show thesis using that(3) [of d ?r] answer out delivers ok by auto
      qed
    next
      fix err assume "hrStatusCode resp \<notin> {200, 201}"
        and "handle_response (GetHTTPStatusHandler b) (parsed_body he b) ?r resp = PRet None (Some err) ?r"
      then show thesis using that(1) answer delivers by simp
    next
      fix d assume "hrStatusCode resp \<notin> {200, 201}" "\<not> IsComplete d" "wf_data d"
        and "handle_response (GetHTTPStatusHandler b) (parsed_body he b) ?r resp = PRet (Some d) None ?r"
      then show thesis using that(2) [of d ?r] answer delivers by simp
    qed
  qed
qed

lemma http_answering:
  assumes "http_backend b" and "rURL q \<noteq> None"
  shows "answering (http_factory he b q)"
proof -
  obtain u where "rURL q = Some u" using assms(2) by blast
  with assms(1) show ?thesis
    by (rule http_factory_run [where he = he]) (auto simp: answering_def wf_fields_map simp del: wf_json.simps(2))
qed

lemma http_complete:
  assumes "http_backend b" and "rURL q \<noteq> None"
  shows "ok_of (part_of (http_factory he b q)) = Some d \<and> IsComplete d \<longleftrightarrow> http_parsed he b q d"
proof -
  obtain u where "rURL q = Some u" using assms(2) by blast
  with assms(1) show ?thesis
    by (rule http_factory_run [where he = he]) (auto simp: part_of_def ok_of_def)
qed

subsection \<open>The answer of the gateway\<close>

lemma merged_map_empty: "merged_map rs = Map.empty \<longleftrightarrow> (\<forall>d \<in> set rs. entries (Data d) = [])"
  by (induction rs rule: rev_induct) auto

text \<open>
  The merge of several parts is complete when every part is, and has data that are not nil.
\<close>

definition whole :: "response \<Rightarrow> bool" where
  "whole d \<longleftrightarrow> IsComplete d \<and> Data d \<noteq> None"

lemma set_oks: "d \<in> set (oks ocs) \<longleftrightarrow> (\<exists>oc \<in> set ocs. ok_of oc = Some d)"
  by (force simp: oks_def List.map_filter_def)

lemma no_errs: "errs ocs = [] \<longleftrightarrow> (\<forall>oc \<in> set ocs. ok_of oc \<noteq> None)"
proof (induction ocs rule: rev_induct)
  case (snoc oc ocs)
  then show ?case using ok_or_err [of oc] by auto
qed simp

lemma no_errs_length: "errs ocs = [] \<Longrightarrow> length (oks ocs) = length ocs"
proof (induction ocs rule: rev_induct)
  case (snoc oc ocs)
  then show ?case using ok_or_err [of oc] by auto
qed simp

lemma all_answered:
  assumes "1 < length ocs"
  shows "errs ocs = [] \<and> all_complete (oks ocs) \<longleftrightarrow> (\<forall>oc \<in> set ocs. \<exists>d. ok_of oc = Some d \<and> whole d)"
proof (cases "errs ocs = []")
  case True
  then have "1 < length (oks ocs)" using assms no_errs_length by simp
  then have "all_complete (oks ocs) \<longleftrightarrow> (\<forall>d \<in> set (oks ocs). whole d)" by (simp add: all_complete_def whole_def)
  also have "\<dots> \<longleftrightarrow> (\<forall>oc \<in> set ocs. \<exists>d. ok_of oc = Some d \<and> whole d)"
    using True unfolding no_errs by (force simp: set_oks)
  finally show ?thesis using True by blast
next
  case False
  then show ?thesis unfolding no_errs by fastforce
qed

lemma merges_complete:
  assumes "merges resp ocs" and "1 < length ocs"
  shows "(\<exists>x. resp = Some x \<and> entries (Data x) \<noteq> [] \<and> IsComplete x) \<longleftrightarrow>
    (\<forall>oc \<in> set ocs. \<exists>d. ok_of oc = Some d \<and> whole d) \<and> (\<exists>oc \<in> set ocs. \<exists>d. ok_of oc = Some d \<and> entries (Data d) \<noteq> [])"
proof -
  have some: "(\<exists>d \<in> set (oks ocs). entries (Data d) \<noteq> []) \<longleftrightarrow> (\<exists>oc \<in> set ocs. \<exists>d. ok_of oc = Some d \<and> entries (Data d) \<noteq> [])"
    using set_oks by blast
  show ?thesis
  proof (cases resp)
    case None
    then have "oks ocs = []" using assms(1) by (simp add: merges_def)
    then show ?thesis using None some by simp
  next
    case (Some x)
    then have x: "map_of (entries (Data x)) = merged_map (oks ocs)" "IsComplete x \<longleftrightarrow> errs ocs = [] \<and> all_complete (oks ocs)"
      using assms(1) by (simp_all add: merges_def)
    have "entries (Data x) \<noteq> [] \<longleftrightarrow> (\<exists>d \<in> set (oks ocs). entries (Data d) \<noteq> [])"
      using x(1) merged_map_empty [of "oks ocs"] map_of_eq_empty_iff [of "entries (Data x)"] by auto
    then show ?thesis unfolding some [symmetric] all_answered [OF assms(2), symmetric] Some x(2) [symmetric] by blast
  qed
qed

text \<open>All the backends of an endpoint deliver data that are not nil, and one of them data that are not empty.\<close>

definition all_deliver :: "json_parser \<Rightarrow> 't http_env \<Rightarrow> Backend list \<Rightarrow> (Backend \<Rightarrow> request) \<Rightarrow> bool" where
  "all_deliver jdec he bs q \<longleftrightarrow>
     (\<forall>b \<in> set bs. \<exists>d. http_delivers jdec he b (q b) d \<and> Data d \<noteq> None) \<and>
     (\<exists>b \<in> set bs. \<exists>d. http_delivers jdec he b (q b) d \<and> entries (Data d) \<noteq> [])"

definition all_parsed :: "'t http_env \<Rightarrow> Backend list \<Rightarrow> (Backend \<Rightarrow> request) \<Rightarrow> bool" where
  "all_parsed he bs q \<longleftrightarrow>
     (\<forall>b \<in> set bs. \<exists>d. http_parsed he b (q b) d \<and> Data d \<noteq> None) \<and>
     (\<exists>b \<in> set bs. \<exists>d. http_parsed he b (q b) d \<and> entries (Data d) \<noteq> [])"

lemma merges_deliver:
  assumes "merges resp ocs" and "mset ocs = mset (map (\<lambda>b. part_of (http_factory he b (q b))) bs)" and "1 < length bs"
    and "\<forall>b \<in> set bs. http_backend b \<and> rURL (q b) \<noteq> None"
  shows "(\<exists>x. resp = Some x \<and> entries (Data x) \<noteq> [] \<and> IsComplete x) \<longleftrightarrow> all_parsed he bs q"
proof -
  let ?f = "\<lambda>b. part_of (http_factory he b (q b))"
  have ocs: "set ocs = ?f ` set bs" using mset_eq_setD [OF assms(2)] by simp
  have len: "1 < length ocs" using mset_eq_length [OF assms(2)] assms(3) by simp
  have each: "ok_of (?f b) = Some d \<and> IsComplete d \<longleftrightarrow> http_parsed he b (q b) d" if "b \<in> set bs" for b d
    using http_complete assms(4) that by blast
  have "(\<forall>b \<in> set bs. \<exists>d. ok_of (?f b) = Some d \<and> whole d) \<longleftrightarrow> (\<forall>b \<in> set bs. \<exists>d. http_parsed he b (q b) d \<and> Data d \<noteq> None)"
    using each by (simp add: whole_def) blast
  moreover have "(\<exists>d. ok_of (?f b) = Some d \<and> entries (Data d) \<noteq> []) \<longleftrightarrow> (\<exists>d. http_parsed he b (q b) d \<and> entries (Data d) \<noteq> [])"
    if b: "b \<in> set bs" and d: "\<exists>d. ok_of (?f b) = Some d \<and> whole d" for b
  proof -
    obtain d where ok: "ok_of (?f b) = Some d" "IsComplete d" using d by (auto simp: whole_def)
    then have "http_parsed he b (q b) d' \<longleftrightarrow> d' = d" for d' using each [OF b, of d'] by auto
    then show ?thesis using ok(1) by simp
  qed
  ultimately show ?thesis
    unfolding merges_complete [OF assms(1) len] ocs all_parsed_def by (simp only: bex_simps ball_simps) blast
qed

text \<open>The decoder of a backend comes from the register.\<close>

lemma valid_decoder:
  assumes "valid_service env s" and "c \<in> set (sc_Endpoints s)" and "b \<in> set (ep_Backend c)"
    and "env_decoders env = initDecoderRegister (env_json env)" and "\<forall>t v. env_json env t = Inr v \<longrightarrow> wf_json v"
  shows "be_Decoder b = DecoderRegister_Get (env_json env) (initDecoderRegister (env_json env)) (to_lower (be_Encoding b)) (be_IsCollection b)"
    and "\<forall>bytes d. be_Decoder b bytes None = Inr d \<longrightarrow> wf_fields (entries d)"
proof -
  have "be_Decoder b = backend_decoder env (be_Encoding b) (be_IsCollection b)"
    using assms(1-3) by (simp add: valid_service_def valid_endpoint_def valid_backend_def list_all_iff)
  then show "be_Decoder b = DecoderRegister_Get (env_json env) (initDecoderRegister (env_json env)) (to_lower (be_Encoding b)) (be_IsCollection b)"
    by (simp add: backend_decoder_def assms(4))
  then show "\<forall>bytes d. be_Decoder b bytes None = Inr d \<longrightarrow> wf_fields (entries d)" using default_decoder_maps [OF assms(5)] by simp
qed

lemma client_call_url: "client_call c b r req u q \<Longrightarrow> rURL q \<noteq> None"
  by (auto simp: client_call_def)

text \<open>
  C5: the completeness header end to end, with the interceptor of the engines and without it: an endpoint whose backends are called
  at the same time over HTTP tells the client that the answer is complete exactly when every backend, called with what the lists
  let through of the client's request, answered with the status 200 or 201 and a body that stands for data in its encoding, read to the end without
  error; formatted, all these data are not nil and some of them are not empty.  Only with the interceptor is such an answer called incomplete when it cannot
  be rendered and has the status 500, which it never has when all values can be marshalled.  In every
  other case the header is false, whatever the backends send.
\<close>

theorem gateway_completed:
  assumes parsed: "Parse penv f = Ret (Inr s)"
    and run: "route_engine handle lookup" "adapter_Run handle (defaultFactory_New fenv)
        (CustomEndpointHandler marshal (initRenderRegister marshal) shp don extract) mc debugH echoH s e0 = Ret e"
    and route: "sc_Endpoints s = cs @ c # ds" "to_upper (ep_Method c) \<in> set router_methods"
        "endpoint_key c \<notin> endpoint_key ` set ds"
    and merged: "merged_endpoint fenv c" "\<forall>b \<in> set (ep_Backend c). filtered_backend b"
        "me_mergers (fe_merge fenv) = mergers seq (parallelMerge ctxErr order (\<lambda>_. False))" "\<And>n. mset (order n) = mset [0..<n]"
    and http: "fe_backendFactory fenv = http_factory he" "\<forall>b \<in> set (ep_Backend c). plain_backend b"
        "env_decoders (pe_cfg penv) = initDecoderRegister (env_json (pe_cfg penv))"
        "\<forall>t v. env_json (pe_cfg penv) t = Inr v \<longrightarrow> wf_json v"
    and lists: "requestParamsAsterisk \<notin> set (endpoint_headers c)" "requestParamsAsterisk \<notin> set (ep_QueryString c)"
    and client: "hiMethod r = to_upper (ep_Method c)" "wf_map (extract r)"
        "req = NewRequestBuilder shp extract r (ep_QueryString c) (endpoint_headers c)"
    and body: "hiBody r = None \<or> hasUnsafeBackends c \<or> forceDeepClone c"
    and host: "\<forall>b \<in> set (ep_Backend c). fe_host fenv b = Ret (Inr (h b)) \<and>
        fe_parse_url fenv (h b @ rPath (GeneratePath (be_URLPattern b) req)) = Inr (u b)"
  shows "\<exists>g q. lookup e (ep_Endpoint c, hiMethod r) = Some g \<and>
    (\<forall>b \<in> set (ep_Backend c). client_call c b r req (u b) (q b)) \<and>
    (\<forall>intercept. \<exists>w. g r (new_writer intercept) = Ret w \<and> fst (sent w) \<in> {200, 500} \<and>
       completed w = (if all_deliver (env_json (pe_cfg penv)) he (ep_Backend c) q \<and> (intercept \<longrightarrow> fst (sent w) = 200)
         then HeaderCompleteResponseValue else HeaderIncompleteResponseValue) \<and>
       (all_deliver (env_json (pe_cfg penv)) he (ep_Backend c) q \<and> marshals marshal \<longrightarrow> fst (sent w) = 200))"
proof -
  let ?jdec = "env_json (pe_cfg penv)"
  have valid: "valid_service (pe_cfg penv) s" by (rule parsed_valid [OF parsed])
  have c: "c \<in> set (sc_Endpoints s)" by (simp add: route(1))
  have backends: "\<forall>b \<in> set (ep_Backend c). http_backend b"
    using http(2) valid_decoder(2) [OF valid c _ http(3,4)] by (simp add: http_backend_def plain_backend_def del: wf_json.simps(2))
  then have calm: "\<forall>b \<in> set (ep_Backend c). \<forall>q. rURL q \<noteq> None \<longrightarrow> answering (fe_backendFactory fenv b q)"
    unfolding http(1) using http_answering by blast
  obtain p q ocs resp where p: "defaultFactory_New fenv c = Made (Some p) None" "p req = PRet resp (newMergeError (errs ocs)) req"
    and calls: "\<forall>b \<in> set (ep_Backend c). client_call c b r req (u b) (q b)"
    and ocs: "mset ocs = mset (map (\<lambda>b. part_of (fe_backendFactory fenv b (q b))) (ep_Backend c))" "merges resp ocs"
    by (rule merged_call [OF valid c merged lists client(2,3) host calm])
  have "\<forall>b \<in> set (ep_Backend c). http_backend b \<and> rURL (q b) \<noteq> None"
    using backends calls client_call_url by blast
  with merges_deliver [OF ocs(2) ocs(1) [unfolded http(1)]] merged(1)
  have "complete_data resp \<longleftrightarrow> all_parsed he (ep_Backend c) q"
    by (simp add: merged_endpoint_def complete_data_def)
  then have told: "complete_data resp \<longleftrightarrow> all_deliver ?jdec he (ep_Backend c) q"
    unfolding all_deliver_def all_parsed_def by (simp add: http_delivers_parsed [OF valid_decoder(1) [OF valid c _ http(3,4)] http(4)])
  let ?g = "CustomEndpointHandler marshal (initRenderRegister marshal) shp don extract c p"
  have "lookup e (endpoint_key c) = Some ?g" by (rule run_reaches [OF run route(1) p(1) route(2,3)])
  moreover have "\<exists>w. ?g r (new_writer i) = Ret w \<and> fst (sent w) \<in> {200, 500} \<and>
      completed w = (if all_deliver ?jdec he (ep_Backend c) q \<and> (i \<longrightarrow> fst (sent w) = 200)
        then HeaderCompleteResponseValue else HeaderIncompleteResponseValue) \<and>
      (all_deliver ?jdec he (ep_Backend c) q \<and> marshals marshal \<longrightarrow> fst (sent w) = 200)" for i
  proof -
    have several: "1 < length (ep_Backend c)" using merged(1) by (simp add: merged_endpoint_def)
    then have "ep_OutputEncoding c \<noteq> NOOP" using valid c by (auto simp: valid_service_def valid_endpoint_def list_all_iff)
    then have render: "render_name c \<noteq> NOOP" using several by (intro merged_render) simp_all
    let ?w0 = "Header_Set KrakendHeaderName KrakendHeaderValue (new_writer i)"
    have "answers (respond DefaultToHTTPError (getRender marshal (initRenderRegister marshal) c) c resp
        (ctx_error don (newMergeError (errs ocs))) ?w0)"
      by (rule answers_respond [OF render]) (auto simp: ctx_error_def)
    then obtain w where w: "respond DefaultToHTTPError (getRender marshal (initRenderRegister marshal) c) c resp
        (ctx_error don (newMergeError (errs ocs))) ?w0 = Ret w" "fst (sent w) \<in> {200, 500}"
      unfolding answers_def by blast
    have "?g r (new_writer i) = answered marshal (initRenderRegister marshal) don c (PRet resp (newMergeError (errs ocs)) req) (new_writer i)"
      by (rule handler_answers) (use client p(2) in simp_all)
    moreover have "wIntercept ?w0 = i" by (simp add: new_writer_def)
    ultimately show ?thesis using w respond_completed [OF w(1) render] unfolding told by simp
  qed
  ultimately show ?thesis using calls client(1)
    by (intro exI [of _ ?g] exI [of _ q]) (simp add: endpoint_key_def)
qed

subsection \<open>A sample\<close>

definition http_sample :: "unit http_env" where
  "http_sample = \<lparr>heLib = sample_lib, heGunzip = Inr, heValid = (\<lambda>_ _. None), heUrlText = uBase, heCtxErr = None,
     heClient = sample_http 200\<rparr>"

definition http_fenv :: "unit factory_env" where
  "http_fenv = merged_fenv\<lparr>fe_backendFactory := http_factory http_sample\<rparr>"

text \<open>The JSON parser of the sample makes an object of any text.\<close>

definition http_parser :: parser_env where
  "http_parser = merged_parser\<lparr>pe_cfg := default_env (map up_char) (\<lambda>a. True) (\<lambda>v. ''key'') (\<lambda>s. Inr (JObj [(''id'', JStr (fst s))]))\<rparr>"

fun has_entries :: "(gerror + response) run \<Rightarrow> bool" where
  "has_entries (Ret (Inr d)) = (entries (Data d) \<noteq> [])"
| "has_entries _ = False"

fun http_ready :: "(checked + ServiceConfig) run \<Rightarrow> bool" where
  "http_ready (Ret (Inr s)) = list_all (\<lambda>c. list_all (\<lambda>b. plain_backend b \<and>
     has_entries (case heClient http_sample (requestToBackend False [] sample_call) of
       Inr resp \<Rightarrow> parsed_body http_sample b resp | Inl err \<Rightarrow> Ret (Inl err))) (ep_Backend c)) (sc_Endpoints s)"
| "http_ready _ = False"

lemma http_sample_ready: "merged_ready (Parse http_parser ''k.json'')" "http_ready (Parse http_parser ''k.json'')"
  by code_simp+

lemma http_sample_delivers:
  assumes "http_ready (Ret (Inr s))" and "sc_Endpoints s = [c]" and "b \<in> set (ep_Backend c)" and "valid_service (pe_cfg http_parser) s"
  shows "plain_backend b \<and>
    (\<forall>q. rURL q \<noteq> None \<longrightarrow> (\<exists>d. http_delivers (env_json (pe_cfg http_parser)) http_sample b q d \<and> entries (Data d) \<noteq> []))"
proof -
  let ?resp = "\<lparr>hrStatusCode = 200, hrHeader = [(''Content-Type'', [''text/plain''])], hrBody = ''oops'', hrBroken = None, hrURL = None\<rparr>"
  have client: "heClient http_sample hq = Inr ?resp" for hq by (simp add: http_sample_def sample_http_def)
  have "plain_backend b" and some: "has_entries (parsed_body http_sample b ?resp)"
    using assms by (simp_all add: client list_all_iff del: has_entries.simps)
  then obtain d where "parsed_body http_sample b ?resp = Ret (Inr d)" "entries (Data d) \<noteq> []"
    by (cases "parsed_body http_sample b ?resp" rule: has_entries.cases) auto
  moreover have "heValid http_sample m u = None" "heCtxErr http_sample = None" for m u by (simp_all add: http_sample_def)
  ultimately have "\<exists>d. http_parsed http_sample b q d \<and> entries (Data d) \<noteq> []" if "rURL q \<noteq> None" for q
    using client that by (auto simp: http_parsed_def)
  moreover have "http_parsed http_sample b q d \<longleftrightarrow> http_delivers (env_json (pe_cfg http_parser)) http_sample b q d" for q d
    by (rule http_delivers_parsed [symmetric], rule valid_decoder(1) [OF assms(4)])
      (use assms(2,3) in \<open>auto simp: http_parser_def default_env_def\<close>)
  ultimately show ?thesis using \<open>plain_backend b\<close> by simp
qed

lemma gateway_completed_witness:
  "\<exists>s e g w. Parse http_parser ''k.json'' = Ret (Inr s) \<and>
     adapter_Run (\<lambda>p m h e. Ret (engine_Handle e p m h)) (defaultFactory_New http_fenv)
       (CustomEndpointHandler (\<lambda>v. Inr ''js'') (initRenderRegister (\<lambda>v. Inr ''js'')) (\<lambda>_. None) False NoopParamExtractor)
       mux_DefaultFactory HealthHandler HealthHandler s DefaultEngine = Ret e \<and>
     engine_lookup e (''/users'', ''GET'') = Some g \<and>
     g gateway_client (new_writer True) = Ret w \<and> completed w = ''true''"
proof -
  let ?handle = "\<lambda>p m h e. Ret (engine_Handle e p m h)"
  let ?hf = "CustomEndpointHandler (\<lambda>v. Inr ''js'') (initRenderRegister (\<lambda>v. Inr ''js'')) (\<lambda>_. None) False NoopParamExtractor"
  let ?u = "\<lambda>b. \<lparr>uBase = ''http://h'' @ be_URLPattern b, uRawQuery = []\<rparr>"
  obtain s c b1 b2 where s: "Parse http_parser ''k.json'' = Ret (Inr s)" "\<not> sc_Debug s" "\<not> sc_Echo s" "sc_Endpoints s = [c]"
    and c: "ep_Backend c = [b1, b2]" "merged_endpoint merged_fenv c" "ep_Endpoint c = ''/users''" "to_upper (ep_Method c) = ''GET''"
      "ep_QueryString c = [''q'']" "ep_HeadersToPass c = [''X-Token'']"
    and b: "filtered_backend b1" "filtered_backend b2"
    by (rule merged_parsed [OF http_sample_ready(1)]) blast
  have merged: "merged_endpoint http_fenv c" using c(2) by (simp add: http_fenv_def merged_endpoint_def)
  have fb: "\<forall>b \<in> set (ep_Backend c). filtered_backend b" by (simp add: c(1) b)
  have "ep_ConcurrentCalls c \<le> 1" using c(2) by (simp add: merged_endpoint_def bare_endpoint_def)
  then have conc: "\<forall>b \<in> set (ep_Backend c). filtered_backend b \<and> be_ConcurrentCalls b \<le> 1"
    using fb valid_concurrency [OF parsed_valid [OF s(1)]] s(4) by simp
  have mg: "me_mergers (fe_merge http_fenv) =
      mergers (\<lambda>repls cl t rc fs ps r. PRet None None r) (parallelMerge (ECtx []) (\<lambda>n. rev [0..<n]) (\<lambda>_. False))"
    by (simp add: http_fenv_def merged_fenv_def)
  obtain e where e: "adapter_Run ?handle (defaultFactory_New http_fenv) ?hf mux_DefaultFactory HealthHandler HealthHandler s DefaultEngine = Ret e"
    using merged_built [OF merged conc mg] run_built [OF s(4) _ s(2,3)] by blast
  have route: "sc_Endpoints s = [] @ c # []" using s by simp
  have m: "to_upper (ep_Method c) \<in> set router_methods" by (simp add: c router_methods_def)
  have eh: "endpoint_headers c = [''X-Token'']" by (simp add: endpoint_headers_def c)
  have path: "rPath (GeneratePath p (NewRequestBuilder (\<lambda>_. None) NoopParamExtractor gateway_client qs hs)) = p" for p qs hs
    by (simp add: GeneratePath_def NewRequestBuilder_def NoopParamExtractor_def request_from_def)
  have nobody: "hiBody gateway_client = None" and get: "hiMethod gateway_client = ''GET''" by (simp_all add: gateway_client_def)
  note delivers = http_sample_delivers [OF http_sample_ready(2) [unfolded s(1)] s(4) _ parsed_valid [OF s(1)]]
  have "\<exists>g q. engine_lookup e (ep_Endpoint c, hiMethod gateway_client) = Some g \<and>
    (\<forall>b \<in> set (ep_Backend c). client_call c b gateway_client
       (NewRequestBuilder (\<lambda>_. None) NoopParamExtractor gateway_client (ep_QueryString c) (endpoint_headers c)) (?u b) (q b)) \<and>
    (\<forall>i. \<exists>w. g gateway_client (new_writer i) = Ret w \<and> fst (sent w) \<in> {200, 500} \<and>
       completed w = (if all_deliver (env_json (pe_cfg http_parser)) http_sample (ep_Backend c) q \<and> (i \<longrightarrow> fst (sent w) = 200)
         then HeaderCompleteResponseValue else HeaderIncompleteResponseValue) \<and>
       (all_deliver (env_json (pe_cfg http_parser)) http_sample (ep_Backend c) q \<and> marshals (\<lambda>v. Inr ''js'') \<longrightarrow> fst (sent w) = 200))"
    by (rule gateway_completed [OF s(1) basic_engine.route_engine_axioms e route m _ merged fb mg, where h = "\<lambda>_. ''http://h''"])
      (simp_all add: requestParamsAsterisk_def eh c path delivers http_fenv_def merged_fenv_def sample_fenv_def NoopParamExtractor_def
        http_parser_def default_env_def nobody get c(4))
  then obtain g q w where g: "engine_lookup e (''/users'', ''GET'') = Some g"
    and calls: "\<forall>b \<in> set (ep_Backend c). rURL (q b) \<noteq> None"
    and w: "g gateway_client (new_writer True) = Ret w" "completed w = (if all_deliver (env_json (pe_cfg http_parser)) http_sample (ep_Backend c) q \<and>
        (True \<longrightarrow> fst (sent w) = 200) then HeaderCompleteResponseValue else HeaderIncompleteResponseValue)"
      "all_deliver (env_json (pe_cfg http_parser)) http_sample (ep_Backend c) q \<and> marshals (\<lambda>v. Inr ''js'') \<longrightarrow> fst (sent w) = 200"
    unfolding c(3) get using client_call_url by blast
  have "\<forall>b \<in> set (ep_Backend c). \<exists>d. http_delivers (env_json (pe_cfg http_parser)) http_sample b (q b) d \<and> entries (Data d) \<noteq> []"
    using delivers calls by blast
  moreover have "entries x \<noteq> [] \<Longrightarrow> x \<noteq> None" for x :: "fields option" by (cases x) simp_all
  ultimately have "all_deliver (env_json (pe_cfg http_parser)) http_sample (ep_Backend c) q" unfolding all_deliver_def c(1) by fastforce
  then show ?thesis using s(1) e g w by (auto simp: HeaderCompleteResponseValue_def marshals_def)
qed

end
