(* ===== verification/Sequential_Chain.thy ===== *)
theory Sequential_Chain
  imports Sequential_Merge
begin

section \<open>The calls of the sequential merger\<close>

text \<open>
  The loop of \<open>Sequential_Merge\<close> seen from the backends: which of them are called, with what parameters, and
  what the merger makes of their answers.  The specification \<open>chain\<close> knows neither the store nor
  the registry of propagated values.
\<close>

subsection \<open>Specification\<close>

type_synonym params = "(string, string) gomap"

text \<open>
  A chain of calls: each is made with parameters that \<open>passed\<close> allows after the answer \<open>prev\<close>, has an outcome that
  \<open>called\<close> allows, and is the last one unless its answer is complete.
\<close>

fun chain :: "(nat \<Rightarrow> response option \<Rightarrow> params \<Rightarrow> bool) \<Rightarrow> ('b \<Rightarrow> params \<Rightarrow> outcome \<Rightarrow> bool) \<Rightarrow> nat \<Rightarrow> response option \<Rightarrow>
    'b list \<Rightarrow> (params \<times> outcome) list \<Rightarrow> bool" where
  "chain passed called i prev [] calls = (calls = [])"
| "chain passed called i prev (b # bs) [] = False"
| "chain passed called i prev (b # bs) ((ps, oc) # calls) =
     (passed i prev ps \<and> called b ps oc \<and>
      (if complete_part oc then chain passed called (Suc i) (fst oc) bs calls else calls = []))"

text \<open>
  What a backend is given: the client's parameters, but for those that some backend's replacements name; the first backend
  has exactly them, and each later one the values it asks for of the answer just before it.
\<close>

definition seq_passed ::
  "(json \<Rightarrow> string) \<Rightarrow> (nat \<Rightarrow> string) \<Rightarrow> sequentialBackendReplacement list list \<Rightarrow> params \<Rightarrow>
    nat \<Rightarrow> response option \<Rightarrow> params \<Rightarrow> bool" where
  "seq_passed show_v show_f repls ps0 i prev ps \<longleftrightarrow>
     (i = 0 \<longrightarrow> ps = ps0) \<and>
     (\<forall>k. k \<notin> sr_destination ` set (concat repls) \<longrightarrow> map_of ps k = map_of ps0 k) \<and>
     (\<forall>r d v. 0 < i \<longrightarrow> i < length repls \<longrightarrow> r \<in> set (repls ! i) \<longrightarrow> Suc (sr_backendIndex r) = i \<longrightarrow> \<not> sr_fullResponse r \<longrightarrow>
        prev = Some d \<longrightarrow> at_path (entries (Data d)) (sr_source r) = Some v \<longrightarrow>
        map_of ps (sr_destination r) = Some (param_text show_v show_f v))"

lemma chain_map: "chain passed called i prev (map f bs) calls = chain passed (\<lambda>b. called (f b)) i prev bs calls"
proof (induction bs arbitrary: i prev calls)
  case (Cons b bs)
  then show ?case by (cases calls) auto
qed simp

lemma chain_weaken:
  "chain passed called i prev bs calls \<Longrightarrow> (\<And>b ps oc. b \<in> set bs \<Longrightarrow> called b ps oc \<Longrightarrow> called' b ps oc) \<Longrightarrow>
   chain passed called' i prev bs calls"
  by (induction passed called i prev bs calls rule: chain.induct) (auto split: if_splits)

lemma chain_outcomes:
  "chain passed called i prev bs calls \<Longrightarrow>
   length calls \<le> length bs \<and> (bs \<noteq> [] \<longrightarrow> calls \<noteq> []) \<and>
   (\<forall>oc \<in> set (butlast (map snd calls)). complete_part oc) \<and>
   (length calls < length bs \<longrightarrow> \<not> complete_part (snd (last calls)))"
proof (induction passed called i prev bs calls rule: chain.induct)
  case (3 passed called i prev b bs ps oc calls)
  show ?case
  proof (cases "complete_part oc \<and> bs \<noteq> []")
    case True
    then show ?thesis using 3 by auto
  next
    case False
    then have "calls = []" using 3(2) by (cases bs) (auto split: if_splits)
    then show ?thesis using False by auto
  qed
qed simp_all

lemma chain_called:
  "chain passed called i prev bs calls \<Longrightarrow> (ps, oc) \<in> set calls \<Longrightarrow> \<exists>b \<in> set bs. called b ps oc"
  by (induction passed called i prev bs calls rule: chain.induct) (auto split: if_splits)

subsection \<open>Replacements\<close>

text \<open>A destination determines what is written to it.\<close>

definition coherent :: "sequentialBackendReplacement set \<Rightarrow> bool" where
  "coherent rs \<longleftrightarrow> (\<forall>r \<in> rs. sr_source r \<noteq> [] \<and> (\<forall>r' \<in> rs. sr_destination r = sr_destination r' \<longrightarrow> r = r'))"

definition wants :: "seq_env \<Rightarrow> nat \<Rightarrow> seq_state \<Rightarrow> sequentialBackendReplacement \<Rightarrow> string \<Rightarrow> bool" where
  "wants env i st r text \<longleftrightarrow> Suc (sr_backendIndex r) = i \<and> \<not> sr_fullResponse r \<and>
     (\<exists>part v. sqParts st (sr_backendIndex r) = Some part \<and> at_path (part_fields st part) (sr_source r) = Some v \<and>
        text = param_text (seShow env) (seFloat env) v)"

text \<open>What the registry holds when the backend \<open>i\<close> is about to be called.\<close>

definition recalls :: "sequentialBackendReplacement set \<Rightarrow> seq_env \<Rightarrow> nat \<Rightarrow> seq_state \<Rightarrow> bool" where
  "recalls rs env i st \<longleftrightarrow> (\<forall>d v. map_of (sqRegistry st) d = Some v \<longrightarrow>
     (\<exists>r \<in> rs. sr_destination r = d \<and> sr_backendIndex r < i \<and> (\<forall>text. wants env i st r text \<longrightarrow> v = text)))"

lemma wants_same: "same_merge st st' \<Longrightarrow> wants env i st' r text = wants env i st r text"
  by (simp add: wants_def same_merge_def part_fields_def cong: option.case_cong)

lemma apply_replacement_cases:
  assumes ps: "rParams (sqRequest st) = Some ps" and r: "r \<in> rs" "coherent rs" and reg: "recalls rs env i st"
  shows "\<exists>st'. apply_replacement env i r st = Ret st' \<and>
    (sqRequest st' = sqRequest st \<and> sqRegistry st' = sqRegistry st \<and> (\<forall>text. \<not> wants env i st r text) \<or>
     (\<exists>text. sqRequest st' = (sqRequest st)\<lparr>rParams := Some (go_put (sr_destination r) text ps)\<rparr> \<and>
        (\<forall>t. wants env i st r t \<longrightarrow> t = text) \<and> sr_backendIndex r < i \<and>
        (sqRegistry st' = sqRegistry st \<or> sqRegistry st' = go_put (sr_destination r) text (sqRegistry st))))"
proof (cases "sqParts st (sr_backendIndex r)")
  case None
  then show ?thesis by (simp add: apply_replacement_def wants_def)
next
  case (Some part)
  let ?found = "case map_of (sqRegistry st) (sr_destination r) of None \<Rightarrow> [] | Some f \<Rightarrow> f"
  consider "i \<le> sr_backendIndex r" | "sr_backendIndex r < i" "?found \<noteq> []"
    | "sr_backendIndex r < i" "?found = []" "sr_fullResponse r"
    | "sr_backendIndex r < i" "?found = []" "\<not> sr_fullResponse r" by linarith
  then show ?thesis
  proof cases
    case 1
    then show ?thesis by (simp add: apply_replacement_def wants_def)
  next
    case 2
    then have f: "map_of (sqRegistry st) (sr_destination r) = Some ?found" by (auto split: option.splits)
    then have "\<forall>t. wants env i st r t \<longrightarrow> t = ?found"
      using reg r unfolding recalls_def coherent_def by blast
    then show ?thesis using 2 Some f ps by (auto simp: apply_replacement_def set_param_def Let_def)
  next
    case 3
    then show ?thesis using Some ps
      by (cases "pt_io part") (auto simp: apply_replacement_def set_param_def remember_def wants_def Let_def)
  next
    case 4
    have src: "sr_source r \<noteq> []" using r by (simp add: coherent_def)
    show ?thesis
    proof (cases "map_of (descend (part_fields st part) (butlast (sr_source r))) (last (sr_source r))")
      case None
      then have "\<not> wants env i st r t" for t using descend_at_path [OF _ src] Some by (auto simp: wants_def)
      then show ?thesis using 4 Some ps None by (simp add: apply_replacement_def Let_def)
    next
      case (Some v)
      have "t = param_text (seShow env) (seFloat env) v" if "wants env i st r t" for t
        using that descend_at_path [OF _ src] Some \<open>sqParts st _ = _\<close> by (auto simp: wants_def)
      then show ?thesis using 4 Some ps \<open>sqParts st _ = _\<close>
        by (auto simp: apply_replacement_def set_param_def remember_def Let_def)
    qed
  qed
qed

text \<open>All replacements of a backend: nothing but its parameters changes, and they have what it wants.\<close>

lemma apply_replacements_passed:
  assumes "rParams (sqRequest st) = Some ps" "wf_map ps" and "set qs \<subseteq> rs" "coherent rs" and "recalls rs env i st"
  shows "\<exists>st' ps'. apply_replacements env i qs st = Ret st' \<and> sqRequest st' = (sqRequest st)\<lparr>rParams := Some ps'\<rparr> \<and> wf_map ps' \<and>
    (\<forall>k. k \<notin> sr_destination ` set qs \<longrightarrow> map_of ps' k = map_of ps k) \<and> recalls rs env i st' \<and>
    (\<forall>r \<in> rs. \<forall>t. (r \<in> set qs \<or> map_of ps (sr_destination r) = Some t) \<longrightarrow> wants env i st r t \<longrightarrow> map_of ps' (sr_destination r) = Some t)"
  using assms
proof (induction qs arbitrary: st ps)
  case Nil
  then show ?case by (intro exI [of _ st] exI [of _ ps]) simp
next
  case (Cons q qs)
  have q: "q \<in> rs" using Cons.prems(3) by simp
  obtain st1 where st1: "apply_replacement env i q st = Ret st1"
    and how: "sqRequest st1 = sqRequest st \<and> sqRegistry st1 = sqRegistry st \<and> (\<forall>text. \<not> wants env i st q text) \<or>
     (\<exists>text. sqRequest st1 = (sqRequest st)\<lparr>rParams := Some (go_put (sr_destination q) text ps)\<rparr> \<and>
        (\<forall>t. wants env i st q t \<longrightarrow> t = text) \<and> sr_backendIndex q < i \<and>
        (sqRegistry st1 = sqRegistry st \<or> sqRegistry st1 = go_put (sr_destination q) text (sqRegistry st)))"
    using apply_replacement_cases [OF Cons.prems(1) q Cons.prems(4,5)] by blast
  note same = wants_same [OF apply_replacement_merge [OF st1], of env i]
  have one: "r = q" if "r \<in> rs" "sr_destination r = sr_destination q" for r
    using that q Cons.prems(4) by (auto simp: coherent_def)
  obtain ps1 where ps1: "sqRequest st1 = (sqRequest st)\<lparr>rParams := Some ps1\<rparr>" "wf_map ps1" "recalls rs env i st1"
    and keep: "\<forall>k. k \<noteq> sr_destination q \<longrightarrow> map_of ps1 k = map_of ps k"
    and got: "\<forall>t. wants env i st q t \<longrightarrow> map_of ps1 (sr_destination q) = Some t"
  proof (cases "sqRequest st1 = sqRequest st \<and> sqRegistry st1 = sqRegistry st \<and> (\<forall>text. \<not> wants env i st q text)")
    case True
    then have "recalls rs env i st1" using Cons.prems(5) by (simp add: recalls_def same)
    then show thesis using True Cons.prems(1,2) by (intro that [of ps]) simp_all
  next
    case False
    then obtain x where t: "sqRequest st1 = (sqRequest st)\<lparr>rParams := Some (go_put (sr_destination q) x ps)\<rparr>"
      "\<forall>t. wants env i st q t \<longrightarrow> t = x" "sr_backendIndex q < i"
      "sqRegistry st1 = sqRegistry st \<or> sqRegistry st1 = go_put (sr_destination q) x (sqRegistry st)" using how by blast
    from t(4) have "recalls rs env i st1" unfolding recalls_def same
      using Cons.prems(5) t(2,3) q by (fastforce simp: recalls_def go_map_simps split: if_splits)
    then show thesis using t(1,2) Cons.prems(2)
      by (intro that [of "go_put (sr_destination q) x ps"]) (auto simp: go_map_simps)
  qed
  obtain st' ps' where st': "apply_replacements env i qs st1 = Ret st'" "sqRequest st' = (sqRequest st1)\<lparr>rParams := Some ps'\<rparr>"
    "wf_map ps'" "\<forall>k. k \<notin> sr_destination ` set qs \<longrightarrow> map_of ps' k = map_of ps1 k" "recalls rs env i st'"
    and all: "\<forall>r \<in> rs. \<forall>t. (r \<in> set qs \<or> map_of ps1 (sr_destination r) = Some t) \<longrightarrow> wants env i st r t \<longrightarrow> map_of ps' (sr_destination r) = Some t"
    using Cons.IH [of st1 ps1] ps1 Cons.prems(3,4) by (auto simp: same)
  have "map_of ps' (sr_destination r) = Some t"
    if w: "r \<in> rs" "r \<in> set (q # qs) \<or> map_of ps (sr_destination r) = Some t" "wants env i st r t" for r t
  proof (cases "sr_destination r = sr_destination q")
    case True
    then show ?thesis using one [OF w(1)] w(3) got all q by blast
  next
    case False
    then show ?thesis using w keep all by auto
  qed
  then show ?case
    using st1 st' ps1(1) keep by (intro exI [of _ st'] exI [of _ ps']) auto
qed

subsection \<open>The loop\<close>

lemma merge_response_keeps:
  "sqRequest (merge_response n i r st) = sqRequest st" "sqRegistry (merge_response n i r st) = sqRegistry st"
  by (simp_all add: merge_response_def store_response_def combine_store_def Let_def split: option.split)

lemma merge_response_map:
  assumes "seq_fresh n i st" and "i < n"
  shows "sqMaps (merge_response n i r st) i = entries (Data r)"
proof -
  have "x \<noteq> i" if "sqAcc st = Some a" "sa_data a = Some x" for a x
    using assms that by (auto simp: seq_fresh_def)
  then show ?thesis using assms(2)
    by (auto simp: merge_response_def store_response_def combine_store_def acc_at_def Let_def split: option.split)
qed

text \<open>The state in which the loop comes to the backend \<open>i\<close>; \<open>prev\<close> is what the one before it answered.\<close>

record chain_setting =
  csEnv :: seq_env
  csRequest :: request
  csParams :: params

definition cs_replacements :: "chain_setting \<Rightarrow> sequentialBackendReplacement set" where
  "cs_replacements cs = set (concat (seReplacements (csEnv cs)))"

definition cs_wf :: "chain_setting \<Rightarrow> bool" where
  "cs_wf cs \<longleftrightarrow> seFilters (csEnv cs) = [] \<and> seLate (csEnv cs) = (\<lambda>_. False) \<and> coherent (cs_replacements cs) \<and>
     (\<forall>ps. wf_map ps \<longrightarrow> (let q = (csRequest cs)\<lparr>rParams := Some ps\<rparr> in seCloner (csEnv cs) q = (q, q)))"

definition seq_at :: "chain_setting \<Rightarrow> nat \<Rightarrow> response option \<Rightarrow> params \<Rightarrow> outcome list \<Rightarrow> seq_state \<Rightarrow> bool" where
  "seq_at cs i prev ps ocs st \<longleftrightarrow>
     merged_as (seTotal (csEnv cs)) 0 ocs st \<and> seq_fresh (seTotal (csEnv cs)) i st \<and>
     sqRequest st = (csRequest cs)\<lparr>rParams := Some ps\<rparr> \<and> wf_map ps \<and>
     (i = 0 \<longrightarrow> ps = csParams cs) \<and>
     (\<forall>k. k \<notin> sr_destination ` cs_replacements cs \<longrightarrow> map_of ps k = map_of (csParams cs) k) \<and>
     (0 < i \<longrightarrow> (\<exists>d part. prev = Some d \<and> sqParts st (i - 1) = Some part \<and> part_fields st part = entries (Data d))) \<and>
     (\<forall>k v. map_of (sqRegistry st) k = Some v \<longrightarrow> (\<exists>r \<in> cs_replacements cs. sr_destination r = k \<and> Suc (sr_backendIndex r) < i))"

lemma replacements_for_sub: "set (replacements_for env i) \<subseteq> set (concat (seReplacements env))"
  using nth_mem by (fastforce simp: replacements_for_def)

text \<open>The replacements give the backend what the specification says.\<close>

lemma seq_at_passed:
  assumes cs: "cs_wf cs" and st: "seq_at cs i prev ps ocs st"
  obtains st1 ps1 where "apply_replacements (csEnv cs) i (replacements_for (csEnv cs) i) st = Ret st1"
    and "sqRequest st1 = (csRequest cs)\<lparr>rParams := Some ps1\<rparr>" "wf_map ps1"
    and "seq_passed (seShow (csEnv cs)) (seFloat (csEnv cs)) (seReplacements (csEnv cs)) (csParams cs) i prev ps1"
    and "\<forall>k v. map_of (sqRegistry st1) k = Some v \<longrightarrow> (\<exists>r \<in> cs_replacements cs. sr_destination r = k \<and> sr_backendIndex r < i)"
    and "same_merge st st1"
proof -
  let ?env = "csEnv cs" and ?rs = "cs_replacements cs"
  note S = st [unfolded seq_at_def]
  have sub: "set (replacements_for ?env i) \<subseteq> ?rs" using replacements_for_sub by (simp add: cs_replacements_def)
  have coh: "coherent ?rs" using cs by (simp add: cs_wf_def)
  have rec: "recalls ?rs ?env i st"
    unfolding recalls_def
  proof (intro allI impI)
    fix d v assume "map_of (sqRegistry st) d = Some v"
    then obtain r where "r \<in> ?rs" "sr_destination r = d" "Suc (sr_backendIndex r) < i" using S by blast
    then show "\<exists>r \<in> ?rs. sr_destination r = d \<and> sr_backendIndex r < i \<and> (\<forall>t. wants ?env i st r t \<longrightarrow> v = t)"
      by (intro bexI [of _ r]) (simp_all add: wants_def)
  qed
  have "rParams (sqRequest st) = Some ps" "wf_map ps" using S by simp_all
  from apply_replacements_passed [OF this sub coh rec]
  obtain st1 ps1 where A: "apply_replacements ?env i (replacements_for ?env i) st = Ret st1"
    "sqRequest st1 = (sqRequest st)\<lparr>rParams := Some ps1\<rparr>" "wf_map ps1"
    "\<forall>k. k \<notin> sr_destination ` set (replacements_for ?env i) \<longrightarrow> map_of ps1 k = map_of ps k" "recalls ?rs ?env i st1"
    "\<forall>r \<in> ?rs. \<forall>t. (r \<in> set (replacements_for ?env i) \<or> map_of ps (sr_destination r) = Some t) \<longrightarrow> wants ?env i st r t \<longrightarrow>
       map_of ps1 (sr_destination r) = Some t" by blast
  note same = apply_replacements_merge [OF A(1)]
  have "map_of ps1 (sr_destination r) = Some (param_text (seShow ?env) (seFloat ?env) v)"
    if w: "0 < i" "i < length (seReplacements ?env)" "r \<in> set (seReplacements ?env ! i)" "Suc (sr_backendIndex r) = i" "\<not> sr_fullResponse r"
      "prev = Some d" "at_path (entries (Data d)) (sr_source r) = Some v" for r d v
  proof -
    obtain part where "sqParts st (i - 1) = Some part" "part_fields st part = entries (Data d)" using S w(1,6) by auto
    then have "wants ?env i st r (param_text (seShow ?env) (seFloat ?env) v)" using w by (auto simp: wants_def)
    moreover have "r \<in> set (replacements_for ?env i)" using w by (simp add: replacements_for_def)
    ultimately show ?thesis using A(6) sub by blast
  qed
  moreover have "i = 0 \<longrightarrow> ps1 = csParams cs"
  proof
    assume "i = 0"
    then have "st1 = st" "ps = csParams cs" using A(1) S by (simp_all add: replacements_for_def)
    moreover have "rParams (sqRequest st1) = Some ps1" by (simp add: A(2))
    moreover have "rParams (sqRequest st) = Some ps" using S by simp
    ultimately show "ps1 = csParams cs" by simp
  qed
  moreover have "\<forall>k. k \<notin> sr_destination ` ?rs \<longrightarrow> map_of ps1 k = map_of (csParams cs) k"
  proof (intro allI impI)
    fix k assume k: "k \<notin> sr_destination ` ?rs"
    then have "k \<notin> sr_destination ` set (replacements_for ?env i)" using sub by blast
    with k show "map_of ps1 k = map_of (csParams cs) k" using A(4) S by simp
  qed
  ultimately have "seq_passed (seShow ?env) (seFloat ?env) (seReplacements ?env) (csParams cs) i prev ps1"
    unfolding seq_passed_def cs_replacements_def by blast
  moreover have "\<forall>k v. map_of (sqRegistry st1) k = Some v \<longrightarrow> (\<exists>r \<in> ?rs. sr_destination r = k \<and> sr_backendIndex r < i)"
    using A(5) unfolding recalls_def by blast
  moreover have "sqRequest st1 = (csRequest cs)\<lparr>rParams := Some ps1\<rparr>" using A(2) S by simp
  ultimately show thesis using that [OF A(1) _ A(3)] same by blast
qed

text \<open>What the loop ends with, for the calls it made.\<close>

definition ends_with :: "nat \<Rightarrow> nat \<Rightarrow> outcome list \<Rightarrow> (params \<times> outcome) list \<Rightarrow> seq_end \<Rightarrow> bool" where
  "ends_with n i ocs calls e \<longleftrightarrow>
     (case e of
        SeqPanic p \<Rightarrow> False
      | SeqFailed err st \<Rightarrow> i = 0 \<and> snd (snd (hd calls)) = Some err
      | SeqDone st \<Rightarrow> merged_as n 0 (ocs @ map snd calls) st \<and> (i = 0 \<longrightarrow> calls \<noteq> [] \<longrightarrow> snd (snd (hd calls)) = None))"

definition cs_call :: "chain_setting \<Rightarrow> proxy \<Rightarrow> params \<Rightarrow> pres" where
  "cs_call cs p ps = p ((csRequest cs)\<lparr>rParams := Some ps\<rparr>)"

lemma seq_at_answered:
  fixes d :: response
  assumes st: "seq_at cs i prev ps ocs st" "same_merge st st1" "i < seTotal (csEnv cs)"
    and req: "sqRequest st1 = (csRequest cs)\<lparr>rParams := Some ps1\<rparr>" "wf_map ps1"
    and passed: "seq_passed s f (seReplacements (csEnv cs)) (csParams cs) i prev ps1"
    and reg: "\<forall>k v. map_of (sqRegistry st1) k = Some v \<longrightarrow> (\<exists>r \<in> cs_replacements cs. sr_destination r = k \<and> sr_backendIndex r < i)"
  defines "st2 \<equiv> merge_response (seTotal (csEnv cs)) i d st1"
  shows "seq_at cs (Suc i) (Some d) ps1 (ocs @ [(Some d, None)]) (st2\<lparr>sqParts := (sqParts st2)(i := Some (part_at i d))\<rparr>)"
    and "merged_as (seTotal (csEnv cs)) 0 (ocs @ [(Some d, None)]) st2"
proof -
  let ?n = "seTotal (csEnv cs)" and ?st = "st2\<lparr>sqParts := (sqParts st2)(i := Some (part_at i d))\<rparr>"
  have m: "merged_as ?n 0 ocs st1" "seq_fresh ?n i st1"
    using st(1) same_merge_abs [OF st(2)] by (simp_all add: seq_at_def merged_as_def)
  note mr = merge_response_abs [OF m(2) st(3), of d, folded st2_def]
  show mg: "merged_as ?n 0 (ocs @ [(Some d, None)]) st2" using merged_as_step [OF m(1)] mr by blast
  have abs: "seq_abs ?st = seq_abs st2" "seq_fresh ?n (Suc i) ?st = seq_fresh ?n (Suc i) st2"
    by (cases "sqAcc ?st"; simp add: seq_abs_defs seq_fresh_def)+
  have "part_fields ?st (part_at i d) = entries (Data d)"
    using merge_response_map [OF m(2) st(3), of d, folded st2_def] by (cases "Data d") (simp_all add: part_fields_def part_at_def)
  moreover have "sqRequest ?st = (csRequest cs)\<lparr>rParams := Some ps1\<rparr>" "sqRegistry ?st = sqRegistry st1"
    using req(1) by (simp_all add: st2_def merge_response_keeps)
  moreover have "\<forall>k. k \<notin> sr_destination ` cs_replacements cs \<longrightarrow> map_of ps1 k = map_of (csParams cs) k"
    using passed by (simp add: seq_passed_def cs_replacements_def)
  ultimately show "seq_at cs (Suc i) (Some d) ps1 (ocs @ [(Some d, None)]) ?st"
    using mg mr abs req(2) reg by (simp add: seq_at_def merged_as_def)
qed

lemma seq_loop_chain:
  assumes "cs_wf cs" and "seq_at cs i prev ps ocs st" and "i + length next = seTotal (csEnv cs)"
    and "\<forall>p \<in> set next. \<forall>ps. wf_map ps \<longrightarrow> first_panic [cs_call cs p ps] = None"
  shows "\<exists>calls. chain (seq_passed (seShow (csEnv cs)) (seFloat (csEnv cs)) (seReplacements (csEnv cs)) (csParams cs))
      (\<lambda>p ps oc. oc = part_of (cs_call cs p ps)) i prev next calls \<and>
    ends_with (seTotal (csEnv cs)) i ocs calls (seq_loop (csEnv cs) i next st)"
  using assms
proof (induction "next" arbitrary: i prev ps ocs st)
  case Nil
  then show ?case by (intro exI [of _ "[]"]) (simp add: ends_with_def seq_at_def)
next
  case (Cons p ps')
  let ?env = "csEnv cs" and ?n = "seTotal (csEnv cs)"
  obtain st1 ps1 where r: "apply_replacements ?env i (replacements_for ?env i) st = Ret st1"
    and req: "sqRequest st1 = (csRequest cs)\<lparr>rParams := Some ps1\<rparr>" "wf_map ps1"
    and pass: "seq_passed (seShow ?env) (seFloat ?env) (seReplacements ?env) (csParams cs) i prev ps1"
    and reg: "\<forall>k v. map_of (sqRegistry st1) k = Some v \<longrightarrow> (\<exists>r \<in> cs_replacements cs. sr_destination r = k \<and> sr_backendIndex r < i)"
    and same: "same_merge st st1"
    by (rule seq_at_passed [OF Cons.prems(1,2)])
  have i: "i < ?n" using Cons.prems(3) by simp
  have sel: "selected (seFilters ?env) i (sqRequest st1)" using Cons.prems(1) by (simp add: cs_wf_def selected_def)
  have copy: "seCloner ?env (sqRequest st1) = (sqRequest st1, sqRequest st1)"
    using Cons.prems(1) req by (simp add: cs_wf_def Let_def)
  have st1: "st1\<lparr>sqRequest := sqRequest st1\<rparr> = st1" by simp
  have call: "p (sqRequest st1) = cs_call cs p ps1" by (simp add: cs_call_def req(1))
  have np: "first_panic [cs_call cs p ps1] = None" using Cons.prems(4) req(2) by simp
  have part: "sequentialRequestPart ?env i (cs_call cs p ps1) = part_of (cs_call cs p ps1)"
    using Cons.prems(1) by (auto simp: sequentialRequestPart_def cs_wf_def split: prod.split option.split)
  have m: "merged_as ?n 0 ocs st1" using Cons.prems(2) same_merge_abs [OF same] by (simp add: seq_at_def merged_as_def)
  note step = seq_loop.simps(2) [of ?env i p ps' st]
  consider (err) e where "part_of (cs_call cs p ps1) = (None, Some e)" | (ok) d where "part_of (cs_call cs p ps1) = (Some d, None)"
    using part_of_shape [of "cs_call cs p ps1"] by blast
  then show ?case
  proof cases
    case err
    have "merged_as ?n 0 (ocs @ [part_of (cs_call cs p ps1)]) (merge_error e st1)"
      using merged_as_step [OF m] merge_error_abs err by metis
    then show ?thesis
      using err np pass r sel copy part call
      by (intro exI [of _ "[(ps1, part_of (cs_call cs p ps1))]"])
        (simp add: ends_with_def complete_part_def st1)
  next
    case ok
    note A = seq_at_answered [OF Cons.prems(2) same i req pass reg, of d]
    show ?thesis
    proof (cases "IsComplete d")
      case False
      then show ?thesis
        using ok np pass r sel copy part call A(2)
        by (intro exI [of _ "[(ps1, part_of (cs_call cs p ps1))]"]) (simp add: ends_with_def complete_part_def st1)
    next
      case True
      let ?st2 = "merge_response ?n i d st1"
      let ?st3 = "?st2\<lparr>sqParts := (sqParts ?st2)(i := Some (part_at i d))\<rparr>"
      have "Suc i + length ps' = ?n" "\<forall>p \<in> set ps'. \<forall>ps. wf_map ps \<longrightarrow> first_panic [cs_call cs p ps] = None"
        using Cons.prems(3,4) by simp_all
      from Cons.IH [OF Cons.prems(1) A(1) this] obtain calls where
        "chain (seq_passed (seShow ?env) (seFloat ?env) (seReplacements ?env) (csParams cs))
          (\<lambda>p ps oc. oc = part_of (cs_call cs p ps)) (Suc i) (Some d) ps' calls"
        "ends_with ?n (Suc i) (ocs @ [(Some d, None)]) calls (seq_loop ?env (Suc i) ps' ?st3)" by blast
      moreover have "seq_loop ?env i (p # ps') st = seq_loop ?env (Suc i) ps' ?st3"
        using True ok np r sel copy part call by (simp add: st1 Let_def)
      ultimately show ?thesis using True ok pass
        by (intro exI [of _ "(ps1, part_of (cs_call cs p ps1)) # calls"])
          (auto simp: ends_with_def complete_part_def split: seq_end.splits)
    qed
  qed
qed

subsection \<open>The replacements of a configuration\<close>

lemma find_all_from: "x \<in> set (find_all m s) \<Longrightarrow> \<exists>t n. m t = Some (x, n)"
  by (induction m s rule: find_all.induct) (auto split: option.splits)

lemma span_digits: "list_all is_digit (span_class is_digit t)"
  by (auto simp: list_all_iff dest: span_class_set)

lemma url_match_digits:
  assumes "reUrlPatterns t = Some (x, n)"
  shows "list_all is_digit (fst x)"
proof -
  have "fst x = span_class is_digit (drop 7 t)"
    using assms unfolding reUrlPatterns_def Let_def by (simp split: if_split_asm) (metis fst_conv)
  then show ?thesis by (simp add: span_digits)
qed

lemma param_match_digits:
  assumes "rePropagatedParams t = Some (x, n)"
  shows "list_all is_digit (fst x)"
proof -
  have "fst x = span_class is_digit (drop 4 t)"
    using assms unfolding rePropagatedParams_def Let_def by (simp split: if_split_asm) (metis fst_conv)+
  then show ?thesis by (simp add: span_digits)
qed

lemma destKeyGenerator_inject:
  assumes "list_all is_digit i" "list_all is_digit j" "destKeyGenerator i t = destKeyGenerator j u"
  shows "i = j \<and> t = u"
proof -
  let ?tail = "\<lambda>t. if t \<noteq> [] then ''_'' @ t else []"
  have span: "takeWhile is_digit (i @ ?tail t) = i" if "list_all is_digit i" for i t
    using that by (cases t) (auto simp: list_all_iff is_digit_def takeWhile_append2 takeWhile_append1)
  have eq: "i @ ?tail t = j @ ?tail u" using assms(3) by (simp add: destKeyGenerator_def)
  then have "i = j" using span [OF assms(1), of t] span [OF assms(2), of u] by simp
  with eq show ?thesis by (auto split: if_splits)
qed

definition from_config :: "sequentialBackendReplacement \<Rightarrow> bool" where
  "from_config r \<longleftrightarrow> (\<exists>m n. r = replacement_of m n \<and> atoi_digits (fst m) = Some n \<and> list_all is_digit (fst m))"

lemma from_config_inject:
  assumes "from_config r" "from_config r'" "sr_destination r = sr_destination r'"
  shows "r = r'"
proof -
  obtain m n m' n' where m: "r = replacement_of m n" "atoi_digits (fst m) = Some n" "list_all is_digit (fst m)"
    and m': "r' = replacement_of m' n'" "atoi_digits (fst m') = Some n'" "list_all is_digit (fst m')"
    using assms(1,2) unfolding from_config_def by blast
  have "fst m = fst m' \<and> snd m = snd m'"
    using destKeyGenerator_inject [OF m(3) m'(3)] assms(3) by (simp add: m(1) m'(1) replacement_of_def)
  then have "m = m'" by (simp add: prod_eq_iff)
  then show ?thesis using m(1,2) m'(1,2) by simp
qed

lemma coherent_from_config:
  assumes "\<forall>r \<in> rs. from_config r"
  shows "coherent rs"
proof -
  have "sr_source r \<noteq> []" if "from_config r" for r
    using that by (auto simp: from_config_def replacement_of_def)
  then show ?thesis using assms from_config_inject by (simp add: coherent_def)
qed

lemma in_map_filter: "r \<in> set (List.map_filter f xs) \<longleftrightarrow> (\<exists>x \<in> set xs. f x = Some r)"
  by (force simp: List.map_filter_def image_iff)

lemma url_replacements_from: "r \<in> set (url_replacements p) \<Longrightarrow> from_config r"
proof -
  assume "r \<in> set (url_replacements p)"
  then obtain m n where "m \<in> set (find_all reUrlPatterns p)" "atoi_digits (fst m) = Some n" "r = replacement_of m n"
    by (auto simp: url_replacements_def in_map_filter)
  then show ?thesis using find_all_from url_match_digits unfolding from_config_def by metis
qed

lemma param_replacements_from: "r \<in> set (param_replacements k p) \<Longrightarrow> from_config r"
proof -
  assume "r \<in> set (param_replacements k p)"
  then obtain m n where "m \<in> set (find_all rePropagatedParams p)" "atoi_digits (fst m) = Some n" "r = replacement_of m n"
    by (auto simp: param_replacements_def in_map_filter split: option.splits if_splits)
  then show ?thesis using find_all_from param_match_digits unfolding from_config_def by metis
qed

lemma config_from_config:
  assumes "sequentialMergerConfig cfg = Ret repls" and "r \<in> set (concat repls)"
  shows "from_config r"
proof -
  obtain ps where "repls = map (\<lambda>(i, b). url_replacements (be_URLPattern b) @
      (if i > 0 then concat (map (param_replacements (length (ep_Backend cfg))) ps) else [])) (enumerate 0 (ep_Backend cfg))"
    using assms(1) by (auto simp: sequentialMergerConfig_def run_bind_Ret_iff)
  then have "(\<exists>p. r \<in> set (url_replacements p)) \<or> (\<exists>p. r \<in> set (param_replacements (length (ep_Backend cfg)) p))"
    using assms(2) by (auto split: if_splits)
  then show ?thesis using url_replacements_from param_replacements_from by blast
qed

lemma config_coherent: "sequentialMergerConfig cfg = Ret repls \<Longrightarrow> coherent (set (concat repls))"
  using coherent_from_config config_from_config by blast

subsection \<open>The merger\<close>

text \<open>What is made of the answers: the first backend's error alone, or their merge.\<close>

definition chain_merged :: "outcome list \<Rightarrow> response option \<Rightarrow> gerror option \<Rightarrow> bool" where
  "chain_merged ocs resp err \<longleftrightarrow>
     (case snd (hd ocs) of
        Some e \<Rightarrow> resp = None \<and> err = Some e
      | None \<Rightarrow> err = newMergeError (errs ocs) \<and> merges resp ocs)"

lemma errs_all_answered:
  assumes "errs ocs = []" "all_complete (oks ocs)" "oc \<in> set ocs"
  shows "\<exists>r. ok_of oc = Some r \<and> IsComplete r"
proof -
  have "err_of oc = None" using assms(1,3) by (auto simp: errs_def List.map_filter_def filter_empty_conv)
  then obtain r where r: "ok_of oc = Some r" using ok_or_err [of oc] by auto
  then have "r \<in> set (oks ocs)" using assms(3) by (force simp: oks_def List.map_filter_def)
  then show ?thesis using r assms(2) by (simp add: all_complete_def)
qed

lemma ok_complete: "ok_of oc = Some r \<Longrightarrow> IsComplete r \<Longrightarrow> complete_part oc"
  by (cases oc) (auto simp: ok_of_def complete_part_def split: option.splits)

lemma no_io_eq:
  assumes "no_io (resp, err) = no_io (resp', err')"
  shows "err = err'" "resp = None \<longleftrightarrow> resp' = None"
    "resp = Some d \<Longrightarrow> resp' = Some d' \<Longrightarrow> Data d = Data d' \<and> IsComplete d = IsComplete d'"
proof -
  show "err = err'" "resp = None \<longleftrightarrow> resp' = None" using assms by (auto simp: no_io_def)
  assume "resp = Some d" "resp' = Some d'"
  then have "d\<lparr>Io := None\<rparr> = d'\<lparr>Io := None\<rparr>" using assms by (simp add: no_io_def)
  then have "Data (d\<lparr>Io := None\<rparr>) = Data (d'\<lparr>Io := None\<rparr>)" "IsComplete (d\<lparr>Io := None\<rparr>) = IsComplete (d'\<lparr>Io := None\<rparr>)" by simp_all
  then show "Data d = Data d' \<and> IsComplete d = IsComplete d'" by simp
qed

lemma chain_collected:
  assumes chain: "chain passed called 0 None bs calls" and "bs \<noteq> []"
    and wf: "\<forall>r \<in> set (oks (map snd calls)). wf_map (entries (Data r))"
    and res: "no_io (resp, err) = no_io (collect combineData (length bs) (map snd calls))"
  shows "err = newMergeError (errs (map snd calls)) \<and> merges resp (map snd calls)"
proof -
  let ?ocs = "map snd calls"
  note out = chain_outcomes [OF chain]
  have len: "length ?ocs \<le> length bs" using out by simp
  have all: "length ?ocs = length bs" if "errs ?ocs = []" "all_complete (oks ?ocs)"
  proof (rule ccontr)
    assume "length ?ocs \<noteq> length bs"
    then have "\<not> complete_part (snd (last calls))" "calls \<noteq> []" using out assms(2) by auto
    moreover have "snd (last calls) \<in> set ?ocs" using \<open>calls \<noteq> []\<close> by simp
    ultimately show False using errs_all_answered [OF that] ok_complete by blast
  qed
  obtain resp' err' where C: "collect combineData (length bs) ?ocs = (resp', err')" by fastforce
  note eq = no_io_eq [OF res [unfolded C]]
  note spec = collect_combineData [OF wf len, unfolded C fst_conv snd_conv]
  show ?thesis
  proof (cases resp)
    case None
    then show ?thesis using spec eq by (simp add: merges_def)
  next
    case (Some d)
    then obtain d' where d': "resp' = Some d'" using eq(2) by auto
    then have "errs ?ocs = [] \<and> length ?ocs = length bs \<and> all_complete (oks ?ocs) \<longleftrightarrow> errs ?ocs = [] \<and> all_complete (oks ?ocs)"
      using all by blast
    then show ?thesis using spec eq(1) eq(3) [OF Some d'] Some d' by (simp add: merges_def)
  qed
qed

lemma sequential_chain:
  assumes config: "sequentialMergerConfig cfg = Ret repls" and start: "rParams request = Some ps0" "wf_map ps0" "nodes \<noteq> []"
    and copy: "\<forall>ps. wf_map ps \<longrightarrow> cl (request\<lparr>rParams := Some ps\<rparr>) = (request\<lparr>rParams := Some ps\<rparr>, request\<lparr>rParams := Some ps\<rparr>)"
    and calm: "\<forall>p \<in> set nodes. \<forall>ps. wf_map ps \<longrightarrow> first_panic [p (request\<lparr>rParams := Some ps\<rparr>)] = None"
    and wf: "\<forall>p \<in> set nodes. \<forall>ps r. ok_of (part_of (p (request\<lparr>rParams := Some ps\<rparr>))) = Some r \<longrightarrow> wf_map (entries (Data r))"
  shows "\<exists>calls resp err r. chain (seq_passed show_v show_f repls ps0)
      (\<lambda>p ps oc. oc = part_of (p (request\<lparr>rParams := Some ps\<rparr>))) 0 None nodes calls \<and>
    chain_merged (map snd calls) resp err \<and>
    sequentialMerge (\<lambda>_. False) ctxErr show_v show_f repls cl timeout [] nodes request = PRet resp err r"
proof -
  define env where "env = \<lparr>seTotal = length nodes, seCloner = cl, seFilters = [], seReplacements = repls,
    seLate = (\<lambda>_. False), seCtxErr = ctxErr, seShow = show_v, seFloat = show_f\<rparr>"
  define cs where "cs = \<lparr>csEnv = env, csRequest = request, csParams = ps0\<rparr>"
  have req: "request = request\<lparr>rParams := Some ps0\<rparr>" using start(1) by simp
  have "cs_wf cs" using copy config_coherent [OF config] by (simp add: cs_wf_def cs_def env_def cs_replacements_def Let_def)
  moreover have "seq_at cs 0 None ps0 [] (seq_start (length nodes) request)"
    using start(2) req merged_as_start [of "length nodes" request] seq_start_fresh [of "length nodes" request]
    by (simp add: seq_at_def cs_def env_def seq_start_def)
  moreover have "0 + length nodes = seTotal (csEnv cs)" by (simp add: cs_def env_def)
  moreover have "\<forall>p \<in> set nodes. \<forall>ps. wf_map ps \<longrightarrow> first_panic [cs_call cs p ps] = None"
    using calm by (simp add: cs_call_def cs_def)
  ultimately obtain calls where chain: "chain (seq_passed show_v show_f repls ps0)
      (\<lambda>p ps oc. oc = part_of (p (request\<lparr>rParams := Some ps\<rparr>))) 0 None nodes calls"
    and ends: "ends_with (length nodes) 0 [] calls (seq_loop env 0 nodes (seq_start (length nodes) request))"
    using seq_loop_chain [of cs 0 None ps0 "[]" "seq_start (length nodes) request" nodes]
    by (auto simp: cs_def env_def cs_call_def)
  have run: "sequentialMerge (\<lambda>_. False) ctxErr show_v show_f repls cl timeout [] nodes request =
      seq_result (seq_loop env 0 nodes (seq_start (length nodes) request))"
    by (simp add: sequentialMerge_def env_def Let_def)
  have some: "calls \<noteq> []" using chain_outcomes [OF chain] start(3) by blast
  then have hd: "snd (hd (map snd calls)) = snd (snd (hd calls))" by (simp add: hd_map)
  have data: "\<forall>r \<in> set (oks (map snd calls)). wf_map (entries (Data r))"
    using chain wf by (auto simp: oks_def List.map_filter_def dest!: chain_called)
  show ?thesis
  proof (cases "seq_loop env 0 nodes (seq_start (length nodes) request)")
    case (SeqFailed err st)
    then show ?thesis using chain run ends hd
      by (intro exI [of _ calls] exI [of _ None] exI [of _ "Some err"] exI [of _ "sqRequest st"])
        (simp add: ends_with_def chain_merged_def seq_result_def)
  next
    case (SeqDone st)
    obtain resp err where res: "Result (seq_accumulator st) = (resp, err)" by fastforce
    have "no_io (resp, err) = no_io (collect combineData (length nodes) (map snd calls))"
      using ends SeqDone acc_from_new [of 0 "length nodes"]
      by (simp add: ends_with_def merged_as_def seq_abs_def collect_def Result_strip [symmetric] flip: res)
    from chain_collected [OF chain start(3) data this] show ?thesis
      using chain run ends hd SeqDone res some
      by (intro exI [of _ calls] exI [of _ resp] exI [of _ err] exI [of _ "sqRequest st"])
        (simp add: ends_with_def chain_merged_def seq_result_def)
  next
    case (SeqPanic e)
    then show ?thesis using ends by (simp add: ends_with_def)
  qed
qed

text \<open>
  C18: the sequential merger, on its shared maps and readers, against the backends themselves: its calls form a chain in which the first
  backend gets the client's parameters and each later one is called only after a complete answer, with the values it asks for of
  that answer; the outcome of a call is what that backend returns for the parameters it is given; and what is
  returned is the first backend's error alone, or the errors of all the calls and the merge of their responses, on each
  key the value of the last response that has it, complete when nothing failed and all the responses are complete.
\<close>

theorem sequential_merge_chain:
  assumes "sequentialMergerConfig cfg = Ret repls" and "rParams request = Some ps0" and "wf_map ps0" and "nodes \<noteq> []"
    and "\<forall>ps. wf_map ps \<longrightarrow> cl (request\<lparr>rParams := Some ps\<rparr>) = (request\<lparr>rParams := Some ps\<rparr>, request\<lparr>rParams := Some ps\<rparr>)"
    and "\<forall>p \<in> set nodes. \<forall>ps. wf_map ps \<longrightarrow> first_panic [p (request\<lparr>rParams := Some ps\<rparr>)] = None"
    and "\<forall>p \<in> set nodes. \<forall>ps r. ok_of (part_of (p (request\<lparr>rParams := Some ps\<rparr>))) = Some r \<longrightarrow> wf_map (entries (Data r))"
  shows "\<exists>calls resp err r.
    sequentialMerge (\<lambda>_. False) ctxErr show_v show_f repls cl timeout [] nodes request = PRet resp err r \<and>
    chain (seq_passed show_v show_f repls ps0) (\<lambda>p ps oc. oc = part_of (p (request\<lparr>rParams := Some ps\<rparr>))) 0 None nodes calls \<and>
    (case map snd calls of
       [] \<Rightarrow> False
     | oc # ocs \<Rightarrow>
         (case snd oc of
            Some e \<Rightarrow> resp = None \<and> err = Some e
          | None \<Rightarrow> err = newMergeError (errs (oc # ocs)) \<and>
              (case resp of
                 None \<Rightarrow> oks (oc # ocs) = []
               | Some d \<Rightarrow> oks (oc # ocs) \<noteq> [] \<and> map_of (entries (Data d)) = merged_map (oks (oc # ocs)) \<and>
                   (IsComplete d \<longleftrightarrow> errs (oc # ocs) = [] \<and> all_complete (oks (oc # ocs))))))"
proof -
  obtain calls resp err r where run: "sequentialMerge (\<lambda>_. False) ctxErr show_v show_f repls cl timeout [] nodes request = PRet resp err r"
    and chain: "chain (seq_passed show_v show_f repls ps0) (\<lambda>p ps oc. oc = part_of (p (request\<lparr>rParams := Some ps\<rparr>))) 0 None nodes calls"
    and merged: "chain_merged (map snd calls) resp err"
    using sequential_chain [OF assms] by blast
  have "calls \<noteq> []" using chain_outcomes [OF chain] assms(4) by blast
  then obtain oc ocs where ocs: "map snd calls = oc # ocs" by (cases calls) simp_all
  show ?thesis
    using run chain merged unfolding chain_merged_def merges_def
    by (intro exI [of _ calls] exI [of _ resp] exI [of _ err] exI [of _ r]) (simp add: ocs split: option.splits)
qed

text \<open>A sample: the second backend asks for the identifier in the first one's answer.\<close>

definition id_replacement :: sequentialBackendReplacement where
  "id_replacement = \<lparr>sr_backendIndex = 0, sr_destination = ''Resp0_id'', sr_source = [''id''], sr_fullResponse = False\<rparr>"

lemma id_patterns: "url_replacements ''/u'' = []" "url_replacements ''/v/{{.Resp0_id}}'' = [id_replacement]"
proof -
  have "find_all reUrlPatterns ''/u'' = []" "find_all reUrlPatterns ''/v/{{.Resp0_id}}'' = [(''0'', ''id'')]"
    "replacement_of (''0'', ''id'') 0 = id_replacement" by code_simp+
  moreover have "atoi_digits ''0'' = Some 0" by (simp add: atoi_digits_def nat_of_digits_def digit_val_def)
  ultimately show "url_replacements ''/u'' = []" "url_replacements ''/v/{{.Resp0_id}}'' = [id_replacement]"
    by (simp_all add: url_replacements_def map_filter_simps)
qed

definition id_endpoint :: EndpointConfig where
  "id_endpoint = zero_endpoint\<lparr>ep_Backend := [zero_backend\<lparr>be_URLPattern := ''/u''\<rparr>, zero_backend\<lparr>be_URLPattern := ''/v/{{.Resp0_id}}''\<rparr>]\<rparr>"

text \<open>The one backend has an identifier, the other one echoes the parameter it is given.\<close>

definition id_backend :: proxy where
  "id_backend r = PRet (Some (new_response (Some [(''id'', JStr ''42'')]) True)) None r"

definition echo_backend :: proxy where
  "echo_backend r = PRet (Some (new_response (Some [(''echo'',
     (case map_of (entries (rParams r)) ''Resp0_id'' of Some v \<Rightarrow> JStr v | None \<Rightarrow> JNull))]) True)) None r"

lemma sequential_merge_chain_witness:
  "\<exists>d err r. sequentialMerge (\<lambda>_. False) ENullResult (\<lambda>_. []) (\<lambda>_. []) [[], [id_replacement]] (\<lambda>r. (r, r)) 1 [] [id_backend, echo_backend]
      (sample_request\<lparr>rParams := Some []\<rparr>) = PRet (Some d) err r \<and>
    map_of (entries (Data d)) ''echo'' = Some (JStr ''42'') \<and> IsComplete d"
proof -
  let ?r = "sample_request\<lparr>rParams := Some []\<rparr>" and ?nodes = "[id_backend, echo_backend]"
  have config: "sequentialMergerConfig id_endpoint = Ret [[], [id_replacement]]"
    by (simp add: sequentialMergerConfig_def propagated_params_def id_endpoint_def zero_endpoint_def proxy_section_def get_as_def id_patterns)
  have answers: "part_of (id_backend q) = (Some (new_response (Some [(''id'', JStr ''42'')]) True), None)" for q
    by (simp add: id_backend_def part_of_def)
  obtain calls resp err r where
    run: "sequentialMerge (\<lambda>_. False) ENullResult (\<lambda>_. []) (\<lambda>_. []) [[], [id_replacement]] (\<lambda>r. (r, r)) 1 [] ?nodes ?r = PRet resp err r"
    and chain: "chain (seq_passed (\<lambda>_. []) (\<lambda>_. []) [[], [id_replacement]] [])
      (\<lambda>p ps oc. oc = part_of (p (?r\<lparr>rParams := Some ps\<rparr>))) 0 None ?nodes calls"
    and merged: "case map snd calls of
       [] \<Rightarrow> False
     | oc # ocs \<Rightarrow>
         (case snd oc of
            Some e \<Rightarrow> resp = None \<and> err = Some e
          | None \<Rightarrow> err = newMergeError (errs (oc # ocs)) \<and>
              (case resp of
                 None \<Rightarrow> oks (oc # ocs) = []
               | Some d \<Rightarrow> oks (oc # ocs) \<noteq> [] \<and> map_of (entries (Data d)) = merged_map (oks (oc # ocs)) \<and>
                   (IsComplete d \<longleftrightarrow> errs (oc # ocs) = [] \<and> all_complete (oks (oc # ocs)))))"
    using sequential_merge_chain [OF config, of ?r "[]" ?nodes "\<lambda>r. (r, r)" ENullResult "\<lambda>_. []" "\<lambda>_. []" 1]
    by (force simp: id_backend_def echo_backend_def part_of_def ok_of_def new_response_def)
  obtain ps1 ps2 oc2 where calls: "calls = [(ps1, part_of (id_backend ?r)), (ps2, oc2)]"
    and oc2: "oc2 = part_of (echo_backend (?r\<lparr>rParams := Some ps2\<rparr>))"
    and ps2: "seq_passed (\<lambda>_. []) (\<lambda>_. []) [[], [id_replacement]] [] 1 (Some (new_response (Some [(''id'', JStr ''42'')]) True)) ps2"
    using chain by (cases calls; cases "tl calls") (auto simp: answers complete_part_def new_response_def split: if_splits)
  have "map_of ps2 ''Resp0_id'' = Some ''42''"
    using ps2 by (simp add: seq_passed_def new_response_def id_replacement_def) (simp add: param_text_def)
  then have "oc2 = (Some (new_response (Some [(''echo'', JStr ''42'')]) True), None)" by (simp add: oc2 echo_backend_def part_of_def)
  then show ?thesis using run merged
    by (cases resp) (auto simp: calls answers errs_def oks_def err_of_def ok_of_def map_filter_simps merged_map_def all_complete_def new_response_def)
qed

end
