(* ===== verification/Gateway_Sequence.thy ===== *)
theory Gateway_Sequence
  imports Gateway Sequential_Chain
begin

section \<open>The gateway with backends called one after the other\<close>

text \<open>
  A client's request to an endpoint whose backends form a chain, from the file to each backend's own
  proxy: \<open>Gateway\<close> for one backend at a time, \<open>Sequential_Chain\<close> for what is handed from one to the next.
\<close>

definition sequential_endpoint :: "'t factory_env \<Rightarrow> EndpointConfig \<Rightarrow> bool" where
  "sequential_endpoint env c \<longleftrightarrow>
     bare_endpoint c \<and> 1 < length (ep_Backend c) \<and>
     getMergerFactory (map fst (me_mergers (fe_merge env))) (ep_ExtraConfig c) = isSequentialKey \<and>
     getResponseCombiner (me_combiners (fe_merge env)) (ep_ExtraConfig c) = Ret combineData \<and>
     bf_filtererFactory (me_filters (fe_merge env)) c = Inr [] \<and> newFlatmapFormatter (ep_ExtraConfig c) [] [] = None"

lemma default_factory_sequential:
  assumes c: "sequential_endpoint env c" and ps: "list_all2 (\<lambda>b p. newStack env b = Built p) (ep_Backend c) ps"
    and seq: "me_mergers (fe_merge env) = mergers seqm parm" "sequentialMergerConfig c = Ret repls"
  shows "defaultFactory_New env c =
    Made (Some (seqm repls (reqClone_of (fe_merge env) c) (percent_of 85 (ep_Timeout c)) combineData [] ps)) None"
proof -
  have "map_of (me_mergers (fe_merge env)) isSequentialKey =
      Some (\<lambda>ec. run_bind (sequentialMergerConfig ec) (\<lambda>repls. Ret (seqm repls)))"
    by (simp add: seq(1) mergers_def)
  then show ?thesis
    using c [unfolded sequential_endpoint_def] seq(2)
      default_factory_multi [OF _ _ ps, of "\<lambda>ec. run_bind (sequentialMergerConfig ec) (\<lambda>repls. Ret (seqm repls))" "seqm repls"]
    by simp
qed

text \<open>The URL a backend is called at: a host of the balancer may be missing, and the URL may not parse.\<close>

definition backend_url :: "'t factory_env \<Rightarrow> Backend \<Rightarrow> string \<Rightarrow> (gerror + url) run" where
  "backend_url env b path = run_bind (fe_host env b) (\<lambda>host. Ret (case host of Inl err \<Rightarrow> Inl err | Inr h \<Rightarrow> fe_parse_url env (h @ path)))"

text \<open>
  A backend of the chain is called with what the lists let through, and the parameters \<open>ps\<close>; without a URL it fails
  with the error that says why.
\<close>

definition seq_called :: "'t factory_env \<Rightarrow> EndpointConfig \<Rightarrow> http_in \<Rightarrow> request \<Rightarrow> Backend \<Rightarrow> params \<Rightarrow> outcome \<Rightarrow> bool" where
  "seq_called env c r req b ps oc \<longleftrightarrow>
     (case backend_url env b (rPath (GeneratePath (be_URLPattern b) (req\<lparr>rParams := Some ps\<rparr>))) of
        Panic e \<Rightarrow> False
      | Ret (Inl err) \<Rightarrow> oc = (None, Some err)
      | Ret (Inr u) \<Rightarrow> \<exists>q. client_call c b r (req\<lparr>rParams := Some ps\<rparr>) u q \<and> oc = part_of (fe_backendFactory env b q))"

lemma part_of_for_caller: "part_of (for_caller r x) = part_of x" "answering (for_caller r x) = answering x"
  by (cases x; simp add: part_of_def answering_def split: option.split)+

lemma same_for_callers: "\<forall>r0. for_caller r0 x = for_caller r0 y \<Longrightarrow> part_of x = part_of y"
  using part_of_for_caller by metis

text \<open>A stack of filters answers when its backend does, and fails when there is no URL.\<close>

lemma stack_answers:
  assumes b: "filtered_backend b" "be_ConcurrentCalls b \<le> 1" and host: "fe_host env b = Ret x"
    and leaf: "\<forall>q. rURL q \<noteq> None \<longrightarrow> answering (fe_backendFactory env b q)"
  shows "\<exists>p. newStack env b = Built p \<and> (\<forall>q. answering (p q)) \<and>
    (\<forall>q err. backend_url env b (rPath (GeneratePath (be_URLPattern b) q)) = Ret (Inl err) \<longrightarrow> part_of (p q) = (None, Some err))"
proof -
  let ?balanced = "balanced (fe_parse_url env) (fe_host env b) (filter_headers (be_HeadersToPass b) (fe_backendFactory env b))"
  let ?p = "filter_query (be_QueryStringsToPass b) (build_request b ?balanced)"
  have "newStack env b = Built ?p" using newStack_plain [of b env] b by (simp add: filtered_backend_def)
  moreover have "rURL q \<noteq> None \<longrightarrow> answering (filter_headers (be_HeadersToPass b) (fe_backendFactory env b) q)" for q
    by (simp add: filter_headers_def Let_def part_of_for_caller leaf)
  then have "answering (?balanced q)" for q
    by (simp add: balanced_def host split: sum.split) (simp add: answering_def)
  then have "answering (?p q)" for q
    by (simp add: filter_query_def build_request_def Let_def part_of_for_caller)
  moreover have "part_of (?balanced q) = (None, Some err)" if "backend_url env b (rPath q) = Ret (Inl err)" for q err
    using that by (cases x) (auto simp: backend_url_def balanced_def host part_of_def)
  then have "part_of (?p q) = (None, Some err)" if "backend_url env b (rPath (GeneratePath (be_URLPattern b) q)) = Ret (Inl err)" for q err
    using that by (simp add: filter_query_def build_request_def Let_def part_of_for_caller GeneratePath_keeps)
  ultimately show ?thesis by blast
qed

text \<open>The proxy of the endpoint, for a request as the router makes it.\<close>

lemma sequence_answers:
  assumes c: "sequential_endpoint env c"
    and seq: "me_mergers (fe_merge env) = mergers (default_sequential (\<lambda>_. False) ctxErr show_v show_f) parm"
      "sequentialMergerConfig c = Ret repls"
    and b: "\<forall>b \<in> set (ep_Backend c). filtered_backend b \<and> be_ConcurrentCalls b \<le> 1"
    and lists: "requestParamsAsterisk \<notin> set (endpoint_headers c)" "requestParamsAsterisk \<notin> set (ep_QueryString c)"
      "\<forall>k \<in> set (endpoint_headers c). CanonicalMIMEHeaderKey k = k"
    and req: "req = request_from ip ps0 r (ep_QueryString c) (endpoint_headers c)" "wf_map ps0"
    and host: "\<forall>b \<in> set (ep_Backend c). \<exists>x. fe_host env b = Ret x"
    and calm: "\<forall>b \<in> set (ep_Backend c). \<forall>q. rURL q \<noteq> None \<longrightarrow> answering (fe_backendFactory env b q)"
  shows "\<exists>p calls resp err r'. defaultFactory_New env c = Made (Some p) None \<and>
    chain (seq_passed show_v show_f repls ps0) (seq_called env c r req) 0 None (ep_Backend c) calls \<and>
    chain_merged (map snd calls) resp err \<and> p req = PRet resp err r'"
proof -
  let ?cl = "reqClone_of (fe_merge env) c"
  let ?no_url = "\<lambda>b p. \<forall>q err. backend_url env b (rPath (GeneratePath (be_URLPattern b) q)) = Ret (Inl err) \<longrightarrow> part_of (p q) = (None, Some err)"
  have "\<forall>b \<in> set (ep_Backend c). \<exists>p. newStack env b = Built p \<and> (\<forall>q. answering (p q)) \<and> ?no_url b p"
  proof
    fix w assume w: "w \<in> set (ep_Backend c)"
    then obtain x where "fe_host env w = Ret x" using host by blast
    then show "\<exists>p. newStack env w = Built p \<and> (\<forall>q. answering (p q)) \<and> ?no_url w p"
      using b calm w by (intro stack_answers) auto
  qed
  from bchoice [OF this] obtain P where P: "\<forall>b \<in> set (ep_Backend c). newStack env b = Built (P b) \<and> (\<forall>q. answering (P b q)) \<and> ?no_url b (P b)" ..
  let ?ps = "map P (ep_Backend c)"
  let ?p = "sequentialMerge (\<lambda>_. False) ctxErr show_v show_f repls ?cl (percent_of 85 (ep_Timeout c)) [] ?ps"
  have new: "defaultFactory_New env c = Made (Some ?p) None"
    using default_factory_sequential [OF c _ seq, of ?ps] P by (simp add: default_sequential_def list.rel_map list_all2_same)
  have params: "req\<lparr>rParams := Some ps\<rparr> = request_from ip ps r (ep_QueryString c) (endpoint_headers c)" for ps
    by (simp add: req(1) request_from_def)
  have copy: "\<forall>ps. wf_map ps \<longrightarrow> ?cl (req\<lparr>rParams := Some ps\<rparr>) = (req\<lparr>rParams := Some ps\<rparr>, req\<lparr>rParams := Some ps\<rparr>)"
  proof (intro allI impI)
    fix ps :: params assume "wf_map ps"
    then show "?cl (req\<lparr>rParams := Some ps\<rparr>) = (req\<lparr>rParams := Some ps\<rparr>, req\<lparr>rParams := Some ps\<rparr>)"
      by - (rule request_fields [OF lists(1,2) params [of ps]], simp add: reqClone_value)
  qed
  have some: "?ps \<noteq> []" using c by (auto simp: sequential_endpoint_def)
  have ans: "answering (p q)" if "p \<in> set ?ps" for p q using that P by auto
  have calm': "\<forall>p \<in> set ?ps. \<forall>ps. wf_map ps \<longrightarrow> first_panic [p (req\<lparr>rParams := Some ps\<rparr>)] = None"
    using ans answering_panic [of "[p (req\<lparr>rParams := Some ps\<rparr>)]" for p ps] by auto
  have wf: "\<forall>p \<in> set ?ps. \<forall>ps d. ok_of (part_of (p (req\<lparr>rParams := Some ps\<rparr>))) = Some d \<longrightarrow> wf_map (entries (Data d))"
    using answering_ok ans by blast
  have "rParams req = Some ps0" by (simp add: req(1) request_from_def)
  from sequential_chain [where cl = ?cl, OF seq(2) this req(2) some copy calm' wf]
  obtain calls resp err r' where chain: "chain (seq_passed show_v show_f repls ps0)
      (\<lambda>p ps oc. oc = part_of (p (req\<lparr>rParams := Some ps\<rparr>))) 0 None ?ps calls"
    and res: "chain_merged (map snd calls) resp err" "?p req = PRet resp err r'" by blast
  have "seq_called env c r req b ps (part_of (P b (req\<lparr>rParams := Some ps\<rparr>)))" if w: "b \<in> set (ep_Backend c)" for b ps
  proof -
    let ?path = "rPath (GeneratePath (be_URLPattern b) (req\<lparr>rParams := Some ps\<rparr>))"
    obtain x where x: "fe_host env b = Ret x" using host w by blast
    show ?thesis
    proof (cases "case x of Inl err \<Rightarrow> Inl err | Inr h \<Rightarrow> fe_parse_url env (h @ ?path)")
      case (Inl err)
      then have "backend_url env b ?path = Ret (Inl err)" by (simp add: backend_url_def x)
      then show ?thesis using P w by (simp add: seq_called_def)
    next
      case (Inr u)
      then obtain h where h: "fe_host env b = Ret (Inr h)" "fe_parse_url env (h @ ?path) = Inr u" using x by (auto split: sum.splits)
      then obtain p q where p: "newStack env b = Built p" and q: "client_call c b r (req\<lparr>rParams := Some ps\<rparr>) u q"
        and same: "\<forall>r0. for_caller r0 (p (req\<lparr>rParams := Some ps\<rparr>)) = for_caller r0 (fe_backendFactory env b q)"
        using stack_called [OF _ _ lists params] b w by blast
      have "P b = p" using P w p by simp
      then show ?thesis using q same_for_callers [OF same] h by (auto simp: seq_called_def backend_url_def)
    qed
  qed
  then have "chain (seq_passed show_v show_f repls ps0) (seq_called env c r req) 0 None (ep_Backend c) calls"
    using chain by (simp add: chain_map) (erule chain_weaken, simp)
  with new res show ?thesis by blast
qed

text \<open>The request of a client at such an endpoint.\<close>

lemma sequence_call:
  assumes valid: "valid_service venv s" "c \<in> set (sc_Endpoints s)"
    and sequence: "sequential_endpoint fenv c" "\<forall>b \<in> set (ep_Backend c). filtered_backend b"
        "me_mergers (fe_merge fenv) = mergers (default_sequential (\<lambda>_. False) ctxErr show_v show_f) parm"
        "sequentialMergerConfig c = Ret repls"
    and lists: "requestParamsAsterisk \<notin> set (endpoint_headers c)" "requestParamsAsterisk \<notin> set (ep_QueryString c)"
    and client: "wf_map (extract r)" "req = NewRequestBuilder shp extract r (ep_QueryString c) (endpoint_headers c)"
    and host: "\<forall>b \<in> set (ep_Backend c). \<exists>x. fe_host fenv b = Ret x"
    and calm: "\<forall>b \<in> set (ep_Backend c). \<forall>q. rURL q \<noteq> None \<longrightarrow> answering (fe_backendFactory fenv b q)"
  obtains p calls resp err r' where "defaultFactory_New fenv c = Made (Some p) None" "p req = PRet resp err r'"
    "chain (seq_passed show_v show_f repls (extract r)) (seq_called fenv c r req) 0 None (ep_Backend c) calls"
    "chain_merged (map snd calls) resp err"
proof -
  have "\<forall>b \<in> set (ep_Backend c). filtered_backend b \<and> be_ConcurrentCalls b \<le> 1"
    using valid_concurrency [OF valid] sequence(1,2) by (simp add: sequential_endpoint_def bare_endpoint_def)
  from sequence_answers [OF sequence(1,3,4) this lists valid_headers [OF valid] client(2) [unfolded NewRequestBuilder_def]
      client(1) host calm] that
  show thesis by blast
qed

text \<open>
  C4: the gateway end to end for an endpoint whose backends are called one after the other: it answers its path and method
  with the first backend's error or the merge of the answers of the calls made; the calls form a chain that goes on
  while the answers are complete, each with its own method, path and URL and what the lists let through,
  and each later one with the values it asks for of the answer before it, and one without a URL fails with the
  error that says why.  Shallow copies share the reader of the body, so with them the client sends none.
\<close>

theorem gateway_sequence:
  assumes parsed: "Parse penv f = Ret (Inr s)"
    and run: "route_engine handle lookup" "adapter_Run handle (defaultFactory_New fenv)
        (CustomEndpointHandler marshal reg shp don extract) mc debugH echoH s e0 = Ret e"
    and route: "sc_Endpoints s = cs @ c # ds" "to_upper (ep_Method c) \<in> set router_methods"
        "endpoint_key c \<notin> endpoint_key ` set ds"
    and sequence: "sequential_endpoint fenv c" "\<forall>b \<in> set (ep_Backend c). filtered_backend b"
        "me_mergers (fe_merge fenv) = mergers (default_sequential (\<lambda>_. False) ctxErr show_v show_f) parm"
        "sequentialMergerConfig c = Ret repls"
    and lists: "requestParamsAsterisk \<notin> set (endpoint_headers c)" "requestParamsAsterisk \<notin> set (ep_QueryString c)"
    and client: "hiMethod r = to_upper (ep_Method c)" "wf_map (extract r)"
        "req = NewRequestBuilder shp extract r (ep_QueryString c) (endpoint_headers c)"
    and body: "hiBody r = None \<or> hasUnsafeBackends c \<or> forceDeepClone c"
    and host: "\<forall>b \<in> set (ep_Backend c). \<exists>x. fe_host fenv b = Ret x"
    and calm: "\<forall>b \<in> set (ep_Backend c). \<forall>q. rURL q \<noteq> None \<longrightarrow> answering (fe_backendFactory fenv b q)"
  shows "\<exists>g calls resp err. lookup e (ep_Endpoint c, hiMethod r) = Some g \<and>
    chain (seq_passed show_v show_f repls (extract r)) (seq_called fenv c r req) 0 None (ep_Backend c) calls \<and>
    chain_merged (map snd calls) resp err \<and>
    (\<forall>w. g r w = answered marshal reg don c (PRet resp err req) w)"
proof -
  obtain p calls resp err r' where p: "defaultFactory_New fenv c = Made (Some p) None" "p req = PRet resp err r'"
    and chain: "chain (seq_passed show_v show_f repls (extract r)) (seq_called fenv c r req) 0 None (ep_Backend c) calls"
    and res: "chain_merged (map snd calls) resp err"
    by (rule sequence_call [OF parsed_valid [OF parsed] _ sequence lists client(2,3) host calm]) (simp add: route(1))
  have "lookup e (endpoint_key c) = Some (CustomEndpointHandler marshal reg shp don extract c p)"
    by (rule run_reaches [OF run route(1) p(1) route(2,3)])
  moreover have "CustomEndpointHandler marshal reg shp don extract c p r w = answered marshal reg don c (PRet resp err req) w" for w
    by (rule handler_answers) (use client p(2) in simp_all)
  ultimately show ?thesis
    using chain res client(1)
    by (intro exI [of _ "CustomEndpointHandler marshal reg shp don extract c p"] exI [of _ calls] exI [of _ resp] exI [of _ err])
      (simp add: endpoint_key_def)
qed

subsection \<open>A sample\<close>

definition sequence_service :: ServiceConfig where
  "sequence_service = zero_service\<lparr>sc_Version := 3, sc_Host := [''api.example.com:8080''],
     sc_Endpoints := [zero_endpoint\<lparr>ep_Endpoint := ''/users'', ep_HeadersToPass := [''x-token''], ep_QueryString := [''q''],
       ep_ExtraConfig := [(proxy_Namespace, JObj [(isSequentialKey, JBool True)])],
       ep_Backend := [zero_backend\<lparr>be_URLPattern := ''/u'', be_HeadersToPass := [''X-Token''], be_QueryStringsToPass := [''q'']\<rparr>,
         zero_backend\<lparr>be_URLPattern := ''/v/{resp0_id}'', be_HeadersToPass := [''Cookie''], be_QueryStringsToPass := [''p'']\<rparr>]\<rparr>]\<rparr>"

definition sequence_parser :: parser_env where
  "sequence_parser = sample_parser\<lparr>pe_unmarshal := (\<lambda>s. Inr (unparse_service unary_text sequence_service))\<rparr>"

fun sequence_ready :: "(checked + ServiceConfig) run \<Rightarrow> bool" where
  "sequence_ready (Ret (Inr s)) =
     (\<not> sc_Debug s \<and> \<not> sc_Echo s \<and>
      (case sc_Endpoints s of
         [c] \<Rightarrow> bare_endpoint c \<and> ep_ExtraConfig c = [(proxy_Namespace, JObj [(isSequentialKey, JBool True)])] \<and>
           ep_Endpoint c = ''/users'' \<and> to_upper (ep_Method c) = ''GET'' \<and> ep_QueryString c = [''q''] \<and>
           ep_HeadersToPass c = [''X-Token''] \<and> list_all filtered_backend (ep_Backend c) \<and>
           map be_URLPattern (ep_Backend c) = [''/u'', ''/v/{{.Resp0_id}}'']
       | _ \<Rightarrow> False))"
| "sequence_ready _ = False"

definition sequence_fenv :: "unit factory_env" where
  "sequence_fenv = sample_fenv\<lparr>
     fe_backendFactory := (\<lambda>b r. PRet (Some (new_response (Some [(''id'', JStr ''42'')]) True)) None r),
     fe_merge := (fe_merge sample_fenv)\<lparr>me_mergers :=
       mergers (default_sequential (\<lambda>_. False) (ECtx []) (\<lambda>_. []) (\<lambda>_. [])) (\<lambda>cl t rc fs ps r. PRet None None r)\<rparr>\<rparr>"

lemma sequence_parsed:
  assumes ready: "sequence_ready (Parse env f)"
  obtains s c b1 b2 where "Parse env f = Ret (Inr s)" "\<not> sc_Debug s" "\<not> sc_Echo s" "sc_Endpoints s = [c]"
    "ep_Backend c = [b1, b2]" "sequential_endpoint sequence_fenv c" "sequentialMergerConfig c = Ret [[], [id_replacement]]"
    "ep_Endpoint c = ''/users''" "to_upper (ep_Method c) = ''GET''" "ep_QueryString c = [''q'']" "ep_HeadersToPass c = [''X-Token'']"
    "filtered_backend b1" "filtered_backend b2" "be_URLPattern b1 = ''/u''"
proof -
  obtain s where s: "Parse env f = Ret (Inr s)"
    using ready by (cases "Parse env f" rule: sequence_ready.cases) auto
  obtain c where c: "sc_Endpoints s = [c]" using ready s by (auto split: list.splits)
  have urls: "map be_URLPattern (ep_Backend c) = [''/u'', ''/v/{{.Resp0_id}}'']" and bare: "bare_endpoint c"
    and extra: "ep_ExtraConfig c = [(proxy_Namespace, JObj [(isSequentialKey, JBool True)])]"
    using ready s c by simp_all
  then obtain b1 b2 where b: "ep_Backend c = [b1, b2]" "be_URLPattern b1 = ''/u''" "be_URLPattern b2 = ''/v/{{.Resp0_id}}''"
    by (auto simp: map_eq_Cons_conv)
  have "getMergerFactory [isSequentialKey, parallelMerger] [(proxy_Namespace, JObj [(isSequentialKey, JBool True)])] = isSequentialKey"
    "map_of [(isSequentialKey, JBool True)] mergeKey = None"
    "proxy_section [(proxy_Namespace, JObj [(isSequentialKey, JBool True)])] = Some [(isSequentialKey, JBool True)]" by code_simp+
  moreover have "newFlatmapFormatter [(proxy_Namespace, JObj [(isSequentialKey, JBool True)])] [] [] = None" by code_simp
  ultimately have endpoint: "sequential_endpoint sequence_fenv c"
    using bare b(1) extra
    by (simp add: sequential_endpoint_def sequence_fenv_def sample_fenv_def mergers_def getResponseCombiner_def
        getResponseCombinerName_def initResponseCombiners_def newCombinerRegister_def GetResponseCombiner_def register_defs defaultBackendFiltererFactory_def
        run_bind_Ret_iff)
  have "proxy_section [(proxy_Namespace, JObj [(isSequentialKey, JBool True)])] = Some [(isSequentialKey, JBool True)]"
    "get_as as_arr [(isSequentialKey, JBool True)] sequentialPropagateKey = None" by code_simp+
  then have config: "sequentialMergerConfig c = Ret [[], [id_replacement]]"
    by (simp add: sequentialMergerConfig_def propagated_params_def extra b id_patterns)
  show thesis using endpoint config ready s c b by (intro that [of s c b1 b2]) simp_all
qed

lemma sequence_sample_ready: "sequence_ready (Parse sequence_parser ''k.json'')"
  by code_simp

lemmas sequence_parses = sequence_parsed [OF sequence_sample_ready]

lemma sequence_built:
  assumes "sequential_endpoint env c" "sequentialMergerConfig c = Ret repls"
    and "\<forall>b \<in> set (ep_Backend c). filtered_backend b \<and> be_ConcurrentCalls b \<le> 1"
    and "me_mergers (fe_merge env) = mergers seqm parm"
  shows "\<exists>p. defaultFactory_New env c = Made (Some p) None"
proof -
  have "\<forall>b \<in> set (ep_Backend c). \<exists>p. newStack env b = Built p"
    using newStack_plain [of _ env] assms(3) unfolding filtered_backend_def by blast
  then obtain P where "\<forall>b \<in> set (ep_Backend c). newStack env b = Built (P b)" by metis
  then have "list_all2 (\<lambda>b p. newStack env b = Built p) (ep_Backend c) (map P (ep_Backend c))"
    by (simp add: list.rel_map list_all2_same)
  from default_factory_sequential [OF assms(1) this assms(4,2)] show ?thesis by blast
qed

text \<open>The second backend of the sample is called with the identifier that the first one answered.\<close>

lemma sample_chain:
  assumes "chain (seq_passed show_v show_f [[], [id_replacement]] ps0) (seq_called sequence_fenv c r req) 0 None [b1, b2] calls"
  shows "\<exists>ps oc. calls ! 1 = (ps, oc) \<and> length calls = 2 \<and> map_of ps ''Resp0_id'' = Some ''42''"
proof -
  let ?d = "new_response (Some [(''id'', JStr ''42'')]) True"
  have oc: "oc = (Some ?d, None)" if "seq_called sequence_fenv c r req b ps oc" for b ps oc
    using that by (auto simp: seq_called_def backend_url_def sequence_fenv_def sample_fenv_def part_of_def)
  obtain ps1 oc1 rest where one: "calls = (ps1, oc1) # rest" using assms by (cases calls) auto
  then have "seq_called sequence_fenv c r req b1 ps1 oc1" using assms by simp
  then have "oc1 = (Some ?d, None)" by (rule oc)
  with one have calls: "calls = (ps1, (Some ?d, None)) # rest" by simp
  have "complete_part (Some ?d, None)" by (simp add: complete_part_def new_response_def)
  then have "chain (seq_passed show_v show_f [[], [id_replacement]] ps0) (seq_called sequence_fenv c r req) 1 (Some ?d) [b2] rest"
    using assms by (simp add: calls)
  then obtain ps2 oc2 where rest2: "rest = [(ps2, oc2)]" and ps2: "seq_passed show_v show_f [[], [id_replacement]] ps0 1 (Some ?d) ps2"
    by (cases rest) (auto split: if_splits)
  have "at_path (entries (Data ?d)) (sr_source id_replacement) = Some (JStr ''42'')"
    by (simp add: new_response_def id_replacement_def)
  then have "map_of ps2 (sr_destination id_replacement) = Some (param_text show_v show_f (JStr ''42''))"
    using ps2 by (simp add: seq_passed_def) (simp add: id_replacement_def)
  then show ?thesis by (simp add: calls rest2 id_replacement_def param_text_def)
qed

lemma gateway_sequence_witness:
  "\<exists>s e g c calls resp err ps oc. Parse sequence_parser ''k.json'' = Ret (Inr s) \<and>
     adapter_Run (\<lambda>p m h e. Ret (engine_Handle e p m h)) (defaultFactory_New sequence_fenv)
       (CustomEndpointHandler (\<lambda>v. Inr ''js'') [] (\<lambda>_. None) False NoopParamExtractor) mux_DefaultFactory HealthHandler HealthHandler
       s DefaultEngine = Ret e \<and>
     engine_lookup e (''/users'', ''GET'') = Some g \<and>
     (\<forall>w. g gateway_client w = answered (\<lambda>v. Inr ''js'') [] False c (PRet resp err
       (NewRequestBuilder (\<lambda>_. None) NoopParamExtractor gateway_client [''q''] [''X-Token''])) w) \<and>
     chain_merged (map snd calls) resp err \<and> length calls = 2 \<and>
     calls ! 1 = (ps, oc) \<and> map_of ps ''Resp0_id'' = Some ''42''"
proof -
  let ?handle = "\<lambda>p m h e. Ret (engine_Handle e p m h)"
  let ?hf = "CustomEndpointHandler (\<lambda>v. Inr ''js'') [] (\<lambda>_. None) False NoopParamExtractor"
  obtain s c b1 b2 where s: "Parse sequence_parser ''k.json'' = Ret (Inr s)" "\<not> sc_Debug s" "\<not> sc_Echo s" "sc_Endpoints s = [c]"
    and c: "ep_Backend c = [b1, b2]" "sequential_endpoint sequence_fenv c" "sequentialMergerConfig c = Ret [[], [id_replacement]]"
      "ep_Endpoint c = ''/users''" "to_upper (ep_Method c) = ''GET''" "ep_QueryString c = [''q'']" "ep_HeadersToPass c = [''X-Token'']"
    and b: "filtered_backend b1" "filtered_backend b2"
    by (rule sequence_parses) blast
  have fb: "\<forall>b \<in> set (ep_Backend c). filtered_backend b" by (simp add: c(1) b)
  have "ep_ConcurrentCalls c \<le> 1" using c(2) by (simp add: sequential_endpoint_def bare_endpoint_def)
  then have conc: "\<forall>b \<in> set (ep_Backend c). filtered_backend b \<and> be_ConcurrentCalls b \<le> 1"
    using fb valid_concurrency [OF parsed_valid [OF s(1)]] s(4) by simp
  have route: "sc_Endpoints s = [] @ c # []" using s by simp
  have m: "to_upper (ep_Method c) \<in> set router_methods" by (simp add: c router_methods_def)
  have eh: "endpoint_headers c = [''X-Token'']" by (simp add: endpoint_headers_def c)
  have get: "hiMethod gateway_client = ''GET''" by (simp add: gateway_client_def)
  have mg: "me_mergers (fe_merge sequence_fenv) = mergers (default_sequential (\<lambda>_. False) (ECtx []) (\<lambda>_. []) (\<lambda>_. []))
      (\<lambda>cl t rc fs ps r. PRet None None r)"
    by (simp add: sequence_fenv_def)
  obtain e where e: "adapter_Run ?handle (defaultFactory_New sequence_fenv) ?hf mux_DefaultFactory HealthHandler HealthHandler s DefaultEngine = Ret e"
    using sequence_built [OF c(2,3) conc mg] run_built [OF s(4) _ s(2,3)] by blast
  let ?req = "NewRequestBuilder (\<lambda>_. None) NoopParamExtractor gateway_client (ep_QueryString c) (endpoint_headers c)"
  have "\<exists>g calls resp err. engine_lookup e (ep_Endpoint c, hiMethod gateway_client) = Some g \<and>
    chain (seq_passed (\<lambda>_. []) (\<lambda>_. []) [[], [id_replacement]] (NoopParamExtractor gateway_client))
      (seq_called sequence_fenv c gateway_client ?req) 0 None (ep_Backend c) calls \<and>
    chain_merged (map snd calls) resp err \<and>
    (\<forall>w. g gateway_client w = answered (\<lambda>v. Inr ''js'') [] False c (PRet resp err ?req) w)"
    by (rule gateway_sequence [OF s(1) basic_engine.route_engine_axioms e route m _ c(2) fb mg c(3)])
      (simp_all add: requestParamsAsterisk_def eh c get sequence_fenv_def sample_fenv_def answering_def NoopParamExtractor_def
        new_response_def gateway_client_def)
  then obtain g calls resp err where g: "engine_lookup e (''/users'', ''GET'') = Some g"
    and chain: "chain (seq_passed (\<lambda>_. []) (\<lambda>_. []) [[], [id_replacement]] (NoopParamExtractor gateway_client))
      (seq_called sequence_fenv c gateway_client ?req) 0 None [b1, b2] calls"
    and w: "chain_merged (map snd calls) resp err"
      "\<forall>w. g gateway_client w = answered (\<lambda>v. Inr ''js'') [] False c (PRet resp err ?req) w"
    by (auto simp: c(1,4) get)
  from sample_chain [OF chain] show ?thesis using s(1) e g w unfolding eh c(6) by blast
qed

end
