(* ===== verification/Gateway_Http_Sequence.thy ===== *)
theory Gateway_Http_Sequence
  imports Gateway_Http Gateway_Sequence
begin

section \<open>The gateway over HTTP backends called one after the other\<close>

text \<open>
  What \<open>Gateway_Http\<close> shows of backends called at the same time, for those that form a chain: the answer is
  complete when the chain reaches its end.
\<close>

lemma ok_of_Some: "ok_of oc = Some d \<longleftrightarrow> oc = (Some d, None)"
  by (cases oc) (auto simp: ok_of_def split: option.split)

text \<open>A chain gives a complete answer when it reaches its end.\<close>

lemma chain_complete:
  assumes chain: "chain passed called 0 None bs calls" and several: "1 < length bs" and res: "chain_merged (map snd calls) resp err"
  shows "(\<exists>x. resp = Some x \<and> entries (Data x) \<noteq> [] \<and> IsComplete x) \<longleftrightarrow>
    length calls = length bs \<and> (\<forall>oc \<in> snd ` set calls. \<exists>d. oc = (Some d, None) \<and> whole d) \<and>
    (\<exists>oc \<in> snd ` set calls. \<exists>d. oc = (Some d, None) \<and> entries (Data d) \<noteq> [])"
proof -
  note outcomes = chain_outcomes [OF chain]
  have some: "calls \<noteq> []" and le: "length calls \<le> length bs" using outcomes several by auto
  have full: "length calls = length bs" if "\<forall>oc \<in> snd ` set calls. \<exists>d. oc = (Some d, None) \<and> IsComplete d"
    using that some outcomes last_in_set [OF some] by (force simp: complete_part_def)
  show ?thesis
  proof (cases "snd (hd (map snd calls))")
    case (Some e)
    then have "resp = None" using res by (simp add: chain_merged_def)
    moreover have "snd (hd calls) \<in> snd ` set calls" using some by simp
    ultimately show ?thesis using Some some by (fastforce simp: hd_map)
  next
    case None
    then have m: "merges resp (map snd calls)" using res by (simp add: chain_merged_def)
    show ?thesis
    proof (cases "1 < length calls")
      case True
      then show ?thesis using merges_complete [OF m] full unfolding ok_of_Some by (simp add: whole_def) blast
    next
      case False
      then have "length calls \<noteq> length bs" using several by simp
      then have "\<not> (errs (map snd calls) = [] \<and> all_complete (oks (map snd calls)))"
        using full errs_all_answered [of "map snd calls"] unfolding ok_of_Some by (force simp del: map_map)
      then have "\<not> (\<exists>x. resp = Some x \<and> IsComplete x)" using m by (auto simp: merges_def)
      then show ?thesis using \<open>length calls \<noteq> length bs\<close> by blast
    qed
  qed
qed

text \<open>The chain reaches its end, all its backends deliver data that are not nil, and some of them are not empty.\<close>

definition chain_delivers :: "Backend list \<Rightarrow> (params \<times> outcome) list \<Rightarrow> bool" where
  "chain_delivers bs calls \<longleftrightarrow>
     length calls = length bs \<and> (\<forall>oc \<in> snd ` set calls. \<exists>d. oc = (Some d, None) \<and> whole d) \<and>
     (\<exists>oc \<in> snd ` set calls. \<exists>d. oc = (Some d, None) \<and> entries (Data d) \<noteq> [])"

text \<open>A backend of the chain called over HTTP: what its outcome says.\<close>

definition http_called :: "json_parser \<Rightarrow> 'h http_env \<Rightarrow> 't factory_env \<Rightarrow> EndpointConfig \<Rightarrow> http_in \<Rightarrow> request \<Rightarrow> Backend \<Rightarrow> params \<Rightarrow> outcome \<Rightarrow> bool" where
  "http_called jdec he env c r req b ps oc \<longleftrightarrow>
     (case backend_url env b (rPath (GeneratePath (be_URLPattern b) (req\<lparr>rParams := Some ps\<rparr>))) of
        Panic e \<Rightarrow> False
      | Ret (Inl err) \<Rightarrow> oc = (None, Some err)
      | Ret (Inr u) \<Rightarrow> \<exists>q. client_call c b r (req\<lparr>rParams := Some ps\<rparr>) u q \<and>
          (\<forall>d. oc = (Some d, None) \<and> IsComplete d \<longleftrightarrow> http_delivers jdec he b q d))"

lemma seq_called_http:
  assumes "fe_backendFactory env b = http_factory he b" and "http_backend b" and "seq_called env c r req b ps oc"
    and "be_Decoder b = DecoderRegister_Get jdec (initDecoderRegister jdec) (to_lower (be_Encoding b)) (be_IsCollection b)"
    and "\<forall>s v. jdec s = Inr v \<longrightarrow> wf_json v"
  shows "http_called jdec he env c r req b ps oc"
proof (cases "backend_url env b (rPath (GeneratePath (be_URLPattern b) (req\<lparr>rParams := Some ps\<rparr>)))")
  case (Ret x)
  show ?thesis
  proof (cases x)
    case (Inr u)
    then obtain q where q: "client_call c b r (req\<lparr>rParams := Some ps\<rparr>) u q" "oc = part_of (http_factory he b q)"
      using assms(1,3) Ret by (auto simp: seq_called_def)
    then have "\<forall>d. oc = (Some d, None) \<and> IsComplete d \<longleftrightarrow> http_delivers jdec he b q d"
      using http_complete [OF assms(2) client_call_url [OF q(1)], of he]
      unfolding ok_of_Some q(2) http_delivers_parsed [OF assms(4,5)] by blast
    then show ?thesis using q(1) Ret Inr by (auto simp: http_called_def)
  qed (use assms(3) Ret in \<open>simp add: seq_called_def http_called_def\<close>)
qed (use assms(3) in \<open>simp add: seq_called_def\<close>)

text \<open>
  C6: the completeness header end to end for backends called one after the other over HTTP, with the interceptor of the engines and
  without it: the calls form a chain in which a later backend gets values of the answer before it, and the client is told that the
  answer is complete exactly when the chain reaches the last backend, every backend answered with the status 200 or 201
  and a body that stands for data in its encoding, all these data, formatted, are not nil and some of them are not empty.  Only with
  the interceptor is such an answer called incomplete when it cannot be rendered, and it can when all values can be
  marshalled.  The handler answers unless the first backend fails.
\<close>

theorem sequence_completed:
  assumes parsed: "Parse penv f = Ret (Inr s)"
    and run: "route_engine handle lookup" "adapter_Run handle (defaultFactory_New fenv)
        (CustomEndpointHandler marshal (initRenderRegister marshal) shp don extract) mc debugH echoH s e0 = Ret e"
    and route: "sc_Endpoints s = cs @ c # ds" "to_upper (ep_Method c) \<in> set router_methods"
        "endpoint_key c \<notin> endpoint_key ` set ds"
    and sequence: "sequential_endpoint fenv c" "\<forall>b \<in> set (ep_Backend c). filtered_backend b"
        "me_mergers (fe_merge fenv) = mergers (default_sequential (\<lambda>_. False) ctxErr show_v show_f) parm"
        "sequentialMergerConfig c = Ret repls"
    and http: "fe_backendFactory fenv = http_factory he" "\<forall>b \<in> set (ep_Backend c). plain_backend b"
        "env_decoders (pe_cfg penv) = initDecoderRegister (env_json (pe_cfg penv))"
        "\<forall>t v. env_json (pe_cfg penv) t = Inr v \<longrightarrow> wf_json v"
    and lists: "requestParamsAsterisk \<notin> set (endpoint_headers c)" "requestParamsAsterisk \<notin> set (ep_QueryString c)"
    and client: "hiMethod r = to_upper (ep_Method c)" "wf_map (extract r)"
        "req = NewRequestBuilder shp extract r (ep_QueryString c) (endpoint_headers c)"
    and body: "hiBody r = None \<or> hasUnsafeBackends c \<or> forceDeepClone c"
    and host: "\<forall>b \<in> set (ep_Backend c). \<exists>x. fe_host fenv b = Ret x"
  shows "\<exists>g calls. lookup e (ep_Endpoint c, hiMethod r) = Some g \<and>
    chain (seq_passed show_v show_f repls (extract r)) (http_called (env_json (pe_cfg penv)) he fenv c r req) 0 None (ep_Backend c) calls \<and>
    (snd (snd (hd calls)) = None \<longrightarrow> (\<forall>intercept. \<exists>w. g r (new_writer intercept) = Ret w)) \<and>
    (\<forall>intercept w. g r (new_writer intercept) = Ret w \<longrightarrow>
       completed w = (if chain_delivers (ep_Backend c) calls \<and> (intercept \<longrightarrow> fst (sent w) = 200)
         then HeaderCompleteResponseValue else HeaderIncompleteResponseValue) \<and>
       (chain_delivers (ep_Backend c) calls \<and> marshals marshal \<longrightarrow> fst (sent w) = 200))"
proof -
  have valid: "valid_service (pe_cfg penv) s" by (rule parsed_valid [OF parsed])
  have c: "c \<in> set (sc_Endpoints s)" by (simp add: route(1))
  have backends: "\<forall>b \<in> set (ep_Backend c). http_backend b"
    using http(2) valid_decoder(2) [OF valid c _ http(3,4)] by (simp add: http_backend_def del: wf_json.simps(2))
  then have calm: "\<forall>b \<in> set (ep_Backend c). \<forall>q. rURL q \<noteq> None \<longrightarrow> answering (fe_backendFactory fenv b q)"
    unfolding http(1) using http_answering by blast
  obtain p calls resp err r' where p: "defaultFactory_New fenv c = Made (Some p) None" "p req = PRet resp err r'"
    and called: "chain (seq_passed show_v show_f repls (extract r)) (seq_called fenv c r req) 0 None (ep_Backend c) calls"
    and res: "chain_merged (map snd calls) resp err"
    by (rule sequence_call [OF valid c sequence lists client(2,3) host calm])
  have chain: "chain (seq_passed show_v show_f repls (extract r)) (http_called (env_json (pe_cfg penv)) he fenv c r req) 0 None (ep_Backend c) calls"
    by (rule chain_weaken [OF called], rule seq_called_http) (simp_all add: http(1) backends http(4) valid_decoder(1) [OF valid c _ http(3,4)])
  have several: "1 < length (ep_Backend c)" using sequence(1) by (simp add: sequential_endpoint_def)
  let ?g = "CustomEndpointHandler marshal (initRenderRegister marshal) shp don extract c p"
  let ?w0 = "\<lambda>i. Header_Set KrakendHeaderName KrakendHeaderValue (new_writer i)"
  let ?respond = "\<lambda>i. respond DefaultToHTTPError (getRender marshal (initRenderRegister marshal) c) c resp (ctx_error don err) (?w0 i)"
  have "lookup e (endpoint_key c) = Some ?g" by (rule run_reaches [OF run route(1) p(1) route(2,3)])
  moreover have "?g r (new_writer i) = answered marshal (initRenderRegister marshal) don c (PRet resp err req) (new_writer i)" for i
    by (rule handler_answers) (use client p(2) in simp_all)
  then have handled: "?g r (new_writer i) = ?respond i" for i by simp
  have "ep_OutputEncoding c \<noteq> NOOP" using valid c several by (auto simp: valid_service_def valid_endpoint_def list_all_iff)
  then have render: "render_name c \<noteq> NOOP" using several by (intro merged_render) simp_all
  have "\<exists>w. ?g r (new_writer i) = Ret w" if "snd (snd (hd calls)) = None" for i
  proof -
    have "calls \<noteq> []" using chain_outcomes [OF chain] several by auto
    then have "err = newMergeError (errs (map snd calls))" using res that by (simp add: chain_merged_def hd_map)
    then have "answers (?respond i)" by (intro answers_respond [OF render]) (auto simp: ctx_error_def)
    then show ?thesis unfolding handled by (auto simp: answers_def)
  qed
  moreover have "completed w = (if chain_delivers (ep_Backend c) calls \<and> (i \<longrightarrow> fst (sent w) = 200)
        then HeaderCompleteResponseValue else HeaderIncompleteResponseValue) \<and>
      (chain_delivers (ep_Backend c) calls \<and> marshals marshal \<longrightarrow> fst (sent w) = 200)"
    if "?g r (new_writer i) = Ret w" for i w
  proof -
    have told: "complete_data resp \<longleftrightarrow> chain_delivers (ep_Backend c) calls"
      unfolding complete_data_def chain_delivers_def by (rule chain_complete [OF called several res])
    have "wIntercept (?w0 i) = i" by (simp add: new_writer_def)
    then show ?thesis using respond_completed [OF that [unfolded handled] render] unfolding told by simp
  qed
  ultimately show ?thesis
    using chain client(1) by (intro exI [of _ ?g] exI [of _ calls]) (simp add: endpoint_key_def)
qed

subsection \<open>A sample\<close>

definition sequence_http_fenv :: "unit factory_env" where
  "sequence_http_fenv = sequence_fenv\<lparr>fe_backendFactory := http_factory http_sample\<rparr>"

definition sequence_http_parser :: parser_env where
  "sequence_http_parser = sequence_parser\<lparr>pe_cfg := pe_cfg http_parser\<rparr>"

lemma sequence_http_ready:
  "sequence_ready (Parse sequence_http_parser ''k.json'')" "http_ready (Parse sequence_http_parser ''k.json'')"
  by code_simp+

text \<open>A chain whose backends all deliver is walked to its end.\<close>

definition good_outcome :: "outcome \<Rightarrow> bool" where
  "good_outcome oc \<longleftrightarrow> (\<exists>d. oc = (Some d, None) \<and> whole d \<and> entries (Data d) \<noteq> [])"

lemma good_chain:
  "chain passed called i prev bs calls \<Longrightarrow> (\<And>b ps oc. b \<in> set bs \<Longrightarrow> called b ps oc \<Longrightarrow> good_outcome oc) \<Longrightarrow>
   length calls = length bs \<and> (\<forall>oc \<in> snd ` set calls. good_outcome oc)"
proof (induction passed called i prev bs calls rule: chain.induct)
  case (3 passed called i prev b bs ps oc calls)
  then have "called b ps oc" by simp
  then have "good_outcome oc" using 3(3) [of b ps oc] by simp
  then have "complete_part oc" by (auto simp: good_outcome_def whole_def complete_part_def)
  moreover have "chain passed called (Suc i) (fst oc) bs calls" using 3(2) calculation by simp
  then have "length calls = length bs \<and> (\<forall>oc \<in> snd ` set calls. good_outcome oc)"
    by (rule 3(1) [OF calculation]) (rule 3(3) [OF list.set_intros(2)])
  ultimately show ?case using \<open>good_outcome oc\<close> by simp
qed simp_all

lemma sample_http_called:
  assumes "http_called (env_json (pe_cfg http_parser)) http_sample sequence_http_fenv c r req b ps oc"
    and "\<forall>q. rURL q \<noteq> None \<longrightarrow> (\<exists>d. http_delivers (env_json (pe_cfg http_parser)) http_sample b q d \<and> entries (Data d) \<noteq> [])"
  shows "good_outcome oc"
proof -
  obtain u q where q: "client_call c b r (req\<lparr>rParams := Some ps\<rparr>) u q" "\<forall>d. oc = (Some d, None) \<and> IsComplete d \<longleftrightarrow> http_delivers (env_json (pe_cfg http_parser)) http_sample b q d"
    using assms(1) by (auto simp: http_called_def backend_url_def sequence_http_fenv_def sequence_fenv_def sample_fenv_def)
  obtain d where d: "http_delivers (env_json (pe_cfg http_parser)) http_sample b q d" "entries (Data d) \<noteq> []" using assms(2) client_call_url [OF q(1)] by blast
  have "Data d \<noteq> None" using d(2) by (cases "Data d") simp_all
  then show ?thesis using q(2) d by (auto simp: good_outcome_def whole_def)
qed

lemma sequence_completed_witness:
  "\<exists>s e g w. Parse sequence_http_parser ''k.json'' = Ret (Inr s) \<and>
     adapter_Run (\<lambda>p m h e. Ret (engine_Handle e p m h)) (defaultFactory_New sequence_http_fenv)
       (CustomEndpointHandler (\<lambda>v. Inr ''js'') (initRenderRegister (\<lambda>v. Inr ''js'')) (\<lambda>_. None) False NoopParamExtractor)
       mux_DefaultFactory HealthHandler HealthHandler s DefaultEngine = Ret e \<and>
     engine_lookup e (''/users'', ''GET'') = Some g \<and>
     g gateway_client (new_writer True) = Ret w \<and> completed w = ''true''"
proof -
  let ?handle = "\<lambda>p m h e. Ret (engine_Handle e p m h)"
  let ?hf = "CustomEndpointHandler (\<lambda>v. Inr ''js'') (initRenderRegister (\<lambda>v. Inr ''js'')) (\<lambda>_. None) False NoopParamExtractor"
  obtain s c b1 b2 where s: "Parse sequence_http_parser ''k.json'' = Ret (Inr s)" "\<not> sc_Debug s" "\<not> sc_Echo s" "sc_Endpoints s = [c]"
    and c: "ep_Backend c = [b1, b2]" "sequential_endpoint sequence_fenv c" "sequentialMergerConfig c = Ret [[], [id_replacement]]"
      "ep_Endpoint c = ''/users''" "to_upper (ep_Method c) = ''GET''" "ep_QueryString c = [''q'']" "ep_HeadersToPass c = [''X-Token'']"
    and b: "filtered_backend b1" "filtered_backend b2"
    by (rule sequence_parsed [OF sequence_http_ready(1)]) blast
  have sequence: "sequential_endpoint sequence_http_fenv c" using c(2) by (simp add: sequence_http_fenv_def sequential_endpoint_def)
  have fb: "\<forall>b \<in> set (ep_Backend c). filtered_backend b" by (simp add: c(1) b)
  have "ep_ConcurrentCalls c \<le> 1" using c(2) by (simp add: sequential_endpoint_def bare_endpoint_def)
  then have conc: "\<forall>b \<in> set (ep_Backend c). filtered_backend b \<and> be_ConcurrentCalls b \<le> 1"
    using fb valid_concurrency [OF parsed_valid [OF s(1)]] s(4) by simp
  have mg: "me_mergers (fe_merge sequence_http_fenv) = mergers (default_sequential (\<lambda>_. False) (ECtx []) (\<lambda>_. []) (\<lambda>_. []))
      (\<lambda>cl t rc fs ps r. PRet None None r)"
    by (simp add: sequence_http_fenv_def sequence_fenv_def)
  obtain e where e: "adapter_Run ?handle (defaultFactory_New sequence_http_fenv) ?hf mux_DefaultFactory HealthHandler HealthHandler s DefaultEngine = Ret e"
    using sequence_built [OF sequence c(3) conc mg] run_built [OF s(4) _ s(2,3)] by blast
  have route: "sc_Endpoints s = [] @ c # []" using s by simp
  have m: "to_upper (ep_Method c) \<in> set router_methods" by (simp add: c router_methods_def)
  have eh: "endpoint_headers c = [''X-Token'']" by (simp add: endpoint_headers_def c)
  have nobody: "hiBody gateway_client = None" and get: "hiMethod gateway_client = ''GET''" by (simp_all add: gateway_client_def)
  have cfg: "pe_cfg sequence_http_parser = pe_cfg http_parser" by (simp add: sequence_http_parser_def)
  then have valid: "valid_service (pe_cfg http_parser) s" using parsed_valid [OF s(1)] by simp
  note delivers = http_sample_delivers [OF sequence_http_ready(2) [unfolded s(1)] s(4) _ valid]
  let ?req = "NewRequestBuilder (\<lambda>_. None) NoopParamExtractor gateway_client (ep_QueryString c) (endpoint_headers c)"
  have "\<exists>g calls. engine_lookup e (ep_Endpoint c, hiMethod gateway_client) = Some g \<and>
    chain (seq_passed (\<lambda>_. []) (\<lambda>_. []) [[], [id_replacement]] (NoopParamExtractor gateway_client))
      (http_called (env_json (pe_cfg http_parser)) http_sample sequence_http_fenv c gateway_client ?req) 0 None (ep_Backend c) calls \<and>
    (snd (snd (hd calls)) = None \<longrightarrow> (\<forall>i. \<exists>w. g gateway_client (new_writer i) = Ret w)) \<and>
    (\<forall>i w. g gateway_client (new_writer i) = Ret w \<longrightarrow>
       completed w = (if chain_delivers (ep_Backend c) calls \<and> (i \<longrightarrow> fst (sent w) = 200)
         then HeaderCompleteResponseValue else HeaderIncompleteResponseValue) \<and>
       (chain_delivers (ep_Backend c) calls \<and> marshals (\<lambda>v. Inr ''js'') \<longrightarrow> fst (sent w) = 200))"
    unfolding cfg [symmetric]
    by (rule sequence_completed [OF s(1) basic_engine.route_engine_axioms e route m _ sequence fb mg c(3)])
      (simp_all add: requestParamsAsterisk_def eh delivers sequence_http_fenv_def sequence_fenv_def sample_fenv_def NoopParamExtractor_def
        sequence_http_parser_def http_parser_def default_env_def nobody get c(5,6))
  then obtain g calls where g: "engine_lookup e (''/users'', ''GET'') = Some g"
    and chain: "chain (seq_passed (\<lambda>_. []) (\<lambda>_. []) [[], [id_replacement]] (NoopParamExtractor gateway_client))
      (http_called (env_json (pe_cfg http_parser)) http_sample sequence_http_fenv c gateway_client ?req) 0 None (ep_Backend c) calls"
    and returns: "snd (snd (hd calls)) = None \<longrightarrow> (\<forall>i. \<exists>w. g gateway_client (new_writer i) = Ret w)"
    and told: "\<forall>i w. g gateway_client (new_writer i) = Ret w \<longrightarrow>
       completed w = (if chain_delivers (ep_Backend c) calls \<and> (i \<longrightarrow> fst (sent w) = 200)
         then HeaderCompleteResponseValue else HeaderIncompleteResponseValue) \<and>
       (chain_delivers (ep_Backend c) calls \<and> marshals (\<lambda>v. Inr ''js'') \<longrightarrow> fst (sent w) = 200)"
    unfolding c(4) get by (elim exE conjE) (rule that, assumption+)
  have good: "length calls = length (ep_Backend c)" "\<forall>oc \<in> snd ` set calls. good_outcome oc"
    using good_chain [OF chain] sample_http_called delivers by blast+
  then have "calls \<noteq> []" by (auto simp: c(1))
  then have hd: "hd calls \<in> set calls" by simp
  then have "good_outcome (snd (hd calls))" using good(2) by blast
  then obtain w where w: "g gateway_client (new_writer True) = Ret w" using returns unfolding good_outcome_def by fastforce
  have "chain_delivers (ep_Backend c) calls" using good hd unfolding chain_delivers_def good_outcome_def by (simp del: ex_simps) blast
  then have "completed w = HeaderCompleteResponseValue" using told w by (simp add: marshals_def)
  then show ?thesis using s(1) e g w by (auto simp: HeaderCompleteResponseValue_def)
qed

end
