(* ===== verification/Sharing.thy ===== *)
theory Sharing
  imports Factory
begin

section \<open>Requests whose maps and readers are shared (\<open>proxy/request.go\<close> and the backend stack)\<close>

text \<open>
  A Go request struct holds references: the header map, the query map, the parameter map and the body
  reader.  \<open>Clone\<close> copies the struct only, \<open>CloneRequest\<close> also the header and parameter maps and the
  body, and some middlewares write through the references.  Here the maps and readers live in a store,
  the middlewares of a backend's stack are steps on a struct of references and the store, and each step
  is shown to implement the one on values the other theories use.
\<close>

subsection \<open>Store and structs\<close>

record store =
  stMaps :: "nat \<Rightarrow> (string, string list) gomap"
  stParams :: "nat \<Rightarrow> (string, string) gomap"
  stReaders :: "nat \<Rightarrow> string"
  stNext :: nat

text \<open>An address is used for one thing only: what is allocated next is \<open>stNext\<close>, whatever its kind.\<close>

record sreq =
  sMethod :: string
  sURL :: "url option"
  sQuery :: "nat option"
  sPath :: string
  sBody :: "nat option"
  sParams :: "nat option"
  sHeaders :: "nat option"

definition deref :: "store \<Rightarrow> sreq \<Rightarrow> request" where
  "deref st q =
     \<lparr>rMethod = sMethod q, rURL = sURL q, rQuery = map_option (stMaps st) (sQuery q), rPath = sPath q,
      rBody = map_option (stReaders st) (sBody q), rParams = map_option (stParams st) (sParams q),
      rHeaders = map_option (stMaps st) (sHeaders q)\<rparr>"

definition new_map :: "(string, string list) gomap \<Rightarrow> store \<Rightarrow> nat \<times> store" where
  "new_map m st = (stNext st, st\<lparr>stMaps := (stMaps st)(stNext st := m), stNext := Suc (stNext st)\<rparr>)"

definition new_params :: "(string, string) gomap \<Rightarrow> store \<Rightarrow> nat \<times> store" where
  "new_params m st = (stNext st, st\<lparr>stParams := (stParams st)(stNext st := m), stNext := Suc (stNext st)\<rparr>)"

definition new_reader :: "string \<Rightarrow> store \<Rightarrow> nat \<times> store" where
  "new_reader b st = (stNext st, st\<lparr>stReaders := (stReaders st)(stNext st := b), stNext := Suc (stNext st)\<rparr>)"

definition set_map :: "nat \<Rightarrow> (string, string list) gomap \<Rightarrow> store \<Rightarrow> store" where
  "set_map a m st = st\<lparr>stMaps := (stMaps st)(a := m)\<rparr>"

text \<open>Reading a body to its end leaves its reader empty.\<close>

definition drain :: "nat option \<Rightarrow> store \<Rightarrow> store" where
  "drain b st = (case b of None \<Rightarrow> st | Some a \<Rightarrow> st\<lparr>stReaders := (stReaders st)(a := [])\<rparr>)"

lemmas store_defs = new_map_def new_params_def new_reader_def set_map_def drain_def

definition refs :: "sreq \<Rightarrow> nat set" where
  "refs q = set_option (sQuery q) \<union> set_option (sBody q) \<union> set_option (sParams q) \<union> set_option (sHeaders q)"

text \<open>Everything a request refers to is allocated, and its header and query maps are two.\<close>

definition wf_sreq :: "store \<Rightarrow> sreq \<Rightarrow> bool" where
  "wf_sreq st q \<longleftrightarrow> (\<forall>a \<in> refs q. a < stNext st) \<and> (sHeaders q \<noteq> None \<longrightarrow> sHeaders q \<noteq> sQuery q)"

subsection \<open>The copies\<close>

definition s_Clone :: "(url \<Rightarrow> url option) \<Rightarrow> sreq \<Rightarrow> sreq" where
  "s_Clone reparse q = q\<lparr>sURL := Option.bind (sURL q) reparse\<rparr>"

text \<open>The query map stays shared.  The result is the copy, the original and the store.\<close>

definition s_CloneRequest :: "(url \<Rightarrow> url option) \<Rightarrow> sreq \<Rightarrow> store \<Rightarrow> sreq \<times> sreq \<times> store" where
  "s_CloneRequest reparse q st =
     (let (h, st) = new_map (CloneRequestHeaders (map_option (stMaps st) (sHeaders q))) st;
          (p, st) = new_params (CloneRequestParams (map_option (stParams st) (sParams q))) st;
          clone = (s_Clone reparse q)\<lparr>sHeaders := Some h, sParams := Some p\<rparr>
      in case sBody q of
           None \<Rightarrow> (clone, q, st)
         | Some a \<Rightarrow>
             (let data = stReaders st a; st = drain (Some a) st;
                  (originalBody, st) = new_reader data st;
                  (clonedBody, st) = new_reader data st
              in (clone\<lparr>sBody := Some clonedBody\<rparr>, q\<lparr>sBody := Some originalBody\<rparr>, st)))"

lemma s_Clone_deref: "deref st (s_Clone reparse q) = Clone reparse (deref st q)"
  by (simp add: s_Clone_def Clone_def deref_def)

lemma refs_Clone [simp]: "refs (s_Clone reparse q) = refs q"
  by (simp add: s_Clone_def refs_def)

lemma map_option_upd: "x \<noteq> Some a \<Longrightarrow> map_option (f(a := b)) x = map_option f x"
  by (cases x) auto

text \<open>The copy has the values of the value-level copy; only its query map belongs to others as well.\<close>

lemma s_CloneRequest_spec:
  assumes "wf_sreq st q" and "s_CloneRequest reparse q st = (copy, q', st')"
  shows "deref st' copy = fst (CloneRequest reparse (deref st q))"
    and "deref st' q' = snd (CloneRequest reparse (deref st q))"
    and "wf_sreq st' copy" and "wf_sreq st' q'" and "stNext st \<le> stNext st'"
    and "refs copy \<subseteq> set_option (sQuery q) \<union> {stNext st..<stNext st'}" and "sQuery copy = sQuery q"
    and "refs q' \<subseteq> refs q \<union> {stNext st..<stNext st'}" and "sQuery q' = sQuery q"
    and "(refs copy - set_option (sQuery q)) \<inter> refs q' = {}"
    and "\<forall>a < stNext st. stMaps st' a = stMaps st a \<and> stParams st' a = stParams st a \<and>
      (Some a \<noteq> sBody q \<longrightarrow> stReaders st' a = stReaders st a)"
proof -
  have old: "\<forall>a \<in> refs q. a < stNext st" using assms(1) by (simp add: wf_sreq_def)
  have F: "f q \<noteq> Some (stNext st)" "f q \<noteq> Some (Suc (stNext st))" "f q \<noteq> Some (Suc (Suc (stNext st)))"
    "f q \<noteq> Some (Suc (Suc (Suc (stNext st))))" if "f \<in> {sQuery, sBody, sParams, sHeaders}" for f
    using old that by (auto simp: refs_def)
  note D = s_CloneRequest_def s_Clone_def store_defs Let_def
  note V = deref_def CloneRequest_def Clone_def map_option_upd
  note F = F [of sQuery, simplified] F [of sBody, simplified] F [of sParams, simplified] F [of sHeaders, simplified]
  have "deref (snd (snd (s_CloneRequest reparse q st))) (fst (s_CloneRequest reparse q st)) = fst (CloneRequest reparse (deref st q))"
    and "deref (snd (snd (s_CloneRequest reparse q st))) (fst (snd (s_CloneRequest reparse q st))) = snd (CloneRequest reparse (deref st q))"
    using F by (cases "sBody q"; simp add: D V)+
  then show "deref st' copy = fst (CloneRequest reparse (deref st q))"
    and "deref st' q' = snd (CloneRequest reparse (deref st q))"
    by (simp_all add: assms(2))
  show "stNext st \<le> stNext st'" using assms(2) by (cases "sBody q") (auto simp: D)
  show "refs copy \<subseteq> set_option (sQuery q) \<union> {stNext st..<stNext st'}" and "sQuery copy = sQuery q"
    using assms(2) by (cases "sBody q"; auto simp: D refs_def)+
  show "refs q' \<subseteq> refs q \<union> {stNext st..<stNext st'}" and "sQuery q' = sQuery q"
    using assms(2) by (cases "sBody q"; auto simp: D refs_def)+
  show "\<forall>a < stNext st. stMaps st' a = stMaps st a \<and> stParams st' a = stParams st a \<and>
      (Some a \<noteq> sBody q \<longrightarrow> stReaders st' a = stReaders st a)"
    using assms(2) by (cases "sBody q") (auto simp: D)
  show "wf_sreq st' copy"
    using assms(2) old F by (cases "sBody q") (auto simp: D wf_sreq_def refs_def)
  show "wf_sreq st' q'"
    using assms by (cases "sBody q") (auto simp: D wf_sreq_def refs_def)
  show "(refs copy - set_option (sQuery q)) \<inter> refs q' = {}"
    using assms(2) F by (cases "sBody q") (auto simp: D refs_def)
qed


lemma s_CloneRequest_fresh:
  assumes "s_CloneRequest reparse q st = (copy, q', st')"
  shows "set_option (sHeaders copy) \<union> set_option (sBody copy) \<subseteq> {stNext st..}" and "set_option (sBody q') \<subseteq> {stNext st..}"
  using assms by (cases "sBody q"; auto simp: s_CloneRequest_def s_Clone_def store_defs Let_def)+

text \<open>Of the cells there were it empties the body's reader only.\<close>

definition body_cell :: "sreq \<Rightarrow> store \<Rightarrow> nat set" where
  "body_cell q st = {a. sBody q = Some a \<and> stReaders st a \<noteq> []}"

definition same_cell :: "store \<Rightarrow> store \<Rightarrow> nat \<Rightarrow> bool" where
  "same_cell st st' a \<longleftrightarrow> stMaps st' a = stMaps st a \<and> stParams st' a = stParams st a \<and> stReaders st' a = stReaders st a"

lemma s_CloneRequest_drains:
  "s_CloneRequest reparse q st = (copy, q', st') \<Longrightarrow> a < stNext st \<Longrightarrow> a \<notin> body_cell q st \<Longrightarrow> same_cell st st' a"
  by (cases "sBody q") (auto simp: s_CloneRequest_def store_defs Let_def body_cell_def same_cell_def)

lemma CloneRequest_keeps: "snd (CloneRequest reparse r) = r"
  by (cases r) (simp add: CloneRequest_def Let_def split: option.split)

subsection \<open>The steps of a stack\<close>

text \<open>What a middleware does with a request before it calls the next proxy: hand it on, refuse, or panic.\<close>

datatype 'r handed = Hand 'r | Refuse gerror | Crash string

fun handed_bind :: "'r handed \<Rightarrow> ('r \<Rightarrow> 's handed) \<Rightarrow> 's handed" where
  "handed_bind (Hand r) f = f r"
| "handed_bind (Refuse e) f = Refuse e"
| "handed_bind (Crash p) f = Crash p"

datatype step =
    FilterQuery "string list"
  | BuildRequest Backend
  | Balance "string \<Rightarrow> gerror + url" "(gerror + string) run"
  | FilterHeaders "string list"
  | GraphQL gql_env gql_options extractor

fun value_step :: "step \<Rightarrow> request \<Rightarrow> request handed" where
  "value_step (FilterQuery names) r =
     (let qs = entries (rQuery r) in
      if qs = [] \<or> count_present names qs = length qs then Hand r
      else Hand (r\<lparr>rQuery := Some (pick_present names qs [])\<rparr>))"
| "value_step (BuildRequest b) r = Hand ((GeneratePath (be_URLPattern b) r)\<lparr>rMethod := be_Method b\<rparr>)"
| "value_step (Balance parse host) r =
     (case host of
        Panic e \<Rightarrow> Crash e
      | Ret (Inl err) \<Rightarrow> Refuse err
      | Ret (Inr h) \<Rightarrow>
          (case parse (h @ rPath r) of Inl err \<Rightarrow> Refuse err | Inr u \<Rightarrow> Hand (r\<lparr>rURL := Some (add_query r u)\<rparr>)))"
| "value_step (FilterHeaders names) r =
     (let hs = entries (rHeaders r) in
      if hs = [] \<or> count_present names hs = length hs then Hand r
      else Hand (r\<lparr>rHeaders := Some (pick_present names hs [])\<rparr>))"
| "value_step (GraphQL env opt e) r =
     (if go_Method opt = ''GET'' then
        (case generateQuery env (go_Type opt) e r of
           Panic p \<Rightarrow> Crash p
         | Ret (Inl err) \<Rightarrow> Refuse err
         | Ret (Inr q) \<Rightarrow>
             (case with_content (go_Method opt) [] r of Panic p \<Rightarrow> Crash p | Ret r' \<Rightarrow> Hand (merged_query q r')))
      else
        (case generateBody env (go_Type opt) e r of
           Panic p \<Rightarrow> Crash p
         | Ret (Inl err) \<Rightarrow> Refuse err
         | Ret (Inr b) \<Rightarrow> (case with_content (go_Method opt) b r of Panic p \<Rightarrow> Crash p | Ret r' \<Rightarrow> Hand r')))"

fun value_steps :: "step list \<Rightarrow> request \<Rightarrow> request handed" where
  "value_steps [] r = Hand r"
| "value_steps (s # ss) r = handed_bind (value_step s r) (value_steps ss)"

text \<open>The same steps as proxies, and the answer of a stack whose steps end like this.\<close>

fun mw_of :: "step \<Rightarrow> proxy \<Rightarrow> proxy" where
  "mw_of (FilterQuery names) = filter_query names"
| "mw_of (BuildRequest b) = build_request b"
| "mw_of (Balance parse host) = balanced parse host"
| "mw_of (FilterHeaders names) = filter_headers names"
| "mw_of (GraphQL env opt e) = (if go_Method opt = ''GET'' then graphql_get env opt e else graphql_post env opt e)"

fun through :: "request handed \<Rightarrow> proxy \<Rightarrow> request \<Rightarrow> pres" where
  "through (Hand r) next r0 = for_caller r0 (next r)"
| "through (Refuse e) next r0 = PRet None (Some e) r0"
| "through (Crash p) next r0 = PPanic p"

lemma for_caller_idem [simp]: "for_caller r0 (for_caller r p) = for_caller r0 p"
  by (cases p) simp_all

lemma mw_of_step: "for_caller r0 (mw_of s next r) = through (value_step s r) next r0"
  by (cases s)
    (auto simp: filter_query_def filter_headers_def build_request_def balanced_def graphql_get_def graphql_post_def Let_def
      split: run.split sum.split)

lemma mw_of_steps: "for_caller r0 (foldr mw_of ss leaf r) = through (value_steps ss r) leaf r0"
proof (induction ss arbitrary: r)
  case (Cons s ss)
  show ?case
  proof (cases "value_step s r")
    case (Hand r')
    then show ?thesis using Cons by (simp add: mw_of_step)
  qed (simp_all add: mw_of_step)
qed simp

text \<open>The steps of a backend's stack in the order a request passes them.\<close>

definition graphql_steps :: "gql_env \<Rightarrow> Backend \<Rightarrow> step list run" where
  "graphql_steps env remote =
     (case GetOptions env (be_ExtraConfig remote) of
        Inl err \<Rightarrow> Ret []
      | Inr opt \<Rightarrow> run_bind (gql_New env opt) (\<lambda>e.
          Ret (if go_Type opt \<noteq> ''mutation'' \<and> go_Type opt \<noteq> ''query'' then [] else [GraphQL env opt e])))"

definition backend_steps :: "'t factory_env \<Rightarrow> Backend \<Rightarrow> step list run" where
  "backend_steps env b =
     run_bind (graphql_steps (fe_graphql env) b) (\<lambda>gql.
       Ret ((if be_QueryStringsToPass b = [] then [] else [FilterQuery (be_QueryStringsToPass b)]) @
            [BuildRequest b, Balance (fe_parse_url env) (fe_host env b)] @
            (if be_HeadersToPass b = [] then [] else [FilterHeaders (be_HeadersToPass b)]) @ gql))"

text \<open>A backend without plugins whose calls are not replicated.\<close>

definition stepwise :: "Backend \<Rightarrow> bool" where
  "stepwise b \<longleftrightarrow> get_as as_obj (be_ExtraConfig b) plugin_Namespace = None \<and> be_ConcurrentCalls b \<le> 1"

lemma newStack_steps:
  assumes "stepwise b" and "backend_steps env b = Ret ss"
  shows "newStack env b = Built (foldr mw_of ss (fe_backendFactory env b))"
  using assms
  by (auto simp: stepwise_def newStack_def stack_run_def NewBackendPluginMiddleware_def NewGraphQLMiddleware_def
      NewFilterHeadersMiddleware_def newLoadBalancedMiddleware_def newRequestBuilderMiddleware_def
      NewFilterQueryStringsMiddleware_def wrap_first_def Let_def backend_steps_def graphql_steps_def run_bind_Ret_iff
      split: sum.splits if_splits)


subsection \<open>The steps on the store\<close>

text \<open>\<open>req.Body = ...\<close>, \<open>req.Method = ...\<close> and the two headers stored into the map the struct refers to.\<close>

definition s_content :: "string \<Rightarrow> string \<Rightarrow> sreq \<Rightarrow> store \<Rightarrow> sreq handed \<times> store" where
  "s_content method body q st =
     (case sHeaders q of
        None \<Rightarrow> (Crash ''assignment to entry in nil map'', st)
      | Some h \<Rightarrow>
          (let (b, st) = new_reader body st;
               st = set_map h (go_put ''Content-Type'' [''application/json'']
                      (go_put ''Content-Length'' [show_nat (length body)] (stMaps st h))) st
           in (Hand (q\<lparr>sBody := Some b, sMethod := method\<rparr>), st)))"

text \<open>\<open>req.Query.Add\<close> for every value, or the new values when the query is nil.\<close>

definition s_merge_query :: "url_values \<Rightarrow> sreq handed \<times> store \<Rightarrow> sreq handed \<times> store" where
  "s_merge_query vs hst =
     (case hst of
        (Hand q, st) \<Rightarrow>
          (case sQuery q of
             Some m \<Rightarrow> (Hand q, set_map m (add_values vs (stMaps st m)) st)
           | None \<Rightarrow> (case new_map vs st of (m, st) \<Rightarrow> (Hand (q\<lparr>sQuery := Some m\<rparr>), st)))
      | _ \<Rightarrow> hst)"

definition s_graphql :: "gql_env \<Rightarrow> gql_options \<Rightarrow> extractor \<Rightarrow> sreq \<Rightarrow> store \<Rightarrow> sreq handed \<times> store" where
  "s_graphql env opt e q st =
     (let used = (if go_Type opt = ''mutation'' then drain (sBody q) st else st) in
      if go_Method opt = ''GET'' then
        (case generateQuery env (go_Type opt) e (deref st q) of
           Panic p \<Rightarrow> (Crash p, used)
         | Ret (Inl err) \<Rightarrow> (Refuse err, used)
         | Ret (Inr vs) \<Rightarrow> s_merge_query vs (s_content (go_Method opt) [] q used))
      else
        (case generateBody env (go_Type opt) e (deref st q) of
           Panic p \<Rightarrow> (Crash p, used)
         | Ret (Inl err) \<Rightarrow> (Refuse err, used)
         | Ret (Inr b) \<Rightarrow> s_content (go_Method opt) b q used))"

text \<open>The filters put a new map into the struct when there is something to leave out.\<close>

definition s_filter_query :: "string list \<Rightarrow> sreq \<Rightarrow> store \<Rightarrow> sreq handed \<times> store" where
  "s_filter_query names q st =
     (let qs = entries (map_option (stMaps st) (sQuery q)) in
      if qs = [] \<or> count_present names qs = length qs then (Hand q, st)
      else (case new_map (pick_present names qs []) st of (a, st) \<Rightarrow> (Hand (q\<lparr>sQuery := Some a\<rparr>), st)))"

definition s_filter_headers :: "string list \<Rightarrow> sreq \<Rightarrow> store \<Rightarrow> sreq handed \<times> store" where
  "s_filter_headers names q st =
     (let hs = entries (map_option (stMaps st) (sHeaders q)) in
      if hs = [] \<or> count_present names hs = length hs then (Hand q, st)
      else (case new_map (pick_present names hs []) st of (a, st) \<Rightarrow> (Hand (q\<lparr>sHeaders := Some a\<rparr>), st)))"

definition s_build_request :: "Backend \<Rightarrow> sreq \<Rightarrow> store \<Rightarrow> sreq handed \<times> store" where
  "s_build_request b q st =
     (Hand (q\<lparr>sPath := rPath (GeneratePath (be_URLPattern b) (deref st q)), sMethod := be_Method b\<rparr>), st)"

definition s_balance :: "(string \<Rightarrow> gerror + url) \<Rightarrow> (gerror + string) run \<Rightarrow> sreq \<Rightarrow> store \<Rightarrow> sreq handed \<times> store" where
  "s_balance parse host q st =
     (case host of
        Panic e \<Rightarrow> (Crash e, st)
      | Ret (Inl err) \<Rightarrow> (Refuse err, st)
      | Ret (Inr h) \<Rightarrow>
          (case parse (h @ sPath q) of
             Inl err \<Rightarrow> (Refuse err, st)
           | Inr u \<Rightarrow> (Hand (q\<lparr>sURL := Some (add_query (deref st q) u)\<rparr>), st)))"

fun exec_step :: "step \<Rightarrow> sreq \<Rightarrow> store \<Rightarrow> sreq handed \<times> store" where
  "exec_step (FilterQuery names) q st = s_filter_query names q st"
| "exec_step (BuildRequest b) q st = s_build_request b q st"
| "exec_step (Balance parse host) q st = s_balance parse host q st"
| "exec_step (FilterHeaders names) q st = s_filter_headers names q st"
| "exec_step (GraphQL env opt e) q st = s_graphql env opt e q st"

lemmas s_step_defs = s_filter_query_def s_filter_headers_def s_build_request_def s_balance_def

text \<open>What a step may write to of what was there before: draining an empty reader changes nothing.\<close>

fun writes :: "step \<Rightarrow> sreq \<Rightarrow> store \<Rightarrow> nat set" where
  "writes (GraphQL env opt e) q st =
     set_option (sHeaders q) \<union> (if go_Method opt = ''GET'' then set_option (sQuery q) else {}) \<union>
     (if go_Type opt = ''mutation'' then body_cell q st else {})"
| "writes _ q st = {}"

text \<open>A field of the struct a step leaves is the old reference or one to something new.\<close>

definition kept_or_new :: "store \<Rightarrow> store \<Rightarrow> nat option \<Rightarrow> nat option \<Rightarrow> bool" where
  "kept_or_new st st' x x' \<longleftrightarrow> x' = x \<or> (\<exists>a. x' = Some a \<and> stNext st \<le> a \<and> a < stNext st')"

definition evolves :: "store \<Rightarrow> store \<Rightarrow> sreq \<Rightarrow> sreq \<Rightarrow> bool" where
  "evolves st st' q q' \<longleftrightarrow>
     kept_or_new st st' (sQuery q) (sQuery q') \<and> kept_or_new st st' (sBody q) (sBody q') \<and>
     kept_or_new st st' (sParams q) (sParams q') \<and> kept_or_new st st' (sHeaders q) (sHeaders q')"

lemma exec_step_frame:
  assumes "exec_step s q st = (h, st')"
  shows "stNext st \<le> stNext st'" and "a < stNext st \<Longrightarrow> a \<notin> writes s q st \<Longrightarrow> same_cell st st' a"
    and "h = Hand q' \<Longrightarrow> evolves st st' q q'"
  using assms
  by (cases s; force simp: Let_def store_defs s_step_defs same_cell_def evolves_def kept_or_new_def s_graphql_def s_content_def
      s_merge_query_def body_cell_def split: if_splits run.splits sum.splits option.splits)+


lemma deref_sel [simp]:
  "rQuery (deref st q) = map_option (stMaps st) (sQuery q)" "rHeaders (deref st q) = map_option (stMaps st) (sHeaders q)"
  "rParams (deref st q) = map_option (stParams st) (sParams q)" "rBody (deref st q) = map_option (stReaders st) (sBody q)"
  "rPath (deref st q) = sPath q" "rMethod (deref st q) = sMethod q" "rURL (deref st q) = sURL q"
  by (simp_all add: deref_def)

text \<open>A request whose cells are the same derefers to the same value.\<close>

lemma deref_same: "\<forall>a \<in> refs q. same_cell st st' a \<Longrightarrow> deref st' q = deref st q"
  by (cases "sQuery q"; cases "sHeaders q"; cases "sParams q"; cases "sBody q")
    (auto simp: deref_def refs_def same_cell_def)

lemma evolves_refs: "evolves st st' q q' \<Longrightarrow> refs q' \<subseteq> refs q \<union> {stNext st..}"
  by (auto simp: evolves_def kept_or_new_def refs_def)

lemma s_content_sim:
  assumes "wf_sreq st q" and "s_content m b q st = (h, st')"
  shows "(case with_content m b (deref st q) of Panic p \<Rightarrow> Crash p | Ret r \<Rightarrow> Hand r) = map_handed (deref st') h \<and>
    (\<forall>q'. h = Hand q' \<longrightarrow> wf_sreq st' q')"
proof (cases "sHeaders q")
  case None
  then show ?thesis using assms by (auto simp: s_content_def with_content_def)
next
  case (Some a)
  have ne: "sQuery q \<noteq> Some a" using assms(1) Some by (auto simp: wf_sreq_def)
  have old: "\<forall>x \<in> refs q. x < stNext st" using assms(1) by (simp add: wf_sreq_def)
  have h: "h = Hand (q\<lparr>sBody := Some (stNext st), sMethod := m\<rparr>)"
    "st' = st\<lparr>stReaders := (stReaders st)(stNext st := b), stNext := Suc (stNext st),
       stMaps := (stMaps st)(a := go_put ''Content-Type'' [''application/json'']
                      (go_put ''Content-Length'' [show_nat (length b)] (stMaps st a)))\<rparr>"
    using assms(2) Some by (auto simp: s_content_def store_defs Let_def)
  have q: "map_option ((stMaps st)(a := x)) (sQuery q) = map_option (stMaps st) (sQuery q)" for x
    using ne by (rule map_option_upd)
  have "with_content m b (deref st q) = Ret (deref st' (q\<lparr>sBody := Some (stNext st), sMethod := m\<rparr>))"
    unfolding with_content_def h(2) by (simp add: Some) (simp add: deref_def q Some)
  moreover have "wf_sreq st' (q\<lparr>sBody := Some (stNext st), sMethod := m\<rparr>)"
    using old assms(1) by (auto simp: h(2) wf_sreq_def refs_def less_SucI)
  ultimately show ?thesis by (simp add: h(1))
qed

lemma s_merge_query_sim:
  assumes "\<forall>q. h = Hand q \<longrightarrow> wf_sreq st q" and "s_merge_query vs (h, st) = (h', st')"
  shows "map_handed (deref st') h' = handed_bind (map_handed (deref st) h) (\<lambda>r. Hand (merged_query vs r)) \<and>
    (\<forall>q'. h' = Hand q' \<longrightarrow> wf_sreq st' q')"
proof (cases h)
  case (Hand q)
  then have wf: "wf_sreq st q" using assms(1) by simp
  then have old: "\<forall>x \<in> refs q. x < stNext st" by (simp add: wf_sreq_def)
  show ?thesis
  proof (cases "sQuery q")
    case None
    have "sHeaders q \<noteq> Some (stNext st)" using old by (auto simp: refs_def)
    then show ?thesis using assms(2) Hand None old wf
      by (auto simp: s_merge_query_def store_defs merged_query_def deref_def map_option_upd wf_sreq_def refs_def less_SucI)
  next
    case (Some m)
    have "sHeaders q \<noteq> Some m" using wf Some by (auto simp: wf_sreq_def)
    then show ?thesis using assms(2) Hand Some old wf
      by (auto simp: s_merge_query_def store_defs merged_query_def deref_def map_option_upd wf_sreq_def refs_def)
  qed
qed (use assms(2) in \<open>auto simp: s_merge_query_def\<close>)

lemma with_content_body: "with_content m b (r\<lparr>rBody := x\<rparr>) = with_content m b r"
  by (simp add: with_content_def split: option.split)

lemma deref_drain: "deref (drain x st) q = (deref st q)\<lparr>rBody := map_option (stReaders (drain x st)) (sBody q)\<rparr>"
  by (cases x) (simp_all add: drain_def deref_def)

lemma wf_drain [simp]: "wf_sreq (drain x st) q \<longleftrightarrow> wf_sreq st q"
  by (cases x) (simp_all add: drain_def wf_sreq_def)

lemma exec_step_sim:
  assumes "wf_sreq st q" and "exec_step s q st = (h, st')"
  shows "value_step s (deref st q) = map_handed (deref st') h \<and> (\<forall>q'. h = Hand q' \<longrightarrow> wf_sreq st' q')"
proof (cases s)
  case (FilterQuery names)
  have "sHeaders q \<noteq> Some (stNext st)" "\<forall>x \<in> refs q. x < stNext st"
    using assms(1) by (auto simp: wf_sreq_def refs_def)
  then show ?thesis using assms FilterQuery
    by (auto simp: Let_def store_defs s_step_defs deref_def map_option_upd wf_sreq_def refs_def less_SucI split: if_splits)
next
  case (BuildRequest b)
  then show ?thesis using assms
    by (auto simp: s_step_defs GeneratePath_def deref_def wf_sreq_def refs_def)
next
  case (Balance parse host)
  then show ?thesis using assms
    by (auto simp: s_step_defs deref_def add_query_def wf_sreq_def refs_def split: run.splits sum.splits)
next
  case (FilterHeaders names)
  have "sQuery q \<noteq> Some (stNext st)" "\<forall>x \<in> refs q. x < stNext st"
    using assms(1) by (auto simp: wf_sreq_def refs_def)
  then show ?thesis using assms FilterHeaders
    by (auto simp: Let_def store_defs s_step_defs deref_def map_option_upd wf_sreq_def refs_def less_SucI split: if_splits)
next
  case (GraphQL env opt e)
  let ?used = "if go_Type opt = ''mutation'' then drain (sBody q) st else st"
  have wf: "wf_sreq ?used q" using assms(1) by simp
  have wc: "with_content m b (deref ?used q) = with_content m b (deref st q)" for m b
    by (simp add: deref_drain with_content_body)
  show ?thesis
  proof (cases "go_Method opt = ''GET''")
    case True
    then show ?thesis
    proof (cases "generateQuery env (go_Type opt) e (deref st q)")
      case (Ret v)
      then show ?thesis
      proof (cases v)
        case (Inr vs)
        obtain h1 st1 where c: "s_content (go_Method opt) [] q ?used = (h1, st1)" by fastforce
        note C = s_content_sim [OF wf c, unfolded wc]
        have m: "s_merge_query vs (h1, st1) = (h, st')"
          using assms(2) GraphQL True Ret Inr c by (simp add: s_graphql_def Let_def)
        have "value_step s (deref st q) = handed_bind (map_handed (deref st1) h1) (\<lambda>r. Hand (merged_query vs r))"
          unfolding C [THEN conjunct1, symmetric] using GraphQL True Ret Inr
          by (cases "with_content (go_Method opt) [] (deref st q)") simp_all
        with s_merge_query_sim [OF _ m] C show ?thesis by simp
      qed (use assms(2) GraphQL True in \<open>auto simp: s_graphql_def Let_def\<close>)
    qed (use assms(2) GraphQL in \<open>auto simp: s_graphql_def Let_def\<close>)
  next
    case False
    then show ?thesis
    proof (cases "generateBody env (go_Type opt) e (deref st q)")
      case (Ret v)
      then show ?thesis
      proof (cases v)
        case (Inr b)
        have c: "s_content (go_Method opt) b q ?used = (h, st')"
          using assms(2) GraphQL False Ret Inr by (simp add: s_graphql_def Let_def)
        show ?thesis using s_content_sim [OF wf c, unfolded wc] GraphQL False Ret Inr by simp
      qed (use assms(2) GraphQL False in \<open>auto simp: s_graphql_def Let_def\<close>)
    qed (use assms(2) GraphQL False in \<open>auto simp: s_graphql_def Let_def\<close>)
  qed
qed

end
