(* ===== verification/Interference.thy ===== *)
theory Interference
  imports Sharing
begin

section \<open>Backends called at the same time (\<open>parallelMerge\<close> of \<open>proxy/merging.go\<close>)\<close>

text \<open>
  The parallel merger starts a goroutine per backend, each with a copy of the client's request.  The
  copies share cells of the store, the goroutines run their steps in any order, and the loop that makes
  the copies runs among them.  The theorems say when every backend still gets the request it would get
  alone, which is what the merger on values (\<open>Parallel_Merge\<close>) takes for granted, and that outside
  these conditions it does not.
\<close>

subsection \<open>Goroutines\<close>

datatype goroutine = Running "step list" sreq | Sent request | Refused gerror | Crashed string

record par_state =
  psStore :: store
  psOrig :: sreq
  psTodo :: "step list list"
  psRun :: "goroutine list"

definition par_start :: "step list list \<Rightarrow> sreq \<Rightarrow> store \<Rightarrow> par_state" where
  "par_start stacks orig st = \<lparr>psStore = st, psOrig = orig, psTodo = stacks, psRun = []\<rparr>"

fun after :: "step list \<Rightarrow> sreq handed \<Rightarrow> goroutine" where
  "after xs (Hand q) = Running xs q"
| "after xs (Refuse e) = Refused e"
| "after xs (Crash p) = Crashed p"

text \<open>
  One step per middleware.  At the end of its steps a goroutine calls the backend's own proxy: it reads the
  headers and sends the body to its end.
\<close>

inductive par_step :: "bool \<Rightarrow> (url \<Rightarrow> url option) \<Rightarrow> par_state \<Rightarrow> par_state \<Rightarrow> bool" for deep reparse where
  spawn_deep: "deep \<Longrightarrow> psTodo s = c # cs \<Longrightarrow> s_CloneRequest reparse (psOrig s) (psStore s) = (copy, orig, st) \<Longrightarrow>
    par_step deep reparse s (s\<lparr>psStore := st, psOrig := orig, psTodo := cs, psRun := psRun s @ [Running c copy]\<rparr>)"
| spawn_shallow: "\<not> deep \<Longrightarrow> psTodo s = c # cs \<Longrightarrow>
    par_step deep reparse s (s\<lparr>psTodo := cs, psRun := psRun s @ [Running c (s_Clone reparse (psOrig s))]\<rparr>)"
| work: "i < length (psRun s) \<Longrightarrow> psRun s ! i = Running (x # xs) q \<Longrightarrow> exec_step x q (psStore s) = (h, st) \<Longrightarrow>
    par_step deep reparse s (s\<lparr>psStore := st, psRun := (psRun s)[i := after xs h]\<rparr>)"
| send: "i < length (psRun s) \<Longrightarrow> psRun s ! i = Running [] q \<Longrightarrow>
    par_step deep reparse s (s\<lparr>psStore := drain (sBody q) (psStore s),
      psRun := (psRun s)[i := Sent (deref (psStore s) q)]\<rparr>)"

text \<open>How a goroutine that runs alone on a copy of its own ends.\<close>

definition copy_value :: "bool \<Rightarrow> (url \<Rightarrow> url option) \<Rightarrow> request \<Rightarrow> request" where
  "copy_value deep reparse r = (if deep then fst (CloneRequest reparse r) else Clone reparse r)"

fun settles :: "goroutine \<Rightarrow> request handed \<Rightarrow> bool" where
  "settles (Running xs q) h = True"
| "settles (Sent r) h = (h = Hand r)"
| "settles (Refused e) h = (h = Refuse e)"
| "settles (Crashed p) h = (h = Crash p)"

subsection \<open>What a goroutine still writes to\<close>

definition future :: "step list \<Rightarrow> sreq \<Rightarrow> store \<Rightarrow> nat set" where
  "future xs q st = (\<Union>x \<in> set xs. writes x q st) \<union> body_cell q st"

fun is_graphql :: "step \<Rightarrow> bool" where
  "is_graphql (GraphQL env opt e) = True"
| "is_graphql _ = False"

fun adds_query :: "step \<Rightarrow> bool" where
  "adds_query (GraphQL env opt e) = (go_Method opt = ''GET'')"
| "adds_query _ = False"

text \<open>
  The conditions: with deep copies no GraphQL operation may be sent as a query string unless the request
  has no query map; with shallow ones there must be no GraphQL backend and no body.
\<close>

definition isolating :: "bool \<Rightarrow> step list list \<Rightarrow> sreq \<Rightarrow> store \<Rightarrow> bool" where
  "isolating deep stacks orig st \<longleftrightarrow>
     (if deep then sQuery orig = None \<or> (\<forall>c \<in> set stacks. \<not> list_ex adds_query c)
      else body_cell orig st = {} \<and> (\<forall>c \<in> set stacks. \<not> list_ex is_graphql c))"

fun clash :: "store \<Rightarrow> goroutine \<Rightarrow> goroutine \<Rightarrow> bool" where
  "clash st (Running xs q) (Running ys q') = (future xs q st \<inter> refs q' \<noteq> {})"
| "clash st _ _ = False"

text \<open>No goroutine is ever going to write to what another one refers to.\<close>

definition race_free :: "store \<Rightarrow> goroutine list \<Rightarrow> bool" where
  "race_free st gs \<longleftrightarrow> (\<forall>i < length gs. \<forall>j < length gs. i \<noteq> j \<longrightarrow> \<not> clash st (gs ! i) (gs ! j))"

lemma fresh_disjoint:
  fixes n :: nat
  assumes "A \<subseteq> B \<union> {n..}" and "B \<inter> D = {}" and "D \<subseteq> {..<n}"
  shows "A \<inter> D = {}" and "D \<inter> A = {}"
  using assms by fastforce+

lemma writes_refs: "writes x q st \<subseteq> refs q"
  by (cases x) (auto simp: refs_def body_cell_def)

lemma body_cell_refs: "body_cell q st \<subseteq> refs q"
  by (auto simp: refs_def body_cell_def)

lemma future_refs: "future xs q st \<subseteq> refs q"
  using writes_refs body_cell_refs by (fastforce simp: future_def)

lemma body_cell_same: "\<forall>a \<in> refs q. same_cell st st' a \<Longrightarrow> body_cell q st' = body_cell q st"
  by (auto simp: body_cell_def same_cell_def refs_def)

lemma writes_same: "\<forall>a \<in> refs q. same_cell st st' a \<Longrightarrow> writes x q st' = writes x q st"
  by (cases x) (simp_all add: body_cell_same)

lemma future_same: "\<forall>a \<in> refs q. same_cell st st' a \<Longrightarrow> future xs q st' = future xs q st"
  by (simp add: future_def body_cell_same writes_same)

lemma drain_frame: "a \<notin> body_cell q st \<Longrightarrow> same_cell st (drain (sBody q) st) a"
  by (auto simp: drain_def body_cell_def same_cell_def split: option.splits)

lemma drain_next [simp]: "stNext (drain x st) = stNext st"
  by (cases x) (simp_all add: drain_def)

text \<open>After a step, what is still to be written was to be written before, or is new.\<close>

lemma body_cell_step:
  assumes "exec_step x q st = (Hand q', st')" and "wf_sreq st q"
  shows "body_cell q' st' \<subseteq> writes x q st \<union> body_cell q st \<union> {stNext st..}"
proof
  fix a assume a: "a \<in> body_cell q' st'"
  have "kept_or_new st st' (sBody q) (sBody q')"
    using exec_step_frame(3) [OF assms(1)] by (simp add: evolves_def)
  then consider "stNext st \<le> a" | "sBody q = Some a"
    using a by (auto simp: kept_or_new_def body_cell_def)
  then show "a \<in> writes x q st \<union> body_cell q st \<union> {stNext st..}"
  proof cases
    case 2
    then have "a < stNext st" using assms(2) by (auto simp: wf_sreq_def refs_def)
    then show ?thesis using exec_step_frame(2) [OF assms(1)] a 2
      by (auto simp: body_cell_def same_cell_def)
  qed simp
qed

lemma future_step:
  assumes "exec_step x q st = (Hand q', st')" and "wf_sreq st q"
  shows "future xs q' st' \<subseteq> future (x # xs) q st \<union> {stNext st..}"
proof -
  have E: "kept_or_new st st' (sQuery q) (sQuery q')" "kept_or_new st st' (sHeaders q) (sHeaders q')"
    using exec_step_frame(3) [OF assms(1)] by (simp_all add: evolves_def)
  note B = body_cell_step [OF assms]
  have "writes y q' st' \<subseteq> writes y q st \<union> writes x q st \<union> body_cell q st \<union> {stNext st..}" for y
    using E B by (cases y) (auto simp: kept_or_new_def)
  then show ?thesis using B unfolding future_def by fastforce
qed


subsection \<open>Invariant\<close>

text \<open>
  A running goroutine still has before it what its stack makes of its copy, will not write to the client's
  request, and does not read the body the next deep copy drains.
\<close>

fun on_course :: "store \<Rightarrow> sreq \<Rightarrow> request handed \<Rightarrow> goroutine \<Rightarrow> bool" where
  "on_course st orig h (Running xs q) \<longleftrightarrow>
     wf_sreq st q \<and> value_steps xs (deref st q) = h \<and> future xs q st \<inter> refs orig = {} \<and> body_cell orig st \<inter> refs q = {}"
| "on_course st orig h g \<longleftrightarrow> settles g h"

definition par_inv :: "bool \<Rightarrow> (url \<Rightarrow> url option) \<Rightarrow> step list list \<Rightarrow> request \<Rightarrow> par_state \<Rightarrow> bool" where
  "par_inv deep reparse stacks v s \<longleftrightarrow>
     wf_sreq (psStore s) (psOrig s) \<and> deref (psStore s) (psOrig s) = v \<and> isolating deep stacks (psOrig s) (psStore s) \<and>
     length (psRun s) \<le> length stacks \<and> psTodo s = drop (length (psRun s)) stacks \<and>
     (\<forall>i < length (psRun s). on_course (psStore s) (psOrig s) (value_steps (stacks ! i) (copy_value deep reparse v)) (psRun s ! i)) \<and>
     race_free (psStore s) (psRun s)"

text \<open>A goroutine none of whose cells changes stays on course, and so do its clashes.\<close>

fun untouched :: "store \<Rightarrow> store \<Rightarrow> goroutine \<Rightarrow> bool" where
  "untouched st st' (Running xs q) \<longleftrightarrow> (\<forall>a \<in> refs q. same_cell st st' a)"
| "untouched st st' g \<longleftrightarrow> True"

lemma wf_sreq_mono: "wf_sreq st q \<Longrightarrow> stNext st \<le> stNext st' \<Longrightarrow> wf_sreq st' q"
  by (fastforce simp: wf_sreq_def)

lemma on_course_untouched:
  assumes "on_course st orig h g" and "untouched st st' g" and "stNext st \<le> stNext st'"
    and "refs orig' \<subseteq> refs orig \<union> {stNext st..}" and "body_cell orig' st' \<subseteq> body_cell orig st \<union> {stNext st..}"
  shows "on_course st' orig' h g"
proof (cases g)
  case (Running xs q)
  then have same: "\<forall>a \<in> refs q. same_cell st st' a" using assms(2) by simp
  have wf: "wf_sreq st q" using assms(1) Running by simp
  then have old: "refs q \<subseteq> {..<stNext st}" by (auto simp: wf_sreq_def)
  have "future xs q st \<inter> refs orig' = {}"
    using assms(1,4) Running old future_refs [of xs q st] by fastforce
  moreover have "body_cell orig' st' \<inter> refs q = {}"
    using assms(1,5) Running old by fastforce
  ultimately show ?thesis
    using assms(1) Running same wf_sreq_mono [OF wf assms(3)] by (simp add: deref_same future_same)
qed (use assms(1) in auto)

lemma clash_untouched: "untouched st st' g \<Longrightarrow> clash st' g g' = clash st g g'"
  by (cases g; cases g') (simp_all add: future_same)

lemma race_free_upd:
  assumes "race_free st gs" and "\<forall>j < length gs. j \<noteq> i \<longrightarrow> untouched st st' (gs ! j)"
    and "\<forall>j < length gs. j \<noteq> i \<longrightarrow> \<not> clash st' g (gs ! j) \<and> \<not> clash st (gs ! j) g"
  shows "race_free st' (gs[i := g])"
  unfolding race_free_def
proof (intro allI impI)
  fix k j assume "k < length (gs[i := g])" "j < length (gs[i := g])" "k \<noteq> j"
  then have kj: "k < length gs" "j < length gs" "k \<noteq> j" by simp_all
  consider "k = i" | "k \<noteq> i" "j = i" | "k \<noteq> i" "j \<noteq> i" by blast
  then show "\<not> clash st' (gs[i := g] ! k) (gs[i := g] ! j)"
  proof cases
    case 1
    then show ?thesis using assms(3) [rule_format, of j] kj by simp
  next
    case 2
    then show ?thesis
      using assms(3) [rule_format, of k] kj clash_untouched [OF assms(2) [rule_format, of k], of g] by simp
  next
    case 3
    then show ?thesis
      using assms(1) kj clash_untouched [OF assms(2) [rule_format, of k], of "gs ! j"] by (simp add: race_free_def)
  qed
qed

lemma race_free_snoc:
  assumes "race_free st gs" and "\<forall>j < length gs. untouched st st' (gs ! j)"
    and "\<forall>j < length gs. \<not> clash st' g (gs ! j) \<and> \<not> clash st (gs ! j) g"
  shows "race_free st' (gs @ [g])"
  using assms by (auto simp: race_free_def nth_append clash_untouched less_Suc_eq)

lemma isolating_keeps:
  "isolating deep stacks orig st \<Longrightarrow> sQuery orig' = sQuery orig \<Longrightarrow> (\<not> deep \<Longrightarrow> body_cell orig' st' \<subseteq> body_cell orig st) \<Longrightarrow>
   isolating deep stacks orig' st'"
  by (auto simp: isolating_def)

text \<open>One goroutine works and the others do not notice.\<close>

lemma others_untouched:
  assumes "race_free st gs" and "i < length gs" and "gs ! i = Running xs q"
    and "\<forall>a < stNext st. a \<notin> future xs q st \<longrightarrow> same_cell st st' a"
    and "\<forall>j < length gs. on_course st orig (hs j) (gs ! j)"
  shows "\<forall>j < length gs. j \<noteq> i \<longrightarrow> untouched st st' (gs ! j)"
proof (intro allI impI)
  fix j assume j: "j < length gs" "j \<noteq> i"
  then have c: "\<not> clash st (gs ! i) (gs ! j)" and o: "on_course st orig (hs j) (gs ! j)"
    using assms(1,2,5) by (auto simp: race_free_def)
  show "untouched st st' (gs ! j)"
  proof (cases "gs ! j")
    case (Running ys q')
    then have "refs q' \<subseteq> {..<stNext st}" "future xs q st \<inter> refs q' = {}"
      using c o assms(3) by (auto simp: wf_sreq_def)
    then show ?thesis using assms(4) Running by auto
  qed simp_all
qed

lemma par_inv_local:
  assumes inv: "par_inv deep reparse stacks v s" and i: "i < length (psRun s)" "psRun s ! i = Running xs q"
    and frame: "\<forall>a < stNext (psStore s). a \<notin> future xs q (psStore s) \<longrightarrow> same_cell (psStore s) st' a"
    and next': "stNext (psStore s) \<le> stNext st'"
    and g: "on_course st' (psOrig s) (value_steps (stacks ! i) (copy_value deep reparse v)) g"
    and calm: "\<And>j. j < length (psRun s) \<Longrightarrow> j \<noteq> i \<Longrightarrow> \<not> clash st' g (psRun s ! j) \<and> \<not> clash (psStore s) (psRun s ! j) g"
  shows "par_inv deep reparse stacks v (s\<lparr>psStore := st', psRun := (psRun s)[i := g]\<rparr>)"
proof -
  let ?st = "psStore s" and ?orig = "psOrig s"
  note I = inv [unfolded par_inv_def]
  have wfo: "wf_sreq ?st ?orig" using I by simp
  have mine: "on_course ?st ?orig (value_steps (stacks ! i) (copy_value deep reparse v)) (Running xs q)"
    using I i by metis
  have same: "\<forall>a \<in> refs ?orig. same_cell ?st st' a"
    using frame mine wfo by (fastforce simp: wf_sreq_def)
  have un: "\<forall>j < length (psRun s). j \<noteq> i \<longrightarrow> untouched ?st st' (psRun s ! j)"
    using I by (intro others_untouched [OF _ i frame, where orig = ?orig
        and hs = "\<lambda>j. value_steps (stacks ! j) (copy_value deep reparse v)"]) simp_all
  have body: "body_cell ?orig st' = body_cell ?orig ?st" by (rule body_cell_same [OF same])
  have "on_course st' ?orig (value_steps (stacks ! j) (copy_value deep reparse v)) ((psRun s)[i := g] ! j)"
    if "j < length (psRun s)" for j
  proof (cases "j = i")
    case False
    then show ?thesis using I un that next' body
      by (simp add: on_course_untouched [where st = ?st and orig = ?orig])
  qed (use g i in simp)
  moreover have "race_free st' ((psRun s)[i := g])"
    using I un calm by (intro race_free_upd [where st = ?st]) auto
  ultimately show ?thesis
    using I wf_sreq_mono [OF wfo next'] deref_same [OF same] body
    by (simp add: par_inv_def isolating_def)
qed


subsection \<open>Every step keeps it\<close>

lemma after_on_course:
  assumes "wf_sreq st q" and "exec_step x q st = (h, st')" and "value_steps (x # xs) (deref st q) = r"
    and "future (x # xs) q st \<inter> refs orig = {}" and "body_cell orig st \<inter> refs q = {}"
    and "refs orig \<subseteq> {..<stNext st}" and "body_cell orig st' = body_cell orig st"
  shows "on_course st' orig r (after xs h)"
proof -
  note S = exec_step_sim [OF assms(1,2)]
  show ?thesis
  proof (cases h)
    case (Hand q')
    note X = assms(2) [unfolded Hand]
    have "future xs q' st' \<inter> refs orig = {}"
      by (rule fresh_disjoint(1) [OF future_step [OF X assms(1)] assms(4,6)])
    moreover have "body_cell orig st \<inter> refs q' = {}"
    proof (rule fresh_disjoint(2) [OF evolves_refs [OF exec_step_frame(3) [OF X refl]]])
      show "refs q \<inter> body_cell orig st = {}" using assms(5) by blast
      show "body_cell orig st \<subseteq> {..<stNext st}" using body_cell_refs assms(6) by (rule subset_trans)
    qed
    ultimately show ?thesis using S assms(3,7) Hand by auto
  qed (use S assms(3) in auto)
qed

lemma after_calm:
  assumes "wf_sreq st q" and "exec_step x q st = (h, st')" and "\<not> clash st (Running (x # xs) q) g"
    and "\<not> clash st g (Running (x # xs) q)" and "on_course st orig r g"
  shows "\<not> clash st' (after xs h) g \<and> \<not> clash st g (after xs h)"
proof (cases h)
  case (Hand q')
  note X = assms(2) [unfolded Hand]
  show ?thesis
  proof (cases g)
    case (Running ys p)
    then have old: "refs p \<subseteq> {..<stNext st}" using assms(5) by (auto simp: wf_sreq_def)
    have "future (x # xs) q st \<inter> refs p = {}" using assms(3) Running by simp
    then have "future xs q' st' \<inter> refs p = {}"
      by (rule fresh_disjoint(1) [OF future_step [OF X assms(1)] _ old])
    moreover have "future ys p st \<inter> refs q' = {}"
    proof (rule fresh_disjoint(2) [OF evolves_refs [OF exec_step_frame(3) [OF X refl]]])
      show "refs q \<inter> future ys p st = {}" using assms(4) Running by auto
      show "future ys p st \<subseteq> {..<stNext st}" using future_refs old by (rule subset_trans)
    qed
    ultimately show ?thesis using Hand Running by simp
  qed (simp_all add: Hand)
next
  case (Refuse e)
  then show ?thesis by (cases g) simp_all
next
  case (Crash e)
  then show ?thesis by (cases g) simp_all
qed

lemma par_inv_spawn:
  assumes inv: "par_inv deep reparse stacks v s" and todo: "psTodo s = c # cs"
    and frame: "\<forall>a < stNext (psStore s). a \<notin> body_cell (psOrig s) (psStore s) \<longrightarrow> same_cell (psStore s) st' a"
    and next': "stNext (psStore s) \<le> stNext st'"
    and orig: "wf_sreq st' orig" "deref st' orig = v" "sQuery orig = sQuery (psOrig s)"
      "refs orig \<subseteq> refs (psOrig s) \<union> {stNext (psStore s)..}"
      "body_cell orig st' \<subseteq> body_cell (psOrig s) (psStore s) \<union> {stNext (psStore s)..}"
      "\<not> deep \<Longrightarrow> body_cell orig st' \<subseteq> body_cell (psOrig s) (psStore s)"
    and copy: "wf_sreq st' copy" "deref st' copy = copy_value deep reparse v"
      "future c copy st' \<inter> refs orig = {}" "body_cell orig st' \<inter> refs copy = {}"
      "future c copy st' \<subseteq> {stNext (psStore s)..}" "refs copy \<subseteq> refs (psOrig s) \<union> {stNext (psStore s)..}"
  shows "par_inv deep reparse stacks v
    (s\<lparr>psStore := st', psOrig := orig, psTodo := cs, psRun := psRun s @ [Running c copy]\<rparr>)"
proof -
  let ?st = "psStore s" and ?n = "length (psRun s)"
  note I = inv [unfolded par_inv_def]
  have todo': "drop ?n stacks = c # cs" using I todo by simp
  then have n: "?n < length stacks" by (metis drop_all linorder_not_le list.distinct(1))
  with todo' have nth: "stacks ! ?n = c" "drop (Suc ?n) stacks = cs" by (simp_all add: Cons_nth_drop_Suc [symmetric])
  have un: "untouched ?st st' (psRun s ! j)" if "j < ?n" for j
  proof (cases "psRun s ! j")
    case (Running xs q)
    then have "on_course ?st (psOrig s) (value_steps (stacks ! j) (copy_value deep reparse v)) (Running xs q)"
      using I that by metis
    then show ?thesis using frame Running by (auto simp: wf_sreq_def)
  qed simp_all
  have old: "on_course st' orig (value_steps (stacks ! j) (copy_value deep reparse v)) (psRun s ! j)" if "j < ?n" for j
    using I that by (intro on_course_untouched [OF _ un [OF that] next' orig(4,5)]) simp
  have calm: "\<not> clash st' (Running c copy) (psRun s ! j) \<and> \<not> clash ?st (psRun s ! j) (Running c copy)" if "j < ?n" for j
  proof (cases "psRun s ! j")
    case (Running xs q)
    then have "on_course ?st (psOrig s) (value_steps (stacks ! j) (copy_value deep reparse v)) (Running xs q)"
      using I that by metis
    then have "refs q \<subseteq> {..<stNext ?st}" "future xs q ?st \<inter> refs (psOrig s) = {}" by (auto simp: wf_sreq_def)
    then have "future c copy st' \<inter> refs q = {}" "future xs q ?st \<inter> refs copy = {}"
      using copy(5) fresh_disjoint(2) [OF copy(6), of "future xs q ?st"] future_refs [of xs q ?st]
      by (fastforce, blast)
    then show ?thesis using Running by simp
  qed simp_all
  have "race_free st' (psRun s @ [Running c copy])"
    using I un calm by (intro race_free_snoc [where st = ?st]) auto
  moreover have "isolating deep stacks orig st'"
    using I isolating_keeps [of deep stacks "psOrig s" ?st orig st'] orig(3,6) by blast
  ultimately show ?thesis
    using n nth old orig(1,2) copy by (simp add: par_inv_def nth_append less_Suc_eq)
qed


lemma s_Clone_wf: "wf_sreq st q \<Longrightarrow> wf_sreq st (s_Clone reparse q)"
  by (simp add: wf_sreq_def) (simp add: s_Clone_def)

lemma future_Clone: "\<not> list_ex is_graphql c \<Longrightarrow> future c (s_Clone reparse q) st = body_cell q st"
proof -
  assume "\<not> list_ex is_graphql c"
  then have "\<forall>x \<in> set c. writes x (s_Clone reparse q) st = {}"
    by (metis is_graphql.simps(1) list_ex_iff writes.elims)
  then show ?thesis by (auto simp: future_def body_cell_def s_Clone_def)
qed

lemma future_deep:
  assumes "sQuery q = None \<or> \<not> list_ex adds_query c"
  shows "future c q st \<subseteq> set_option (sHeaders q) \<union> body_cell q st"
proof -
  have "writes x q st \<subseteq> set_option (sHeaders q) \<union> body_cell q st" if "x \<in> set c" for x
    using assms that by (cases x) (auto simp: list_ex_iff)
  then show ?thesis by (auto simp: future_def)
qed

lemma par_inv_step:
  assumes "par_step deep reparse s s'" and inv: "par_inv deep reparse stacks v s"
  shows "par_inv deep reparse stacks v s'"
  using assms(1)
proof cases
  case (spawn_deep c cs copy orig st')
  let ?st = "psStore s" and ?o = "psOrig s"
  note I = inv [unfolded par_inv_def]
  have wf: "wf_sreq ?st ?o" and v: "deref ?st ?o = v" using I by simp_all
  note C = s_CloneRequest_spec [OF wf spawn_deep(4)] s_CloneRequest_fresh [OF spawn_deep(4)]
  have "drop (length (psRun s)) stacks = c # cs" using I spawn_deep(3) by simp
  then have "c \<in> set stacks" by (metis in_set_dropD list.set_intros(1))
  then have "sQuery copy = None \<or> \<not> list_ex adds_query c"
    using I spawn_deep(2) C(7) by (auto simp: isolating_def)
  then have fut: "future c copy st' \<subseteq> set_option (sHeaders copy) \<union> body_cell copy st'" by (rule future_deep)
  then have new: "future c copy st' \<subseteq> {stNext ?st..}" using C(12) by (auto simp: body_cell_def)
  have old: "refs ?o \<subseteq> {..<stNext ?st}" using wf by (auto simp: wf_sreq_def)
  then have "set_option (sQuery ?o) \<inter> {stNext ?st..} = {}" by (auto simp: refs_def)
  then have "future c copy st' \<subseteq> refs copy - set_option (sQuery ?o)"
    using fut new future_refs [of c copy st'] by blast
  then have f1: "future c copy st' \<inter> refs orig = {}" using C(10) by blast
  have body: "body_cell orig st' \<subseteq> {stNext ?st..}" using C(13) by (auto simp: body_cell_def)
  have q: "body_cell orig st' \<inter> set_option (sQuery ?o) = {}"
    using body \<open>set_option (sQuery ?o) \<inter> {stNext ?st..} = {}\<close> by blast
  have f2: "body_cell orig st' \<inter> refs copy = {}" using C(10) body_cell_refs [of orig st'] q by blast
  have frame: "\<forall>a < stNext ?st. a \<notin> body_cell ?o ?st \<longrightarrow> same_cell ?st st' a"
    using s_CloneRequest_drains [OF spawn_deep(4)] by blast
  have val: "deref st' orig = v" "deref st' copy = copy_value deep reparse v"
    using C(1,2) v spawn_deep(2) by (simp_all add: copy_value_def CloneRequest_keeps)
  show ?thesis unfolding spawn_deep(1)
    by (rule par_inv_spawn [OF inv spawn_deep(3) frame C(5) C(4) val(1) C(9)])
      (use C(3,6,8) val f1 f2 new body spawn_deep(2) in \<open>auto simp: refs_def\<close>)
next
  case (spawn_shallow c cs)
  let ?st = "psStore s" and ?o = "psOrig s" and ?copy = "s_Clone reparse (psOrig s)"
  note I = inv [unfolded par_inv_def]
  have wf: "wf_sreq ?st ?o" and v: "deref ?st ?o = v" using I by simp_all
  have "drop (length (psRun s)) stacks = c # cs" using I spawn_shallow(3) by simp
  then have "c \<in> set stacks" by (metis in_set_dropD list.set_intros(1))
  then have "\<not> list_ex is_graphql c" "body_cell ?o ?st = {}"
    using I spawn_shallow(2) by (auto simp: isolating_def)
  then have none: "future c ?copy ?st = {}" by (simp add: future_Clone)
  have "par_inv deep reparse stacks v
    (s\<lparr>psStore := ?st, psOrig := ?o, psTodo := cs, psRun := psRun s @ [Running c ?copy]\<rparr>)"
    by (rule par_inv_spawn [OF inv spawn_shallow(3) _ order_refl wf v refl])
      (use wf v none \<open>body_cell ?o ?st = {}\<close> spawn_shallow(2) in
        \<open>simp_all add: same_cell_def s_Clone_wf s_Clone_deref copy_value_def\<close>)
  then show ?thesis unfolding spawn_shallow(1) by simp
next
  case (work i x xs q h st')
  let ?st = "psStore s" and ?o = "psOrig s"
  note I = inv [unfolded par_inv_def]
  have wfo: "refs ?o \<subseteq> {..<stNext ?st}" using I by (auto simp: wf_sreq_def)
  have on: "on_course ?st ?o (value_steps (stacks ! j) (copy_value deep reparse v)) (psRun s ! j)"
    if "j < length (psRun s)" for j using I that by blast
  have me: "wf_sreq ?st q" "value_steps (x # xs) (deref ?st q) = value_steps (stacks ! i) (copy_value deep reparse v)"
    "future (x # xs) q ?st \<inter> refs ?o = {}" "body_cell ?o ?st \<inter> refs q = {}"
    using on [OF work(2)] work(3) by simp_all
  have frame: "\<forall>a < stNext ?st. a \<notin> future (x # xs) q ?st \<longrightarrow> same_cell ?st st' a"
    using exec_step_frame(2) [OF work(4)] by (auto simp: future_def)
  have "\<forall>a \<in> refs ?o. same_cell ?st st' a" using frame me(3) wfo by blast
  then have body: "body_cell ?o st' = body_cell ?o ?st" by (rule body_cell_same)
  show ?thesis unfolding work(1)
  proof (rule par_inv_local [OF inv work(2,3) frame exec_step_frame(1) [OF work(4)]])
    show "on_course st' ?o (value_steps (stacks ! i) (copy_value deep reparse v)) (after xs h)"
      by (rule after_on_course [OF me(1) work(4) me(2-4) wfo body])
  next
    fix j assume j: "j < length (psRun s)" "j \<noteq> i"
    then have "\<not> clash ?st (psRun s ! i) (psRun s ! j)" "\<not> clash ?st (psRun s ! j) (psRun s ! i)"
      using I work(2) by (auto simp: race_free_def)
    then show "\<not> clash st' (after xs h) (psRun s ! j) \<and> \<not> clash ?st (psRun s ! j) (after xs h)"
      using after_calm [OF me(1) work(4) _ _ on [OF j(1)]] work(3) by simp
  qed
next
  case (send i q)
  let ?st = "psStore s" and ?o = "psOrig s"
  note I = inv [unfolded par_inv_def]
  have "on_course ?st ?o (value_steps (stacks ! i) (copy_value deep reparse v)) (psRun s ! i)"
    using I send(2) by blast
  then have me: "Hand (deref ?st q) = value_steps (stacks ! i) (copy_value deep reparse v)" using send(3) by simp
  have frame: "\<forall>a < stNext ?st. a \<notin> future [] q ?st \<longrightarrow> same_cell ?st (drain (sBody q) ?st) a"
    using drain_frame by (simp add: future_def)
  show ?thesis unfolding send(1)
  proof (rule par_inv_local [OF inv send(2,3) frame])
    fix j assume "j < length (psRun s)"
    show "\<not> clash (drain (sBody q) ?st) (Sent (deref ?st q)) (psRun s ! j) \<and> \<not> clash ?st (psRun s ! j) (Sent (deref ?st q))"
      by (cases "psRun s ! j") simp_all
  qed (simp_all add: me)
qed

end
