(* ===== verification/Parallel_Requests.thy ===== *)
theory Parallel_Requests
  imports Interference
begin

section \<open>What the backends of an endpoint get when they are called at the same time\<close>

text \<open>
  The runs of \<open>Interference\<close>: they end, each goroutine ends as it would alone, and so the calls of the
  parallel merger are those \<open>Parallel_Merge\<close> makes on values.  Then the runs outside the conditions, where
  a GraphQL backend shows up in the call of another one.
\<close>

subsection \<open>Runs\<close>

abbreviation par_reach :: "bool \<Rightarrow> (url \<Rightarrow> url option) \<Rightarrow> par_state \<Rightarrow> par_state \<Rightarrow> bool" where
  "par_reach deep reparse \<equiv> (par_step deep reparse)\<^sup>*\<^sup>*"

lemma par_inv_start:
  "wf_sreq st orig \<Longrightarrow> isolating deep stacks orig st \<Longrightarrow> par_inv deep reparse stacks (deref st orig) (par_start stacks orig st)"
  by (simp add: par_inv_def par_start_def race_free_def)

lemma par_inv_reach:
  assumes "par_reach deep reparse s0 s" and "par_inv deep reparse stacks v s0"
  shows "par_inv deep reparse stacks v s"
  using assms by (induction rule: rtranclp_induct) (auto intro: par_inv_step)

lemma on_course_settles: "on_course st orig h g \<Longrightarrow> settles g h"
  by (cases g) simp_all

text \<open>
  C16: goroutines that run on copies of one request, in any interleaving with each other and with the
  loop that copies the request, end as each would alone; at no point is one going to write to a
  header map, a query map or a body another one still refers to.
\<close>

theorem goroutines_isolated:
  assumes "wf_sreq st orig" and "isolating deep stacks orig st"
    and "par_reach deep reparse (par_start stacks orig st) s"
  shows "race_free (psStore s) (psRun s) \<and>
    (\<forall>i < length (psRun s). settles (psRun s ! i) (value_steps (stacks ! i) (copy_value deep reparse (deref st orig))))"
  using par_inv_reach [OF assms(3) par_inv_start [OF assms(1,2)]] on_course_settles by (auto simp: par_inv_def)

fun g_work :: "goroutine \<Rightarrow> nat" where
  "g_work (Running xs q) = Suc (length xs)"
| "g_work g = 0"

definition par_work :: "par_state \<Rightarrow> nat" where
  "par_work s = sum_list (map (\<lambda>c. length c + 2) (psTodo s)) + sum_list (map g_work (psRun s))"

definition finished :: "par_state \<Rightarrow> bool" where
  "finished s \<longleftrightarrow> psTodo s = [] \<and> list_all (\<lambda>g. g_work g = 0) (psRun s)"

lemma sum_list_upd: "i < length gs \<Longrightarrow> sum_list (map f (gs[i := g])) + f (gs ! i) = sum_list (map f gs) + (f g :: nat)"
proof (induction gs arbitrary: i)
  case (Cons x gs)
  then show ?case by (cases i) fastforce+
qed simp

lemma g_work_after: "g_work (after xs h) \<le> Suc (length xs)"
  by (cases h) simp_all

lemma par_step_work: "par_step deep reparse s s' \<Longrightarrow> par_work s' < par_work s"
proof (induction rule: par_step.induct)
  case (work i s x xs q h st)
  then show ?case using sum_list_upd [of i "psRun s" g_work "after xs h"] g_work_after [of xs h]
    by (simp add: par_work_def)
next
  case (send i s q)
  then show ?case using sum_list_upd [of i "psRun s" g_work "Sent (deref (psStore s) q)"]
    by (simp add: par_work_def)
qed (simp_all add: par_work_def)

lemma par_progress:
  assumes "\<not> finished s"
  shows "\<exists>s'. par_step deep reparse s s'"
proof (cases "psTodo s")
  case (Cons c cs)
  obtain copy orig st where "s_CloneRequest reparse (psOrig s) (psStore s) = (copy, orig, st)"
    by (cases "s_CloneRequest reparse (psOrig s) (psStore s)") auto
  then show ?thesis using Cons spawn_deep spawn_shallow by (cases deep) blast+
next
  case Nil
  then obtain g where "g \<in> set (psRun s)" "g_work g \<noteq> 0"
    using assms by (auto simp: finished_def list_all_iff)
  then obtain i xs q where i: "i < length (psRun s)" "psRun s ! i = Running xs q"
    by (metis g_work.elims in_set_conv_nth)
  show ?thesis
  proof (cases xs)
    case (Cons x ys)
    obtain h st where "exec_step x q (psStore s) = (h, st)" by fastforce
    with i Cons show ?thesis using work by blast
  qed (use i send in blast)
qed

lemma par_work_reach: "par_reach deep reparse s0 s \<Longrightarrow> par_work s \<le> par_work s0"
  by (induction rule: rtranclp_induct) (auto dest: par_step_work)

lemma par_reach_finished: "\<exists>s'. par_reach deep reparse s s' \<and> finished s'"
proof (induction "par_work s" arbitrary: s rule: less_induct)
  case less
  show ?case
  proof (cases "finished s")
    case False
    then obtain s1 where s1: "par_step deep reparse s s1" using par_progress by blast
    from less [OF par_step_work [OF this]] show ?thesis using s1 converse_rtranclp_into_rtranclp by metis
  qed blast
qed

text \<open>
  however the goroutines are scheduled, the call comes to an end: a run has at most two steps per
  backend and one per middleware, and a state from which there is no step has answered for every backend.
\<close>

theorem parallel_calls_end:
  assumes "(par_step deep reparse ^^ n) (par_start stacks orig st) s"
  shows "n + par_work s \<le> sum_list (map (\<lambda>c. length c + 2) stacks) \<and>
    (finished s \<or> (\<exists>s'. par_step deep reparse s s'))"
proof -
  have "n + par_work s \<le> par_work s0" if "(par_step deep reparse ^^ n) s0 s" for n s0 s
    using that by (induction n arbitrary: s) (fastforce dest: par_step_work)+
  from this [OF assms] have "n + par_work s \<le> sum_list (map (\<lambda>c. length c + 2) stacks)"
    by (simp add: par_work_def par_start_def)
  then show ?thesis using par_progress [of s deep reparse] by auto
qed


subsection \<open>The calls of the parallel merger\<close>

text \<open>What a goroutine that has ended brings back from the backend \<open>b\<close> whose stack it ran.\<close>

fun brings :: "'t factory_env \<Rightarrow> Backend \<Rightarrow> request \<Rightarrow> goroutine \<Rightarrow> pres option" where
  "brings env b r0 (Running xs q) = None"
| "brings env b r0 (Sent r) = Some (for_caller r0 (fe_backendFactory env b r))"
| "brings env b r0 (Refused e) = Some (PRet None (Some e) r0)"
| "brings env b r0 (Crashed p) = Some (PPanic p)"

lemma settles_brings:
  "settles g h \<Longrightarrow> g_work g = 0 \<Longrightarrow> brings env b r0 g = Some (through h (fe_backendFactory env b) r0)"
  by (cases g) auto

lemma reqClone_copy:
  "fst (reqClone_of menv cfg r) = copy_value (hasUnsafeBackends cfg \<or> forceDeepClone cfg) (me_reparse menv) r"
  by (simp add: reqClone_of_def copy_value_def)

text \<open>
  Calling the backends of an endpoint at the same time on requests that share maps and bodies
  implements calling the proxy of each on a copy that is its own value: whatever the interleaving, what each
  goroutine brings back is what the backend's proxy answers to the copy the merger makes.
\<close>

lemma parallel_requests:
  assumes deep: "deep = (hasUnsafeBackends cfg \<or> forceDeepClone cfg)"
    and stacks: "list_all2 (\<lambda>b ss. stepwise b \<and> backend_steps env b = Ret ss) bs stacks"
    and start: "wf_sreq st orig" "isolating deep stacks orig st"
    and run: "par_reach deep (me_reparse menv) (par_start stacks orig st) s" "finished s"
  shows "length (psRun s) = length bs \<and>
    (\<forall>i < length bs. \<exists>p. newStack env (bs ! i) = Built p \<and>
       brings env (bs ! i) (deref st orig) (psRun s ! i) =
         Some (for_caller (deref st orig) (p (fst (reqClone_of menv cfg (deref st orig))))))"
proof -
  have inv: "par_inv deep (me_reparse menv) stacks (deref st orig) s"
    by (rule par_inv_reach [OF run(1) par_inv_start [OF start]])
  then have len: "length (psRun s) = length bs"
    using run(2) stacks by (auto simp: par_inv_def finished_def list_all2_lengthD)
  have "\<exists>p. newStack env (bs ! i) = Built p \<and> brings env (bs ! i) (deref st orig) (psRun s ! i) =
      Some (for_caller (deref st orig) (p (fst (reqClone_of menv cfg (deref st orig)))))" if i: "i < length bs" for i
  proof -
    have b: "stepwise (bs ! i)" "backend_steps env (bs ! i) = Ret (stacks ! i)"
      using stacks i by (auto simp: list_all2_conv_all_nth)
    have "settles (psRun s ! i) (value_steps (stacks ! i) (copy_value deep (me_reparse menv) (deref st orig)))"
      using inv i len on_course_settles by (auto simp: par_inv_def)
    moreover have "g_work (psRun s ! i) = 0" using run(2) i len by (auto simp: finished_def list_all_length)
    ultimately show ?thesis
      by (simp add: newStack_steps [OF b] settles_brings mw_of_steps reqClone_copy deep)
  qed
  then show ?thesis using len by blast
qed

text \<open>
  C17: the parallel merger as the function the other theories use is what the goroutines do: whatever the
  interleaving of the stacks on the shared maps, of the channels and of the loop that receives, a finished
  call returns what the function returns on values for some order of arrival, and for some late goroutines if the
  context expired.
\<close>

theorem parallel_endpoint:
  assumes deep: "deep = (hasUnsafeBackends cfg \<or> forceDeepClone cfg)"
    and stacks: "list_all2 (\<lambda>b ss. stepwise b \<and> backend_steps env b = Ret ss) bs stacks"
    and start: "wf_sreq st orig" "isolating deep stacks orig st"
    and run: "par_reach deep (me_reparse menv) (par_start stacks orig st) s" "finished s"
    and answers: "\<forall>i < length bs. \<exists>a. brings env (bs ! i) (deref st orig) (psRun s ! i) = Some a \<and>
        first_panic [a] = None \<and> pmOutcome penv i = part_of a"
    and channels: "pm_wf penv" "pmCount penv = length bs" "(pm_step penv)\<^sup>*\<^sup>* (pm_start penv) t" "pm_returns penv t"
  shows "\<exists>ps order late. list_all2 (\<lambda>b p. newStack env b = Built p) bs ps \<and> mset order = mset [0..<length bs] \<and>
    (\<not> pmDone t \<longrightarrow> late = (\<lambda>_. False)) \<and>
    parallelMerge (pmCtxErr penv) (\<lambda>_. order) late (reqClone_of menv cfg) timeout (pmCombiner penv) [] ps (deref st orig) =
      (case Result (pmAcc t) of (resp, err) \<Rightarrow> PRet resp err (deref st orig))"
proof -
  let ?v = "deref st orig" and ?cl = "reqClone_of menv cfg"
  let ?p = "\<lambda>b. case newStack env b of Built p \<Rightarrow> p" and ?copy = "fst (reqClone_of menv cfg (deref st orig))"
  note E = parallel_requests [OF deep stacks start run]
  have built: "newStack env (bs ! i) = Built (?p (bs ! i))"
    and brought: "brings env (bs ! i) ?v (psRun s ! i) = Some (for_caller ?v (?p (bs ! i) ?copy))" if "i < length bs" for i
    using E that by (metis build.simps(10))+
  have keep: "?cl ?v = (?copy, ?v)" by (simp add: reqClone_of_def CloneRequest_keeps prod_eq_iff)
  let ?rs = "map (\<lambda>n. n ?copy) (map ?p bs)"
  have part: "part_of (for_caller r x) = part_of x \<and> first_panic [for_caller r x] = first_panic [x]" for r x
    by (cases x) (simp_all add: part_of_def split: option.split)
  have "first_panic [?p (bs ! i) ?copy] = None \<and> pmOutcome penv i = part_of (?p (bs ! i) ?copy)" if "i < length bs" for i
    using answers brought [OF that] part that by fastforce
  then have outcomes: "\<forall>i < length ?rs. pmOutcome penv i = part_of (?rs ! i)" and "\<forall>x \<in> set ?rs. first_panic [x] = None"
    by (auto simp: in_set_conv_nth)
  moreover have "first_panic xs = None" if "\<forall>x \<in> set xs. first_panic [x] = None" for xs
    using that by (induction xs rule: first_panic.induct) auto
  ultimately have calm: "first_panic ?rs = None" by blast
  have pl: "launch ?cl [] 0 (map ?p bs) ?v = (?rs, ?v)" by (rule launch_same) (rule keep)
  have count: "pmCount penv = length ?rs" using channels(2) by simp
  obtain order late where "mset order = mset [0..<length bs]" "\<not> pmDone t \<longrightarrow> late = (\<lambda>_. False)"
    and "parallelMerge (pmCtxErr penv) (\<lambda>_. order) late ?cl timeout (pmCombiner penv) [] (map ?p bs) ?v =
      (case Result (pmAcc t) of (resp, err) \<Rightarrow> PRet resp err ?v)"
    using pm_parallelMerge [OF channels(1,3,4) pl calm count outcomes, of timeout] by auto
  moreover have "list_all2 (\<lambda>b p. newStack env b = Built p) bs (map ?p bs)"
    using built by (simp add: list_all2_conv_all_nth)
  ultimately show ?thesis by blast
qed

subsection \<open>Schedules\<close>

text \<open>One step as a function: \<open>None\<close> starts the next goroutine, \<open>Some i\<close> lets goroutine \<open>i\<close> work.\<close>

definition advance :: "bool \<Rightarrow> (url \<Rightarrow> url option) \<Rightarrow> nat option \<Rightarrow> par_state \<Rightarrow> par_state" where
  "advance deep reparse who s =
     (case who of
        None \<Rightarrow>
          (case psTodo s of
             [] \<Rightarrow> s
           | c # cs \<Rightarrow>
               (if deep then
                  (case s_CloneRequest reparse (psOrig s) (psStore s) of
                     (copy, orig, st) \<Rightarrow> s\<lparr>psStore := st, psOrig := orig, psTodo := cs, psRun := psRun s @ [Running c copy]\<rparr>)
                else s\<lparr>psTodo := cs, psRun := psRun s @ [Running c (s_Clone reparse (psOrig s))]\<rparr>))
      | Some i \<Rightarrow>
          (if i < length (psRun s) then
             (case psRun s ! i of
                Running [] q \<Rightarrow> s\<lparr>psStore := drain (sBody q) (psStore s), psRun := (psRun s)[i := Sent (deref (psStore s) q)]\<rparr>
              | Running (x # xs) q \<Rightarrow>
                  (case exec_step x q (psStore s) of (h, st) \<Rightarrow> s\<lparr>psStore := st, psRun := (psRun s)[i := after xs h]\<rparr>)
              | _ \<Rightarrow> s)
           else s))"

lemma advance_reach: "par_reach deep reparse s (advance deep reparse who s)"
proof (cases who)
  case None
  show ?thesis
  proof (cases "psTodo s")
    case (Cons c cs)
    obtain copy orig st where X: "s_CloneRequest reparse (psOrig s) (psStore s) = (copy, orig, st)"
      by (cases "s_CloneRequest reparse (psOrig s) (psStore s)") auto
    show ?thesis
    proof (cases deep)
      case True
      from r_into_rtranclp [of "par_step deep reparse", OF spawn_deep [OF True Cons X]] show ?thesis by (simp add: advance_def None Cons X True)
    next
      case False
      from r_into_rtranclp [of "par_step deep reparse", OF spawn_shallow [OF False Cons]] show ?thesis by (simp add: advance_def None Cons False)
    qed
  qed (simp add: advance_def None)
next
  case (Some i)
  show ?thesis
  proof (cases "i < length (psRun s)")
    case True
    show ?thesis
    proof (cases "psRun s ! i")
      case (Running ys q)
      show ?thesis
      proof (cases ys)
        case Nil
        from send [of i s q deep reparse] show ?thesis by (simp add: advance_def Some True Running Nil)
      next
        case (Cons x xs)
        obtain h st where X: "exec_step x q (psStore s) = (h, st)" by fastforce
        from work [OF True _ X, of xs deep reparse] show ?thesis
          by (simp add: advance_def Some True Running Cons X)
      qed
    qed (simp_all add: advance_def Some)
  qed (simp add: advance_def Some)
qed

lemma schedule_reach: "par_reach deep reparse s (fold (advance deep reparse) whos s)"
proof (induction whos arbitrary: s)
  case (Cons w ws)
  then show ?case using rtranclp_trans [OF advance_reach] by (metis comp_apply fold_simps(2))
qed simp


subsection \<open>Where the copies are not enough\<close>

definition leak_env :: "unit factory_env" where
  "leak_env = sample_fenv\<lparr>fe_graphql := sample_gql\<lparr>ge_unmarshal_options :=
     (\<lambda>v. Inr (sample_opt\<lparr>go_Method := (case as_str v of Some m \<Rightarrow> m | None \<Rightarrow> [])\<rparr>))\<rparr>\<rparr>"

definition graphql_backend :: "string \<Rightarrow> Backend" where
  "graphql_backend m = zero_backend\<lparr>be_URLPattern := ''/g'', be_Method := ''GET'', be_ExtraConfig := [(gql_Namespace, JStr m)]\<rparr>"

definition plain_backend :: Backend where
  "plain_backend = zero_backend\<lparr>be_URLPattern := ''/u'', be_Method := ''GET''\<rparr>"

definition leak_stacks :: "string \<Rightarrow> step list list" where
  "leak_stacks m = map (\<lambda>b. case backend_steps leak_env b of Ret ss \<Rightarrow> ss | Panic e \<Rightarrow> []) [graphql_backend m, plain_backend]"

text \<open>A request with an empty query map and an empty header map, and no body.\<close>

definition leak_request :: sreq where
  "leak_request = \<lparr>sMethod = ''GET'', sURL = None, sQuery = Some 0, sPath = ''/'', sBody = None, sParams = None, sHeaders = Some 1\<rparr>"

definition leak_store :: store where
  "leak_store = \<lparr>stMaps = (\<lambda>_. []), stParams = (\<lambda>_. []), stReaders = (\<lambda>_. []), stNext = 2\<rparr>"

text \<open>The GraphQL backend goes first, then the other one is called.\<close>

definition leak_run :: "bool \<Rightarrow> string \<Rightarrow> par_state" where
  "leak_run deep m = fold (advance deep Some) [None, None, Some 0, Some 0, Some 0, Some 1, Some 1, Some 1]
     (par_start (leak_stacks m) leak_request leak_store)"

fun sent_headers :: "goroutine \<Rightarrow> (string, string list) gomap option" where
  "sent_headers (Sent r) = rHeaders r"
| "sent_headers g = None"

fun sent_query :: "goroutine \<Rightarrow> string option" where
  "sent_query (Sent r) = map_option uRawQuery (rURL r)"
| "sent_query g = None"

fun handed_headers :: "request handed \<Rightarrow> (string, string list) gomap option" where
  "handed_headers (Hand r) = rHeaders r"
| "handed_headers h = None"

fun handed_query :: "request handed \<Rightarrow> string option" where
  "handed_query (Hand r) = map_option uRawQuery (rURL r)"
| "handed_query h = None"

text \<open>
  Backends whose methods are all \<open>GET\<close> get shallow copies, also when one of them is a GraphQL backend that
  is going to send a \<open>POST\<close>: the content headers of its body can end up in the other backend's call.
\<close>

lemma graphql_header_leak:
  "\<exists>s. par_reach False Some (par_start (leak_stacks ''POST'') leak_request leak_store) s \<and>
     sent_headers (psRun s ! 1) = Some [(''Content-Length'', [''1'']), (''Content-Type'', [''application/json''])] \<and>
     handed_headers (value_steps (leak_stacks ''POST'' ! 1) (copy_value False Some (deref leak_store leak_request))) = Some []"
proof (intro exI conjI)
  show "par_reach False Some (par_start (leak_stacks ''POST'') leak_request leak_store) (leak_run False ''POST'')"
    unfolding leak_run_def by (rule schedule_reach)
  show "sent_headers (psRun (leak_run False ''POST'') ! 1) =
      Some [(''Content-Length'', [''1'']), (''Content-Type'', [''application/json''])]" by code_simp
  show "handed_headers (value_steps (leak_stacks ''POST'' ! 1) (copy_value False Some (deref leak_store leak_request))) = Some []"
    by code_simp
qed

text \<open>
  The deep copy shares the query map, so the operation of a GraphQL backend that is sent as a query
  string can end up in the URL of another backend, whichever copy is made.
\<close>

lemma graphql_query_leak:
  "\<exists>s. par_reach deep Some (par_start (leak_stacks ''GET'') leak_request leak_store) s \<and>
     sent_query (psRun s ! 1) = Some ''query=q&variables=%7B%7D'' \<and>
     handed_query (value_steps (leak_stacks ''GET'' ! 1) (copy_value deep Some (deref leak_store leak_request))) = Some []"
proof (intro exI conjI)
  show "par_reach deep Some (par_start (leak_stacks ''GET'') leak_request leak_store) (leak_run deep ''GET'')"
    unfolding leak_run_def by (rule schedule_reach)
  have "sent_query (psRun (leak_run True ''GET'') ! 1) = Some ''query=q&variables=%7B%7D''" by code_simp
  moreover have "sent_query (psRun (leak_run False ''GET'') ! 1) = Some ''query=q&variables=%7B%7D''" by code_simp
  ultimately show "sent_query (psRun (leak_run deep ''GET'') ! 1) = Some ''query=q&variables=%7B%7D''" by (cases deep) simp_all
  have "handed_query (value_steps (leak_stacks ''GET'' ! 1) (copy_value True Some (deref leak_store leak_request))) = Some []"
    by code_simp
  moreover have "handed_query (value_steps (leak_stacks ''GET'' ! 1) (copy_value False Some (deref leak_store leak_request))) = Some []"
    by code_simp
  ultimately show "handed_query (value_steps (leak_stacks ''GET'' ! 1) (copy_value deep Some (deref leak_store leak_request))) = Some []"
    by (cases deep) simp_all
qed

text \<open>
  The load balancer encodes the query into the URL before the GraphQL middleware adds its values: a
  GraphQL operation sent with \<open>GET\<close> never reaches the backend.
\<close>

lemma plain_steps_keep:
  "\<not> list_ex is_graphql ss \<Longrightarrow> value_steps (ss @ xs) r = handed_bind (value_steps ss r) (value_steps xs)"
proof (induction ss arbitrary: r)
  case (Cons x ss)
  then show ?case by (cases "value_step x r") simp_all
qed simp

lemma graphql_get_url:
  "go_Method opt = ''GET'' \<Longrightarrow> value_step (GraphQL genv opt e) r = Hand r' \<Longrightarrow> rURL r' = rURL r \<and> rBody r' = Some []"
  by (auto simp: with_content_def merged_query_def split: run.splits sum.splits option.splits)

lemma graphql_query_lost:
  assumes "backend_steps env b = Ret ss" and "GetOptions (fe_graphql env) (be_ExtraConfig b) = Inr opt"
    and "go_Method opt = ''GET''" "go_Type opt \<in> {''mutation'', ''query''}" and "value_steps ss r = Hand r'"
  shows "\<exists>r0. value_steps (filter (\<lambda>x. \<not> is_graphql x) ss) r = Hand r0 \<and> rURL r' = rURL r0 \<and> rBody r' = Some []"
proof -
  obtain e where e: "gql_New (fe_graphql env) opt = Ret e"
    using assms(1,2) by (auto simp: backend_steps_def graphql_steps_def run_bind_Ret_iff)
  define plain where "plain = (if be_QueryStringsToPass b = [] then [] else [FilterQuery (be_QueryStringsToPass b)]) @
    [BuildRequest b, Balance (fe_parse_url env) (fe_host env b)] @
    (if be_HeadersToPass b = [] then [] else [FilterHeaders (be_HeadersToPass b)])"
  have ss: "ss = plain @ [GraphQL (fe_graphql env) opt e]"
    using assms(1,2,4) e by (auto simp: backend_steps_def graphql_steps_def run_bind_Ret_iff plain_def)
  have "filter (\<lambda>x. \<not> is_graphql x) ss = plain" "\<not> list_ex is_graphql plain" by (auto simp: ss plain_def)
  then show ?thesis
    using assms(5) ss plain_steps_keep [of plain "[GraphQL (fe_graphql env) opt e]" r] graphql_get_url [OF assms(3)]
    by (cases "value_steps plain r"; cases "value_step (GraphQL (fe_graphql env) opt e) (case value_steps plain r of Hand x \<Rightarrow> x)") auto
qed


subsection \<open>The properties on the sample\<close>

lemma leak_start: "wf_sreq leak_store leak_request"
  by (simp add: wf_sreq_def refs_def leak_store_def leak_request_def)

fun is_ret :: "'a run \<Rightarrow> bool" where
  "is_ret (Ret x) = True"
| "is_ret (Panic e) = False"

lemma leak_steps:
  "list_all2 (\<lambda>b ss. stepwise b \<and> backend_steps leak_env b = Ret ss) [graphql_backend ''POST'', plain_backend] (leak_stacks ''POST'')"
proof -
  have "is_ret (backend_steps leak_env (graphql_backend ''POST''))" "is_ret (backend_steps leak_env plain_backend)"
    by code_simp+
  moreover have "stepwise (graphql_backend ''POST'')" "stepwise plain_backend" by code_simp+
  ultimately show ?thesis
    by (cases "backend_steps leak_env (graphql_backend ''POST'')"; cases "backend_steps leak_env plain_backend")
      (simp_all add: leak_stacks_def)
qed

lemma leak_isolating: "isolating True (leak_stacks ''POST'') leak_request leak_store"
proof -
  have "list_all (\<lambda>c. \<not> list_ex adds_query c) (leak_stacks ''POST'')" by code_simp
  then show ?thesis by (simp add: isolating_def list_all_iff)
qed

lemma goroutines_isolated_witness:
  "settles (psRun (leak_run True ''POST'') ! 1)
     (value_steps (leak_stacks ''POST'' ! 1) (copy_value True Some (deref leak_store leak_request)))"
proof -
  have two: "1 < length (psRun (leak_run True ''POST''))" by code_simp
  have run: "par_reach True Some (par_start (leak_stacks ''POST'') leak_request leak_store) (leak_run True ''POST'')"
    unfolding leak_run_def by (rule schedule_reach)
  from goroutines_isolated [OF leak_start leak_isolating run] two show ?thesis by blast
qed

lemma parallel_calls_end_witness:
  "\<exists>s. par_step False Some (par_start [[]] leak_request leak_store) s \<and> 1 + par_work s \<le> 2 \<and>
     (finished s \<or> (\<exists>s'. par_step False Some s s'))"
proof -
  obtain s where s: "par_step False Some (par_start [[]] leak_request leak_store) s"
    using spawn_shallow [of False "par_start [[]] leak_request leak_store" "[]" "[]" Some] by (auto simp: par_start_def)
  then have "(par_step False Some ^^ 1) (par_start [[]] leak_request leak_store) s"
    by (simp only: relpowp_1)
  from parallel_calls_end [OF this] s show ?thesis by auto
qed

definition forced_endpoint :: EndpointConfig where
  "forced_endpoint = zero_endpoint\<lparr>ep_Backend := [graphql_backend ''POST'', plain_backend],
     ep_ExtraConfig := [(proxy_Namespace, JObj [(forceDeepCloneKey, JBool True)])]\<rparr>"

text \<open>A schedule in which both backends are called, and the channels of the merger that waits for them.\<close>

definition sent_run :: par_state where
  "sent_run = fold (advance True Some) [None, Some 0, None, Some 1, Some 0, Some 0, Some 1, Some 0, Some 1]
     (par_start (leak_stacks ''POST'') leak_request leak_store)"

fun is_sent :: "goroutine \<Rightarrow> bool" where
  "is_sent (Sent r) = True"
| "is_sent _ = False"

lemma sent_brings: "is_sent g \<Longrightarrow> \<exists>resp. brings leak_env b r0 g = Some (PRet resp None r0)"
  by (cases g) (simp_all add: leak_env_def sample_fenv_def)

lemma parallel_endpoint_witness:
  "\<exists>penv t ps order. pm_returns penv t \<and> pmCount penv = 2 \<and> (pm_step penv)\<^sup>*\<^sup>* (pm_start penv) t \<and>
     (\<exists>late. parallelMerge (pmCtxErr penv) (\<lambda>_. order) late (reqClone_of (fe_merge leak_env) forced_endpoint) 1 combineData [] ps
       (deref leak_store leak_request) = (case Result (pmAcc t) of (resp, err) \<Rightarrow> PRet resp err (deref leak_store leak_request)))"
proof -
  let ?menv = "fe_merge leak_env" and ?v = "deref leak_store leak_request"
  let ?bs = "[graphql_backend ''POST'', plain_backend]"
  have run: "par_reach True (me_reparse ?menv) (par_start (leak_stacks ''POST'') leak_request leak_store) sent_run"
  proof -
    have "me_reparse ?menv = Some" by (simp add: leak_env_def sample_fenv_def)
    then show ?thesis unfolding sent_run_def by (simp only: schedule_reach)
  qed
  have fin: "finished sent_run" and sent: "list_all is_sent (psRun sent_run)" and two: "length (psRun sent_run) = 2"
    by code_simp+
  have deep: "True = (hasUnsafeBackends forced_endpoint \<or> forceDeepClone forced_endpoint)" by code_simp
  define out where "out i = part_of (the (brings leak_env (?bs ! i) ?v (psRun sent_run ! i)))" for i
  define penv where "penv = \<lparr>pmOutcome = out, pmCtxErr = ECtx [], pmCombiner = combineData, pmCap = 2, pmCount = 2\<rparr>"
  have wf: "pm_wf penv" using part_of_shape by (auto simp: pm_wf_def penv_def out_def)
  obtain t where t: "(pm_step penv)\<^sup>*\<^sup>* (pm_start penv) t" "pm_returns penv t"
    using pm_can_return [OF wf] by blast
  have answers: "\<forall>i < length ?bs. \<exists>a. brings leak_env (?bs ! i) ?v (psRun sent_run ! i) = Some a \<and>
      first_panic [a] = None \<and> pmOutcome penv i = part_of a"
  proof (intro allI impI)
    fix i assume "i < length ?bs"
    then have "is_sent (psRun sent_run ! i)" using sent two by (simp add: list_all_length)
    then obtain resp where "brings leak_env (?bs ! i) ?v (psRun sent_run ! i) = Some (PRet resp None ?v)"
      using sent_brings by blast
    then show "\<exists>a. brings leak_env (?bs ! i) ?v (psRun sent_run ! i) = Some a \<and> first_panic [a] = None \<and> pmOutcome penv i = part_of a"
      by (simp add: penv_def out_def)
  qed
  have P: "pmCount penv = length ?bs" "pmCombiner penv = combineData" "pmCount penv = 2" by (simp_all add: penv_def)
  obtain ps order late where "parallelMerge (pmCtxErr penv) (\<lambda>_. order) late (reqClone_of ?menv forced_endpoint) 1 (pmCombiner penv) [] ps ?v =
      (case Result (pmAcc t) of (resp, err) \<Rightarrow> PRet resp err ?v)"
    using parallel_endpoint [OF deep leak_steps leak_start leak_isolating run fin answers wf P(1) t, where timeout = 1] by blast
  then show ?thesis unfolding P(2) using t P(3) by blast
qed

end
