(* ===== verification/Shadow_Requests.thy ===== *)
theory Shadow_Requests
  imports Parallel_Requests Gateway
begin

section \<open>Shadow traffic on shared requests (\<open>proxy/shadow.go\<close>)\<close>

text \<open>
  The shadow proxy runs in a goroutine of its own on a deep copy of the request, beside the regular one on
  the request itself.  The copy shares the query map.  Here both stacks are the steps of \<open>Sharing\<close> on
  the store, in any interleaving: when neither backend adds to the query map they do not touch each other's cells,
  each ends as it would alone, and the endpoint's proxy on values is what the two goroutines do; when one does, the
  shadow call can show up in the regular one.
\<close>

subsection \<open>The two goroutines\<close>

text \<open>No further copies are made: the request the loop of a merger would copy refers to nothing.\<close>

definition no_request :: sreq where
  "no_request = \<lparr>sMethod = [], sURL = None, sQuery = None, sPath = [], sBody = None, sParams = None, sHeaders = None\<rparr>"

text \<open>\<open>CloneRequest\<close>, then the goroutine of the shadow proxy, then the regular proxy.\<close>

definition shadow_start :: "(url \<Rightarrow> url option) \<Rightarrow> step list \<Rightarrow> step list \<Rightarrow> sreq \<Rightarrow> store \<Rightarrow> par_state" where
  "shadow_start reparse regular shadow request st =
     (case s_CloneRequest reparse request st of
        (shadowRequest, request', st') \<Rightarrow>
          \<lparr>psStore = st', psOrig = no_request, psTodo = [], psRun = [Running regular request', Running shadow shadowRequest]\<rparr>)"

subsection \<open>Goroutines that have all been started\<close>

text \<open>Each still has before it what it was started for, and none is going to write to what another one refers to.\<close>

definition started_inv :: "request handed list \<Rightarrow> par_state \<Rightarrow> bool" where
  "started_inv hs s \<longleftrightarrow>
     psTodo s = [] \<and> psOrig s = no_request \<and> length (psRun s) = length hs \<and>
     (\<forall>i < length hs. on_course (psStore s) no_request (hs ! i) (psRun s ! i)) \<and> race_free (psStore s) (psRun s)"

lemma no_request_refs [simp]: "refs no_request = {}" "body_cell no_request st = {}"
  by (simp_all add: no_request_def refs_def body_cell_def)

lemma started_local:
  assumes inv: "started_inv hs s" and i: "i < length (psRun s)" "psRun s ! i = Running xs q"
    and frame: "\<forall>a < stNext (psStore s). a \<notin> future xs q (psStore s) \<longrightarrow> same_cell (psStore s) st' a"
    and next': "stNext (psStore s) \<le> stNext st'"
    and g: "on_course st' no_request (hs ! i) g"
    and calm: "\<And>j. j < length (psRun s) \<Longrightarrow> j \<noteq> i \<Longrightarrow> \<not> clash st' g (psRun s ! j) \<and> \<not> clash (psStore s) (psRun s ! j) g"
  shows "started_inv hs (s\<lparr>psStore := st', psRun := (psRun s)[i := g]\<rparr>)"
proof -
  let ?st = "psStore s"
  note I = inv [unfolded started_inv_def]
  have un: "\<forall>j < length (psRun s). j \<noteq> i \<longrightarrow> untouched ?st st' (psRun s ! j)"
    using I by (intro others_untouched [OF _ i frame, where orig = no_request and hs = "\<lambda>j. hs ! j"]) simp_all
  have "on_course st' no_request (hs ! j) ((psRun s)[i := g] ! j)" if "j < length hs" for j
  proof (cases "j = i")
    case False
    then show ?thesis using I un that next'
      by (simp add: on_course_untouched [where st = ?st and orig = no_request])
  qed (use g i in simp)
  moreover have "race_free st' ((psRun s)[i := g])"
    using I un calm by (intro race_free_upd [where st = ?st]) auto
  ultimately show ?thesis using I by (simp add: started_inv_def)
qed

lemma started_step:
  assumes "par_step deep reparse s s'" and inv: "started_inv hs s"
  shows "started_inv hs s'"
  using assms(1)
proof cases
  case (spawn_deep c cs copy orig st')
  then show ?thesis using inv by (simp add: started_inv_def)
next
  case (spawn_shallow c cs)
  then show ?thesis using inv by (simp add: started_inv_def)
next
  case (work i x xs q h st')
  let ?st = "psStore s"
  note I = inv [unfolded started_inv_def]
  have on: "on_course ?st no_request (hs ! j) (psRun s ! j)" if "j < length (psRun s)" for j using I that by simp
  have me: "wf_sreq ?st q" "value_steps (x # xs) (deref ?st q) = hs ! i" using on [OF work(2)] work(3) by simp_all
  have frame: "\<forall>a < stNext ?st. a \<notin> future (x # xs) q ?st \<longrightarrow> same_cell ?st st' a"
    using exec_step_frame(2) [OF work(4)] by (auto simp: future_def)
  show ?thesis unfolding work(1)
  proof (rule started_local [OF inv work(2,3) frame exec_step_frame(1) [OF work(4)]])
    show "on_course st' no_request (hs ! i) (after xs h)"
      by (rule after_on_course [OF me(1) work(4) me(2)]) simp_all
  next
    fix j assume j: "j < length (psRun s)" "j \<noteq> i"
    then have "\<not> clash ?st (psRun s ! i) (psRun s ! j)" "\<not> clash ?st (psRun s ! j) (psRun s ! i)"
      using I work(2) by (auto simp: race_free_def)
    then show "\<not> clash st' (after xs h) (psRun s ! j) \<and> \<not> clash ?st (psRun s ! j) (after xs h)"
      using after_calm [OF me(1) work(4) _ _ on [OF j(1)]] work(3) by simp
  qed
next
  case (send i q)
  let ?st = "psStore s"
  note I = inv [unfolded started_inv_def]
  have "on_course ?st no_request (hs ! i) (psRun s ! i)" using I send(2) by simp
  then have me: "Hand (deref ?st q) = hs ! i" using send(3) by simp
  have frame: "\<forall>a < stNext ?st. a \<notin> future [] q ?st \<longrightarrow> same_cell ?st (drain (sBody q) ?st) a"
    using drain_frame by (simp add: future_def)
  show ?thesis unfolding send(1)
  proof (rule started_local [OF inv send(2,3) frame])
    fix j assume "j < length (psRun s)"
    show "\<not> clash (drain (sBody q) ?st) (Sent (deref ?st q)) (psRun s ! j) \<and> \<not> clash ?st (psRun s ! j) (Sent (deref ?st q))"
      by (cases "psRun s ! j") simp_all
  qed (simp_all add: me)
qed

lemma started_reach: "par_reach deep reparse s0 s \<Longrightarrow> started_inv hs s0 \<Longrightarrow> started_inv hs s"
  by (induction rule: rtranclp_induct) (auto intro: started_step)

subsection \<open>The start\<close>

text \<open>Neither stack may add to the query map, unless there is none.\<close>

definition quiet :: "step list \<Rightarrow> step list \<Rightarrow> sreq \<Rightarrow> bool" where
  "quiet regular shadow q \<longleftrightarrow> sQuery q = None \<or> \<not> list_ex adds_query regular \<and> \<not> list_ex adds_query shadow"

lemma shadow_started:
  assumes "wf_sreq st q" and "quiet regular shadow q"
  shows "started_inv [value_steps regular (deref st q), value_steps shadow (fst (CloneRequest reparse (deref st q)))]
    (shadow_start reparse regular shadow q st)"
proof -
  obtain copy orig st' where X: "s_CloneRequest reparse q st = (copy, orig, st')"
    by (cases "s_CloneRequest reparse q st") auto
  note C = s_CloneRequest_spec [OF assms(1) X] s_CloneRequest_fresh [OF X]
  have "set_option (sQuery q) \<subseteq> {..<stNext st}" using assms(1) by (auto simp: wf_sreq_def refs_def)
  then have query: "set_option (sQuery q) \<inter> {stNext st..} = {}" by auto
  have deep: "future regular orig st' \<subseteq> set_option (sHeaders orig) \<union> body_cell orig st'"
    "future shadow copy st' \<subseteq> set_option (sHeaders copy) \<union> body_cell copy st'"
    using assms(2) C(7,9) by (auto simp: quiet_def intro!: future_deep)
  have "future shadow copy st' \<subseteq> {stNext st..}" using deep(2) C(12) by (auto simp: body_cell_def)
  then have "future shadow copy st' \<subseteq> refs copy - set_option (sQuery q)"
    using query future_refs [of shadow copy st'] by blast
  then have shadow: "future shadow copy st' \<inter> refs orig = {}" using C(10) by blast
  have "set_option (sHeaders orig) \<inter> set_option (sQuery q) = {}" using C(4,9) by (auto simp: wf_sreq_def)
  moreover have "body_cell orig st' \<inter> set_option (sQuery q) = {}" using C(13) query by (auto simp: body_cell_def)
  ultimately have "future regular orig st' \<subseteq> refs orig - set_option (sQuery q)"
    using deep(1) future_refs [of regular orig st'] by blast
  then have regular: "future regular orig st' \<inter> refs copy = {}" using C(10) by blast
  have "race_free st' [Running regular orig, Running shadow copy]"
    using regular shadow by (auto simp: race_free_def nth_Cons' less_Suc_eq)
  then show ?thesis
    using C(1-4) by (simp add: started_inv_def shadow_start_def X CloneRequest_keeps less_Suc_eq nth_Cons')
qed

subsection \<open>The endpoint\<close>

text \<open>The backends the configuration marks, as the documentation has it.\<close>

definition shadowed :: "Backend \<Rightarrow> bool" where
  "shadowed b \<longleftrightarrow> (\<exists>e. map_of (be_ExtraConfig b) proxy_Namespace = Some (JObj e) \<and> map_of e ''shadow'' = Some (JBool True))"

lemma isShadowBackend_iff: "snd (isShadowBackend parse b) \<longleftrightarrow> shadowed b"
proof -
  have obj: "as_obj v = Some e \<longleftrightarrow> v = JObj e" for v e by (cases v) auto
  have bool: "as_bool v = Some x \<longleftrightarrow> v = JBool x" for v x by (cases v) auto
  show ?thesis
    by (auto simp: isShadowBackend_def shadowed_def proxy_section_def get_as_def shadowKey_def obj bool Let_def bind_eq_Some_conv
        split: option.splits)
qed

lemma shadow_split_pair:
  assumes "mset (ep_Backend cfg) = {#b, sb#}" and "\<not> shadowed b" and "shadowed sb"
  obtains t where "shadow_split parse (ep_Backend cfg) = ([sb], [b], t)"
proof -
  have "ep_Backend cfg = [b, sb] \<or> ep_Backend cfg = [sb, b]"
  proof -
    have "length (ep_Backend cfg) = 2" using mset_eq_length [of "ep_Backend cfg" "[b, sb]"] assms(1) by simp
    then obtain x y where xy: "ep_Backend cfg = [x, y]" by (auto simp: numeral_2_eq_2 length_Suc_conv)
    then have "{#x, y#} = {#b, sb#}" using assms(1) by simp
    then show ?thesis using xy by (auto simp: add_mset_eq_single add_eq_conv_ex)
  qed
  then show thesis using that assms(2,3) by (auto simp: shadow_split_def isShadowBackend_iff Let_def)
qed

text \<open>
  C40: an endpoint with a regular and a shadow backend, called with a request whose query map neither of their stacks adds to: in
  every interleaving of the two goroutines on the shared store neither is going to write to a cell the other one still refers to, the
  regular stack makes of the request, and the shadow stack of its deep copy, what they make of them alone; and when both have
  ended they have called their backends with exactly that, and the endpoint's proxy answers what the regular backend
  does, unless the shadow one panics.
\<close>

theorem shadow_endpoint:
  assumes backends: "mset (ep_Backend cfg) = {#b, sb#}" "\<not> shadowed b" "shadowed sb" and bare: "bare_endpoint cfg"
    and regular: "stepwise b" "backend_steps env b = Ret regular"
    and shadow: "stepwise sb" "backend_steps env sb = Ret shadow"
    and start: "wf_sreq st q" "quiet regular shadow q"
    and run: "par_reach deep reparse (shadow_start reparse regular shadow q st) s"
  shows "race_free (psStore s) (psRun s) \<and> length (psRun s) = 2 \<and>
    settles (psRun s ! 0) (value_steps regular (deref st q)) \<and>
    settles (psRun s ! 1) (value_steps shadow (fst (CloneRequest reparse (deref st q)))) \<and>
    (finished s \<longrightarrow> (\<exists>P p sp. shadowFactory_New parse reparse (defaultFactory_New env) cfg = Made (Some P) None \<and>
       newStack env b = Built p \<and> newStack env sb = Built sp \<and>
       brings env b (deref st q) (psRun s ! 0) = Some (for_caller (deref st q) (p (deref st q))) \<and>
       brings env sb (deref st q) (psRun s ! 1) = Some (for_caller (deref st q) (sp (fst (CloneRequest reparse (deref st q))))) \<and>
       P (deref st q) = (case sp (fst (CloneRequest reparse (deref st q))) of PPanic e \<Rightarrow> PPanic e | PRet _ _ _ \<Rightarrow> p (deref st q))))"
proof -
  let ?v = "deref st q" and ?c = "fst (CloneRequest reparse (deref st q))"
  have inv: "started_inv [value_steps regular ?v, value_steps shadow ?c] s"
    by (rule started_reach [OF run shadow_started [OF start]])
  then have two: "length (psRun s) = 2" and course: "settles (psRun s ! 0) (value_steps regular ?v)"
      "settles (psRun s ! 1) (value_steps shadow ?c)"
    using on_course_settles by (auto simp: started_inv_def less_Suc_eq nth_Cons')
  have "\<exists>P p sp. shadowFactory_New parse reparse (defaultFactory_New env) cfg = Made (Some P) None \<and>
       newStack env b = Built p \<and> newStack env sb = Built sp \<and>
       brings env b ?v (psRun s ! 0) = Some (for_caller ?v (p ?v)) \<and>
       brings env sb ?v (psRun s ! 1) = Some (for_caller ?v (sp ?c)) \<and>
       P ?v = (case sp ?c of PPanic e \<Rightarrow> PPanic e | PRet _ _ _ \<Rightarrow> p ?v)" if fin: "finished s"
  proof -
    let ?p = "foldr mw_of regular (fe_backendFactory env b)" and ?sp = "foldr mw_of shadow (fe_backendFactory env sb)"
    have built: "newStack env b = Built ?p" "newStack env sb = Built ?sp"
      by (rule newStack_steps [OF regular], rule newStack_steps [OF shadow])
    have made: "defaultFactory_New env (cfg\<lparr>ep_Backend := [b]\<rparr>) = Made (Some ?p) None"
      "defaultFactory_New env (cfg\<lparr>ep_Backend := [sb]\<rparr>) = Made (Some ?sp) None"
      by (rule default_factory_bare; use bare built in \<open>simp add: bare_endpoint_def\<close>)+
    obtain t where split: "shadow_split parse (ep_Backend cfg) = ([sb], [b], t)"
      by (rule shadow_split_pair [OF backends])
    have "ep_Backend cfg \<noteq> []" using backends(1) by auto
    then have "shadowFactory_New parse reparse (defaultFactory_New env) cfg = Made (Some (NewShadowProxyWithTimeout reparse t ?p ?sp)) None"
      by (simp add: shadowFactory_New_def split made proxy_or_nil_def)
    moreover have "NewShadowProxyWithTimeout reparse t ?p ?sp ?v = (case ?sp ?c of PPanic e \<Rightarrow> PPanic e | PRet _ _ _ \<Rightarrow> ?p ?v)"
      using CloneRequest_original [of reparse ?v]
      by (cases "CloneRequest reparse ?v") (simp add: NewShadowProxyWithTimeout_def)
    moreover have "g_work (psRun s ! 0) = 0" "g_work (psRun s ! 1) = 0"
      using fin two by (simp_all add: finished_def list_all_length)
    ultimately show ?thesis
      using built settles_brings [OF course(1), of env b ?v] settles_brings [OF course(2), of env sb ?v] by (simp add: mw_of_steps)
  qed
  then show ?thesis using two course inv by (auto simp: started_inv_def)
qed

subsection \<open>A sample, and where the copy is not enough\<close>

definition shadow_backend :: "string \<Rightarrow> Backend" where
  "shadow_backend m = zero_backend\<lparr>be_URLPattern := ''/g'', be_Method := ''GET'',
     be_ExtraConfig := [(gql_Namespace, JStr m), (proxy_Namespace, JObj [(''shadow'', JBool True)])]\<rparr>"

definition shadow_cfg :: EndpointConfig where
  "shadow_cfg = zero_endpoint\<lparr>ep_Backend := [shadow_backend ''POST'', plain_backend]\<rparr>"

definition steps_of :: "Backend \<Rightarrow> step list" where
  "steps_of b = (case backend_steps leak_env b of Ret ss \<Rightarrow> ss | Panic e \<Rightarrow> [])"

text \<open>A request with a body, and a schedule that runs both stacks to their end.\<close>

definition shadow_request :: sreq where
  "shadow_request = leak_request\<lparr>sBody := Some 2\<rparr>"

definition shadow_store :: store where
  "shadow_store = leak_store\<lparr>stReaders := (\<lambda>_. ''body''), stNext := 3\<rparr>"

definition shadow_run :: par_state where
  "shadow_run = fold (advance True Some) [Some 1, Some 0, Some 1, Some 1, Some 0, Some 1, Some 0]
     (shadow_start Some (steps_of plain_backend) (steps_of (shadow_backend ''POST'')) shadow_request shadow_store)"

fun sent_body :: "goroutine \<Rightarrow> string option" where
  "sent_body (Sent r) = rBody r"
| "sent_body g = None"

lemma steps_of_eq: "is_ret (backend_steps leak_env b) \<Longrightarrow> backend_steps leak_env b = Ret (steps_of b)"
  by (cases "backend_steps leak_env b") (simp_all add: steps_of_def)

lemma shadow_endpoint_witness:
  "\<exists>P p. shadowFactory_New (\<lambda>_. None) Some (defaultFactory_New leak_env) shadow_cfg = Made (Some P) None \<and>
     newStack leak_env plain_backend = Built p \<and>
     brings leak_env plain_backend (deref shadow_store shadow_request) (psRun shadow_run ! 0) =
       Some (for_caller (deref shadow_store shadow_request) (p (deref shadow_store shadow_request))) \<and>
     sent_body (psRun shadow_run ! 0) = Some ''body'' \<and> sent_body (psRun shadow_run ! 1) = Some ''q''"
proof -
  have run: "par_reach True Some (shadow_start Some (steps_of plain_backend) (steps_of (shadow_backend ''POST'')) shadow_request shadow_store) shadow_run"
    unfolding shadow_run_def by (rule schedule_reach)
  have "is_ret (backend_steps leak_env plain_backend)" "is_ret (backend_steps leak_env (shadow_backend ''POST''))" by code_simp+
  note steps = this [THEN steps_of_eq]
  have backends: "mset (ep_Backend shadow_cfg) = {#plain_backend, shadow_backend ''POST''#}" by (simp add: shadow_cfg_def)
  have marks: "\<not> shadowed plain_backend" "shadowed (shadow_backend ''POST'')" "bare_endpoint shadow_cfg"
    unfolding isShadowBackend_iff [symmetric, of _ "\<lambda>_. None"] by code_simp+
  have stepwise: "stepwise plain_backend" "stepwise (shadow_backend ''POST'')" by code_simp+
  have start: "wf_sreq shadow_store shadow_request"
    by (simp add: wf_sreq_def refs_def shadow_store_def shadow_request_def leak_store_def leak_request_def)
  have "\<not> list_ex adds_query (steps_of plain_backend)" "\<not> list_ex adds_query (steps_of (shadow_backend ''POST''))" by code_simp+
  then have quiet: "quiet (steps_of plain_backend) (steps_of (shadow_backend ''POST'')) shadow_request" by (simp add: quiet_def)
  have fin: "finished shadow_run" and bodies: "sent_body (psRun shadow_run ! 0) = Some ''body''" "sent_body (psRun shadow_run ! 1) = Some ''q''"
    by code_simp+
  from shadow_endpoint [OF backends marks stepwise(1) steps(1) stepwise(2) steps(2) start quiet run, of "\<lambda>_. None"] fin bodies
  show ?thesis by blast
qed

text \<open>
  The deep copy shares the query map: the operation of a shadow GraphQL backend that is sent as a query string can end up in
  the URL of the regular backend.
\<close>

lemma shadow_query_leak:
  "\<exists>s. par_reach True Some (shadow_start Some (steps_of plain_backend) (steps_of (shadow_backend ''GET'')) leak_request leak_store) s \<and>
     sent_query (psRun s ! 0) = Some ''query=q&variables=%7B%7D'' \<and>
     handed_query (value_steps (steps_of plain_backend) (deref leak_store leak_request)) = Some []"
proof (intro exI conjI)
  let ?s0 = "shadow_start Some (steps_of plain_backend) (steps_of (shadow_backend ''GET'')) leak_request leak_store"
  let ?whos = "[Some 1, Some 1, Some 1, Some 0, Some 0, Some 0]"
  show "par_reach True Some ?s0 (fold (advance True Some) ?whos ?s0)" by (rule schedule_reach)
  show "sent_query (psRun (fold (advance True Some) ?whos ?s0) ! 0) = Some ''query=q&variables=%7B%7D''" by code_simp
  show "handed_query (value_steps (steps_of plain_backend) (deref leak_store leak_request)) = Some []" by code_simp
qed

end
