(* ===== verification/Spec2Isabelle.thy ===== *)
theory Spec2Isabelle
  imports Encoding Formatter Contexts Async Sample_Plugins Logging Service_Run Gateway Gateway_Gin Gateway_Http_Sequence Shadow_Requests
begin

text \<open>
  Lura is the engine of an API gateway: from a declarative configuration it builds, for every
  endpoint, a chain of \<^emph>\<open>proxies\<close> that turn one request of a client into calls of one or more
  backends and merge what they answer, and mounts the chains on an HTTP router.  This development
  models the library's own logic; each theory follows the files it names, with the functions under
  their Go names (a prefix tells apart names that Go keeps apart by package).

  \<^bold>\<open>The parts and their theories\<close>

  \<^item> \<^bold>\<open>Groundwork.\<close> Prelude (Go maps as association lists whose order is the order a range loop
    visits them, panics as values of \<open>run\<close>, JSON values), Go_Strings (the functions of strings and
    textproto the code calls), Templates (literals with holes, and how replacing a hole acts on
    them), Url_Query (the encoding of query strings).
  \<^item> \<^bold>\<open>Configuration\<close> (\<open>config/\<close>). Config_Types holds the structs of config.go, Uri the host and path
    rules of uri.go, Config_Init the initialisation: \<open>Init\<close> either returns one of the code's errors
    or a configuration that satisfies \<open>valid_service\<close>.  Config_Parser is parser.go: the structs a file
    is read into, their normalisation, and the row and column of a parse error; what it shows is that
    of the fields of a configuration only \<open>SequentialStart\<close> and the service's \<open>AllowInsecureConnections\<close> are lost
    on the way (\<open>normalize_unparse\<close>, \<open>parser_drops_sequential_start\<close>), when the parser panics, and that the
    reported position is the place of the error.
  \<^item> \<^bold>\<open>Registers\<close> (\<open>register/\<close>, \<open>encoding/register.go\<close>, \<open>sd/register.go\<close>, \<open>proxy/register.go\<close>).
    Register models both registers and states their contract as the locale \<open>registry\<close>, which every
    later register interprets on its own operations.
  \<^item> \<^bold>\<open>Responses\<close> (\<open>encoding/\<close>, \<open>proxy/formatter.go\<close>). Encoding has the decoders, Formatter the
    allow list, deny list, target, mapping and group steps and the flatmap dispatcher.
  \<^item> \<^bold>\<open>Requests\<close> (\<open>proxy/request.go\<close>). Request has the path generation and the copies of a request;
    the bodies live on a heap of byte arrays, because a pooled buffer is shared by all copies.
  \<^item> \<^bold>\<open>Merging\<close> (\<open>proxy/merging.go\<close>). Merging has the configuration, the accumulator and the combiner;
    Parallel_Merge the parallel merger, once as a function of the order of arrivals and once as a
    step relation over goroutines and channels; Sequential_Merge the sequential merger on a store of
    shared maps and readers.  Sequential_Chain shows that its loop implements a chain of calls that knows no
    store: which backends are called, with what parameters, and what is made of their answers
    (\<open>sequential_merge_chain\<close>).
  \<^item> \<^bold>\<open>Shared requests.\<close> A Go request is a struct of references.  Sharing puts its maps and readers into a
    store and shows that the copies of a request and the steps of a backend's stack implement the
    functions on values of the other theories; Interference lets the stacks of an endpoint's backends
    take these steps in any order, with the loop that copies the request among them, and proves the
    invariant that keeps them apart; Parallel_Requests concludes that each backend is called as it
    would be alone, under conditions on the copies and the GraphQL backends, and shows runs outside
    them in which the request of one backend shows up in the call of another.  Shadow_Requests has the same for the
    goroutine of a shadow backend and the regular backend beside it: each is called as it would be alone when neither adds
    to the query map, which the copy shares, and the endpoint answers what the regular backend does.
  \<^item> \<^bold>\<open>Discovery and balancing\<close> (\<open>sd/\<close>, \<open>proxy/balancing.go\<close>). Balancer and Dns_Srv.
  \<^item> \<^bold>\<open>Middlewares\<close> (\<open>proxy/\<close>). Middlewares has the header and query filters, static data, logging,
    the request builder, balancing and shadowing; Concurrent the concurrent calls as function and as
    step relation; Graphql the GraphQL adapter; Plugins the plugin registers, loaders and chains,
    Plugin_Loaders the loaders of the three packages down to what a folder leaves in the registers, and
    Sample_Plugins the example plugins: what the loaders make of them and what they do in a chain.
  \<^item> \<^bold>\<open>Backend calls\<close> (\<open>proxy/http.go\<close>, \<open>proxy/http_response.go\<close>, \<open>transport/http/client/\<close>). Http_Proxy.
    Contexts has the detached context of a shadow call, and the reader that is closed when the context
    of a pass-through response is done, as a step relation.
  \<^item> \<^bold>\<open>Composition\<close> (\<open>proxy/factory.go\<close>, \<open>proxy/shadow.go\<close>). Factory builds the whole chain of an
    endpoint from the parts above in the order of the code.
  \<^item> \<^bold>\<open>Routers\<close> (\<open>router/\<close>). Router_Common is what all adapters share, Router_Mux the adapter on
    net/http: renders, request builder, endpoint handler, engine and registration.  Router_Gin is the
    adapter on gin: renders, handler, engine options, the check of path parameters, the catalogue of
    routes and the writer handed to gin.  Router_Adapters has the configurations of gorilla,
    httptreemux and negroni, which reuse the net/http router, and the router on chi; the locale
    \<open>route_engine\<close> is what they rely on, and shows that the routers register the same handlers.
  \<^item> \<^bold>\<open>Service\<close> (\<open>transport/http/server/server.go\<close>, \<open>async/\<close>, \<open>backoff/\<close>, \<open>logging/\<close>). Server has the TLS
    configuration, what is checked before listening, and the default transport; Async the start of
    the agents; Backoff the waiting times; Logging the levels.  Service_Run has the factories of
    the routers, the routers they make, and their \<open>Run\<close> methods with all they change.
  \<^item> \<^bold>\<open>The whole\<close>. Gateway follows a request from the file to the backends for the routers on net/http,
    with one backend and with several that are called at the same time; its theorems are below.
    Gateway_Sequence does so for backends called one after the other, where a backend is given values of
    the answer before it, and Gateway_Gin for one backend on gin.  Gateway_Http and Gateway_Http_Sequence put the
    HTTP client under both: they say when a client is told that its answer is complete, with the interceptor of the
    engines in front of the writer and without it.  What an answer of a backend delivers (\<open>http_delivers\<close>) is specified
    there from the status, the body and the encoding, apart from the code's parser.

  \<^bold>\<open>How the code is represented\<close>

  A proxy is a function from a request to a result \<open>pres\<close>: a response or nil, an error or nil and the
  request as the callee leaves it (Go passes it by pointer), or a panic.  A middleware takes the list
  of the next proxies and is built, refuses with the logger's fatal message, or panics.  Nil maps and
  pointers are options where the code tells them apart.  Durations are nanoseconds with the 64-bit
  wrap-around written out, counters and DNS weights are words.  The body of a backend's answer is what its reader
  yields: the bytes, and the error that breaks it off, if any; decoders and parsers take the reader.  Time, randomness, scheduling and
  expiry of contexts are arguments, so each theorem is about all of them.

  Third-party code and the parts of the standard library that only pass data through (JSON encoding,
  url.Parse, net.ParseIP, title casing, the flatmap tree, the HTTP client, DNS lookups, the dynamic
  linker, certificates, the pattern matching of the routers) are parameters, mostly fields of
  environment records.  gin is a record of the methods of its context (\<open>gin\<close>), with their effect on
  response headers as the law \<open>gin_headers\<close>.

  \<^bold>\<open>Bounds and termination\<close>

  All functions are total.  No step relation needs fuel: the measures of the three that must end bound each
  run by \<open>2 n + 1\<close> steps (parallel merge of n backends), \<open>3 n + 3\<close> steps (n concurrent calls), and two steps
  per backend and one per middleware (stacks on shared requests).

  \<^bold>\<open>Not modelled\<close>

  The read error of a body that is passed through or cloned, which is the bytes its reader yields;
  more than one regular and one shadow backend on the shared store (on values Factory has any number);
  where log lines go and the log calls of the other components; the values of contexts; mutexes and
  \<open>sync.Once\<close>, whose operations are atomic steps here; the writes of \<open>RunServer\<close> and of the
  transport's initialisation into the caller's configuration; that the body a callee has read through a
  request struct of its own is used up for its caller too (Sharing has it); the value slices of headers and
  queries, which are values here although copies may share their arrays; a middleware of a stack is one
  step, so that within it the accesses to a map are not split; package comments.
\<close>

text \<open>
  C1: the gateway end to end: when a file is parsed and its endpoints are registered on any engine,
  an endpoint with one backend answers its path and method with what its backend's own proxy answers;
  that proxy is called with the backend's method and generated path, the client's body, of the
  client's headers and query parameters exactly those that both the endpoint and the backend list,
  and the query that the backend's path fixes.
\<close>

theorem gateway_end_to_end:
  assumes parsed: "Parse penv f = Ret (Inr s)"
    and run: "route_engine handle lookup" "adapter_Run handle (defaultFactory_New fenv)
        (CustomEndpointHandler marshal reg shp don extract) mc debugH echoH s e0 = Ret e"
    and route: "sc_Endpoints s = cs @ c # ds" "to_upper (ep_Method c) \<in> set router_methods"
        "endpoint_key c \<notin> endpoint_key ` set ds"
    and backend: "bare_endpoint c" "ep_Backend c = [b]" "filtered_backend b"
    and lists: "requestParamsAsterisk \<notin> set (endpoint_headers c)" "requestParamsAsterisk \<notin> set (ep_QueryString c)"
    and client: "hiMethod r = to_upper (ep_Method c)"
        "req = NewRequestBuilder shp extract r (ep_QueryString c) (endpoint_headers c)"
    and host: "fe_host fenv b = Ret (Inr h)" "fe_parse_url fenv (h @ rPath (GeneratePath (be_URLPattern b) req)) = Inr u"
  shows "\<exists>h q. lookup e (ep_Endpoint c, hiMethod r) = Some h \<and>
    (\<forall>w. h r w = answered marshal reg don c (fe_backendFactory fenv b q) w) \<and>
    rMethod q = be_Method b \<and> rBody q = hiBody r \<and> rPath q = rPath (GeneratePath (be_URLPattern b) req) \<and>
    (\<forall>k. \<not> router_header k \<longrightarrow>
       map_of (entries (rHeaders q)) k = (if header_passed c b k then map_of (hiHeader r) k else None)) \<and>
    (\<forall>k. k \<notin> set (be_HeadersToPass b) \<longrightarrow> map_of (entries (rHeaders q)) k = None) \<and>
    (\<exists>u'. rURL q = Some u' \<and> uBase u' = uBase u \<and>
       (\<forall>k. values_of (ParseQuery (uRawQuery u')) k = values_of (ParseQuery (uRawQuery u)) k @
          (if query_passed c b k then values_of (ParseQuery (hiRawQuery r)) k else [])))"
proof -
  have valid: "valid_service (pe_cfg penv) s" by (rule parsed_valid [OF parsed])
  have c: "c \<in> set (sc_Endpoints s)" by (simp add: route(1))
  have conc: "be_ConcurrentCalls b \<le> 1"
    using valid_concurrency [OF valid c] backend by (simp add: bare_endpoint_def)
  from backend_called [OF backend(1-3) conc lists valid_headers [OF valid c] client(2) [unfolded NewRequestBuilder_def] host]
  obtain p q where p: "defaultFactory_New fenv c = Made (Some p) None"
    and call: "\<forall>r0. for_caller r0 (p req) = for_caller r0 (fe_backendFactory fenv b q)"
    and q: "rMethod q = be_Method b" "rBody q = hiBody r" "rPath q = rPath (GeneratePath (be_URLPattern b) req)"
      "\<forall>k. \<not> router_header k \<longrightarrow>
         map_of (entries (rHeaders q)) k = (if header_passed c b k then map_of (hiHeader r) k else None)"
      "\<forall>k. k \<notin> set (be_HeadersToPass b) \<longrightarrow> map_of (entries (rHeaders q)) k = None"
      "\<exists>u'. rURL q = Some u' \<and> uBase u' = uBase u \<and>
         (\<forall>k. values_of (ParseQuery (uRawQuery u')) k = values_of (ParseQuery (uRawQuery u)) k @
            (if query_passed c b k then values_of (ParseQuery (hiRawQuery r)) k else []))"
    unfolding client_call_def by blast
  have "lookup e (endpoint_key c) = Some (CustomEndpointHandler marshal reg shp don extract c p)"
    by (rule run_reaches [OF run route(1) p route(2,3)])
  moreover have "CustomEndpointHandler marshal reg shp don extract c p r w =
      answered marshal reg don c (fe_backendFactory fenv b q) w" for w
    by (rule handler_answers) (use client call in simp_all)
  ultimately show ?thesis
    using client(1) q
    by (intro exI [of _ "CustomEndpointHandler marshal reg shp don extract c p"] exI [of _ q]) (simp add: endpoint_key_def)
qed

lemma gateway_end_to_end_witness:
  "\<exists>s e h q. Parse gateway_parser ''k.json'' = Ret (Inr s) \<and>
     adapter_Run (\<lambda>p m h e. Ret (engine_Handle e p m h)) (defaultFactory_New sample_fenv)
       (CustomEndpointHandler (\<lambda>v. Inr ''js'') [] (\<lambda>_. None) False NoopParamExtractor) mux_DefaultFactory HealthHandler HealthHandler
       s DefaultEngine = Ret e \<and>
     engine_lookup e (''/users'', ''GET'') = Some h \<and>
     (\<exists>c b. \<forall>w. h gateway_client w = answered (\<lambda>v. Inr ''js'') [] False c (fe_backendFactory sample_fenv b q) w) \<and>
     map_of (entries (rHeaders q)) ''X-Token'' = Some [''t''] \<and> map_of (entries (rHeaders q)) ''Cookie'' = None \<and>
     rPath q = ''/u''"
proof -
  let ?handle = "\<lambda>p m h e. Ret (engine_Handle e p m h)"
  let ?hf = "CustomEndpointHandler (\<lambda>v. Inr ''js'') [] (\<lambda>_. None) False NoopParamExtractor"
  obtain s c b where s: "Parse gateway_parser ''k.json'' = Ret (Inr s)" "\<not> sc_Debug s" "\<not> sc_Echo s" "sc_Endpoints s = [c]"
    and c: "ep_Backend c = [b]" "bare_endpoint c" "ep_Endpoint c = ''/users''" "to_upper (ep_Method c) = ''GET''"
      "ep_QueryString c = [''q'', ''page'']" "ep_HeadersToPass c = [''X-Token'', ''Cookie'']"
    and b: "filtered_backend b" "be_HeadersToPass b = [''X-Token'']" "be_URLPattern b = ''/u''"
    by (rule gateway_parses) blast
  have conc: "be_ConcurrentCalls b \<le> 1"
    using valid_concurrency [OF parsed_valid [OF s(1)]] s(4) c(1,2) by (simp add: bare_endpoint_def)
  have route: "sc_Endpoints s = [] @ c # []" using s by simp
  have m: "to_upper (ep_Method c) \<in> set router_methods" by (simp add: c router_methods_def)
  have eh: "endpoint_headers c = [''X-Token'', ''Cookie'']" by (simp add: endpoint_headers_def c)
  let ?req = "NewRequestBuilder (\<lambda>_. None) NoopParamExtractor gateway_client (ep_QueryString c) (endpoint_headers c)"
  have path: "rPath (GeneratePath (be_URLPattern b) (NewRequestBuilder (\<lambda>_. None) NoopParamExtractor gateway_client qs hs)) = ''/u''" for qs hs
    by (simp add: GeneratePath_def NewRequestBuilder_def NoopParamExtractor_def request_from_def b)
  have get: "hiMethod gateway_client = ''GET''" by (simp add: gateway_client_def)
  obtain e where e: "adapter_Run ?handle (defaultFactory_New sample_fenv) ?hf mux_DefaultFactory HealthHandler HealthHandler s DefaultEngine = Ret e"
    using filtered_built [OF c(2,1) b(1) conc] run_built [OF s(4) _ s(2,3)] by blast
  have "\<exists>h q. engine_lookup e (ep_Endpoint c, hiMethod gateway_client) = Some h \<and>
    (\<forall>w. h gateway_client w = answered (\<lambda>v. Inr ''js'') [] False c (fe_backendFactory sample_fenv b q) w) \<and>
    rMethod q = be_Method b \<and> rBody q = hiBody gateway_client \<and> rPath q = rPath (GeneratePath (be_URLPattern b) ?req) \<and>
    (\<forall>k. \<not> router_header k \<longrightarrow>
       map_of (entries (rHeaders q)) k = (if header_passed c b k then map_of (hiHeader gateway_client) k else None)) \<and>
    (\<forall>k. k \<notin> set (be_HeadersToPass b) \<longrightarrow> map_of (entries (rHeaders q)) k = None) \<and>
    (\<exists>u'. rURL q = Some u' \<and> uBase u' = uBase \<lparr>uBase = ''http://h/u'', uRawQuery = []\<rparr> \<and>
       (\<forall>k. values_of (ParseQuery (uRawQuery u')) k = values_of (ParseQuery (uRawQuery \<lparr>uBase = ''http://h/u'', uRawQuery = []\<rparr>)) k @
          (if query_passed c b k then values_of (ParseQuery (hiRawQuery gateway_client)) k else [])))"
    by (rule gateway_end_to_end [OF s(1) basic_engine.route_engine_axioms e route m _ c(2,1) b(1), where h = "''http://h''"])
      (simp_all add: requestParamsAsterisk_def eh c path get sample_fenv_def)
  then obtain h q where hq: "engine_lookup e (''/users'', ''GET'') = Some h"
      "\<forall>w. h gateway_client w = answered (\<lambda>v. Inr ''js'') [] False c (fe_backendFactory sample_fenv b q) w"
      "rPath q = ''/u''"
      "\<forall>k. \<not> router_header k \<longrightarrow>
       map_of (entries (rHeaders q)) k = (if header_passed c b k then map_of (hiHeader gateway_client) k else None)"
    unfolding path c(3) by (auto simp: gateway_client_def)
  then have "map_of (entries (rHeaders q)) ''X-Token'' = Some [''t'']" "map_of (entries (rHeaders q)) ''Cookie'' = None"
    by (simp_all add: router_header_def header_passed_def eh b gateway_client_def)
  with hq s(1) e show ?thesis by blast
qed

text \<open>
  C3: the gateway end to end for an endpoint with several backends that are called at the same time: it
  answers its path and method with one merge of all its backends' answers, each heard once in some order,
  and every backend is called with its own method, path and URL and with what the lists let through to it.  Shallow
  copies share the reader of the body (\<open>isolating\<close>), so with them the client sends none.
\<close>

theorem gateway_merges:
  assumes parsed: "Parse penv f = Ret (Inr s)"
    and run: "route_engine handle lookup" "adapter_Run handle (defaultFactory_New fenv)
        (CustomEndpointHandler marshal reg shp don extract) mc debugH echoH s e0 = Ret e"
    and route: "sc_Endpoints s = cs @ c # ds" "to_upper (ep_Method c) \<in> set router_methods"
        "endpoint_key c \<notin> endpoint_key ` set ds"
    and merged: "merged_endpoint fenv c" "\<forall>b \<in> set (ep_Backend c). filtered_backend b"
        "me_mergers (fe_merge fenv) = mergers seq (parallelMerge ctxErr order (\<lambda>_. False))" "\<And>n. mset (order n) = mset [0..<n]"
    and lists: "requestParamsAsterisk \<notin> set (endpoint_headers c)" "requestParamsAsterisk \<notin> set (ep_QueryString c)"
    and client: "hiMethod r = to_upper (ep_Method c)" "wf_map (extract r)"
        "req = NewRequestBuilder shp extract r (ep_QueryString c) (endpoint_headers c)"
    and body: "hiBody r = None \<or> hasUnsafeBackends c \<or> forceDeepClone c"
    and host: "\<forall>b \<in> set (ep_Backend c). fe_host fenv b = Ret (Inr (h b)) \<and>
        fe_parse_url fenv (h b @ rPath (GeneratePath (be_URLPattern b) req)) = Inr (u b)"
    and calm: "\<forall>b \<in> set (ep_Backend c). \<forall>q. rURL q \<noteq> None \<longrightarrow> answering (fe_backendFactory fenv b q)"
  shows "\<exists>g q ocs resp. lookup e (ep_Endpoint c, hiMethod r) = Some g \<and>
    (\<forall>b \<in> set (ep_Backend c). client_call c b r req (u b) (q b)) \<and>
    mset ocs = mset (map (\<lambda>b. part_of (fe_backendFactory fenv b (q b))) (ep_Backend c)) \<and> merges resp ocs \<and>
    (\<forall>w. g r w = answered marshal reg don c (PRet resp (newMergeError (errs ocs)) req) w)"
proof -
  obtain p q ocs resp where p: "defaultFactory_New fenv c = Made (Some p) None" "p req = PRet resp (newMergeError (errs ocs)) req"
    and calls: "\<forall>b \<in> set (ep_Backend c). client_call c b r req (u b) (q b)"
    and ocs: "mset ocs = mset (map (\<lambda>b. part_of (fe_backendFactory fenv b (q b))) (ep_Backend c))" "merges resp ocs"
    by (rule merged_call [OF parsed_valid [OF parsed] _ merged lists client(2,3) host calm]) (simp add: route(1))
  have "lookup e (endpoint_key c) = Some (CustomEndpointHandler marshal reg shp don extract c p)"
    by (rule run_reaches [OF run route(1) p(1) route(2,3)])
  moreover have "CustomEndpointHandler marshal reg shp don extract c p r w =
      answered marshal reg don c (PRet resp (newMergeError (errs ocs)) req) w" for w
    by (rule handler_answers) (use client p(2) in simp_all)
  ultimately show ?thesis
    using calls ocs client(1)
    by (intro exI [of _ "CustomEndpointHandler marshal reg shp don extract c p"] exI [of _ q] exI [of _ ocs] exI [of _ resp])
      (simp add: endpoint_key_def)
qed

lemma gateway_merges_witness:
  "\<exists>s e g c b1 b2 q ocs resp. Parse merged_parser ''k.json'' = Ret (Inr s) \<and>
     adapter_Run (\<lambda>p m h e. Ret (engine_Handle e p m h)) (defaultFactory_New merged_fenv)
       (CustomEndpointHandler (\<lambda>v. Inr ''js'') [] (\<lambda>_. None) False NoopParamExtractor) mux_DefaultFactory HealthHandler HealthHandler
       s DefaultEngine = Ret e \<and>
     engine_lookup e (''/users'', ''GET'') = Some g \<and>
     (\<forall>w. g gateway_client w = answered (\<lambda>v. Inr ''js'') [] False c (PRet resp (newMergeError (errs ocs))
       (NewRequestBuilder (\<lambda>_. None) NoopParamExtractor gateway_client [''q''] [''X-Token''])) w) \<and>
     mset ocs = {#part_of (fe_backendFactory merged_fenv b1 (q b1)), part_of (fe_backendFactory merged_fenv b2 (q b2))#} \<and>
     rPath (q b1) = ''/u'' \<and> rPath (q b2) = ''/v'' \<and>
     map_of (entries (rHeaders (q b1))) ''X-Token'' = Some [''t''] \<and> map_of (entries (rHeaders (q b2))) ''X-Token'' = None"
proof -
  let ?handle = "\<lambda>p m h e. Ret (engine_Handle e p m h)"
  let ?hf = "CustomEndpointHandler (\<lambda>v. Inr ''js'') [] (\<lambda>_. None) False NoopParamExtractor"
  let ?u = "\<lambda>b. \<lparr>uBase = ''http://h'' @ be_URLPattern b, uRawQuery = []\<rparr>"
  obtain s c b1 b2 where s: "Parse merged_parser ''k.json'' = Ret (Inr s)" "\<not> sc_Debug s" "\<not> sc_Echo s" "sc_Endpoints s = [c]"
    and c: "ep_Backend c = [b1, b2]" "merged_endpoint merged_fenv c" "ep_Endpoint c = ''/users''" "to_upper (ep_Method c) = ''GET''"
      "ep_QueryString c = [''q'']" "ep_HeadersToPass c = [''X-Token'']"
    and b: "filtered_backend b1" "filtered_backend b2" "be_URLPattern b1 = ''/u''" "be_URLPattern b2 = ''/v''"
      "be_HeadersToPass b1 = [''X-Token'']" "be_HeadersToPass b2 = [''Cookie'']"
    by (rule merged_parses) blast
  have fb: "\<forall>b \<in> set (ep_Backend c). filtered_backend b" by (simp add: c(1) b)
  have "ep_ConcurrentCalls c \<le> 1" using c(2) by (simp add: merged_endpoint_def bare_endpoint_def)
  then have conc: "\<forall>b \<in> set (ep_Backend c). filtered_backend b \<and> be_ConcurrentCalls b \<le> 1"
    using fb valid_concurrency [OF parsed_valid [OF s(1)]] s(4) by simp
  have route: "sc_Endpoints s = [] @ c # []" using s by simp
  have m: "to_upper (ep_Method c) \<in> set router_methods" by (simp add: c router_methods_def)
  have eh: "endpoint_headers c = [''X-Token'']" by (simp add: endpoint_headers_def c)
  have path: "rPath (GeneratePath p (NewRequestBuilder (\<lambda>_. None) NoopParamExtractor gateway_client qs hs)) = p" for p qs hs
    by (simp add: GeneratePath_def NewRequestBuilder_def NoopParamExtractor_def request_from_def)
  have get: "hiMethod gateway_client = ''GET''" and nobody: "hiBody gateway_client = None" by (simp_all add: gateway_client_def)
  have mg: "me_mergers (fe_merge merged_fenv) =
      mergers (\<lambda>repls cl t rc fs ps r. PRet None None r) (parallelMerge (ECtx []) (\<lambda>n. rev [0..<n]) (\<lambda>_. False))"
    by (simp add: merged_fenv_def)
  obtain e where e: "adapter_Run ?handle (defaultFactory_New merged_fenv) ?hf mux_DefaultFactory HealthHandler HealthHandler s DefaultEngine = Ret e"
    using merged_built [OF c(2) conc mg] run_built [OF s(4) _ s(2,3)] by blast
  have "\<exists>g q ocs resp. engine_lookup e (ep_Endpoint c, hiMethod gateway_client) = Some g \<and>
    (\<forall>b \<in> set (ep_Backend c). client_call c b gateway_client
       (NewRequestBuilder (\<lambda>_. None) NoopParamExtractor gateway_client (ep_QueryString c) (endpoint_headers c)) (?u b) (q b)) \<and>
    mset ocs = mset (map (\<lambda>b. part_of (fe_backendFactory merged_fenv b (q b))) (ep_Backend c)) \<and> merges resp ocs \<and>
    (\<forall>w. g gateway_client w = answered (\<lambda>v. Inr ''js'') [] False c (PRet resp (newMergeError (errs ocs))
       (NewRequestBuilder (\<lambda>_. None) NoopParamExtractor gateway_client (ep_QueryString c) (endpoint_headers c))) w)"
    by (rule gateway_merges [OF s(1) basic_engine.route_engine_axioms e route m _ c(2) fb mg, where h = "\<lambda>_. ''http://h''"])
      (simp_all add: requestParamsAsterisk_def eh c path get merged_fenv_def sample_fenv_def answering_def NoopParamExtractor_def
        new_response_def nobody)
  then obtain g q ocs resp where g: "engine_lookup e (''/users'', ''GET'') = Some g"
    and q: "client_call c b1 gateway_client (NewRequestBuilder (\<lambda>_. None) NoopParamExtractor gateway_client [''q''] [''X-Token'']) (?u b1) (q b1)"
      "client_call c b2 gateway_client (NewRequestBuilder (\<lambda>_. None) NoopParamExtractor gateway_client [''q''] [''X-Token'']) (?u b2) (q b2)"
    and ocs: "mset ocs = {#part_of (fe_backendFactory merged_fenv b1 (q b1)), part_of (fe_backendFactory merged_fenv b2 (q b2))#}"
    and w: "\<forall>w. g gateway_client w = answered (\<lambda>v. Inr ''js'') [] False c (PRet resp (newMergeError (errs ocs))
       (NewRequestBuilder (\<lambda>_. None) NoopParamExtractor gateway_client [''q''] [''X-Token''])) w"
    by (auto simp: c eh get)
  have "rPath (q b1) = ''/u'' \<and> rPath (q b2) = ''/v''"
    using q by (simp add: client_call_def path b)
  moreover have "map_of (entries (rHeaders (q b1))) ''X-Token'' = Some [''t'']"
    using q(1) by (simp add: client_call_def router_header_def header_passed_def eh b gateway_client_def)
  moreover have "map_of (entries (rHeaders (q b2))) ''X-Token'' = None"
    using q(2) by (simp add: client_call_def router_header_def header_passed_def eh b gateway_client_def)
  ultimately show ?thesis using s(1) e g ocs w by blast
qed

end
